(* ===== verification/Fluxlit_Prelude.thy ===== *)
theory Fluxlit_Prelude
  imports Complex_Main "HOL-Library.AList"
begin

section \<open>Shared types, Python string operations and dictionary lemmas\<close>

text \<open>
  This theory holds what every component of the FluxLit model shares.

  \<^item> A Python \<open>str\<close> is a list of code points (\<open>pystr\<close>), a Python \<open>bytes\<close> a list of
    8-bit characters (\<open>bytes\<close>); \<open>latin1_decode\<close> and \<open>latin1_encode\<close> convert between the
    two, and encoding fails on a code point above 255 as \<open>str.encode("latin-1")\<close> does.
    A literal is written \<open>u ''text''\<close>.
  \<^item> \<open>strip\<close>, \<open>rstrip\<close>, \<open>startswith\<close>, \<open>lower\<close>, \<open>upper\<close>, \<open>isdigit\<close>, \<open>int\<close> and \<open>str\<close> are
    the methods of the standard library that the code uses. \<open>strip\<close> is exact on all code
    points; \<open>lower\<close>, \<open>upper\<close> and \<open>isdigit\<close> are exact on code points below 256 (all header
    text is decoded from Latin-1) and leave others alone.
  \<^item> A \<open>dict\<close> keeps insertion order, so it is an association list with \<open>AList.update\<close>
    (replace in place or append) and \<open>AList.delete\<close>.
  \<^item> An exception is a value of \<open>exc\<close>; a fallible function returns \<open>exc + 'a\<close>.
  \<^item> Clock readings, timeouts and time-to-live values (Python floats) are \<open>real\<close>.
\<close>

named_theorems pystr_eval \<open>equations that evaluate string operations on literals\<close>
named_theorems pystr_run \<open>recursive equations for literals only: they loop on variables\<close>
named_theorems env_simps \<open>field lookups of environments and scopes\<close>

type_synonym pystr = "nat list"
type_synonym bytes = "char list"
type_synonym 'a dict = "(pystr \<times> 'a) list"
type_synonym headers = "(bytes \<times> bytes) list"

datatype exc =
    ValueError
  | TypeError
  | RuntimeError
  | AttributeError
  | AssertionError
  | KeyError
  | UnicodeEncodeError
  | TimeoutError
  | OSError
  | ModuleNotFoundError
  | ValidationError
  | HTTPException nat pystr
  | OtherError pystr

text \<open>A decoded JSON value; an object keeps the order of its members.\<close>

datatype json =
    JNull
  | JBool bool
  | JInt int
  | JFloat real
  | JStr pystr
  | JArr "json list"
  | JObj "(pystr \<times> json) list"

subsection \<open>Literals\<close>

primrec u :: "string \<Rightarrow> pystr" where
  "u [] = []"
| "u (c # cs) = of_char c # u cs"

lemma u_eq_iff [simp]: "u s = u t \<longleftrightarrow> s = t"
proof (induction s arbitrary: t)
  case Nil
  then show ?case by (cases t) auto
next
  case (Cons c s)
  then show ?case by (cases t) auto
qed

lemma u_append: "u (s @ t) = u s @ u t"
  by (induction s) auto

lemma u_eq_Nil_iff [simp]: "u s = [] \<longleftrightarrow> s = []"
  by (cases s) auto

lemma Nil_eq_u_iff [simp]: "[] = u s \<longleftrightarrow> s = []"
  by (cases s) auto

lemma length_u [simp]: "length (u s) = length s"
  by (induction s) auto

lemma u_conv_map: "u s = map of_char s"
  by (induction s) auto

declare u.simps(2) [simp del]
declare u.simps [pystr_eval]

subsection \<open>Bytes and Latin-1\<close>

definition latin1_decode :: "bytes \<Rightarrow> pystr" where
  "latin1_decode b = map of_char b"

definition latin1_encode :: "pystr \<Rightarrow> exc + bytes" where
  "latin1_encode s =
     (if \<forall>c \<in> set s. c < 256 then Inr (map char_of s) else Inl UnicodeEncodeError)"

definition ascii_encode :: "pystr \<Rightarrow> exc + bytes" where
  "ascii_encode s =
     (if \<forall>c \<in> set s. c < 128 then Inr (map char_of s) else Inl UnicodeEncodeError)"

lemma latin1_encode_decode [simp]: "latin1_encode (latin1_decode b) = Inr b"
  by (auto simp: latin1_encode_def latin1_decode_def o_def intro: map_idI)

lemma latin1_decode_encode: "latin1_encode s = Inr b \<Longrightarrow> latin1_decode b = s"
  by (auto simp: latin1_encode_def latin1_decode_def o_def intro!: map_idI split: if_splits)

lemma latin1_encode_fails_iff: "latin1_encode s = Inl e \<longleftrightarrow> e = UnicodeEncodeError \<and> (\<exists>c \<in> set s. 255 < c)"
proof -
  have "255 < c \<longleftrightarrow> \<not> c < 256" for c :: nat by arith
  then show ?thesis by (simp add: latin1_encode_def) blast
qed

lemma latin1_decode_eq_iff [simp]: "latin1_decode a = latin1_decode b \<longleftrightarrow> a = b"
  by (metis Inr_inject latin1_encode_decode)

lemma latin1_decode_eq_u_iff [simp]: "latin1_decode b = u s \<longleftrightarrow> b = s"
  using latin1_decode_eq_iff [of b s] by (simp add: u_conv_map latin1_decode_def)

lemma latin1_encode_u [simp]: "latin1_encode (u s) = Inr s"
  by (metis latin1_decode_eq_u_iff latin1_encode_decode)

lemma latin1_decode_bound: "c \<in> set (latin1_decode b) \<Longrightarrow> c < 256"
  by (auto simp: latin1_decode_def of_char_of)


lemma latin1_encode_Inr_iff: "(\<exists>b. latin1_encode s = Inr b) \<longleftrightarrow> (\<forall>c \<in> set s. c < 256)"
  by (simp add: latin1_encode_def)

lemma ascii_encode_Inr_iff: "(\<exists>b. ascii_encode s = Inr b) \<longleftrightarrow> (\<forall>c \<in> set s. c < 128)"
  by (simp add: ascii_encode_def)

subsection \<open>Stripping, prefixes, case\<close>

definition is_space :: "nat \<Rightarrow> bool" where
  "is_space c \<longleftrightarrow> (9 \<le> c \<and> c \<le> 13) \<or> (28 \<le> c \<and> c \<le> 32) \<or> c = 133 \<or> c = 160 \<or> c = 5760
     \<or> (8192 \<le> c \<and> c \<le> 8202) \<or> c = 8232 \<or> c = 8233 \<or> c = 8239 \<or> c = 8287 \<or> c = 12288"

definition lstrip_by :: "(nat \<Rightarrow> bool) \<Rightarrow> pystr \<Rightarrow> pystr" where
  "lstrip_by P s = dropWhile P s"

definition rstrip_by :: "(nat \<Rightarrow> bool) \<Rightarrow> pystr \<Rightarrow> pystr" where
  "rstrip_by P s = rev (dropWhile P (rev s))"

definition strip_by :: "(nat \<Rightarrow> bool) \<Rightarrow> pystr \<Rightarrow> pystr" where
  "strip_by P s = rstrip_by P (lstrip_by P s)"

definition strip :: "pystr \<Rightarrow> pystr" where
  "strip s = strip_by is_space s"

abbreviation slash :: nat where "slash \<equiv> 47"

definition rstrip_slash :: "pystr \<Rightarrow> pystr" where
  "rstrip_slash s = rstrip_by (\<lambda>c. c = slash) s"

definition strip_slash :: "pystr \<Rightarrow> pystr" where
  "strip_slash s = strip_by (\<lambda>c. c = slash) s"

definition startswith :: "pystr \<Rightarrow> pystr \<Rightarrow> bool" where
  "startswith s p \<longleftrightarrow> take (length p) s = p"

definition removeprefix :: "pystr \<Rightarrow> pystr \<Rightarrow> pystr" where
  "removeprefix s p = (if startswith s p then drop (length p) s else s)"

fun contains :: "pystr \<Rightarrow> pystr \<Rightarrow> bool" where
  "contains [] p = (p = [])"
| "contains (c # s) p = (startswith (c # s) p \<or> contains s p)"

definition lower_cp :: "nat \<Rightarrow> nat" where
  "lower_cp c = (if (65 \<le> c \<and> c \<le> 90) \<or> (192 \<le> c \<and> c \<le> 222 \<and> c \<noteq> 215) then c + 32 else c)"

definition lower :: "pystr \<Rightarrow> pystr" where
  "lower s = map lower_cp s"

definition upper_cp :: "nat \<Rightarrow> pystr" where
  "upper_cp c =
     (if (97 \<le> c \<and> c \<le> 122) \<or> (224 \<le> c \<and> c \<le> 254 \<and> c \<noteq> 247) then [c - 32]
      else if c = 181 then [924] else if c = 223 then [83, 83] else if c = 255 then [376] else [c])"

definition upper :: "pystr \<Rightarrow> pystr" where
  "upper s = concat (map upper_cp s)"

definition lower_char :: "char \<Rightarrow> char" where
  "lower_char c =
     (if 65 \<le> (of_char c :: nat) \<and> (of_char c :: nat) \<le> 90
      then (case c of Char b0 b1 b2 b3 b4 b5 b6 b7 \<Rightarrow> Char b0 b1 b2 b3 b4 True b6 b7) else c)"

definition bytes_lower :: "bytes \<Rightarrow> bytes" where
  "bytes_lower b = map lower_char b"

text \<open>The first non-empty operand, Python's \<open>a or b\<close> on strings.\<close>

definition or_str :: "pystr \<Rightarrow> pystr \<Rightarrow> pystr" where
  "or_str a b = (if a \<noteq> [] then a else b)"

text \<open>\<open>"/" + s\<close> unless \<open>s\<close> starts with a slash already: an idiom of the code.\<close>

definition lead_slash :: "pystr \<Rightarrow> pystr" where
  "lead_slash s = (if startswith s [slash] then s else slash # s)"

lemma startswith_iff: "startswith s p \<longleftrightarrow> (\<exists>r. s = p @ r)"
  by (metis append_eq_conv_conj append_take_drop_id startswith_def)

lemma startswith_append [simp]: "startswith (p @ r) p"
  by (simp add: startswith_def)

lemma startswith_Nil [simp]: "startswith s []"
  by (simp add: startswith_def)

lemma startswith_Cons [simp]: "startswith (c # s) (d # p) \<longleftrightarrow> c = d \<and> startswith s p"
  by (simp add: startswith_def)

lemma startswith_empty [simp]: "startswith [] p \<longleftrightarrow> p = []"
  by (auto simp: startswith_def)

lemma startswith_refl [simp]: "startswith s s"
  by (simp add: startswith_def)

lemma startswith_append_cancel [simp]: "startswith (p @ s) (p @ q) \<longleftrightarrow> startswith s q"
  by (auto simp: startswith_iff)

lemma removeprefix_append [simp]: "removeprefix (p @ r) p = r"
  by (simp add: removeprefix_def)

lemma lead_slash_starts [simp]: "startswith (lead_slash s) [slash]"
  by (simp add: lead_slash_def)

lemma lead_slash_id [simp]: "lead_slash (slash # s) = slash # s"
  by (simp add: lead_slash_def)

lemma lead_slash_nonempty [simp]: "lead_slash s \<noteq> []"
  by (auto simp: lead_slash_def)

lemma of_char_lower_char:
  "of_char (lower_char c) =
     (if 65 \<le> (of_char c :: nat) \<and> (of_char c :: nat) \<le> 90 then of_char c + 32 else of_char c :: nat)"
proof (cases c)
  case (Char b0 b1 b2 b3 b4 b5 b6 b7)
  show ?thesis
    unfolding Char
    by (cases b0; cases b1; cases b2; cases b3; cases b4; cases b5; cases b6; cases b7; simp add: lower_char_def)
qed

lemma lower_append: "lower (s @ t) = lower s @ lower t"
  by (simp add: lower_def)

lemma lower_cp_idem [simp]: "lower_cp (lower_cp c) = lower_cp c"
  by (auto simp: lower_cp_def)

lemma lower_lower [simp]: "lower (lower s) = lower s"
  by (simp add: lower_def)

lemma length_lower [simp]: "length (lower s) = length s"
  by (simp add: lower_def)

lemma lower_eq_Nil_iff [simp]: "lower s = [] \<longleftrightarrow> s = []"
  by (simp add: lower_def)

lemma rstrip_by_decomp: "\<exists>t. s = rstrip_by P s @ t \<and> (\<forall>c \<in> set t. P c)"
proof -
  have "s = rev (dropWhile P (rev s)) @ rev (takeWhile P (rev s))"
    by (metis rev_append rev_rev_ident takeWhile_dropWhile_id)
  moreover have "\<forall>c \<in> set (rev (takeWhile P (rev s))). P c"
    by (auto dest: set_takeWhileD)
  ultimately show ?thesis by (auto simp: rstrip_by_def)
qed

lemma rstrip_by_last: "rstrip_by P s \<noteq> [] \<Longrightarrow> \<not> P (last (rstrip_by P s))"
  by (simp add: rstrip_by_def last_rev hd_dropWhile)

lemma rstrip_by_id: "s = [] \<or> \<not> P (last s) \<Longrightarrow> rstrip_by P s = s"
  by (cases s rule: rev_cases) (auto simp: rstrip_by_def)

lemma rstrip_by_idem [simp]: "rstrip_by P (rstrip_by P s) = rstrip_by P s"
  using rstrip_by_id rstrip_by_last by blast

lemma rstrip_by_snoc: "P c \<Longrightarrow> rstrip_by P (s @ [c]) = rstrip_by P s"
  by (simp add: rstrip_by_def)

lemma rstrip_by_append_all: "\<forall>c \<in> set t. P c \<Longrightarrow> rstrip_by P (s @ t) = rstrip_by P s"
proof (induction t rule: rev_induct)
  case Nil
  then show ?case by simp
next
  case (snoc c t)
  then have "rstrip_by P ((s @ t) @ [c]) = rstrip_by P (s @ t)" by (intro rstrip_by_snoc) simp
  with snoc show ?case by simp
qed

lemma rstrip_by_append: "rstrip_by P t \<noteq> [] \<Longrightarrow> rstrip_by P (s @ t) = s @ rstrip_by P t"
proof -
  assume ne: "rstrip_by P t \<noteq> []"
  obtain w where w: "t = rstrip_by P t @ w" "\<forall>c \<in> set w. P c" using rstrip_by_decomp by blast
  have "rstrip_by P (s @ t) = rstrip_by P ((s @ rstrip_by P t) @ w)" by (metis append.assoc w(1))
  also have "\<dots> = rstrip_by P (s @ rstrip_by P t)" using w(2) by (rule rstrip_by_append_all)
  also have "\<dots> = s @ rstrip_by P t" using ne rstrip_by_last [OF ne] by (intro rstrip_by_id) simp
  finally show ?thesis .
qed

lemma rstrip_by_set: "set (rstrip_by P s) \<subseteq> set s"
  by (auto simp: rstrip_by_def dest: set_dropWhileD)

lemma lstrip_by_set: "set (lstrip_by P s) \<subseteq> set s"
  by (auto simp: lstrip_by_def dest: set_dropWhileD)

lemma strip_by_set: "set (strip_by P s) \<subseteq> set s"
  unfolding strip_by_def using rstrip_by_set lstrip_by_set by fast

lemma strip_set: "set (strip s) \<subseteq> set s"
  by (simp add: strip_def strip_by_set)

lemma rstrip_slash_last: "rstrip_slash s \<noteq> [] \<Longrightarrow> last (rstrip_slash s) \<noteq> slash"
  using rstrip_by_last [of "\<lambda>c. c = slash" s] by (simp add: rstrip_slash_def)

lemma rstrip_slash_idem [simp]: "rstrip_slash (rstrip_slash s) = rstrip_slash s"
  by (simp add: rstrip_slash_def)

lemma rstrip_slash_id: "s = [] \<or> last s \<noteq> slash \<Longrightarrow> rstrip_slash s = s"
  by (auto simp: rstrip_slash_def intro: rstrip_by_id)

lemma rstrip_slash_Nil [simp]: "rstrip_slash [] = []"
  by (simp add: rstrip_slash_def rstrip_by_def)

lemma strip_by_id:
  assumes "s = [] \<or> (\<not> P (hd s) \<and> \<not> P (last s))"
  shows "strip_by P s = s"
proof (cases s)
  case Nil
  then show ?thesis by (simp add: strip_by_def lstrip_by_def rstrip_by_def)
next
  case (Cons c t)
  with assms have "lstrip_by P s = s" by (simp add: lstrip_by_def)
  with assms Cons show ?thesis by (auto simp: strip_by_def intro: rstrip_by_id)
qed

lemma strip_by_ends:
  assumes "strip_by P s \<noteq> []"
  shows "\<not> P (hd (strip_by P s))" and "\<not> P (last (strip_by P s))"
proof -
  let ?l = "lstrip_by P s"
  obtain w where w: "?l = rstrip_by P ?l @ w" using rstrip_by_decomp by blast
  have "\<not> P (hd ?l)" using assms w by (metis append_is_Nil_conv hd_dropWhile lstrip_by_def strip_by_def)
  then show "\<not> P (hd (strip_by P s))" using assms w by (metis hd_append strip_by_def)
  show "\<not> P (last (strip_by P s))" using assms rstrip_by_last by (metis strip_by_def)
qed

lemma strip_by_idem [simp]: "strip_by P (strip_by P s) = strip_by P s"
  using strip_by_ends strip_by_id by blast

lemma strip_strip [simp]: "strip (strip s) = strip s"
  by (simp add: strip_def)

lemma strip_Nil: "strip [] = []"
  by (simp add: strip_def strip_by_def lstrip_by_def rstrip_by_def)

subsection \<open>Digits, numbers and splitting\<close>

definition isdigit_cp :: "nat \<Rightarrow> bool" where
  "isdigit_cp c \<longleftrightarrow> (48 \<le> c \<and> c \<le> 57) \<or> c = 178 \<or> c = 179 \<or> c = 185"

definition isdigit :: "pystr \<Rightarrow> bool" where
  "isdigit s \<longleftrightarrow> s \<noteq> [] \<and> (\<forall>c \<in> set s. isdigit_cp c)"

text \<open>\<open>int(s)\<close> on a string for which \<open>s.isdigit()\<close> holds: a superscript digit is a digit for
  \<open>isdigit\<close> but not for \<open>int\<close>.\<close>

definition digits_value :: "pystr \<Rightarrow> nat" where
  "digits_value s = foldl (\<lambda>n c. 10 * n + (c - 48)) 0 s"

definition int_of_digits :: "pystr \<Rightarrow> exc + nat" where
  "int_of_digits s =
     (if s \<noteq> [] \<and> (\<forall>c \<in> set s. 48 \<le> c \<and> c \<le> 57) then Inr (digits_value s) else Inl ValueError)"

fun str_of_nat :: "nat \<Rightarrow> pystr" where
  "str_of_nat n = (if n < 10 then [48 + n] else str_of_nat (n div 10) @ [48 + n mod 10])"

declare str_of_nat.simps [simp del]

definition str_of_int :: "int \<Rightarrow> pystr" where
  "str_of_int i = (if i < 0 then 45 # str_of_nat (nat (- i)) else str_of_nat (nat i))"

text \<open>\<open>s.split(p, 1)\<close> and \<open>s.rsplit(c, 1)\<close>: the text before and after the first (last)
  occurrence of the separator, if there is one.\<close>

fun split1 :: "pystr \<Rightarrow> pystr \<Rightarrow> (pystr \<times> pystr) option" where
  "split1 s p =
     (if startswith s p then Some ([], drop (length p) s)
      else case s of [] \<Rightarrow> None
           | c # t \<Rightarrow> (case split1 t p of None \<Rightarrow> None | Some (a, b) \<Rightarrow> Some (c # a, b)))"

declare split1.simps [simp del]

definition rsplit1 :: "pystr \<Rightarrow> nat \<Rightarrow> (pystr \<times> pystr) option" where
  "rsplit1 s c =
     (if c \<in> set s
      then Some (rev (tl (dropWhile (\<lambda>d. d \<noteq> c) (rev s))), rev (takeWhile (\<lambda>d. d \<noteq> c) (rev s)))
      else None)"

text \<open>\<open>sep.join(xs)\<close>.\<close>

fun join_with :: "pystr \<Rightarrow> pystr list \<Rightarrow> pystr" where
  "join_with sep [] = []"
| "join_with sep [x] = x"
| "join_with sep (x # y # xs) = x @ sep @ join_with sep (y # xs)"

text \<open>\<open>s.split(c)\<close> for a one-character separator: never empty.\<close>

fun split_chr :: "nat \<Rightarrow> pystr \<Rightarrow> pystr list" where
  "split_chr c [] = [[]]"
| "split_chr c (d # s) =
     (if d = c then [] # split_chr c s
      else (case split_chr c s of [] \<Rightarrow> [[d]] | w # ws \<Rightarrow> (d # w) # ws))"

lemma split_chr_nonempty [simp]: "split_chr c s \<noteq> []"
  by (cases s) (auto split: list.splits)

lemma split_chr_no_sep: "w \<in> set (split_chr c s) \<Longrightarrow> c \<notin> set w"
  by (induction s arbitrary: w) (auto split: list.splits if_splits)

lemma digits_value_snoc [simp]: "digits_value (s @ [c]) = 10 * digits_value s + (c - 48)"
  by (simp add: digits_value_def)

lemma str_of_nat_digits: "str_of_nat n \<noteq> [] \<and> (\<forall>c \<in> set (str_of_nat n). 48 \<le> c \<and> c \<le> 57)"
proof (induction n rule: str_of_nat.induct)
  case (1 n)
  then show ?case by (subst (1 2) str_of_nat.simps) (auto simp: less_Suc_eq_le)
qed

lemma digits_value_str_of_nat [simp]: "digits_value (str_of_nat n) = n"
proof (induction n rule: str_of_nat.induct)
  case (1 n)
  then show ?case by (subst str_of_nat.simps) (auto simp: digits_value_def)
qed

lemma int_of_digits_str_of_nat [simp]: "int_of_digits (str_of_nat n) = Inr n"
  using str_of_nat_digits [of n] by (auto simp: int_of_digits_def)

lemma isdigit_str_of_nat [simp]: "isdigit (str_of_nat n)"
  using str_of_nat_digits [of n] by (auto simp: isdigit_def isdigit_cp_def)

lemma str_of_nat_inject [simp]: "str_of_nat m = str_of_nat n \<longleftrightarrow> m = n"
  by (metis digits_value_str_of_nat)

lemma str_of_nat_latin1: "c \<in> set (str_of_nat n) \<Longrightarrow> c < 128"
  using str_of_nat_digits [of n] by fastforce

lemma split1_Some: "split1 s p = Some (a, b) \<Longrightarrow> s = a @ p @ b"
proof (induction s arbitrary: a)
  case Nil
  then show ?case by (subst (asm) split1.simps) (auto split: if_splits)
next
  case (Cons c s)
  from Cons.prems show ?case
    by (subst (asm) split1.simps)
      (auto simp: startswith_iff split: if_splits option.splits dest: Cons.IH)
qed

lemma contains_split1: "contains s p \<longleftrightarrow> split1 s p \<noteq> None"
proof (induction s)
  case Nil
  then show ?case by (subst split1.simps) auto
next
  case (Cons c s)
  then show ?case by (subst split1.simps) (auto split: option.splits)
qed

lemma rsplit1_snoc: "c \<notin> set t \<Longrightarrow> rsplit1 (s @ c # t) c = Some (s, t)"
  by (simp add: rsplit1_def dropWhile_append takeWhile_append)

lemma rsplit1_None_iff [simp]: "rsplit1 s c = None \<longleftrightarrow> c \<notin> set s"
  by (simp add: rsplit1_def)

lemma rsplit1_Some:
  assumes "rsplit1 s c = Some (a, b)"
  shows "s = a @ c # b" and "c \<notin> set b"
proof -
  from assms have "c \<in> set s" by (simp add: rsplit1_def split: if_splits)
  then obtain x y where "s = x @ c # y" "c \<notin> set y" by (metis split_list_last)
  then have "rsplit1 s c = Some (x, y)" by (simp add: rsplit1_snoc)
  with assms \<open>s = x @ c # y\<close> \<open>c \<notin> set y\<close> show "s = a @ c # b" and "c \<notin> set b" by auto
qed

subsection \<open>Dictionaries\<close>

text \<open>Insertion-ordered dicts: \<open>d[k] = v\<close> is \<open>AList.update k v d\<close>, \<open>d.pop(k, None)\<close> is
  \<open>AList.delete k d\<close>, \<open>d.get(k)\<close> is \<open>map_of d k\<close>; \<open>dict_ok\<close> says that keys are distinct.\<close>

definition dict_ok :: "('k \<times> 'v) list \<Rightarrow> bool" where
  "dict_ok d \<longleftrightarrow> distinct (map fst d)"

lemma dict_ok_Nil [simp]: "dict_ok []"
  by (simp add: dict_ok_def)

lemma dict_ok_update [simp]: "dict_ok d \<Longrightarrow> dict_ok (AList.update k v d)"
  by (simp add: dict_ok_def distinct_update)

lemma dict_ok_delete [simp]: "dict_ok d \<Longrightarrow> dict_ok (AList.delete k d)"
  by (simp add: dict_ok_def distinct_delete)

lemma map_of_update [simp]: "map_of (AList.update k v d) k' = (if k' = k then Some v else map_of d k')"
  by (simp add: update_conv')

lemma map_of_delete [simp]: "map_of (AList.delete k d) k' = (if k' = k then None else map_of d k')"
  by (simp add: delete_conv')

definition bind_exc :: "exc + 'a \<Rightarrow> ('a \<Rightarrow> exc + 'b) \<Rightarrow> exc + 'b" where
  "bind_exc r f = (case r of Inl e \<Rightarrow> Inl e | Inr x \<Rightarrow> f x)"

lemma bind_exc_simps [simp]: "bind_exc (Inl e) f = Inl e" "bind_exc (Inr x) f = f x"
  by (simp_all add: bind_exc_def)

lemma bind_exc_Inr_iff: "bind_exc r f = Inr y \<longleftrightarrow> (\<exists>x. r = Inr x \<and> f x = Inr y)"
  by (cases r) auto

lemma bind_exc_Inl_iff: "bind_exc r f = Inl e \<longleftrightarrow> r = Inl e \<or> (\<exists>x. r = Inr x \<and> f x = Inl e)"
  by (cases r) auto

lemmas number_evals [pystr_eval] = isdigit_def isdigit_cp_def int_of_digits_def digits_value_def
  str_of_int_def rsplit1_def

declare split1.simps [pystr_run]
declare str_of_nat.simps [pystr_run]

lemmas strip_evals [pystr_eval] = strip_def strip_by_def lstrip_by_def rstrip_by_def rstrip_slash_def
  strip_slash_def is_space_def

lemmas case_evals [pystr_eval] = lower_def lower_cp_def upper_def upper_cp_def bytes_lower_def lower_char_def Let_def

lemmas other_evals [pystr_eval] = or_str_def removeprefix_def latin1_decode_def latin1_encode_def ascii_encode_def

end
