(* ===== verification/Gateway_Paths.thy ===== *)
theory Gateway_Paths
  imports Fluxlit_Prelude
begin

section \<open>Public paths: mount and API prefix arithmetic\<close>

text \<open>
  Models \<open>gateway/paths.py\<close>, \<open>api_mount.py\<close> and \<open>runtime/public_mount.py\<close>: how a public URL
  path is normalized, split under the public mount, and handed to the API application with
  \<open>root_path\<close> extended. The ASGI connection scope, a dict in Python, is the record \<open>scope\<close>;
  a key that may be absent is an \<open>option\<close>.
\<close>

subsection \<open>The ASGI scope\<close>

datatype scope_type = HttpScope | WebsocketScope | LifespanScope | OtherScope pystr

record scope =
  sc_type :: scope_type
  sc_method :: "pystr option"
  sc_path :: "pystr option"
  sc_raw_path :: "bytes option"
  sc_root_path :: "pystr option"
  sc_query :: "bytes option"
  sc_headers :: headers
  sc_scheme :: "pystr option"
  sc_client :: "(pystr \<times> int) option"
  sc_subprotocols :: "pystr list"

definition opt_str :: "pystr option \<Rightarrow> pystr" where
  "opt_str x = (case x of None \<Rightarrow> [] | Some s \<Rightarrow> s)"

lemma opt_str_simps [simp]: "opt_str None = []" "opt_str (Some s) = s"
  by (simp_all add: opt_str_def)

subsection \<open>Normalization\<close>

definition normalize_root_mount :: "pystr \<Rightarrow> pystr" where
  "normalize_root_mount raw =
     (let s = strip raw in if s = [] then [] else rstrip_slash (lead_slash s))"

definition normalize_api_mount_path :: "pystr \<Rightarrow> pystr" where
  "normalize_api_mount_path api_mount_path =
     (let p = strip (or_str api_mount_path (u ''/api''))
      in or_str (rstrip_slash (lead_slash p)) [slash])"

subsection \<open>Splitting a request path\<close>

definition under_mount :: "pystr \<Rightarrow> pystr \<Rightarrow> bool" where
  "under_mount m p \<longleftrightarrow> p = m \<or> startswith p (m @ [slash])"

definition split_gateway_paths :: "pystr \<Rightarrow> pystr \<Rightarrow> pystr \<times> pystr" where
  "split_gateway_paths path root_mount =
     (let m = normalize_root_mount root_mount; p = lead_slash path
      in if m = [] then (p, p)
         else if under_mount m p
         then let rest = (if p = m then [slash] else drop (length m) p) in (lead_slash rest, p)
         else (p, m @ p))"

definition location_under_mount :: "pystr \<Rightarrow> pystr \<Rightarrow> pystr" where
  "location_under_mount mount suffix =
     (let m = normalize_root_mount mount; s = lead_slash suffix in if m \<noteq> [] then m @ s else s)"

definition strip_prefix_scope :: "scope \<Rightarrow> pystr \<Rightarrow> exc + scope" where
  "strip_prefix_scope sc prefix =
     (let path = or_str (opt_str (sc_path sc)) [slash];
          rest = or_str (removeprefix path prefix) [slash]
      in case latin1_encode rest of
           Inl e \<Rightarrow> Inl e
         | Inr raw \<Rightarrow>
             (let prior = rstrip_slash (opt_str (sc_root_path sc)); mount = rstrip_slash prefix
              in Inr (sc\<lparr>sc_path := Some rest, sc_raw_path := Some raw,
                         sc_root_path := Some (if prior \<noteq> [] then prior @ mount else mount)\<rparr>)))"

definition inject_public_root_path :: "pystr \<Rightarrow> scope \<Rightarrow> scope" where
  "inject_public_root_path public_mount sc =
     (let mount = normalize_root_mount public_mount
      in if mount = [] then sc
         else if sc_type sc \<in> {HttpScope, WebsocketScope} \<and> strip (opt_str (sc_root_path sc)) = []
         then sc\<lparr>sc_root_path := Some mount\<rparr> else sc)"

subsection \<open>Shape of normalized paths\<close>

text \<open>What \<open>normalize_root_mount\<close> promises: empty, or a leading and no trailing slash.\<close>

definition mount_shape :: "pystr \<Rightarrow> bool" where
  "mount_shape m \<longleftrightarrow> m = [] \<or> (hd m = slash \<and> last m \<noteq> slash)"

lemma rstrip_lead_slash_shape: "mount_shape (rstrip_slash (lead_slash s))"
proof -
  let ?r = "rstrip_slash (lead_slash s)"
  obtain w where w: "lead_slash s = ?r @ w" unfolding rstrip_slash_def using rstrip_by_decomp by blast
  have "hd (lead_slash s) = slash"
    using lead_slash_starts [of s] by (cases "lead_slash s") auto
  then have "?r \<noteq> [] \<Longrightarrow> hd ?r = slash" using w by (metis hd_append)
  then show ?thesis using rstrip_slash_last by (auto simp: mount_shape_def)
qed

lemma normalize_root_mount_shape: "mount_shape (normalize_root_mount raw)"
  using rstrip_lead_slash_shape by (simp add: normalize_root_mount_def Let_def mount_shape_def)

lemma normalize_api_mount_path_shape:
  "normalize_api_mount_path p = [slash] \<or>
   (normalize_api_mount_path p \<noteq> [] \<and> mount_shape (normalize_api_mount_path p))"
  using rstrip_lead_slash_shape
  by (auto simp: normalize_api_mount_path_def Let_def or_str_def)

lemma mount_shape_lead [simp]: "mount_shape m \<Longrightarrow> m \<noteq> [] \<Longrightarrow> lead_slash m = m"
  by (cases m) (auto simp: mount_shape_def)

lemma mount_shape_rstrip [simp]: "mount_shape m \<Longrightarrow> rstrip_slash m = m"
  by (auto simp: mount_shape_def intro: rstrip_slash_id)

lemma slash_not_space [simp]: "\<not> is_space slash"
  by (simp add: is_space_def)

lemma normalize_root_mount_fixed:
  assumes "mount_shape m" and "m = [] \<or> \<not> is_space (last m)"
  shows "normalize_root_mount m = m"
proof (cases "m = []")
  case True
  then show ?thesis by (simp add: normalize_root_mount_def strip_def strip_by_id)
next
  case False
  with assms have "strip m = m"
    unfolding strip_def by (intro strip_by_id) (auto simp: mount_shape_def)
  with False assms show ?thesis by (simp add: normalize_root_mount_def)
qed

lemma normalize_root_mount_clean_iff:
  "normalize_root_mount (normalize_root_mount raw) = normalize_root_mount raw
     \<longleftrightarrow> normalize_root_mount raw = [] \<or> \<not> is_space (last (normalize_root_mount raw))"
  (is "?L \<longleftrightarrow> ?R")
proof
  let ?m = "normalize_root_mount raw"
  assume eq: ?L
  show ?R
  proof (rule ccontr)
    assume "\<not> ?R"
    then have ne: "?m \<noteq> []" and sp: "is_space (last ?m)" by auto
    have sh: "mount_shape ?m" by (rule normalize_root_mount_shape)
    then have "strip ?m \<noteq> []"
      using ne by (cases ?m) (auto simp: strip_def strip_by_def lstrip_by_def rstrip_by_def mount_shape_def dropWhile_eq_Nil_conv)
    moreover have "lead_slash (strip ?m) = strip ?m"
      using ne sh by (cases ?m) (auto simp: mount_shape_def strip_def strip_by_def lstrip_by_def rstrip_by_def dropWhile_append lead_slash_def)
    ultimately have "?m = rstrip_slash (strip ?m)" using eq by (simp add: normalize_root_mount_def [of ?m])
    moreover obtain w where "strip ?m = rstrip_slash (strip ?m) @ w" "\<forall>c \<in> set w. c = slash"
      unfolding rstrip_slash_def using rstrip_by_decomp by blast
    moreover have "\<not> is_space (last (strip ?m))"
      using \<open>strip ?m \<noteq> []\<close> strip_by_ends(2) by (metis strip_def)
    ultimately have "w \<noteq> []" using sp by auto
    have "length (strip ?m) \<le> length ?m"
      by (simp add: strip_def strip_by_def lstrip_by_def rstrip_by_def)
        (metis length_dropWhile_le length_rev order_trans)
    with \<open>?m = rstrip_slash (strip ?m)\<close> \<open>strip ?m = rstrip_slash (strip ?m) @ w\<close> \<open>w \<noteq> []\<close>
    show False by (metis append_Nil2 length_0_conv length_append add_le_same_cancel1 le_zero_eq)
  qed
next
  assume ?R
  then show ?L by (intro normalize_root_mount_fixed normalize_root_mount_shape)
qed

lemma or_str_Nil_iff [simp]: "or_str a b = [] \<longleftrightarrow> a = [] \<and> b = []"
  by (auto simp: or_str_def)

subsection \<open>Splitting and reassembling\<close>

lemma mount_shape_lead_append [simp]: "mount_shape m \<Longrightarrow> m \<noteq> [] \<Longrightarrow> lead_slash (m @ p) = m @ p"
  by (cases m) (auto simp: mount_shape_def)

lemma startswith_slash_iff: "startswith p [slash] \<longleftrightarrow> (\<exists>r. p = slash # r)"
  by (auto simp: startswith_iff)

lemma under_mount_append: "startswith p [slash] \<Longrightarrow> under_mount m (m @ p)"
  by (auto simp: under_mount_def startswith_iff)

lemma under_mount_iff: "under_mount m p \<longleftrightarrow> p = m \<or> (\<exists>r. p = m @ slash # r)"
  by (auto simp: under_mount_def startswith_iff)

lemma split_under_mount:
  assumes "normalize_root_mount mnt = m" and "m \<noteq> []" and "startswith p [slash]"
  shows "split_gateway_paths (m @ p) mnt = (p, m @ p)"
proof -
  from assms(3) obtain r where p: "p = slash # r" by (auto simp: startswith_slash_iff)
  have "mount_shape m" using assms(1) normalize_root_mount_shape by blast
  with assms(1,2) p under_mount_append [OF assms(3), of m] show ?thesis
    by (simp add: split_gateway_paths_def)
qed

lemma split_outside_mount:
  assumes "normalize_root_mount mnt = m" and "m \<noteq> []" and "startswith p [slash]" and "\<not> under_mount m p"
  shows "split_gateway_paths p mnt = (p, m @ p)"
  using assms by (auto simp: split_gateway_paths_def startswith_slash_iff Let_def)

text \<open>Both ways a reverse proxy can forward a request under a public mount, the full public
  path or the path with the mount already stripped, split to the same pair: the dispatch path
  without the mount and the Streamlit path with it.\<close>

theorem split_two_proxy_shapes:
  assumes "normalize_root_mount mnt \<noteq> []" and "startswith p [slash]"
    and "\<not> under_mount (normalize_root_mount mnt) p"
  shows "split_gateway_paths (normalize_root_mount mnt @ p) mnt
           = (p, normalize_root_mount mnt @ p)
       \<and> split_gateway_paths p mnt = (p, normalize_root_mount mnt @ p)"
  using assms split_under_mount split_outside_mount by blast

theorem split_two_proxy_shapes_witness:
  "split_gateway_paths (u ''/app/api/users'') (u ''app/'') = (u ''/api/users'', u ''/app/api/users'')
   \<and> split_gateway_paths (u ''/api/users'') (u ''app/'') = (u ''/api/users'', u ''/app/api/users'')"
proof -
  have m: "normalize_root_mount (u ''app/'') = u ''/app''"
    by (simp add: normalize_root_mount_def lead_slash_def pystr_eval)
  have "\<not> under_mount (u ''/app'') (u ''/api/users'')" by (simp add: under_mount_def pystr_eval)
  moreover have "startswith (u ''/api/users'') [slash]" by (simp add: pystr_eval)
  ultimately show ?thesis
    using split_two_proxy_shapes [of "u ''app/''" "u ''/api/users''"] m u_append [of "''/app''" "''/api/users''"]
    by simp
qed

text \<open>Splitting loses nothing: the dispatch path starts with a slash, and mount and dispatch
  path together give back the Streamlit path (the mount alone standing for its root).\<close>

theorem split_reassembles:
  "startswith (fst (split_gateway_paths path mnt)) [slash] \<and>
   (snd (split_gateway_paths path mnt) = normalize_root_mount mnt @ fst (split_gateway_paths path mnt) \<or>
    (snd (split_gateway_paths path mnt) = normalize_root_mount mnt \<and>
     fst (split_gateway_paths path mnt) = [slash]))"
proof -
  let ?m = "normalize_root_mount mnt" and ?p = "lead_slash path"
  have p: "startswith ?p [slash]" by simp
  consider (none) "?m = []" | (atroot) "?m \<noteq> []" "?p = ?m"
    | (under) r where "?m \<noteq> []" "?p = ?m @ slash # r" | (out) "?m \<noteq> []" "\<not> under_mount ?m ?p"
    by (auto simp: under_mount_iff)
  then show ?thesis
  proof cases
    case none
    then show ?thesis by (simp add: split_gateway_paths_def Let_def)
  next
    case atroot
    then show ?thesis by (simp add: split_gateway_paths_def under_mount_def Let_def)
  next
    case under
    then show ?thesis by (simp add: split_gateway_paths_def under_mount_def Let_def)
  next
    case out
    then show ?thesis by (simp add: split_gateway_paths_def Let_def)
  qed
qed

subsection \<open>Handing a path to the API application\<close>

lemma strip_prefix_scope_fields:
  "strip_prefix_scope sc pre = Inr sc' \<Longrightarrow>
     sc' = sc\<lparr>sc_path := sc_path sc', sc_raw_path := sc_raw_path sc', sc_root_path := sc_root_path sc'\<rparr>"
  by (auto simp: strip_prefix_scope_def Let_def split: sum.splits)

lemma strip_prefix_scope_url_lemma:
  assumes "mount_shape pre" and "sc_path sc = Some (pre @ slash # r)" and "\<forall>c \<in> set r. c < 256"
  shows "\<exists>raw. strip_prefix_scope sc pre = Inr (sc\<lparr>sc_path := Some (slash # r), sc_raw_path := Some raw,
             sc_root_path := Some (rstrip_slash (opt_str (sc_root_path sc)) @ pre)\<rparr>)
         \<and> latin1_decode raw = slash # r"
proof -
  have "\<forall>c \<in> set (slash # r). c < 256" using assms(3) by simp
  then obtain raw where raw: "latin1_encode (slash # r) = Inr raw" using latin1_encode_Inr_iff by blast
  then have "latin1_decode raw = slash # r" by (rule latin1_decode_encode)
  with raw assms(1,2) show ?thesis
    by (auto simp: strip_prefix_scope_def or_str_def Let_def)
qed

text \<open>When the gateway strips its API prefix, \<open>root_path\<close> followed by \<open>path\<close> still spells
  the path before stripping, the raw path is the Latin-1 encoding of the new path, and every
  other field of the scope is untouched.\<close>

theorem strip_prefix_scope_preserves_url:
  assumes "mount_shape pre" and "sc_path sc = Some (pre @ slash # r)" and "\<forall>c \<in> set r. c < 256"
  shows "\<exists>raw. strip_prefix_scope sc pre = Inr (sc\<lparr>sc_path := Some (slash # r), sc_raw_path := Some raw,
             sc_root_path := Some (rstrip_slash (opt_str (sc_root_path sc)) @ pre)\<rparr>)
         \<and> latin1_decode raw = slash # r"
  using assms by (rule strip_prefix_scope_url_lemma)

definition example_scope :: scope where
  "example_scope = \<lparr>sc_type = HttpScope, sc_method = Some (u ''GET''), sc_path = Some (u ''/api/users''),
     sc_raw_path = None, sc_root_path = Some (u ''/app''), sc_query = Some [], sc_headers = [],
     sc_scheme = Some (u ''http''), sc_client = Some (u ''10.0.0.9'', 4711), sc_subprotocols = []\<rparr>"

theorem strip_prefix_scope_preserves_url_witness:
  "\<exists>raw. strip_prefix_scope example_scope (u ''/api'') =
      Inr (example_scope\<lparr>sc_path := Some (u ''/users''), sc_raw_path := Some raw,
           sc_root_path := Some (u ''/app/api'')\<rparr>) \<and> latin1_decode raw = u ''/users''"
  using strip_prefix_scope_preserves_url [of "u ''/api''" example_scope "u ''users''"]
  by (simp add: example_scope_def mount_shape_def pystr_eval)

text \<open>A path with a code point above 255 (a percent-decoded non-Latin-1 URL) makes the hand-over
  raise \<open>UnicodeEncodeError\<close> instead of reaching the API application.\<close>

theorem strip_prefix_scope_raises_non_latin1:
  assumes "sc_path sc = Some (pre @ slash # r)" and "\<exists>c \<in> set r. 255 < c"
  shows "strip_prefix_scope sc pre = Inl UnicodeEncodeError"
proof -
  have "latin1_encode (slash # r) = Inl UnicodeEncodeError"
    using assms(2) by (simp add: latin1_encode_fails_iff)
  with assms(1) show ?thesis by (simp add: strip_prefix_scope_def or_str_def Let_def)
qed

theorem strip_prefix_scope_raises_non_latin1_witness:
  "strip_prefix_scope (example_scope\<lparr>sc_path := Some (u ''/api/'' @ [8364])\<rparr>) (u ''/api'') = Inl UnicodeEncodeError"
  using strip_prefix_scope_raises_non_latin1 [of "example_scope\<lparr>sc_path := Some (u ''/api/'' @ [8364])\<rparr>" "u ''/api''" "[8364]"]
  by (simp add: pystr_eval)

text \<open>A whitespace-only API mount path does not fall back to \<open>/api\<close>, as the comment on
  \<open>normalize_api_mount_path\<close> says, but to the root; and only the empty string does.\<close>

theorem normalize_api_mount_path_blank:
  "normalize_api_mount_path s = [slash] \<longleftrightarrow> s \<noteq> [] \<and> set (strip s) \<subseteq> {slash}"
proof -
  have nil: "normalize_api_mount_path [] = u ''/api''"
    by (simp add: normalize_api_mount_path_def or_str_def lead_slash_def pystr_eval)
  have "rstrip_slash (lead_slash t) = [] \<longleftrightarrow> (\<forall>c \<in> set t. c = slash)" for t
    by (auto simp: rstrip_slash_def rstrip_by_def lead_slash_def)
  moreover have "rstrip_slash (lead_slash t) \<noteq> [slash]" for t
    using rstrip_slash_last [of "lead_slash t"] by fastforce
  ultimately show ?thesis
    using nil by (cases "s = []") (auto simp: normalize_api_mount_path_def or_str_def Let_def pystr_eval)
qed

lemma normalize_api_mount_path_fixed:
  assumes "mount_shape p" and "p \<noteq> []" and "\<not> is_space (last p)"
  shows "normalize_api_mount_path p = p"
proof -
  have "strip p = p"
    using assms unfolding strip_def by (intro strip_by_id) (auto simp: mount_shape_def)
  with assms show ?thesis by (simp add: normalize_api_mount_path_def or_str_def)
qed

lemma location_under_mount_cases:
  "location_under_mount mount suff = normalize_root_mount mount @ lead_slash suff"
  by (simp add: location_under_mount_def Let_def)

lemma inject_public_root_path_other:
  "inject_public_root_path m sc = sc\<lparr>sc_root_path := sc_root_path (inject_public_root_path m sc)\<rparr>"
  by (simp add: inject_public_root_path_def Let_def)

lemma inject_public_root_path_fields [simp]:
  "sc_type (inject_public_root_path m sc) = sc_type sc"
  "sc_path (inject_public_root_path m sc) = sc_path sc"
  "sc_method (inject_public_root_path m sc) = sc_method sc"
  "sc_headers (inject_public_root_path m sc) = sc_headers sc"
  "sc_query (inject_public_root_path m sc) = sc_query sc"
  by (simp_all add: inject_public_root_path_def Let_def)

end
