(* ===== verification/Url_Parse.thy ===== *)
theory Url_Parse
  imports Fluxlit_Prelude
begin

section \<open>The standard library's URL splitting\<close>

text \<open>
  \<open>urllib.parse.urlparse\<close>, \<open>urlunparse\<close> and the \<open>hostname\<close>, \<open>port\<close> and \<open>netloc\<close> attributes of
  its result, which \<open>gateway/upstream_http.py\<close>, \<open>config/settings.py\<close>, \<open>application/public_urls.py\<close>,
  \<open>cli.py\<close> and \<open>auth/oidc.py\<close> call. Two checks of the library are left out, both of which
  only turn further inputs into a \<open>ValueError\<close>: the IP-literal syntax between brackets (added in
  Python 3.11.4) and the NFKC check of a non-ASCII network location.
\<close>

record url =
  u_scheme :: pystr
  u_netloc :: pystr
  u_path :: pystr
  u_params :: pystr
  u_query :: pystr
  u_fragment :: pystr

definition is_alpha_ascii :: "nat \<Rightarrow> bool" where
  "is_alpha_ascii c \<longleftrightarrow> (65 \<le> c \<and> c \<le> 90) \<or> (97 \<le> c \<and> c \<le> 122)"

definition is_scheme_char :: "nat \<Rightarrow> bool" where
  "is_scheme_char c \<longleftrightarrow> is_alpha_ascii c \<or> (48 \<le> c \<and> c \<le> 57) \<or> c = 43 \<or> c = 45 \<or> c = 46"

definition partition_str :: "pystr \<Rightarrow> pystr \<Rightarrow> pystr \<times> bool \<times> pystr" where
  "partition_str s p = (case split1 s p of None \<Rightarrow> (s, False, []) | Some (a, b) \<Rightarrow> (a, True, b))"

definition split_scheme :: "pystr \<Rightarrow> pystr \<times> pystr" where
  "split_scheme s =
     (case split1 s (u '':'') of
        None \<Rightarrow> ([], s)
      | Some (a, b) \<Rightarrow>
          if a \<noteq> [] \<and> is_alpha_ascii (hd a) \<and> (\<forall>c \<in> set a. is_scheme_char c) then (lower a, b) else ([], s))"

definition uses_params :: "pystr list" where
  "uses_params = map u ['''', ''ftp'', ''hdl'', ''prospero'', ''http'', ''imap'', ''https'', ''shttp'', ''rtsp'',
     ''rtsps'', ''rtspu'', ''sip'', ''sips'', ''mms'', ''sftp'', ''tel'']"

definition uses_netloc :: "pystr list" where
  "uses_netloc = map u ['''', ''ftp'', ''http'', ''gopher'', ''nntp'', ''telnet'', ''imap'', ''wais'', ''file'', ''mms'',
     ''https'', ''shttp'', ''snews'', ''prospero'', ''rtsp'', ''rtsps'', ''rtspu'', ''rsync'', ''svn'', ''svn+ssh'',
     ''sftp'', ''nfs'', ''git'', ''git+ssh'', ''ws'', ''wss'']"

definition split_params :: "pystr \<Rightarrow> pystr \<times> pystr" where
  "split_params path =
     (let (dir, seg) = (case rsplit1 path slash of None \<Rightarrow> ([], path) | Some (a, b) \<Rightarrow> (a @ [slash], b))
      in case split1 seg (u '';'') of None \<Rightarrow> (path, []) | Some (a, b) \<Rightarrow> (dir @ a, b))"

definition urlparse :: "pystr \<Rightarrow> exc + url" where
  "urlparse raw =
     (let s0 = filter (\<lambda>c. c \<noteq> 9 \<and> c \<noteq> 10 \<and> c \<noteq> 13) (lstrip_by (\<lambda>c. c \<le> 32) raw);
          (scheme, s1) = split_scheme s0;
          has_netloc = startswith s1 (u ''//'');
          rest = drop 2 s1;
          stop = (\<lambda>c. c \<noteq> 47 \<and> c \<noteq> 63 \<and> c \<noteq> 35);
          netloc = (if has_netloc then takeWhile stop rest else []);
          s2 = (if has_netloc then dropWhile stop rest else s1);
          (s3, _, fragment) = partition_str s2 (u ''#'');
          (s4, _, query) = partition_str s3 (u ''?'');
          (path, params) = (if scheme \<in> set uses_params then split_params s4 else (s4, []))
      in if (91 \<in> set netloc) \<noteq> (93 \<in> set netloc) then Inl ValueError
         else Inr \<lparr>u_scheme = scheme, u_netloc = netloc, u_path = path, u_params = params,
                   u_query = query, u_fragment = fragment\<rparr>)"

definition hostinfo :: "url \<Rightarrow> pystr \<times> pystr" where
  "hostinfo p =
     (let hi = (case rsplit1 (u_netloc p) 64 of None \<Rightarrow> u_netloc p | Some (_, b) \<Rightarrow> b);
          (_, open_br, bracketed) = partition_str hi (u ''['')
      in if open_br
         then let (host, _, rest) = partition_str bracketed (u '']''); (_, _, port) = partition_str rest (u '':'')
              in (host, port)
         else let (host, _, port) = partition_str hi (u '':'') in (host, port))"

definition url_hostname :: "url \<Rightarrow> pystr option" where
  "url_hostname p =
     (let host = fst (hostinfo p); (h, has_zone, zone) = partition_str host (u ''%'')
      in if host = [] then None else Some (lower h @ (if has_zone then u ''%'' else []) @ zone))"

definition url_port :: "url \<Rightarrow> exc + nat option" where
  "url_port p =
     (let port = snd (hostinfo p)
      in if port = [] then Inr None
         else if isdigit port \<and> (\<forall>c \<in> set port. c < 128)
         then if digits_value port \<le> 65535 then Inr (Some (digits_value port)) else Inl ValueError
         else Inl ValueError)"

definition urlunparse :: "url \<Rightarrow> pystr" where
  "urlunparse p =
     (let url0 = (if u_params p \<noteq> [] then u_path p @ u '';'' @ u_params p else u_path p);
          url1 = (if u_netloc p \<noteq> [] \<or> (u_scheme p \<noteq> [] \<and> u_scheme p \<in> set uses_netloc) \<or> startswith url0 (u ''//'')
                  then u ''//'' @ u_netloc p @ (if url0 = [] then [] else lead_slash url0) else url0);
          url2 = (if u_scheme p \<noteq> [] then u_scheme p @ u '':'' @ url1 else url1);
          url3 = (if u_query p \<noteq> [] then url2 @ u ''?'' @ u_query p else url2)
      in if u_fragment p \<noteq> [] then url3 @ u ''#'' @ u_fragment p else url3)"

lemmas url_evals = urlparse_def hostinfo_def url_hostname_def url_port_def urlunparse_def split_scheme_def
  is_alpha_ascii_def is_scheme_char_def partition_str_def uses_params_def uses_netloc_def split_params_def

subsection \<open>What the parser guarantees\<close>

lemma url_port_bound: "url_port p = Inr (Some n) \<Longrightarrow> n \<le> 65535"
  by (auto simp: url_port_def Let_def split: if_splits)

lemma url_port_error: "url_port p = Inl e \<Longrightarrow> e = ValueError"
  by (auto simp: url_port_def Let_def split: if_splits)

lemma urlparse_error: "urlparse s = Inl e \<Longrightarrow> e = ValueError"
  by (auto simp: urlparse_def Let_def split: if_splits prod.splits)

lemma partition_str_join: "partition_str s p = (a, True, b) \<Longrightarrow> s = a @ p @ b"
  by (auto simp: partition_str_def split1_Some split: option.splits)

lemma partition_str_none: "partition_str s p = (a, False, b) \<Longrightarrow> a = s \<and> b = []"
  by (auto simp: partition_str_def split: option.splits)

lemma split1_none_chr: "c \<notin> set s \<Longrightarrow> split1 s [c] = None"
proof (induction s)
  case Nil
  then show ?case by (simp add: split1.simps)
next
  case (Cons d s)
  then show ?case by (subst split1.simps) auto
qed

lemma split1_chr: "c \<notin> set a \<Longrightarrow> split1 (a @ c # b) [c] = Some (a, b)"
proof (induction a)
  case Nil
  then show ?case by (simp add: split1.simps)
next
  case (Cons d a)
  then show ?case by (subst append_Cons, subst split1.simps) auto
qed

lemma partition_str_chr [simp]: "c \<notin> set a \<Longrightarrow> partition_str (a @ c # b) [c] = (a, True, b)"
  by (simp add: partition_str_def split1_chr)

lemma partition_str_chr_none [simp]: "c \<notin> set a \<Longrightarrow> partition_str a [c] = (a, False, [])"
  by (simp add: partition_str_def split1_none_chr)

text \<open>A sample of what the code passes: the parts of an internal upstream URL.\<close>

lemma urlparse_upstream_example:
  "urlparse (u ''http://127.0.0.1:8501/base'') =
     Inr \<lparr>u_scheme = u ''http'', u_netloc = u ''127.0.0.1:8501'', u_path = u ''/base'', u_params = [],
          u_query = [], u_fragment = []\<rparr>"
  by (simp add: url_evals pystr_eval pystr_run)

subsection \<open>Query strings\<close>

text \<open>\<open>urllib.parse.urlencode\<close> with its default \<open>quote_plus\<close>: UTF-8, upper-case hexadecimal, a plus sign
  for a space. A lone surrogate cannot be encoded.\<close>

definition utf8_cp :: "nat \<Rightarrow> nat list" where
  "utf8_cp c =
     (if c < 128 then [c]
      else if c < 2048 then [192 + c div 64, 128 + c mod 64]
      else if c < 65536 then [224 + c div 4096, 128 + c div 64 mod 64, 128 + c mod 64]
      else [240 + c div 262144, 128 + c div 4096 mod 64, 128 + c div 64 mod 64, 128 + c mod 64])"

definition hex_digit :: "nat \<Rightarrow> nat" where
  "hex_digit n = (if n < 10 then 48 + n else 55 + n)"

definition unreserved_cp :: "nat \<Rightarrow> bool" where
  "unreserved_cp c \<longleftrightarrow> is_alpha_ascii c \<or> (48 \<le> c \<and> c \<le> 57) \<or> c = 95 \<or> c = 46 \<or> c = 45 \<or> c = 126"

definition quote_plus_cp :: "nat \<Rightarrow> pystr" where
  "quote_plus_cp c =
     (if unreserved_cp c then [c] else if c = 32 then [43]
      else concat (map (\<lambda>b. [37, hex_digit (b div 16), hex_digit (b mod 16)]) (utf8_cp c)))"

definition quote_plus :: "pystr \<Rightarrow> pystr" where
  "quote_plus s = concat (map quote_plus_cp s)"

definition is_surrogate :: "nat \<Rightarrow> bool" where
  "is_surrogate c \<longleftrightarrow> 55296 \<le> c \<and> c \<le> 57343"

definition urlencode :: "(pystr \<times> pystr) list \<Rightarrow> exc + pystr" where
  "urlencode q =
     (if \<exists>p \<in> set q. \<exists>c \<in> set (fst p) \<union> set (snd p). is_surrogate c then Inl UnicodeEncodeError
      else Inr (join_with [38] (map (\<lambda>(k, v). quote_plus k @ [61] @ quote_plus v) q)))"

lemma quote_plus_cp_ascii: "c < 1114112 \<Longrightarrow> \<forall>d \<in> set (quote_plus_cp c). d < 128 \<and> d \<noteq> 38 \<and> d \<noteq> 61 \<and> d \<noteq> 35 \<and> d \<noteq> 32"
proof -
  assume c: "c < 1114112"
  have h: "hex_digit n < 128 \<and> hex_digit n \<noteq> 38 \<and> hex_digit n \<noteq> 61 \<and> hex_digit n \<noteq> 35 \<and> hex_digit n \<noteq> 32" if "n < 16" for n
    using that by (auto simp: hex_digit_def)
  have b: "b < 256" if "b \<in> set (utf8_cp c)" for b
    using that c by (auto simp: utf8_cp_def split: if_splits)
  have "b div 16 < 16 \<and> b mod 16 < 16" if "b \<in> set (utf8_cp c)" for b using b [OF that] by auto
  with h show ?thesis
    by (auto simp: quote_plus_cp_def unreserved_cp_def is_alpha_ascii_def)
qed

lemma quote_plus_ascii:
  "\<forall>c \<in> set s. c < 1114112 \<Longrightarrow> \<forall>d \<in> set (quote_plus s). d < 128 \<and> d \<noteq> 38 \<and> d \<noteq> 61 \<and> d \<noteq> 35 \<and> d \<noteq> 32"
  using quote_plus_cp_ascii by (fastforce simp: quote_plus_def)

end
