(* ===== verification/Gateway_Headers.thy ===== *)
theory Gateway_Headers
  imports Gateway_Paths Url_Parse "HOL-Library.List_Lexorder"
begin

section \<open>Request headers on the hop to Streamlit\<close>

text \<open>
  Models \<open>gateway/header_filter.py\<close>, \<open>gateway/forward_headers.py\<close>, \<open>gateway/request_id.py\<close>,
  \<open>gateway/upstream_http.py\<close> and the header block that \<open>proxy_http_inner\<close> builds from them.
  \<open>httpx.Headers\<close> is not code of the repository: it is the argument \<open>H\<close>, a record of the
  operations the gateway calls, and \<open>httpx_headers_laws\<close> states what its documentation promises
  (a multi-map whose names compare case-insensitively, item assignment replacing every entry of
  the name). The UUID of a fresh request id is an argument as well.
\<close>

subsection \<open>Dropping hop-by-hop and forwarding headers\<close>

definition hop_by_hop_headers :: "bytes list" where
  "hop_by_hop_headers = [''connection'', ''keep-alive'', ''proxy-authenticate'', ''proxy-authorization'',
     ''te'', ''trailers'', ''transfer-encoding'', ''upgrade'']"

definition client_forwarding_headers :: "bytes list" where
  "client_forwarding_headers = [''x-forwarded-for'', ''x-forwarded-host'', ''x-forwarded-proto'',
     ''x-forwarded-port'', ''x-forwarded-prefix'']"

fun filter_request_headers :: "headers \<Rightarrow> headers" where
  "filter_request_headers [] = []"
| "filter_request_headers ((k, v) # raw) =
     (let kl = bytes_lower k
      in if kl \<in> set (hop_by_hop_headers @ client_forwarding_headers) then filter_request_headers raw
         else if kl = ''host'' then filter_request_headers raw
         else (k, v) # filter_request_headers raw)"

subsection \<open>The allowlist of forwarded browser headers\<close>

definition forward_http_blocklist :: "pystr list" where
  "forward_http_blocklist = map u [''authorization'', ''cookie'', ''set-cookie'', ''proxy-authorization'', ''host'',
     ''connection'', ''content-length'', ''transfer-encoding'', ''te'', ''upgrade'', ''keep-alive'',
     ''proxy-connection'', ''x-forwarded-for'', ''x-forwarded-host'', ''x-forwarded-proto'',
     ''x-forwarded-port'', ''x-forwarded-prefix'']"

definition name_start_cp :: "nat \<Rightarrow> bool" where
  "name_start_cp c \<longleftrightarrow> (97 \<le> c \<and> c \<le> 122) \<or> (48 \<le> c \<and> c \<le> 57)"

text \<open>The regular expression of a header name; its dollar also matches before a final newline.\<close>

definition header_name_re :: "pystr \<Rightarrow> bool" where
  "header_name_re n =
     (let b = (if n \<noteq> [] \<and> last n = 10 then butlast n else n)
      in b \<noteq> [] \<and> length b \<le> 64 \<and> name_start_cp (hd b) \<and> (\<forall>c \<in> set (tl b). name_start_cp c \<or> c = 45))"

definition normalize_gateway_forward_header_allowlist :: "pystr list \<Rightarrow> pystr set" where
  "normalize_gateway_forward_header_allowlist names =
     set (filter (\<lambda>n. \<not> (n = [] \<or> n \<in> set forward_http_blocklist) \<and> header_name_re n)
            (map (\<lambda>raw. lower (strip raw)) names))"

fun rejected_loop :: "pystr set \<Rightarrow> pystr list \<Rightarrow> pystr list \<Rightarrow> pystr list" where
  "rejected_loop seen out [] = out"
| "rejected_loop seen out (raw # names) =
     (let s = strip raw; sl = lower s
      in if s = [] then rejected_loop seen out names
         else if sl \<in> set forward_http_blocklist \<and> sl \<notin> seen
         then rejected_loop (insert sl seen) (out @ [sl]) names
         else rejected_loop seen out names)"

definition rejected_gateway_forward_header_allowlist :: "pystr list \<Rightarrow> pystr list" where
  "rejected_gateway_forward_header_allowlist names = sort_key lower (rejected_loop {} [] names)"

subsection \<open>Request id\<close>

definition request_id_header :: pystr where
  "request_id_header = u ''x-request-id''"

fun request_id_from_headers :: "pystr \<Rightarrow> headers \<Rightarrow> pystr" where
  "request_id_from_headers fresh [] = fresh"
| "request_id_from_headers fresh ((k, v) # raw) =
     (if bytes_lower k = ''x-request-id'' then or_str (strip (latin1_decode v)) fresh
      else request_id_from_headers fresh raw)"

definition request_id_from_scope :: "pystr \<Rightarrow> scope \<Rightarrow> pystr" where
  "request_id_from_scope fresh sc = request_id_from_headers fresh (sc_headers sc)"

subsection \<open>Upstream URLs and the forwarding headers the gateway sets\<close>

definition use_path :: "scope \<Rightarrow> pystr option \<Rightarrow> pystr" where
  "use_path sc path = (case path of Some p \<Rightarrow> p | None \<Rightarrow> or_str (opt_str (sc_path sc)) [slash])"

definition scope_query :: "scope \<Rightarrow> pystr" where
  "scope_query sc = latin1_decode (case sc_query sc of None \<Rightarrow> [] | Some q \<Rightarrow> q)"

definition build_target_url :: "scope \<Rightarrow> pystr \<Rightarrow> pystr option \<Rightarrow> pystr" where
  "build_target_url sc upstream path =
     (let query = scope_query sc
      in if query \<noteq> [] then upstream @ use_path sc path @ u ''?'' @ query else upstream @ use_path sc path)"

definition none_or_str :: "pystr option \<Rightarrow> pystr" where
  "none_or_str x = (case x of None \<Rightarrow> u ''None'' | Some s \<Rightarrow> s)"

definition upstream_host_header :: "pystr \<Rightarrow> exc + pystr" where
  "upstream_host_header upstream =
     bind_exc (urlparse upstream) (\<lambda>parsed. bind_exc (url_port parsed) (\<lambda>port.
       case port of
         Some p \<Rightarrow> if p \<noteq> 0 then Inr (none_or_str (url_hostname parsed) @ u '':'' @ str_of_nat p)
                   else Inr (or_str (opt_str (url_hostname parsed)) (u ''127.0.0.1''))
       | None \<Rightarrow> Inr (or_str (opt_str (url_hostname parsed)) (u ''127.0.0.1''))))"

fun public_host_from_headers :: "headers \<Rightarrow> pystr \<Rightarrow> exc + pystr" where
  "public_host_from_headers [] upstream = upstream_host_header upstream"
| "public_host_from_headers ((k, v) # raw) upstream =
     (if bytes_lower k = ''host''
      then (let h = strip (latin1_decode v) in if h \<noteq> [] then Inr h else upstream_host_header upstream)
      else public_host_from_headers raw upstream)"

definition public_host_from_scope :: "scope \<Rightarrow> pystr \<Rightarrow> exc + pystr" where
  "public_host_from_scope sc upstream = public_host_from_headers (sc_headers sc) upstream"

definition digits_port :: "pystr \<Rightarrow> exc + nat option" where
  "digits_port s = (if isdigit s then bind_exc (int_of_digits s) (\<lambda>n. Inr (Some n)) else Inr None)"

definition port_from_host_header :: "pystr \<Rightarrow> exc + nat option" where
  "port_from_host_header host_val =
     (if startswith host_val (u ''['')
      then (case split1 host_val (u '']:'') of Some (_, rest) \<Rightarrow> digits_port rest | None \<Rightarrow> Inr None)
      else (case rsplit1 host_val 58 of Some (_, maybe_port) \<Rightarrow> digits_port maybe_port | None \<Rightarrow> Inr None))"

definition forwarded_upstream_header_pairs ::
  "scope \<Rightarrow> pystr \<Rightarrow> pystr option \<Rightarrow> exc + (pystr \<times> pystr) list" where
  "forwarded_upstream_header_pairs sc public_host forwarded_prefix =
     (let proto = or_str (opt_str (sc_scheme sc)) (u ''http'')
      in bind_exc (port_from_host_header public_host) (\<lambda>port. Inr (
        [(u ''X-Forwarded-Host'', public_host), (u ''X-Forwarded-Proto'', proto)]
        @ (case port of Some n \<Rightarrow> [(u ''X-Forwarded-Port'', str_of_nat n)] | None \<Rightarrow> [])
        @ (if opt_str forwarded_prefix \<noteq> [] then [(u ''X-Forwarded-Prefix'', opt_str forwarded_prefix)] else [])
        @ (case sc_client sc of
             Some (host, _) \<Rightarrow> if host \<noteq> [] then [(u ''X-Forwarded-For'', host)] else []
           | None \<Rightarrow> []))))"

definition parse_ws_target :: "scope \<Rightarrow> pystr \<Rightarrow> pystr option \<Rightarrow> exc + pystr" where
  "parse_ws_target sc upstream path =
     (let qs = scope_query sc;
          up = (if qs \<noteq> [] then use_path sc path @ u ''?'' @ qs else use_path sc path)
      in bind_exc (urlparse upstream) (\<lambda>parsed. bind_exc (url_port parsed) (\<lambda>port.
           let scheme = (if u_scheme parsed = u ''https'' then u ''wss'' else u ''ws'');
               host = or_str (opt_str (url_hostname parsed)) (u ''127.0.0.1'');
               netloc = (case port of Some p \<Rightarrow> if p \<noteq> 0 then host @ u '':'' @ str_of_nat p else host
                                    | None \<Rightarrow> host);
               base_path = rstrip_slash (u_path parsed);
               full_path = (if base_path \<noteq> [] then base_path @ up else up)
           in Inr (urlunparse \<lparr>u_scheme = scheme, u_netloc = netloc, u_path = full_path, u_params = [],
                              u_query = [], u_fragment = []\<rparr>))))"

subsection \<open>The header block of an upstream request\<close>

record 'h headers_api =
  h_new :: "(pystr \<times> pystr) list \<Rightarrow> exc + 'h"
  h_set :: "'h \<Rightarrow> pystr \<Rightarrow> pystr \<Rightarrow> exc + 'h"
  h_values :: "'h \<Rightarrow> pystr \<Rightarrow> pystr list"

definition httpx_headers_laws :: "'h headers_api \<Rightarrow> bool" where
  "httpx_headers_laws H \<longleftrightarrow>
     (\<forall>ps h n. h_new H ps = Inr h \<longrightarrow> h_values H h n = map snd (filter (\<lambda>p. lower (fst p) = lower n) ps)) \<and>
     (\<forall>h k v h' n. h_set H h k v = Inr h' \<longrightarrow>
        h_values H h' n = (if lower n = lower k then [v] else h_values H h n))"

definition client_header_pairs :: "headers \<Rightarrow> (pystr \<times> pystr) list" where
  "client_header_pairs raw =
     filter (\<lambda>p. lower (fst p) \<noteq> request_id_header)
       (map (\<lambda>(k, v). (latin1_decode k, latin1_decode v)) (filter_request_headers raw))"

fun set_headers :: "'h headers_api \<Rightarrow> 'h \<Rightarrow> (pystr \<times> pystr) list \<Rightarrow> exc + 'h" where
  "set_headers H h [] = Inr h"
| "set_headers H h ((k, v) # ps) = bind_exc (h_set H h k v) (\<lambda>h'. set_headers H h' ps)"

fun merge_loop :: "'h headers_api \<Rightarrow> 'h \<Rightarrow> headers \<Rightarrow> pystr set \<Rightarrow> exc + 'h" where
  "merge_loop H h [] allowlist = Inr h"
| "merge_loop H h ((k, v) # raw) allowlist =
     (let key = latin1_decode k; lk = lower key
      in if lk \<notin> allowlist then merge_loop H h raw allowlist
         else if lk \<in> set forward_http_blocklist then merge_loop H h raw allowlist
         else bind_exc (h_set H h key (latin1_decode v)) (\<lambda>h'. merge_loop H h' raw allowlist))"

definition merge_allowlisted_browser_headers ::
  "'h headers_api \<Rightarrow> 'h \<Rightarrow> headers \<Rightarrow> pystr set \<Rightarrow> exc + 'h" where
  "merge_allowlisted_browser_headers H h raw allowlist =
     (if allowlist = {} then Inr h else merge_loop H h raw allowlist)"

definition upstream_headers ::
  "'h headers_api \<Rightarrow> scope \<Rightarrow> pystr \<Rightarrow> pystr option \<Rightarrow> pystr set \<Rightarrow> pystr \<Rightarrow> exc + 'h" where
  "upstream_headers H sc upstream forwarded_prefix allowlist request_id =
     bind_exc (h_new H (client_header_pairs (sc_headers sc))) (\<lambda>h0.
     bind_exc (public_host_from_scope sc upstream) (\<lambda>public_host.
     bind_exc (h_set H h0 (u ''host'') public_host) (\<lambda>h1.
     bind_exc (forwarded_upstream_header_pairs sc public_host forwarded_prefix) (\<lambda>ps.
     bind_exc (set_headers H h1 ps) (\<lambda>h2.
     bind_exc (merge_allowlisted_browser_headers H h2 (sc_headers sc) allowlist) (\<lambda>h3.
     h_set H h3 request_id_header request_id))))))"

subsection \<open>Filtering facts\<close>

lemma filter_request_headers_conv:
  "filter_request_headers raw =
     filter (\<lambda>(k, v). bytes_lower k \<notin> set (hop_by_hop_headers @ client_forwarding_headers) \<and> bytes_lower k \<noteq> ''host'') raw"
  by (induction raw rule: filter_request_headers.induct) (auto simp: Let_def)

lemma lower_cp_ascii: "d < 128 \<Longrightarrow> c < 256 \<Longrightarrow> lower_cp c = d \<longleftrightarrow> (if 65 \<le> c \<and> c \<le> 90 then c + 32 else c) = d"
  by (auto simp: lower_cp_def)

lemma lower_latin1_ascii:
  "\<forall>c \<in> set n. of_char c < (128 :: nat) \<Longrightarrow> lower (latin1_decode k) = u n \<longleftrightarrow> bytes_lower k = n"
proof (induction k arbitrary: n)
  case Nil
  then show ?case by (auto simp: lower_def latin1_decode_def bytes_lower_def)
next
  case (Cons c k)
  show ?case
  proof (cases n)
    case Nil
    then show ?thesis by (simp add: bytes_lower_def latin1_decode_def)
  next
    case (Cons d m)
    have c: "of_char c < (256 :: nat)" by simp
    have "lower_char c = d \<longleftrightarrow> of_char (lower_char c) = (of_char d :: nat)" by simp
    then have "lower_cp (of_char c) = of_char d \<longleftrightarrow> lower_char c = d"
      using Cons.prems \<open>n = d # m\<close> c lower_cp_ascii [of "of_char d" "of_char c"] of_char_lower_char [of c]
      by (auto split: if_splits)
    with Cons.IH [of m] Cons.prems \<open>n = d # m\<close> show ?thesis
      by (simp add: lower_def latin1_decode_def bytes_lower_def u.simps)
  qed
qed

lemma forwarded_names_lower [simp]:
  "lower (u ''X-Forwarded-Host'') = u ''x-forwarded-host''"
  "lower (u ''X-Forwarded-Proto'') = u ''x-forwarded-proto''"
  "lower (u ''X-Forwarded-Port'') = u ''x-forwarded-port''"
  "lower (u ''X-Forwarded-Prefix'') = u ''x-forwarded-prefix''"
  "lower (u ''X-Forwarded-For'') = u ''x-forwarded-for''"
  "lower (u ''host'') = u ''host''"
  "lower (u ''x-request-id'') = u ''x-request-id''"
  "lower request_id_header = request_id_header"
  by (simp_all add: pystr_eval request_id_header_def)

lemma forwarded_pairs_names:
  assumes "forwarded_upstream_header_pairs sc ph pfx = Inr ps"
  shows "distinct (map (\<lambda>p. lower (fst p)) ps)"
    and "p \<in> set ps \<Longrightarrow> lower (fst p) \<in> set (map u client_forwarding_headers)"
  using assms
  by (auto simp: forwarded_upstream_header_pairs_def client_forwarding_headers_def bind_exc_Inr_iff Let_def
      split: option.splits if_splits)

lemma set_headers_values:
  assumes "httpx_headers_laws H" and "set_headers H h ps = Inr h'" and "distinct (map (\<lambda>p. lower (fst p)) ps)"
  shows "h_values H h' n =
     (if lower n \<in> (\<lambda>p. lower (fst p)) ` set ps then map snd (filter (\<lambda>p. lower (fst p) = lower n) ps)
      else h_values H h n)"
  using assms
proof (induction H h ps rule: set_headers.induct)
  case (1 H h)
  then show ?case by simp
next
  case (2 H h k v ps)
  then obtain h1 where h1: "h_set H h k v = Inr h1" "set_headers H h1 ps = Inr h'"
    by (auto simp: bind_exc_Inr_iff)
  have IH: "h_values H h' n = (if lower n \<in> (\<lambda>p. lower (fst p)) ` set ps
      then map snd (filter (\<lambda>p. lower (fst p) = lower n) ps) else h_values H h1 n)"
    using 2 h1 by auto
  have "h_values H h1 n = (if lower n = lower k then [v] else h_values H h n)"
    using h1(1) 2(2) by (auto simp: httpx_headers_laws_def)
  moreover have "lower n = lower k \<Longrightarrow> filter (\<lambda>p. lower (fst p) = lower n) ps = []"
    using 2(4) by (auto simp: filter_empty_conv) (metis fst_conv image_eqI)
  ultimately show ?case using IH 2(4) by (auto simp: image_iff)
qed

lemma merge_loop_values:
  assumes "httpx_headers_laws H" and "merge_loop H h raw allow = Inr h'"
    and "lower n \<notin> allow \<or> lower n \<in> set forward_http_blocklist"
  shows "h_values H h' n = h_values H h n"
  using assms
proof (induction H h raw allow rule: merge_loop.induct)
  case (1 H h allow)
  then show ?case by simp
next
  case (2 H h k v raw allow)
  show ?case
  proof (cases "lower (latin1_decode k) \<in> allow \<and> lower (latin1_decode k) \<notin> set forward_http_blocklist")
    case True
    with 2(5) obtain h1 where h1: "h_set H h (latin1_decode k) (latin1_decode v) = Inr h1"
      "merge_loop H h1 raw allow = Inr h'" by (auto simp: Let_def bind_exc_Inr_iff)
    with True 2(3) have "h_values H h' n = h_values H h1 n" using 2(4,6) by simp
    moreover have "h_values H h1 n = h_values H h n"
      using h1(1) 2(4,6) True by (auto simp: httpx_headers_laws_def)
    ultimately show ?thesis by simp
  next
    case False
    with 2(5) have "merge_loop H h raw allow = Inr h'" by (auto simp: Let_def split: if_splits)
    with False 2(1) [OF refl refl] 2(2) [OF refl refl] 2(4,6) show ?thesis by blast
  qed
qed

lemma merge_values:
  assumes "httpx_headers_laws H" and "merge_allowlisted_browser_headers H h raw allow = Inr h'"
    and "lower n \<notin> allow \<or> lower n \<in> set forward_http_blocklist"
  shows "h_values H h' n = h_values H h n"
  using assms merge_loop_values [OF assms(1), of h raw allow h' n]
  by (simp add: merge_allowlisted_browser_headers_def split: if_splits)

lemma upstream_headers_InrE:
  assumes "upstream_headers H sc upstream pfx allow rid = Inr h"
  obtains h0 ph h1 ps h2 h3 where "h_new H (client_header_pairs (sc_headers sc)) = Inr h0"
    and "public_host_from_scope sc upstream = Inr ph" and "h_set H h0 (u ''host'') ph = Inr h1"
    and "forwarded_upstream_header_pairs sc ph pfx = Inr ps" and "set_headers H h1 ps = Inr h2"
    and "merge_allowlisted_browser_headers H h2 (sc_headers sc) allow = Inr h3"
    and "h_set H h3 request_id_header rid = Inr h"
  using assms unfolding upstream_headers_def bind_exc_Inr_iff by blast

lemma client_values_conv:
  assumes "\<forall>c \<in> set n. of_char c < (128 :: nat)"
  shows "map snd (filter (\<lambda>p. lower (fst p) = u n) (client_header_pairs raw)) =
    (if n \<in> set (hop_by_hop_headers @ client_forwarding_headers) \<union> {''host'', ''x-request-id''} then []
     else map (\<lambda>(k, v). latin1_decode v) (filter (\<lambda>(k, v). bytes_lower k = n) raw))"
proof (induction raw)
  case Nil
  then show ?case by (simp add: client_header_pairs_def)
next
  case (Cons kv raw)
  obtain k v where kv: "kv = (k, v)" by (cases kv)
  have r: "lower (latin1_decode k) = request_id_header \<longleftrightarrow> bytes_lower k = ''x-request-id''"
    unfolding request_id_header_def by (rule lower_latin1_ascii) simp
  have n: "lower (latin1_decode k) = u n \<longleftrightarrow> bytes_lower k = n"
    using assms by (rule lower_latin1_ascii)
  have "client_header_pairs (kv # raw) =
     (if bytes_lower k \<in> set (hop_by_hop_headers @ client_forwarding_headers) \<union> {''host'', ''x-request-id''}
      then [] else [(latin1_decode k, latin1_decode v)]) @ client_header_pairs raw"
    by (auto simp: client_header_pairs_def kv r Let_def)
  with Cons.IH n kv show ?case by (cases "bytes_lower k = n") auto
qed

text \<open>A header map with the promised behaviour: a list of pairs, in order.\<close>

definition assoc_headers :: "(pystr \<times> pystr) list headers_api" where
  "assoc_headers = \<lparr>h_new = Inr,
     h_set = (\<lambda>h k v. Inr (filter (\<lambda>p. lower (fst p) \<noteq> lower k) h @ [(k, v)])),
     h_values = (\<lambda>h n. map snd (filter (\<lambda>p. lower (fst p) = lower n) h))\<rparr>"

lemma assoc_headers_laws: "httpx_headers_laws assoc_headers"
  by (auto simp: httpx_headers_laws_def assoc_headers_def filter_empty_conv
      intro!: arg_cong [where f = "map snd"] filter_cong)

subsection \<open>What Streamlit is told about the request\<close>


text \<open>A request whose client pretends to be \<open>1.2.3.4\<close> behind another proxy.\<close>

definition spoofing_scope :: scope where
  "spoofing_scope = \<lparr>sc_type = HttpScope, sc_method = Some (u ''GET''), sc_path = Some (u ''/app''), sc_raw_path = None,
     sc_root_path = None, sc_query = Some ''a=1'',
     sc_headers = [(''Host'', ''shop.example:8443''), (''X-Forwarded-For'', ''1.2.3.4''), (''X-REQUEST-ID'', ''r1''),
                   (''Cookie'', ''s=1''), (''x-forwarded-Prefix'', ''/evil''), (''Cookie'', ''t=2'')],
     sc_scheme = Some (u ''https''), sc_client = Some (u ''10.0.0.9'', 4711), sc_subprotocols = []\<rparr>"

definition spoofing_upstream_headers :: "(pystr \<times> pystr) list" where
  "spoofing_upstream_headers =
     [(u ''Cookie'', u ''s=1''), (u ''Cookie'', u ''t=2''), (u ''host'', u ''shop.example:8443''),
      (u ''X-Forwarded-Host'', u ''shop.example:8443''), (u ''X-Forwarded-Proto'', u ''https''),
      (u ''X-Forwarded-Port'', u ''8443''), (u ''X-Forwarded-For'', u ''10.0.0.9''), (u ''x-request-id'', u ''r1'')]"

lemma spoofing_public_host:
  "public_host_from_scope spoofing_scope (u ''http://127.0.0.1:8501'') = Inr (u ''shop.example:8443'')"
  by (simp add: spoofing_scope_def public_host_from_scope_def pystr_eval)

lemma spoofing_pairs:
  "forwarded_upstream_header_pairs spoofing_scope (u ''shop.example:8443'') None =
     Inr [(u ''X-Forwarded-Host'', u ''shop.example:8443''), (u ''X-Forwarded-Proto'', u ''https''),
          (u ''X-Forwarded-Port'', u ''8443''), (u ''X-Forwarded-For'', u ''10.0.0.9'')]"
proof -
  have "port_from_host_header (u ''shop.example:8443'') = Inr (Some 8443)"
    by (simp add: port_from_host_header_def digits_port_def pystr_eval)
  moreover have "str_of_nat 8443 = u ''8443''" by (simp add: pystr_eval pystr_run)
  ultimately show ?thesis
    by (simp add: forwarded_upstream_header_pairs_def spoofing_scope_def or_str_def)
qed

lemma spoofing_run:
  "upstream_headers assoc_headers spoofing_scope (u ''http://127.0.0.1:8501'') None {} (u ''r1'')
     = Inr spoofing_upstream_headers"
proof -
  have "client_header_pairs (sc_headers spoofing_scope) = [(u ''Cookie'', u ''s=1''), (u ''Cookie'', u ''t=2'')]"
    by (simp add: client_header_pairs_def spoofing_scope_def hop_by_hop_headers_def client_forwarding_headers_def
        request_id_header_def pystr_eval)
  moreover have "lower (u ''Cookie'') = u ''cookie''" by (simp add: pystr_eval)
  ultimately show ?thesis
    by (simp add: upstream_headers_def spoofing_public_host spoofing_pairs assoc_headers_def
        merge_allowlisted_browser_headers_def spoofing_upstream_headers_def request_id_header_def)
qed


text \<open>Streamlit always sees the gateway's request id and the browser's \<open>Host\<close>, exactly once each,
  whatever the client sends and the allowlist names.\<close>

theorem upstream_request_id_and_host:
  assumes "httpx_headers_laws H" and "upstream_headers H sc upstream pfx allow rid = Inr h"
  shows "h_values H h (u ''x-request-id'') = [rid]
       \<and> (\<exists>ph. public_host_from_scope sc upstream = Inr ph \<and> h_values H h (u ''host'') = [ph])"
proof -
  obtain h0 ph h1 ps h2 h3 where st: "public_host_from_scope sc upstream = Inr ph"
    "h_set H h0 (u ''host'') ph = Inr h1" "forwarded_upstream_header_pairs sc ph pfx = Inr ps"
    "set_headers H h1 ps = Inr h2" "merge_allowlisted_browser_headers H h2 (sc_headers sc) allow = Inr h3"
    "h_set H h3 request_id_header rid = Inr h"
    using assms(2) by (rule upstream_headers_InrE)
  have rid: "h_values H h (u ''x-request-id'') = [rid]"
    using assms(1) st(6) by (auto simp: httpx_headers_laws_def request_id_header_def pystr_eval)
  have "lower (fst p) \<noteq> u ''host''" if "p \<in> set ps" for p
    using forwarded_pairs_names(2) [OF st(3) that] by (auto simp: client_forwarding_headers_def)
  then have "u ''host'' \<notin> (\<lambda>p. lower (fst p)) ` set ps" by force
  then have "h_values H h2 (u ''host'') = [ph]"
    using set_headers_values [OF assms(1) st(4) forwarded_pairs_names(1) [OF st(3)], of "u ''host''"] st(2) assms(1)
    by (auto simp: httpx_headers_laws_def)
  then have "h_values H h3 (u ''host'') = [ph]"
    using merge_values [OF assms(1) st(5), of "u ''host''"] by (simp add: forward_http_blocklist_def)
  then have "h_values H h (u ''host'') = [ph]"
    using assms(1) st(6) by (auto simp: httpx_headers_laws_def request_id_header_def pystr_eval)
  with rid st(1) show ?thesis by blast
qed

theorem upstream_request_id_and_host_witness:
  "h_values assoc_headers spoofing_upstream_headers (u ''x-request-id'') = [u ''r1'']
   \<and> h_values assoc_headers spoofing_upstream_headers (u ''host'') = [u ''shop.example:8443'']"
  using upstream_request_id_and_host [OF assoc_headers_laws spoofing_run] by (simp add: spoofing_public_host)

text \<open>Every other header of the client reaches Streamlit with all its values in order, credentials
  included: \<open>Cookie\<close> and \<open>Authorization\<close> are never altered by the allowlist.\<close>

theorem upstream_headers_pass_through:
  assumes "httpx_headers_laws H" and "upstream_headers H sc upstream pfx allow rid = Inr h"
    and "bytes_lower n = n" and "\<forall>c \<in> set n. of_char c < (128 :: nat)"
    and "n \<notin> set (hop_by_hop_headers @ client_forwarding_headers) \<union> {''host'', ''x-request-id''}"
    and "u n \<notin> allow \<or> u n \<in> set forward_http_blocklist"
  shows "h_values H h (u n) = map (\<lambda>(k, v). latin1_decode v) (filter (\<lambda>(k, v). bytes_lower k = n) (sc_headers sc))"
proof -
  obtain h0 ph h1 ps h2 h3 where st: "h_new H (client_header_pairs (sc_headers sc)) = Inr h0"
    "public_host_from_scope sc upstream = Inr ph" "h_set H h0 (u ''host'') ph = Inr h1"
    "forwarded_upstream_header_pairs sc ph pfx = Inr ps" "set_headers H h1 ps = Inr h2"
    "merge_allowlisted_browser_headers H h2 (sc_headers sc) allow = Inr h3"
    "h_set H h3 request_id_header rid = Inr h"
    using assms(2) by (rule upstream_headers_InrE)
  have ln: "lower (u n) = u n"
    using assms(3) lower_latin1_ascii [OF assms(4), of n] by (metis latin1_decode_eq_u_iff)
  have nh: "u n \<noteq> u ''host''" "u n \<noteq> request_id_header"
    using assms(5) by (auto simp: request_id_header_def)
  have "lower (fst p) \<noteq> u n" if "p \<in> set ps" for p
    using forwarded_pairs_names(2) [OF st(4) that] assms(5) by auto
  then have "u n \<notin> (\<lambda>p. lower (fst p)) ` set ps" by force
  then have "h_values H h (u n) = h_values H h0 (u n)"
    using assms(1) st(3,7) ln nh merge_values [OF assms(1) st(6), of "u n"] assms(6)
      set_headers_values [OF assms(1) st(5) forwarded_pairs_names(1) [OF st(4)], of "u n"]
    by (auto simp: httpx_headers_laws_def)
  then show ?thesis
    using assms(1) st(1) ln client_values_conv [OF assms(4), of "sc_headers sc"] assms(5)
    by (auto simp: httpx_headers_laws_def)
qed

theorem upstream_headers_pass_through_witness:
  "h_values assoc_headers spoofing_upstream_headers (u ''cookie'') = [u ''s=1'', u ''t=2'']"
  using upstream_headers_pass_through [OF assoc_headers_laws spoofing_run, of "''cookie''"]
  by (simp add: spoofing_scope_def hop_by_hop_headers_def client_forwarding_headers_def pystr_eval)

subsection \<open>The allowlist\<close>

text \<open>The names the allowlist keeps are well-formed lower-case names and none is blocklisted; the
  names reported as rejected are exactly the blocklisted ones of the input, without duplicates and
  sorted; every input is kept, rejected or malformed.\<close>

theorem allowlist_kept_and_rejected:
  "normalize_gateway_forward_header_allowlist names \<inter> set forward_http_blocklist = {}
   \<and> set (rejected_gateway_forward_header_allowlist names)
       = {n \<in> set forward_http_blocklist. \<exists>raw \<in> set names. lower (strip raw) = n}
   \<and> distinct (rejected_gateway_forward_header_allowlist names)
   \<and> sorted (rejected_gateway_forward_header_allowlist names)
   \<and> (\<lambda>raw. lower (strip raw)) ` set names \<subseteq> normalize_gateway_forward_header_allowlist names
        \<union> set (rejected_gateway_forward_header_allowlist names) \<union> {n. \<not> header_name_re n}"
proof -
  have nore: "\<not> header_name_re []" by (simp add: header_name_re_def)
  have nonempty: "[] \<notin> set forward_http_blocklist" by (simp add: forward_http_blocklist_def)
  have loop: "set (rejected_loop seen out names)
       = set out \<union> {n \<in> set forward_http_blocklist - seen. \<exists>raw \<in> set names. lower (strip raw) = n}"
    for seen out
    using nonempty
    by (induction seen out names rule: rejected_loop.induct) (auto simp: Let_def lower_def)
  have dist: "distinct out \<Longrightarrow> set out \<subseteq> seen \<Longrightarrow> distinct (rejected_loop seen out names)" for seen out
    by (induction seen out names rule: rejected_loop.induct) (simp_all add: Let_def, blast)
  have low: "map lower (rejected_loop seen out names) = rejected_loop seen out names" if "map lower out = out" for seen out
    using that by (induction seen out names rule: rejected_loop.induct) (auto simp: Let_def)
  let ?r = "rejected_gateway_forward_header_allowlist names"
  have set_r: "set ?r = {n \<in> set forward_http_blocklist. \<exists>raw \<in> set names. lower (strip raw) = n}"
    using loop [of "{}" "[]"] by (simp add: rejected_gateway_forward_header_allowlist_def)
  have "distinct ?r"
    using dist [of "[]" "{}"] by (simp add: rejected_gateway_forward_header_allowlist_def)
  have "map lower ?r = ?r"
    using low [of "[]" "{}"] set_r by (intro map_idI) auto
  moreover have "sorted (map lower ?r)"
    unfolding rejected_gateway_forward_header_allowlist_def by (rule sorted_sort_key)
  ultimately have "sorted ?r" by simp
  with set_r \<open>distinct ?r\<close> nore show ?thesis
    by (auto simp: normalize_gateway_forward_header_allowlist_def)
qed

text \<open>Contrary to the documentation of the setting, two hop-by-hop names pass the allowlist:
  \<open>proxy-authenticate\<close> and \<open>trailers\<close> are stripped from the client's headers but not blocklisted.\<close>

theorem allowlist_hop_by_hop_gap:
  "{n \<in> set hop_by_hop_headers. u n \<in> normalize_gateway_forward_header_allowlist (map u hop_by_hop_headers)}
     = {''proxy-authenticate'', ''trailers''}"
proof -
  have "normalize_gateway_forward_header_allowlist (map u hop_by_hop_headers)
          = {u ''proxy-authenticate'', u ''trailers''}"
    by (simp add: normalize_gateway_forward_header_allowlist_def hop_by_hop_headers_def forward_http_blocklist_def
        header_name_re_def name_start_cp_def pystr_eval)
  then show ?thesis by (auto simp: hop_by_hop_headers_def)
qed

subsection \<open>The port of the Host header\<close>

lemma digits_port_nat [simp]: "digits_port (str_of_nat n) = Inr (Some n)"
  by (simp add: digits_port_def)

lemma digits_port_error:
  "digits_port s = Inl e \<longleftrightarrow> e = ValueError \<and> isdigit s \<and> (\<exists>c \<in> set s. c \<in> {178, 179, 185})"
  by (auto simp: digits_port_def bind_exc_Inl_iff int_of_digits_def isdigit_def isdigit_cp_def)

text \<open>The port of the public host is read back from every host it can be written after, a name, an
  IPv4 address or a bracketed IPv6 address, and a host without a port has none.\<close>

theorem port_from_host_header_reads_back:
  assumes "\<not> startswith name (u ''['')" and "58 \<notin> set name" and "93 \<notin> set addr"
  shows "port_from_host_header (name @ 58 # str_of_nat n) = Inr (Some n)
       \<and> port_from_host_header (91 # addr @ 93 # 58 # str_of_nat n) = Inr (Some n)
       \<and> port_from_host_header name = Inr None
       \<and> port_from_host_header (91 # addr @ [93]) = Inr None"
proof -
  have col: "58 \<notin> set (str_of_nat n)" using str_of_nat_digits [of n] by auto
  have "\<not> startswith (name @ 58 # t) (u ''['')" for t
    using assms(1) by (cases name) (auto simp: pystr_eval)
  then have c1: "port_from_host_header (name @ 58 # str_of_nat n) = Inr (Some n)"
    using col by (simp add: port_from_host_header_def rsplit1_snoc)
  have br: "split1 (a @ 93 # 58 # t) [93, 58] = Some (a, t)" if "93 \<notin> set a" for a t
    using that
  proof (induction a)
    case Nil
    then show ?case by (subst split1.simps) simp
  next
    case (Cons c a)
    then show ?case by (subst append_Cons, subst split1.simps) auto
  qed
  have nobr: "split1 (a @ [93]) [93, 58] = None" if "93 \<notin> set a" for a
    using that
  proof (induction a)
    case Nil
    then show ?case by (simp add: split1.simps)
  next
    case (Cons c a)
    then show ?case by (subst append_Cons, subst split1.simps) auto
  qed
  have c2: "port_from_host_header (91 # addr @ 93 # 58 # str_of_nat n) = Inr (Some n)"
    using br [of "91 # addr"] assms(3) by (simp add: port_from_host_header_def pystr_eval)
  have c3: "port_from_host_header name = Inr None"
    using assms(1,2) by (simp add: port_from_host_header_def rsplit1_def)
  have "port_from_host_header (91 # addr @ [93]) = Inr None"
    using nobr [of "91 # addr"] assms(3) by (simp add: port_from_host_header_def pystr_eval)
  with c1 c2 c3 show ?thesis by blast
qed

theorem port_from_host_header_reads_back_witness:
  "port_from_host_header (u ''shop.example:8443'') = Inr (Some 8443)
   \<and> port_from_host_header (u ''[::1]:8443'') = Inr (Some 8443)"
proof -
  have "str_of_nat 8443 = u ''8443''" by (simp add: pystr_eval pystr_run)
  then show ?thesis
    using port_from_host_header_reads_back [of "u ''shop.example''" "u ''::1''" 8443]
    by (simp add: pystr_eval)
qed

text \<open>A \<open>Host\<close> header whose port holds a superscript digit (the byte 0xB2, say) is accepted by
  \<open>isdigit\<close> and rejected by \<open>int\<close>: building the upstream header block raises \<open>ValueError\<close> for such
  a request, and never any other error of the port parser.\<close>

theorem port_from_host_header_error:
  "port_from_host_header h = Inl e \<longleftrightarrow>
     e = ValueError \<and> (\<exists>rest. isdigit rest \<and> (\<exists>c \<in> set rest. c \<in> {178, 179, 185}) \<and>
       (if startswith h (u ''['') then (\<exists>a. split1 h (u '']:'') = Some (a, rest))
        else (\<exists>a. rsplit1 h 58 = Some (a, rest))))"
  by (cases "startswith h (u ''['')")
    (auto simp: port_from_host_header_def digits_port_error simp del: rsplit1_None_iff split: option.splits)

end
