(* ===== verification/Settings_Model.thy ===== *)
theory Settings_Model
  imports Gateway_Headers
begin

section \<open>Application settings\<close>

text \<open>
  Models \<open>config/settings.py\<close>: the record \<open>fluxlit_settings\<close> has the fields of \<open>FluxlitSettings\<close>
  in their order; \<open>settings_validate\<close> is the model's construction (field validators, bounds and
  the three model validators, in the order in which pydantic runs them). Reading the environment
  and the \<open>.env\<close> file into typed values is pydantic's: its result is the argument, except for the
  one field whose validator sees the untyped value (\<open>fwd_input\<close>). The JSON parser of the
  standard library is the argument \<open>json_loads\<close>.
\<close>

record fluxlit_settings =
  fs_rejected_forward_headers :: "pystr list"
  fs_title :: pystr
  fs_gateway_host :: pystr
  fs_gateway_port :: int
  fs_streamlit_host :: pystr
  fs_streamlit_port :: int
  fs_log_level :: pystr
  fs_api_mount_path :: pystr
  fs_streamlit_public_path :: pystr
  fs_root_path :: pystr
  fs_trust_proxy :: bool
  fs_forwarded_allow_ips :: "pystr option"
  fs_enable_request_logging :: bool
  fs_enable_gateway_access_log :: bool
  fs_debug :: bool
  fs_url_session_query_param :: pystr
  fs_enable_gateway_prometheus_metrics :: bool
  fs_gateway_prometheus_metrics_path :: pystr
  fs_gateway_upstream_connect_timeout_s :: real
  fs_gateway_upstream_read_timeout_s :: real
  fs_gateway_max_proxy_request_body_bytes :: int
  fs_gateway_max_concurrent_upstream_http :: int
  fs_gateway_httpx_max_connections :: int
  fs_gateway_httpx_max_keepalive_connections :: int
  fs_gateway_ws_open_timeout_s :: real
  fs_gateway_ws_ping_interval_s :: "real option"
  fs_gateway_ws_ping_timeout_s :: "real option"
  fs_gateway_ws_close_timeout_s :: "real option"
  fs_gateway_ws_max_message_bytes :: "int option"
  fs_gateway_forward_client_headers_to_streamlit :: "pystr list"
  fs_uvicorn_graceful_shutdown_timeout_s :: "real option"
  fs_enable_security_headers :: bool
  fs_cors_allow_origins :: "pystr list"
  fs_cors_allow_credentials :: bool
  fs_cors_middleware_kwargs :: "json dict"
  fs_streamlit_run_cli_args :: "pystr list"
  fs_streamlit_page_config :: "json dict"
  fs_public_base_url :: pystr
  fs_strict_public_base_url :: bool
  fs_strict_page_signatures :: bool
  fs_strict_startup :: bool
  fs_experimental_yield_pages :: bool
  fs_async_page_depends :: bool
  fs_jwt_issuer :: pystr
  fs_jwt_audience :: pystr
  fs_jwt_hs256_secret :: pystr
  fs_jwt_jwks_url :: pystr
  fs_jwt_leeway_seconds :: int
  fs_oidc_bff_secret :: pystr

definition default_settings :: fluxlit_settings where
  "default_settings = \<lparr>
     fs_rejected_forward_headers = [], fs_title = u ''FluxLit'', fs_gateway_host = u ''127.0.0.1'',
     fs_gateway_port = 8000, fs_streamlit_host = u ''127.0.0.1'', fs_streamlit_port = 0,
     fs_log_level = u ''info'', fs_api_mount_path = u ''/api'', fs_streamlit_public_path = [],
     fs_root_path = [], fs_trust_proxy = False, fs_forwarded_allow_ips = None,
     fs_enable_request_logging = False, fs_enable_gateway_access_log = False, fs_debug = False,
     fs_url_session_query_param = u ''fluxlit_sid'', fs_enable_gateway_prometheus_metrics = False,
     fs_gateway_prometheus_metrics_path = u ''/__fluxlit/metrics'',
     fs_gateway_upstream_connect_timeout_s = 30, fs_gateway_upstream_read_timeout_s = 120,
     fs_gateway_max_proxy_request_body_bytes = 0, fs_gateway_max_concurrent_upstream_http = 0,
     fs_gateway_httpx_max_connections = 0, fs_gateway_httpx_max_keepalive_connections = 0,
     fs_gateway_ws_open_timeout_s = 30, fs_gateway_ws_ping_interval_s = None,
     fs_gateway_ws_ping_timeout_s = None, fs_gateway_ws_close_timeout_s = None,
     fs_gateway_ws_max_message_bytes = None, fs_gateway_forward_client_headers_to_streamlit = [],
     fs_uvicorn_graceful_shutdown_timeout_s = None, fs_enable_security_headers = False,
     fs_cors_allow_origins = [], fs_cors_allow_credentials = False, fs_cors_middleware_kwargs = [],
     fs_streamlit_run_cli_args = [], fs_streamlit_page_config = [], fs_public_base_url = [],
     fs_strict_public_base_url = False, fs_strict_page_signatures = False, fs_strict_startup = False,
     fs_experimental_yield_pages = False, fs_async_page_depends = False, fs_jwt_issuer = [],
     fs_jwt_audience = [], fs_jwt_hs256_secret = [], fs_jwt_jwks_url = [], fs_jwt_leeway_seconds = 0,
     fs_oidc_bff_secret = []\<rparr>"

subsection \<open>The list of forwarded client headers\<close>

text \<open>What the field validator may see; the elements of a list are already \<open>str(x)\<close>.\<close>

datatype fwd_input = FwdMissing | FwdNone | FwdStr pystr | FwdList "pystr list" | FwdOther

definition nonblank_parts :: "pystr list \<Rightarrow> pystr list" where
  "nonblank_parts ps = filter (\<lambda>p. p \<noteq> []) (map strip ps)"

definition coerce_forward_header_list :: "fwd_input \<Rightarrow> pystr list" where
  "coerce_forward_header_list v =
     (case v of FwdStr s \<Rightarrow> if s = [] then [] else nonblank_parts (split_chr 44 s)
      | FwdList xs \<Rightarrow> nonblank_parts xs
      | _ \<Rightarrow> [])"

definition validate_forward_header_list :: "pystr list \<Rightarrow> exc + pystr list" where
  "validate_forward_header_list v =
     (let norm = normalize_gateway_forward_header_allowlist v
      in if card norm > 32 then Inl ValueError else Inr (sorted_list_of_set norm))"

fun json_str_items :: "(json \<Rightarrow> pystr) \<Rightarrow> json list \<Rightarrow> pystr list" where
  "json_str_items str [] = []"
| "json_str_items str (x # xs) =
     (if strip (str x) \<noteq> [] then strip (str x) # json_str_items str xs else json_str_items str xs)"

definition parse_raw_gateway_forward_env ::
  "(json \<Rightarrow> pystr) \<Rightarrow> (pystr \<Rightarrow> exc + json) \<Rightarrow> pystr \<Rightarrow> pystr list" where
  "parse_raw_gateway_forward_env str json_loads env_raw =
     (let text = strip env_raw
      in if text = [] then []
         else if startswith text (u ''['')
         then (case json_loads text of Inr (JArr xs) \<Rightarrow> json_str_items str xs | _ \<Rightarrow> [])
         else nonblank_parts (split_chr 44 text))"

definition raw_forward_names ::
  "(json \<Rightarrow> pystr) \<Rightarrow> (pystr \<Rightarrow> exc + json) \<Rightarrow> pystr dict \<Rightarrow> fwd_input \<Rightarrow> pystr list" where
  "raw_forward_names str json_loads env v =
     (case v of
        FwdStr s \<Rightarrow> nonblank_parts (split_chr 44 s)
      | FwdList xs \<Rightarrow> nonblank_parts xs
      | FwdMissing \<Rightarrow> parse_raw_gateway_forward_env str json_loads
          (case map_of env (u ''FLUXLIT_GATEWAY_FORWARD_CLIENT_HEADERS_TO_STREAMLIT'') of None \<Rightarrow> [] | Some s \<Rightarrow> s)
      | _ \<Rightarrow> [])"

subsection \<open>Field bounds and model validators\<close>

definition field_bounds_ok :: "fluxlit_settings \<Rightarrow> bool" where
  "field_bounds_ok fs \<longleftrightarrow>
     0 \<le> fs_gateway_upstream_connect_timeout_s fs \<and> 0 \<le> fs_gateway_upstream_read_timeout_s fs \<and>
     0 \<le> fs_gateway_max_proxy_request_body_bytes fs \<and> 0 \<le> fs_gateway_max_concurrent_upstream_http fs \<and>
     0 \<le> fs_gateway_httpx_max_connections fs \<and> 0 \<le> fs_gateway_httpx_max_keepalive_connections fs \<and>
     0 \<le> fs_gateway_ws_open_timeout_s fs \<and>
     (case fs_uvicorn_graceful_shutdown_timeout_s fs of None \<Rightarrow> True | Some t \<Rightarrow> 0 \<le> t)"

definition public_mount_path :: "fluxlit_settings \<Rightarrow> pystr" where
  "public_mount_path fs =
     (let r = strip (fs_root_path fs) in if r \<noteq> [] then r else strip (fs_streamlit_public_path fs))"

definition apply_legacy_public_base_url :: "pystr dict \<Rightarrow> fluxlit_settings \<Rightarrow> fluxlit_settings" where
  "apply_legacy_public_base_url env fs =
     (let legacy = strip (opt_str (map_of env (u ''PUBLIC_BASE_URL'')));
          namespaced = strip (opt_str (map_of env (u ''FLUXLIT_PUBLIC_BASE_URL'')))
      in if legacy \<noteq> [] \<and> namespaced = [] \<and> strip (fs_public_base_url fs) = []
         then fs\<lparr>fs_public_base_url := legacy\<rparr> else fs)"

datatype strict_violation =
    BroadForwardedAllowIps
  | UnlimitedProxiedBody
  | SubpathWithoutPublicBase
  | SubpathWithoutTrustProxy
  | RejectedForwardHeaders "pystr list"
  | UnparsablePublicBase
  | PublicBasePathMismatch pystr pystr

definition public_base_violation :: "fluxlit_settings \<Rightarrow> strict_violation option" where
  "public_base_violation fs =
     (let pb = strip (fs_public_base_url fs)
      in if pb = [] then None
         else (case urlparse pb of
             Inl _ \<Rightarrow> Some UnparsablePublicBase
           | Inr parsed \<Rightarrow>
               let root = rstrip_slash (public_mount_path fs); public_path = rstrip_slash (u_path parsed)
               in if root \<noteq> [] \<and> public_path \<noteq> [] \<and> public_path \<noteq> root
                  then Some (PublicBasePathMismatch public_path root) else None))"

definition strict_startup_violation :: "fluxlit_settings \<Rightarrow> strict_violation option" where
  "strict_startup_violation fs =
     (let allow = strip (opt_str (fs_forwarded_allow_ips fs)); mount = public_mount_path fs
      in if \<not> fs_strict_startup fs then None
         else if fs_trust_proxy fs \<and> (allow = [] \<or> allow = u ''*'') then Some BroadForwardedAllowIps
         else if fs_trust_proxy fs \<and> fs_gateway_max_proxy_request_body_bytes fs = 0 then Some UnlimitedProxiedBody
         else if mount \<noteq> [] \<and> strip (fs_public_base_url fs) = [] then Some SubpathWithoutPublicBase
         else if mount \<noteq> [] \<and> \<not> fs_trust_proxy fs then Some SubpathWithoutTrustProxy
         else if fs_rejected_forward_headers fs \<noteq> []
         then Some (RejectedForwardHeaders (fs_rejected_forward_headers fs))
         else public_base_violation fs)"

definition settings_validate ::
  "(json \<Rightarrow> pystr) \<Rightarrow> (pystr \<Rightarrow> exc + json) \<Rightarrow> pystr dict \<Rightarrow> fwd_input \<Rightarrow> fluxlit_settings \<Rightarrow>
     exc + fluxlit_settings" where
  "settings_validate str json_loads env fwd data =
     (let raw_list = raw_forward_names str json_loads env fwd
      in if \<not> field_bounds_ok data then Inl ValidationError
         else (case (if fwd = FwdMissing then Inr [] else validate_forward_header_list (coerce_forward_header_list fwd)) of
             Inl _ \<Rightarrow> Inl ValidationError
           | Inr allow \<Rightarrow>
               let model = data\<lparr>fs_api_mount_path := normalize_api_mount_path (fs_api_mount_path data),
                                fs_gateway_forward_client_headers_to_streamlit := allow,
                                fs_rejected_forward_headers := rejected_gateway_forward_header_allowlist raw_list\<rparr>;
                   model' = apply_legacy_public_base_url env model
               in (case strict_startup_violation model' of
                     Some _ \<Rightarrow> Inl ValidationError | None \<Rightarrow> Inr model')))"

subsection \<open>What construction guarantees\<close>

text \<open>The invariant of every settings object: the mount path is the root or starts with a slash and
  does not end in one, the allowlist is sorted, free of duplicates, within its limit and contains
  only well-formed names that may be forwarded, and the bounded fields are within bounds.\<close>

definition settings_ok :: "fluxlit_settings \<Rightarrow> bool" where
  "settings_ok fs \<longleftrightarrow>
     (fs_api_mount_path fs = [slash] \<or> (fs_api_mount_path fs \<noteq> [] \<and> mount_shape (fs_api_mount_path fs))) \<and>
     sorted (fs_gateway_forward_client_headers_to_streamlit fs) \<and>
     distinct (fs_gateway_forward_client_headers_to_streamlit fs) \<and>
     length (fs_gateway_forward_client_headers_to_streamlit fs) \<le> 32 \<and>
     (\<forall>n \<in> set (fs_gateway_forward_client_headers_to_streamlit fs).
        header_name_re n \<and> n \<notin> set forward_http_blocklist) \<and>
     field_bounds_ok fs"

lemma finite_allowlist [simp]: "finite (normalize_gateway_forward_header_allowlist names)"
  by (simp add: normalize_gateway_forward_header_allowlist_def)

lemma allowlist_member:
  "n \<in> normalize_gateway_forward_header_allowlist names \<Longrightarrow> header_name_re n \<and> n \<notin> set forward_http_blocklist"
  by (auto simp: normalize_gateway_forward_header_allowlist_def)

lemma apply_legacy_other:
  "apply_legacy_public_base_url env fs = fs\<lparr>fs_public_base_url := fs_public_base_url (apply_legacy_public_base_url env fs)\<rparr>"
  by (simp add: apply_legacy_public_base_url_def Let_def)

lemma apply_legacy_settings_ok [simp]: "settings_ok (apply_legacy_public_base_url env fs) = settings_ok fs"
  by (simp add: apply_legacy_public_base_url_def Let_def settings_ok_def field_bounds_ok_def)

lemma settings_validate_model:
  assumes "settings_validate str json_loads env fwd data = Inr fs"
  obtains allow where
    "fwd = FwdMissing \<and> allow = [] \<or> fwd \<noteq> FwdMissing \<and>
       validate_forward_header_list (coerce_forward_header_list fwd) = Inr allow"
    "field_bounds_ok data"
    "fs = apply_legacy_public_base_url env (data\<lparr>fs_api_mount_path := normalize_api_mount_path (fs_api_mount_path data),
        fs_gateway_forward_client_headers_to_streamlit := allow,
        fs_rejected_forward_headers :=
          rejected_gateway_forward_header_allowlist (raw_forward_names str json_loads env fwd)\<rparr>)"
    "strict_startup_violation fs = None"
  using assms
  by (auto simp: settings_validate_def Let_def split: if_splits sum.splits option.splits)

lemma settings_validate_invariant_lemma:
  assumes "settings_validate str json_loads env fwd data = Inr fs"
  shows "settings_ok fs"
proof -
  obtain allow where a: "fwd = FwdMissing \<and> allow = [] \<or> fwd \<noteq> FwdMissing \<and>
       validate_forward_header_list (coerce_forward_header_list fwd) = Inr allow"
    and b: "field_bounds_ok data"
    and fs: "fs = apply_legacy_public_base_url env (data\<lparr>fs_api_mount_path := normalize_api_mount_path (fs_api_mount_path data),
        fs_gateway_forward_client_headers_to_streamlit := allow,
        fs_rejected_forward_headers :=
          rejected_gateway_forward_header_allowlist (raw_forward_names str json_loads env fwd)\<rparr>)"
    using assms by (rule settings_validate_model)
  from a have "sorted allow \<and> distinct allow \<and> length allow \<le> 32 \<and>
      (\<forall>n \<in> set allow. header_name_re n \<and> n \<notin> set forward_http_blocklist)"
    by (auto simp: validate_forward_header_list_def Let_def allowlist_member split: if_splits)
  with b show ?thesis
    using normalize_api_mount_path_shape [of "fs_api_mount_path data"]
    unfolding fs apply_legacy_settings_ok by (simp add: settings_ok_def field_bounds_ok_def)
qed

text \<open>Every settings object that construction accepts satisfies the settings invariant, whatever the
  environment, the untyped header list and the other fields are.\<close>

theorem settings_validate_invariant:
  assumes "settings_validate str json_loads env fwd data = Inr fs"
  shows "settings_ok fs"
  using assms by (rule settings_validate_invariant_lemma)

definition sample_settings :: fluxlit_settings where
  "sample_settings = default_settings\<lparr>fs_api_mount_path := u ''v1/'', fs_root_path := u ''/app'',
     fs_trust_proxy := True, fs_forwarded_allow_ips := Some (u ''10.0.0.1''), fs_strict_startup := True,
     fs_gateway_max_proxy_request_body_bytes := 1048576, fs_public_base_url := u ''https://x.example/app''\<rparr>"

lemma sample_settings_strict:
  "public_mount_path sample_settings = u ''/app''" "strict_startup_violation sample_settings = None"
proof -
  show m: "public_mount_path sample_settings = u ''/app''"
    by (simp add: public_mount_path_def sample_settings_def default_settings_def pystr_eval)
  have p: "urlparse (u ''https://x.example/app'') = Inr \<lparr>u_scheme = u ''https'', u_netloc = u ''x.example'',
      u_path = u ''/app'', u_params = [], u_query = [], u_fragment = []\<rparr>"
    by (simp add: url_evals pystr_eval pystr_run)
  have s: "strip (u ''https://x.example/app'') = u ''https://x.example/app''"
    "strip (u ''10.0.0.1'') = u ''10.0.0.1''" "rstrip_slash (u ''/app'') = u ''/app''"
    by (simp_all add: pystr_eval)
  have "public_base_violation sample_settings = None"
    unfolding public_base_violation_def m by (simp add: s sample_settings_def default_settings_def p Let_def)
  then show "strict_startup_violation sample_settings = None"
    unfolding strict_startup_violation_def m
    by (simp add: s sample_settings_def default_settings_def Let_def)
qed

lemma sample_settings_validate:
  "settings_validate (\<lambda>_. []) (\<lambda>_. Inl ValueError) [] (FwdStr (u ''X-Tenant, Cookie'')) (sample_settings\<lparr>fs_strict_startup := False\<rparr>)
     = Inr (sample_settings\<lparr>fs_strict_startup := False, fs_api_mount_path := u ''/v1'',
         fs_gateway_forward_client_headers_to_streamlit := [u ''x-tenant''],
         fs_rejected_forward_headers := [u ''cookie'']\<rparr>)"
proof -
  have parts: "nonblank_parts (split_chr 44 (u ''X-Tenant, Cookie'')) = [u ''X-Tenant'', u ''Cookie'']"
    by (simp add: nonblank_parts_def pystr_eval)
  have "normalize_gateway_forward_header_allowlist [u ''X-Tenant'', u ''Cookie''] = {u ''x-tenant''}"
    by (simp add: normalize_gateway_forward_header_allowlist_def forward_http_blocklist_def
        header_name_re_def name_start_cp_def pystr_eval)
  moreover have "rejected_gateway_forward_header_allowlist [u ''X-Tenant'', u ''Cookie''] = [u ''cookie'']"
    by (simp add: rejected_gateway_forward_header_allowlist_def forward_http_blocklist_def pystr_eval)
  moreover have "normalize_api_mount_path (u ''v1/'') = u ''/v1''"
    by (simp add: normalize_api_mount_path_def lead_slash_def pystr_eval)
  ultimately show ?thesis
    by (simp add: settings_validate_def sample_settings_def default_settings_def field_bounds_ok_def
        validate_forward_header_list_def coerce_forward_header_list_def raw_forward_names_def parts Let_def
        apply_legacy_public_base_url_def strict_startup_violation_def)
qed

theorem settings_validate_invariant_witness:
  "settings_ok (sample_settings\<lparr>fs_strict_startup := False, fs_api_mount_path := u ''/v1'',
         fs_gateway_forward_client_headers_to_streamlit := [u ''x-tenant''],
         fs_rejected_forward_headers := [u ''cookie'']\<rparr>)"
  using settings_validate_invariant [OF sample_settings_validate] .

text \<open>With \<open>strict_startup\<close>, a settings object exists only if proxy trust is narrow and the proxied
  body is limited, a subpath has a public base URL and a trusted proxy, no forbidden header was
  requested, and a path in the public base URL is the public mount.\<close>

theorem strict_startup_guarantees:
  assumes "settings_validate str json_loads env fwd data = Inr fs" and "fs_strict_startup data"
  shows "(fs_trust_proxy fs \<longrightarrow> strip (opt_str (fs_forwarded_allow_ips fs)) \<notin> {[], u ''*''} \<and>
            0 < fs_gateway_max_proxy_request_body_bytes fs) \<and>
         (public_mount_path fs \<noteq> [] \<longrightarrow> strip (fs_public_base_url fs) \<noteq> [] \<and> fs_trust_proxy fs) \<and>
         fs_rejected_forward_headers fs = [] \<and>
         (strip (fs_public_base_url fs) \<noteq> [] \<longrightarrow> (\<exists>parsed. urlparse (strip (fs_public_base_url fs)) = Inr parsed \<and>
            (rstrip_slash (public_mount_path fs) \<noteq> [] \<longrightarrow>
               rstrip_slash (u_path parsed) \<in> {[], rstrip_slash (public_mount_path fs)})))"
proof -
  have ok: "settings_ok fs" using assms(1) by (rule settings_validate_invariant_lemma)
  obtain allow where fs: "fs = apply_legacy_public_base_url env
      (data\<lparr>fs_api_mount_path := normalize_api_mount_path (fs_api_mount_path data),
        fs_gateway_forward_client_headers_to_streamlit := allow,
        fs_rejected_forward_headers :=
          rejected_gateway_forward_header_allowlist (raw_forward_names str json_loads env fwd)\<rparr>)"
    and v: "strict_startup_violation fs = None"
    using assms(1) by (rule settings_validate_model)
  have "fs_strict_startup fs" using assms(2) by (simp add: fs apply_legacy_public_base_url_def Let_def)
  moreover have "0 \<le> fs_gateway_max_proxy_request_body_bytes fs"
    using ok by (simp add: settings_ok_def field_bounds_ok_def)
  ultimately show ?thesis using v
    by (auto simp: strict_startup_violation_def public_base_violation_def Let_def split: if_splits sum.splits)
qed

lemma sample_settings_validate_strict:
  "settings_validate (\<lambda>_. []) (\<lambda>_. Inl ValueError) [] FwdMissing sample_settings
     = Inr (sample_settings\<lparr>fs_api_mount_path := u ''/v1''\<rparr>)"
proof -
  have "strict_startup_violation (sample_settings\<lparr>fs_api_mount_path := p\<rparr>) = strict_startup_violation sample_settings" for p
    by (simp add: strict_startup_violation_def public_base_violation_def public_mount_path_def Let_def cong: if_cong sum.case_cong)
  moreover have "normalize_api_mount_path (fs_api_mount_path sample_settings) = u ''/v1''"
    by (simp add: sample_settings_def normalize_api_mount_path_def lead_slash_def pystr_eval)
  moreover have "sample_settings\<lparr>fs_api_mount_path := p, fs_gateway_forward_client_headers_to_streamlit := [],
      fs_rejected_forward_headers := []\<rparr> = sample_settings\<lparr>fs_api_mount_path := p\<rparr>" for p
    by (simp add: sample_settings_def default_settings_def)
  moreover have "field_bounds_ok sample_settings"
    by (simp add: sample_settings_def default_settings_def field_bounds_ok_def)
  ultimately show ?thesis
    by (simp add: settings_validate_def apply_legacy_public_base_url_def sample_settings_strict raw_forward_names_def
        parse_raw_gateway_forward_env_def rejected_gateway_forward_header_allowlist_def pystr_eval)
qed

theorem strict_startup_guarantees_witness:
  "0 < fs_gateway_max_proxy_request_body_bytes (sample_settings\<lparr>fs_api_mount_path := u ''/v1''\<rparr>)
   \<and> fs_rejected_forward_headers (sample_settings\<lparr>fs_api_mount_path := u ''/v1''\<rparr>) = []"
  using strict_startup_guarantees [OF sample_settings_validate_strict]
  by (simp add: sample_settings_def)

end
