(* ===== verification/Asgi_Messages.thy ===== *)
theory Asgi_Messages
  imports Settings_Model
begin

section \<open>ASGI messages, canned responses and proxy options\<close>

text \<open>
  The messages a handler receives and sends, the responses of \<open>gateway/responses.py\<close>, and
  \<open>gateway/options.py\<close>. A handler's \<open>receive\<close> is a list of messages, consumed from the front;
  a handler that awaits a message when none is left is blocked. \<open>send\<close> is taken to succeed, so
  a handler's sends are the list of messages it produced.
\<close>

datatype asgi_in =
    HttpRequest bytes bool
  | HttpDisconnect
  | WsConnect
  | WsReceive "bytes option" "pystr option"
  | WsDisconnect
  | OtherMessage pystr

datatype asgi_out =
    ResponseStart nat headers
  | ResponseBody bytes bool
  | WsAccept "pystr option"
  | WsSendBytes bytes
  | WsSendText pystr
  | WsClose nat "bytes option"

datatype outcome = Returned | Raised exc | Blocked

subsection \<open>Canned responses\<close>

definition text_plain :: headers where
  "text_plain = [(''content-type'', ''text/plain; charset=utf-8'')]"

definition bad_upstream_body :: bytes where
  "bad_upstream_body =
     ''FluxLit: Streamlit upstream URL is missing '' @
     ''(set FLUXLIT_STREAMLIT_UPSTREAM or fix FLUXLIT_STREAMLIT_UPSTREAM_FILE).''"

definition not_found :: "asgi_out list" where
  "not_found = [ResponseStart 404 text_plain, ResponseBody ''Not Found'' False]"

definition redirect :: "pystr \<Rightarrow> nat \<Rightarrow> exc + asgi_out list" where
  "redirect location status =
     bind_exc (ascii_encode location) (\<lambda>loc. Inr
       [ResponseStart status [(''location'', loc), (''content-length'', ''0'')], ResponseBody '''' False])"

definition bad_streamlit_upstream_http :: "asgi_out list" where
  "bad_streamlit_upstream_http = [ResponseStart 502 text_plain, ResponseBody bad_upstream_body False]"

fun bad_streamlit_upstream_ws :: "asgi_in list \<Rightarrow> asgi_out list \<times> outcome" where
  "bad_streamlit_upstream_ws [] = ([], Blocked)"
| "bad_streamlit_upstream_ws (WsConnect # msgs) = ([WsClose 1011 (Some ''Streamlit upstream missing'')], Returned)"
| "bad_streamlit_upstream_ws (WsDisconnect # msgs) = ([], Returned)"
| "bad_streamlit_upstream_ws (msg # msgs) = bad_streamlit_upstream_ws msgs"

definition respond_client_disconnected :: "asgi_out list" where
  "respond_client_disconnected = [ResponseStart 499 text_plain, ResponseBody ''Client Closed Request'' False]"

definition respond_413_payload_too_large :: "asgi_out list" where
  "respond_413_payload_too_large =
     [ResponseStart 413 text_plain,
      ResponseBody (''Payload Too Large: proxied request body exceeds '' @
        ''FLUXLIT_GATEWAY_MAX_PROXY_REQUEST_BODY_BYTES'') False]"

definition bad_gateway :: "asgi_out list" where
  "bad_gateway = [ResponseStart 502 text_plain, ResponseBody ''Bad Gateway'' False]"

text \<open>A complete HTTP response: one start followed by one final body.\<close>

definition complete_response :: "asgi_out list \<Rightarrow> bool" where
  "complete_response out \<longleftrightarrow> (\<exists>st hs b. out = [ResponseStart st hs, ResponseBody b False])"

definition response_status :: "asgi_out list \<Rightarrow> nat option" where
  "response_status out = (case out of ResponseStart st hs # _ \<Rightarrow> Some st | _ \<Rightarrow> None)"

lemma complete_canned [simp]:
  "complete_response not_found" "complete_response bad_streamlit_upstream_http"
  "complete_response respond_client_disconnected" "complete_response respond_413_payload_too_large"
  "complete_response bad_gateway"
  by (simp_all add: complete_response_def not_found_def bad_streamlit_upstream_http_def
      respond_client_disconnected_def respond_413_payload_too_large_def bad_gateway_def)

lemma status_canned [simp]:
  "response_status not_found = Some 404" "response_status bad_streamlit_upstream_http = Some 502"
  "response_status respond_client_disconnected = Some 499"
  "response_status respond_413_payload_too_large = Some 413" "response_status bad_gateway = Some 502"
  by (simp_all add: response_status_def not_found_def bad_streamlit_upstream_http_def
      respond_client_disconnected_def respond_413_payload_too_large_def bad_gateway_def)

lemma complete_redirect: "redirect loc st = Inr out \<Longrightarrow> complete_response out \<and> response_status out = Some st"
  by (auto simp: redirect_def bind_exc_Inr_iff complete_response_def response_status_def)

lemma bad_ws_closes_once:
  "fst (bad_streamlit_upstream_ws msgs) \<in> {[], [WsClose 1011 (Some ''Streamlit upstream missing'')]}"
  by (induction msgs rule: bad_streamlit_upstream_ws.induct) auto

subsection \<open>Proxy options\<close>

record gateway_options =
  connect_timeout :: real
  read_timeout :: real
  max_proxy_body_bytes :: int
  max_concurrent_upstream_http :: int
  httpx_max_connections :: int
  httpx_max_keepalive_connections :: int
  ws_open_timeout_s :: real
  ws_ping_interval_s :: "real option"
  ws_ping_timeout_s :: "real option"
  ws_close_timeout_s :: "real option"
  ws_max_message_bytes :: "int option"
  forward_client_headers_http :: "pystr set"

definition default_gateway_options :: gateway_options where
  "default_gateway_options = \<lparr>connect_timeout = 30, read_timeout = 120, max_proxy_body_bytes = 0,
     max_concurrent_upstream_http = 0, httpx_max_connections = 0, httpx_max_keepalive_connections = 0,
     ws_open_timeout_s = 30, ws_ping_interval_s = None, ws_ping_timeout_s = None, ws_close_timeout_s = None,
     ws_max_message_bytes = None, forward_client_headers_http = {}\<rparr>"

definition gateway_opts :: "fluxlit_settings option \<Rightarrow> gateway_options" where
  "gateway_opts settings =
     (case settings of None \<Rightarrow> default_gateway_options
      | Some fs \<Rightarrow> \<lparr>connect_timeout = fs_gateway_upstream_connect_timeout_s fs,
          read_timeout = fs_gateway_upstream_read_timeout_s fs,
          max_proxy_body_bytes = fs_gateway_max_proxy_request_body_bytes fs,
          max_concurrent_upstream_http = fs_gateway_max_concurrent_upstream_http fs,
          httpx_max_connections = fs_gateway_httpx_max_connections fs,
          httpx_max_keepalive_connections = fs_gateway_httpx_max_keepalive_connections fs,
          ws_open_timeout_s = fs_gateway_ws_open_timeout_s fs,
          ws_ping_interval_s = fs_gateway_ws_ping_interval_s fs,
          ws_ping_timeout_s = fs_gateway_ws_ping_timeout_s fs,
          ws_close_timeout_s = fs_gateway_ws_close_timeout_s fs,
          ws_max_message_bytes = fs_gateway_ws_max_message_bytes fs,
          forward_client_headers_http =
            normalize_gateway_forward_header_allowlist (fs_gateway_forward_client_headers_to_streamlit fs)\<rparr>)"

text \<open>The defaults of the options are those of the settings.\<close>

lemma gateway_opts_default: "gateway_opts (Some default_settings) = gateway_opts None"
  by (simp add: gateway_opts_def default_gateway_options_def default_settings_def
      normalize_gateway_forward_header_allowlist_def)

end
