(* ===== verification/Step_Systems.thy ===== *)
theory Step_Systems
  imports Main
begin

section \<open>Step relations: invariants, abstraction, termination\<close>

text \<open>
  What the concurrent parts of the model share: the WebSocket relay, the semaphore of the proxied calls, the
  lifespan bridge and the threads of the reloading runner are step relations, and each of them owes the same
  few laws to the arguments about its runs.
\<close>

subsection \<open>Invariants\<close>

locale invariant_system =
  fixes step :: "'s \<Rightarrow> 's \<Rightarrow> bool" and initial :: "'s \<Rightarrow> bool" and good :: "'s \<Rightarrow> bool"
  assumes good_initial: "initial s \<Longrightarrow> good s"
    and good_step: "good s \<Longrightarrow> step s s' \<Longrightarrow> good s'"
begin

lemma good_run: "step\<^sup>*\<^sup>* s s' \<Longrightarrow> good s \<Longrightarrow> good s'"
  by (induction rule: rtranclp_induct) (auto intro: good_step)

lemma good_reachable: "step\<^sup>*\<^sup>* s s' \<Longrightarrow> initial s \<Longrightarrow> good s'"
  using good_run good_initial by blast

text \<open>A property that only good states keep along their steps is kept along every run from a good state.\<close>

lemma kept_on_run:
  assumes "step\<^sup>*\<^sup>* s s'" and "good s" and "Q s" and "\<And>x y. good x \<Longrightarrow> Q x \<Longrightarrow> step x y \<Longrightarrow> Q y"
  shows "Q s'"
  using assms(1)
proof (induction rule: rtranclp_induct)
  case base
  show ?case by (rule assms(3))
next
  case (step y z)
  from good_run [OF step.hyps(1) assms(2)] step.IH step.hyps(2) show ?case by (rule assms(4))
qed

end

subsection \<open>Abstraction\<close>

text \<open>Each step of the system is a step of the abstract system or leaves the abstract state as it is.\<close>

locale simulation = invariant_system +
  fixes abs_of :: "'s \<Rightarrow> 'a" and abs_step :: "'a \<Rightarrow> 'a \<Rightarrow> bool"
  assumes simulates: "good s \<Longrightarrow> step s s' \<Longrightarrow> abs_of s' = abs_of s \<or> abs_step (abs_of s) (abs_of s')"
begin

lemma run_simulates:
  assumes "step\<^sup>*\<^sup>* s s'" and "good s"
  shows "abs_step\<^sup>*\<^sup>* (abs_of s) (abs_of s')"
  using assms(1)
proof (induction rule: rtranclp_induct)
  case (step y z)
  from simulates [OF good_run [OF step.hyps(1) assms(2)] step.hyps(2)] step.IH show ?case
    by (auto intro: rtranclp.rtrancl_into_rtrancl)
qed simp

end

text \<open>An abstract system that only moves forward in an order.\<close>

locale forward_simulation = simulation step initial good abs_of abs_step
  for step :: "'s \<Rightarrow> 's \<Rightarrow> bool" and initial good and abs_of :: "'s \<Rightarrow> 'a :: order" and abs_step +
  assumes forward: "abs_step a b \<Longrightarrow> a < b"
begin

lemma abs_forward: "abs_step\<^sup>*\<^sup>* a b \<Longrightarrow> a \<le> b"
  by (induction rule: rtranclp_induct) (auto dest: forward)

lemma run_forward: "step\<^sup>*\<^sup>* s s' \<Longrightarrow> good s \<Longrightarrow> abs_of s \<le> abs_of s'"
  by (rule abs_forward) (rule run_simulates)

end

subsection \<open>Termination\<close>

locale ranked_system =
  fixes step :: "'s \<Rightarrow> 's \<Rightarrow> bool" and rank :: "'s \<Rightarrow> nat"
  assumes rank_step: "step s s' \<Longrightarrow> rank s' < rank s"
begin

lemma run_bounded: "(step ^^ n) s s' \<Longrightarrow> n + rank s' \<le> rank s"
proof (induction n arbitrary: s')
  case (Suc n)
  then obtain t where "(step ^^ n) s t" "step t s'" by auto
  with Suc.IH [of t] rank_step [of t s'] show ?case by simp
qed simp

lemma no_infinite_run: "wfP (step\<inverse>\<inverse>)"
  by (rule wfp_if_convertible_to_nat [where f = rank]) (simp add: rank_step)

end

end
