(* ===== verification/Http_Proxy.thy ===== *)
theory Http_Proxy
  imports Asgi_Messages Step_Systems
begin

section \<open>The HTTP proxy hop\<close>

text \<open>
  Models \<open>gateway/http_proxy.py\<close>: reading the request body in its three ways (drained for
  \<open>GET\<close> and \<open>HEAD\<close>, collected up to the limit, streamed when there is none), the call to Streamlit
  and the response to the browser. The \<open>httpx\<close> client is the argument \<open>client\<close>: for a request it
  gives how many chunks of a streamed body it pulled and whether a response came, a
  \<open>RequestError\<close> or another exception. The body generator is lazy, so an exception in it is only
  raised when the client pulls past the chunks before it.
\<close>

subsection \<open>Reading the request body\<close>

datatype 'a body_result = BodyOk 'a | BodyTooLarge | BodyDisconnected | BodyBlocked

definition exceeds :: "int \<Rightarrow> int \<Rightarrow> bool" where
  "exceeds max_body tot \<longleftrightarrow> max_body \<noteq> 0 \<and> tot > max_body"

fun drain_incoming_request_body :: "int \<Rightarrow> int \<Rightarrow> asgi_in list \<Rightarrow> unit body_result" where
  "drain_incoming_request_body max_body tot [] = BodyBlocked"
| "drain_incoming_request_body max_body tot (HttpRequest chunk mb # msgs) =
     (let tot' = tot + int (length chunk)
      in if exceeds max_body tot' then BodyTooLarge
         else if \<not> mb then BodyOk () else drain_incoming_request_body max_body tot' msgs)"
| "drain_incoming_request_body max_body tot (HttpDisconnect # msgs) = BodyDisconnected"
| "drain_incoming_request_body max_body tot (msg # msgs) = BodyOk ()"

fun collect_limited_request_body :: "int \<Rightarrow> int \<Rightarrow> bytes list \<Rightarrow> asgi_in list \<Rightarrow> bytes body_result" where
  "collect_limited_request_body max_body tot chunks [] = BodyBlocked"
| "collect_limited_request_body max_body tot chunks (HttpRequest chunk mb # msgs) =
     (if chunk \<noteq> []
      then (let tot' = tot + int (length chunk)
            in if tot' > max_body then BodyTooLarge
               else if \<not> mb then BodyOk (concat (chunks @ [chunk]))
               else collect_limited_request_body max_body tot' (chunks @ [chunk]) msgs)
      else if \<not> mb then BodyOk (concat chunks)
      else collect_limited_request_body max_body tot chunks msgs)"
| "collect_limited_request_body max_body tot chunks (HttpDisconnect # msgs) = BodyDisconnected"
| "collect_limited_request_body max_body tot chunks (msg # msgs) = BodyOk (concat chunks)"

text \<open>The generator: the chunks it yields and how it ends.\<close>

fun request_body :: "int \<Rightarrow> int \<Rightarrow> asgi_in list \<Rightarrow> bytes list \<times> unit body_result" where
  "request_body max_body tot [] = ([], BodyBlocked)"
| "request_body max_body tot (HttpRequest chunk mb # msgs) =
     (if chunk \<noteq> []
      then (let tot' = tot + int (length chunk)
            in if exceeds max_body tot' then ([], BodyTooLarge)
               else if \<not> mb then ([chunk], BodyOk ())
               else (let (cs, r) = request_body max_body tot' msgs in (chunk # cs, r)))
      else if \<not> mb then ([], BodyOk ()) else request_body max_body tot msgs)"
| "request_body max_body tot (HttpDisconnect # msgs) = ([], BodyDisconnected)"
| "request_body max_body tot (msg # msgs) = ([], BodyOk ())"

subsection \<open>The upstream call\<close>

datatype content = NoContent | Buffered bytes | Streamed "bytes list"

record 'h http_request =
  rq_method :: pystr
  rq_url :: pystr
  rq_headers :: 'h
  rq_content :: content

record http_response =
  rs_status :: nat
  rs_items :: "(pystr \<times> pystr) list"
  rs_content :: bytes

datatype reply = Responded nat http_response | RequestError nat | OtherFailure nat exc

record 'h proxy_run =
  pr_out :: "asgi_out list"
  pr_request :: "'h http_request option"
  pr_outcome :: outcome
  pr_closed :: bool

definition not_contacted :: "asgi_out list \<Rightarrow> outcome \<Rightarrow> 'h proxy_run" where
  "not_contacted out oc = \<lparr>pr_out = out, pr_request = None, pr_outcome = oc, pr_closed = False\<rparr>"

definition skipped_response_headers :: "pystr list" where
  "skipped_response_headers = map u [''transfer-encoding'', ''connection'', ''content-encoding'', ''content-length'']"

fun encode_response_headers :: "(pystr \<times> pystr) list \<Rightarrow> exc + headers" where
  "encode_response_headers [] = Inr []"
| "encode_response_headers ((k, v) # items) =
     (if lower k \<in> set skipped_response_headers then encode_response_headers items
      else bind_exc (latin1_encode (lower k)) (\<lambda>kb. bind_exc (latin1_encode v) (\<lambda>vb.
             bind_exc (encode_response_headers items) (\<lambda>hs. Inr ((kb, vb) # hs)))))"

definition forward_response :: "pystr \<Rightarrow> http_response \<Rightarrow> exc + asgi_out list" where
  "forward_response method response =
     (let out_body = (if method = u ''HEAD'' then [] else rs_content response)
      in bind_exc (encode_response_headers (rs_items response)) (\<lambda>hs.
         bind_exc (latin1_encode (str_of_nat (length out_body))) (\<lambda>n. Inr
           [ResponseStart (rs_status response) (hs @ [(''content-length'', n)]), ResponseBody out_body False])))"

text \<open>What the client's reply means when the body generator ends as \<open>ending\<close> after \<open>avail\<close> chunks.\<close>

definition pulled :: "reply \<Rightarrow> nat" where
  "pulled r = (case r of Responded n _ \<Rightarrow> n | RequestError n \<Rightarrow> n | OtherFailure n _ \<Rightarrow> n)"

definition finish_call ::
  "'h http_request \<Rightarrow> nat \<Rightarrow> unit body_result \<Rightarrow> reply \<Rightarrow> 'h proxy_run" where
  "finish_call req avail ending reply =
     (let run = (\<lambda>out oc closed. \<lparr>pr_out = out, pr_request = Some req, pr_outcome = oc, pr_closed = closed\<rparr>)
      in if pulled reply > avail \<and> ending = BodyTooLarge then run respond_413_payload_too_large Returned False
         else if pulled reply > avail \<and> ending = BodyDisconnected then run respond_client_disconnected Returned False
         else if pulled reply > avail \<and> ending = BodyBlocked then run [] Blocked False
         else (case reply of
             RequestError _ \<Rightarrow> run bad_gateway Returned False
           | OtherFailure _ e \<Rightarrow> run [] (Raised e) False
           | Responded _ response \<Rightarrow>
               (case forward_response (rq_method req) response of
                  Inl e \<Rightarrow> run [] (Raised e) True
                | Inr out \<Rightarrow> run out Returned True)))"

definition request_method :: "scope \<Rightarrow> pystr" where
  "request_method sc = upper (case sc_method sc of None \<Rightarrow> u ''GET'' | Some m \<Rightarrow> m)"

definition bodyless :: "pystr \<Rightarrow> bool" where
  "bodyless method \<longleftrightarrow> method = u ''GET'' \<or> method = u ''HEAD''"

definition send_upstream ::
  "('h http_request \<Rightarrow> reply) \<Rightarrow> int \<Rightarrow> pystr \<Rightarrow> pystr \<Rightarrow> 'h \<Rightarrow> asgi_in list \<Rightarrow> 'h proxy_run" where
  "send_upstream client max_body method url hs msgs =
     (let call = (\<lambda>c avail ending. let req = \<lparr>rq_method = method, rq_url = url, rq_headers = hs, rq_content = c\<rparr>
                                   in finish_call req avail ending (client req))
      in if bodyless method
         then (case drain_incoming_request_body max_body 0 msgs of
             BodyOk _ \<Rightarrow> call NoContent 0 (BodyOk ())
           | BodyTooLarge \<Rightarrow> not_contacted respond_413_payload_too_large Returned
           | BodyDisconnected \<Rightarrow> not_contacted respond_client_disconnected Returned
           | BodyBlocked \<Rightarrow> not_contacted [] Blocked)
         else if max_body \<noteq> 0
         then (case collect_limited_request_body max_body 0 [] msgs of
             BodyOk b \<Rightarrow> call (Buffered b) 0 (BodyOk ())
           | BodyTooLarge \<Rightarrow> not_contacted respond_413_payload_too_large Returned
           | BodyDisconnected \<Rightarrow> not_contacted respond_client_disconnected Returned
           | BodyBlocked \<Rightarrow> not_contacted [] Blocked)
         else (case msgs of
             [] \<Rightarrow> not_contacted [] Blocked
           | HttpDisconnect # _ \<Rightarrow> not_contacted respond_client_disconnected Returned
           | _ \<Rightarrow> (let (cs, ending) = request_body max_body 0 msgs in call (Streamed cs) (length cs) ending)))"

definition proxy_http_inner ::
  "'h headers_api \<Rightarrow> ('h http_request \<Rightarrow> reply) \<Rightarrow> gateway_options \<Rightarrow> scope \<Rightarrow> asgi_in list \<Rightarrow>
     pystr \<Rightarrow> pystr \<Rightarrow> pystr option \<Rightarrow> pystr \<Rightarrow> 'h proxy_run" where
  "proxy_http_inner H client opts sc msgs upstream streamlit_path forwarded_prefix request_id =
     (let method = request_method sc;
          url = build_target_url sc upstream (Some streamlit_path)
      in case upstream_headers H sc upstream forwarded_prefix (forward_client_headers_http opts) request_id of
           Inl e \<Rightarrow> not_contacted [] (Raised e)
         | Inr hs \<Rightarrow> send_upstream client (max_proxy_body_bytes opts) method url hs msgs)"

subsection \<open>The readers against a reference\<close>

text \<open>What an ASGI request body is: the chunks up to the first message without more to come.\<close>

fun asgi_body :: "asgi_in list \<Rightarrow> bytes \<times> unit body_result" where
  "asgi_body [] = ([], BodyBlocked)"
| "asgi_body (HttpRequest chunk mb # msgs) =
     (if mb then (chunk @ fst (asgi_body msgs), snd (asgi_body msgs)) else (chunk, BodyOk ()))"
| "asgi_body (HttpDisconnect # msgs) = ([], BodyDisconnected)"
| "asgi_body (msg # msgs) = ([], BodyOk ())"

definition result_as :: "'b \<Rightarrow> 'a body_result \<Rightarrow> 'b body_result" where
  "result_as b r = (case r of BodyOk _ \<Rightarrow> BodyOk b | BodyTooLarge \<Rightarrow> BodyTooLarge
     | BodyDisconnected \<Rightarrow> BodyDisconnected | BodyBlocked \<Rightarrow> BodyBlocked)"

lemma result_as_simps [simp]:
  "result_as b (BodyOk x) = BodyOk b" "result_as b BodyTooLarge = BodyTooLarge"
  "result_as b BodyDisconnected = BodyDisconnected" "result_as b BodyBlocked = BodyBlocked"
  by (simp_all add: result_as_def)

lemma asgi_body_not_too_large [simp]: "snd (asgi_body msgs) \<noteq> BodyTooLarge"
  by (induction msgs rule: asgi_body.induct) auto

lemma drain_spec:
  "0 \<le> m \<Longrightarrow> \<not> exceeds m tot \<Longrightarrow> drain_incoming_request_body m tot msgs =
     (if exceeds m (tot + int (length (fst (asgi_body msgs)))) then BodyTooLarge else snd (asgi_body msgs))"
proof (induction m tot msgs rule: drain_incoming_request_body.induct)
  case (2 m tot chunk mb msgs)
  then show ?case by (auto simp: Let_def exceeds_def add.assoc)
qed (auto simp: exceeds_def)

lemma collect_spec:
  "0 < m \<Longrightarrow> tot \<le> m \<Longrightarrow> collect_limited_request_body m tot chunks msgs =
     (if tot + int (length (fst (asgi_body msgs))) > m then BodyTooLarge
      else result_as (concat chunks @ fst (asgi_body msgs)) (snd (asgi_body msgs)))"
proof (induction m tot chunks msgs rule: collect_limited_request_body.induct)
  case (2 m tot chunks chunk mb msgs)
  then show ?case by (cases "chunk = []") (auto simp: Let_def add.assoc)
qed auto

lemma request_body_spec:
  "(concat (fst (request_body 0 tot msgs)), snd (request_body 0 tot msgs)) = asgi_body msgs"
proof (induction "0 :: int" tot msgs rule: request_body.induct)
  case (2 tot chunk mb msgs)
  then show ?case
    by (cases "chunk = []") (auto simp: Let_def exceeds_def prod_eq_iff split: prod.splits)
qed (auto simp: exceeds_def)

text \<open>The three ways of reading a request body agree with the ASGI body: draining and collecting
  stop exactly when it exceeds the limit, collecting returns its bytes, and the generator yields
  them without a limit, each ending as the body ends.\<close>

theorem body_readers_agree:
  assumes "0 < m"
  shows "drain_incoming_request_body m 0 msgs =
           (if int (length (fst (asgi_body msgs))) > m then BodyTooLarge else snd (asgi_body msgs))
       \<and> collect_limited_request_body m 0 [] msgs =
           (if int (length (fst (asgi_body msgs))) > m then BodyTooLarge
            else result_as (fst (asgi_body msgs)) (snd (asgi_body msgs)))
       \<and> (concat (fst (request_body 0 0 msgs)), snd (request_body 0 0 msgs)) = asgi_body msgs"
  using assms drain_spec [of m 0 msgs] collect_spec [of m 0 "[]" msgs] request_body_spec [of 0 msgs]
  by (auto simp: exceeds_def)

theorem body_readers_agree_witness:
  "collect_limited_request_body 4 0 [] [HttpRequest ''ab'' True, HttpRequest [] True, HttpRequest ''cd'' False]
     = BodyOk ''abcd''
   \<and> drain_incoming_request_body 3 0 [HttpRequest ''ab'' True, HttpRequest ''cd'' False] = BodyTooLarge"
  using body_readers_agree [of 4 "[HttpRequest ''ab'' True, HttpRequest [] True, HttpRequest ''cd'' False]"]
    body_readers_agree [of 3 "[HttpRequest ''ab'' True, HttpRequest ''cd'' False]"]
  by simp

subsection \<open>The response to the browser\<close>

lemma encode_response_headers_Inr:
  "encode_response_headers items = Inr hs \<Longrightarrow>
     map (\<lambda>(k, v). (latin1_decode k, latin1_decode v)) hs =
     map (\<lambda>(k, v). (lower k, v)) (filter (\<lambda>(k, v). lower k \<notin> set skipped_response_headers) items)"
  by (induction items arbitrary: hs rule: encode_response_headers.induct)
    (auto simp: bind_exc_Inr_iff latin1_decode_encode split: if_splits)

text \<open>A response of Streamlit reaches the browser with its status, its headers in order (names in
  lower case, the hop's own length, encoding and connection headers left out), a content length that
  is the number of bytes sent, and its body, empty for \<open>HEAD\<close>.\<close>

theorem forward_response_faithful:
  assumes "forward_response method response = Inr out"
  shows "\<exists>hs n b. out = [ResponseStart (rs_status response) (hs @ [(''content-length'', n)]), ResponseBody b False]
       \<and> b = (if method = u ''HEAD'' then [] else rs_content response)
       \<and> latin1_decode n = str_of_nat (length b)
       \<and> map (\<lambda>(k, v). (latin1_decode k, latin1_decode v)) hs =
           map (\<lambda>(k, v). (lower k, v)) (filter (\<lambda>(k, v). lower k \<notin> set skipped_response_headers) (rs_items response))"
  using assms encode_response_headers_Inr
  by (auto simp: forward_response_def Let_def bind_exc_Inr_iff latin1_decode_encode)

definition sample_response :: http_response where
  "sample_response = \<lparr>rs_status = 200, rs_items = [(u ''Content-Length'', u ''99''), (u ''ETag'', u ''x'')],
     rs_content = ''hello''\<rparr>"

lemma sample_response_forwarded:
  "forward_response (u ''GET'') sample_response =
     Inr [ResponseStart 200 [(''etag'', ''x''), (''content-length'', ''5'')], ResponseBody ''hello'' False]"
proof -
  have "lower (u ''ETag'') = u ''etag''" "lower (u ''Content-Length'') = u ''content-length''" "str_of_nat (Suc (Suc (Suc (Suc (Suc 0))))) = u ''5''"
    by (simp_all add: pystr_eval pystr_run)
  then show ?thesis
    by (simp add: forward_response_def sample_response_def skipped_response_headers_def)
qed

theorem forward_response_faithful_witness:
  "\<exists>n. [ResponseStart 200 [(''etag'', ''x''), (''content-length'', ''5'')], ResponseBody ''hello'' False]
     = [ResponseStart 200 [(''etag'', ''x''), (''content-length'', n)], ResponseBody ''hello'' False]
     \<and> latin1_decode n = str_of_nat 5"
  using forward_response_faithful [OF sample_response_forwarded]
  by (auto simp: sample_response_def eval_nat_numeral)

lemma forward_response_complete: "forward_response method r = Inr out \<Longrightarrow> complete_response out"
  by (auto simp: forward_response_def complete_response_def Let_def bind_exc_Inr_iff)

subsection \<open>The whole request\<close>

definition run_ok :: "'h proxy_run \<Rightarrow> bool" where
  "run_ok run \<longleftrightarrow> (if pr_outcome run = Returned then complete_response (pr_out run) else pr_out run = [])"

lemma run_ok_not_contacted [simp]:
  "run_ok (not_contacted out oc) \<longleftrightarrow> (if oc = Returned then complete_response out else out = [])"
  by (simp add: run_ok_def not_contacted_def)

lemma run_ok_finish [simp]: "run_ok (finish_call req avail ending reply)"
  by (auto simp: run_ok_def finish_call_def Let_def forward_response_complete split: reply.splits sum.splits)

lemma run_ok_send [simp]: "run_ok (send_upstream client m method url hs msgs)"
  by (auto simp: send_upstream_def Let_def split: body_result.splits list.splits asgi_in.splits prod.splits)

lemma proxy_http_one_response_lemma:
  "if pr_outcome (proxy_http_inner H client opts sc msgs upstream path pfx rid) = Returned
   then complete_response (pr_out (proxy_http_inner H client opts sc msgs upstream path pfx rid))
   else pr_out (proxy_http_inner H client opts sc msgs upstream path pfx rid) = []"
proof -
  have "run_ok (proxy_http_inner H client opts sc msgs upstream path pfx rid)"
    by (auto simp: proxy_http_inner_def Let_def split: sum.splits)
  then show ?thesis by (simp add: run_ok_def)
qed

text \<open>Whatever the client, the limits and Streamlit do, a proxied request that is answered is answered
  with exactly one complete response, and one that raises or never ends has sent nothing.\<close>

theorem proxy_http_one_response:
  "if pr_outcome (proxy_http_inner H client opts sc msgs upstream path pfx rid) = Returned
   then complete_response (pr_out (proxy_http_inner H client opts sc msgs upstream path pfx rid))
   else pr_out (proxy_http_inner H client opts sc msgs upstream path pfx rid) = []"
  by (rule proxy_http_one_response_lemma)

text \<open>C7: With a body limit, what happens depends on the ASGI body alone and fails closed: a body over the
  limit gives 413 and a client gone before its end 499, both without contacting Streamlit; otherwise
  Streamlit gets the whole body in one request.\<close>

theorem limited_proxy_fails_closed:
  assumes "0 < max_proxy_body_bytes opts"
    and "upstream_headers H sc upstream pfx (forward_client_headers_http opts) rid = Inr hs"
  shows "proxy_http_inner H client opts sc msgs upstream path pfx rid =
     (if int (length (fst (asgi_body msgs))) > max_proxy_body_bytes opts
      then not_contacted respond_413_payload_too_large Returned
      else (case snd (asgi_body msgs) of
          BodyDisconnected \<Rightarrow> not_contacted respond_client_disconnected Returned
        | BodyBlocked \<Rightarrow> not_contacted [] Blocked
        | _ \<Rightarrow> let req = \<lparr>rq_method = request_method sc, rq_url = build_target_url sc upstream (Some path),
                          rq_headers = hs,
                          rq_content = if bodyless (request_method sc) then NoContent else Buffered (fst (asgi_body msgs))\<rparr>
               in finish_call req 0 (BodyOk ()) (client req)))"
  using assms drain_spec [of "max_proxy_body_bytes opts" 0 msgs]
    collect_spec [of "max_proxy_body_bytes opts" 0 "[]" msgs]
  by (cases "snd (asgi_body msgs)")
    (auto simp: proxy_http_inner_def send_upstream_def exceeds_def Let_def)

theorem limited_proxy_fails_closed_witness:
  "proxy_http_inner assoc_headers (\<lambda>_. Responded 0 sample_response) (default_gateway_options\<lparr>max_proxy_body_bytes := 3\<rparr>)
     spoofing_scope [HttpRequest ''ab'' True, HttpRequest ''cd'' False] (u ''http://127.0.0.1:8501'') (u ''/app'') None (u ''r1'')
   = not_contacted respond_413_payload_too_large Returned"
  using limited_proxy_fails_closed [of "default_gateway_options\<lparr>max_proxy_body_bytes := 3\<rparr>" assoc_headers spoofing_scope
      "u ''http://127.0.0.1:8501''" None "u ''r1''" spoofing_upstream_headers "\<lambda>_. Responded 0 sample_response"
      "[HttpRequest ''ab'' True, HttpRequest ''cd'' False]" "u ''/app''"] spoofing_run
  by (simp add: default_gateway_options_def)

subsection \<open>The bound on concurrent upstream calls\<close>

text \<open>
  \<open>proxy_http\<close> runs the request inside \<open>async with upstream_sem\<close> when the gateway has a semaphore.
  Requests are numbered; one arrives, is granted a permit in order of arrival when one is free, and
  leaves the block by returning, raising or being cancelled, each of which releases the permit.
\<close>

record sem_state =
  sem_free :: nat
  sem_waiting :: "nat list"
  sem_running :: "nat set"

definition sem_init :: "nat \<Rightarrow> sem_state" where
  "sem_init limit = \<lparr>sem_free = limit, sem_waiting = [], sem_running = {}\<rparr>"

inductive sem_step :: "sem_state \<Rightarrow> sem_state \<Rightarrow> bool" where
  sem_arrive: "r \<notin> sem_running s \<Longrightarrow> r \<notin> set (sem_waiting s) \<Longrightarrow>
     sem_step s (s\<lparr>sem_waiting := sem_waiting s @ [r]\<rparr>)"
| sem_enter: "sem_waiting s = r # ws \<Longrightarrow> 0 < sem_free s \<Longrightarrow>
     sem_step s (s\<lparr>sem_free := sem_free s - 1, sem_waiting := ws, sem_running := insert r (sem_running s)\<rparr>)"
| sem_leave: "r \<in> sem_running s \<Longrightarrow>
     sem_step s (s\<lparr>sem_free := sem_free s + 1, sem_running := sem_running s - {r}\<rparr>)"
| sem_cancel: "r \<in> set (sem_waiting s) \<Longrightarrow>
     sem_step s (s\<lparr>sem_waiting := filter (\<lambda>q. q \<noteq> r) (sem_waiting s)\<rparr>)"

inductive_cases sem_stepE: "sem_step s s'"

definition sem_inv :: "nat \<Rightarrow> sem_state \<Rightarrow> bool" where
  "sem_inv limit s \<longleftrightarrow> finite (sem_running s) \<and> sem_free s + card (sem_running s) = limit \<and>
     distinct (sem_waiting s) \<and> sem_running s \<inter> set (sem_waiting s) = {}"

lemma sem_step_inv: "sem_step s s' \<Longrightarrow> sem_inv limit s \<Longrightarrow> sem_inv limit s'"
proof (induction rule: sem_step.induct)
  case (sem_leave r s)
  then have "0 < card (sem_running s)" by (auto simp: sem_inv_def card_gt_0_iff)
  with sem_leave show ?case by (auto simp: sem_inv_def card_Diff_singleton)
next
  case (sem_enter s r ws)
  then have "r \<notin> sem_running s" by (auto simp: sem_inv_def)
  with sem_enter show ?case by (auto simp: sem_inv_def)
qed (auto simp: sem_inv_def)

interpretation permits: invariant_system sem_step "\<lambda>s. s = sem_init limit" "sem_inv limit" for limit
  by unfold_locales (simp add: sem_init_def sem_inv_def, rule sem_step_inv)

text \<open>At most the configured number of requests is ever being proxied, permits are neither lost nor
  invented however requests end, and the first waiting request can proceed as soon as fewer run.\<close>

theorem concurrent_upstream_bounded:
  assumes "sem_step\<^sup>*\<^sup>* (sem_init limit) s"
  shows "card (sem_running s) \<le> limit \<and> sem_free s = limit - card (sem_running s) \<and>
     (card (sem_running s) < limit \<and> sem_waiting s \<noteq> [] \<longrightarrow>
        (\<exists>s'. sem_step s s' \<and> hd (sem_waiting s) \<in> sem_running s'))"
proof -
  have inv: "sem_inv limit s" using assms by (rule permits.good_reachable) simp
  have "\<exists>s'. sem_step s s' \<and> hd (sem_waiting s) \<in> sem_running s'"
    if lt: "card (sem_running s) < limit" and ne: "sem_waiting s \<noteq> []"
  proof -
    from ne obtain r ws where w: "sem_waiting s = r # ws" by (cases "sem_waiting s") auto
    from lt inv have "0 < sem_free s" by (simp add: sem_inv_def)
    from sem_enter [OF w this] w show ?thesis by (intro exI) (auto intro: sem_enter [OF w])
  qed
  with inv show ?thesis by (auto simp: sem_inv_def)
qed

theorem concurrent_upstream_bounded_witness:
  "sem_step\<^sup>*\<^sup>* (sem_init 1) \<lparr>sem_free = 0, sem_waiting = [], sem_running = {7}\<rparr>
   \<and> card (sem_running \<lparr>sem_free = 0, sem_waiting = [], sem_running = {7 :: nat}\<rparr>) \<le> 1"
proof -
  have "sem_step (sem_init 1) \<lparr>sem_free = 1, sem_waiting = [7], sem_running = {}\<rparr>"
    using sem_arrive [of 7 "sem_init 1"] by (simp add: sem_init_def)
  moreover have "sem_step \<lparr>sem_free = 1, sem_waiting = [7], sem_running = {}\<rparr>
      \<lparr>sem_free = 0, sem_waiting = [], sem_running = {7}\<rparr>"
    using sem_enter [of "\<lparr>sem_free = 1, sem_waiting = [7], sem_running = {}\<rparr>" 7 "[]"] by simp
  ultimately have r: "sem_step\<^sup>*\<^sup>* (sem_init 1) \<lparr>sem_free = 0, sem_waiting = [], sem_running = {7}\<rparr>"
    by (rule converse_rtranclp_into_rtranclp [OF _ r_into_rtranclp])
  with concurrent_upstream_bounded [OF r] show ?thesis by simp
qed

end
