(* ===== verification/Ws_Proxy.thy ===== *)
theory Ws_Proxy
  imports Asgi_Messages Step_Systems "HOL-Library.Sublist"
begin

section \<open>The WebSocket proxy hop\<close>

text \<open>
  Models \<open>gateway/websocket_proxy.py\<close>: the handshake towards Streamlit (\<open>proxy_websocket\<close> up to the
  accept) and the relay, whose two tasks run concurrently and interleave at every \<open>await\<close>. The
  \<open>websockets\<close> client is the argument \<open>ws_connect\<close>; the relay is the step relation \<open>relay_step\<close>, in
  which every failure of the client's or Streamlit's socket may happen at any time.
\<close>

subsection \<open>Handshake\<close>

definition skip_ws :: "pystr list" where
  "skip_ws = map u [''host'', ''connection'', ''upgrade'', ''sec-websocket-key'', ''sec-websocket-version'',
     ''sec-websocket-extensions'', ''x-forwarded-for'', ''x-forwarded-host'', ''x-forwarded-proto'',
     ''x-forwarded-port'', ''x-request-id'']"

definition client_ws_headers :: "headers \<Rightarrow> (pystr \<times> pystr) list" where
  "client_ws_headers raw =
     map (\<lambda>(k, v). (latin1_decode k, latin1_decode v))
       (filter (\<lambda>(k, v). lower (latin1_decode k) \<notin> set skip_ws) raw)"

definition ws_handshake_headers :: "scope \<Rightarrow> pystr \<Rightarrow> pystr option \<Rightarrow> pystr \<Rightarrow> exc + (pystr \<times> pystr) list" where
  "ws_handshake_headers sc upstream forwarded_prefix request_id =
     bind_exc (public_host_from_scope sc upstream) (\<lambda>public_host.
     bind_exc (forwarded_upstream_header_pairs sc public_host forwarded_prefix) (\<lambda>ps. Inr
       ((u ''Host'', public_host) # ps @ client_ws_headers (sc_headers sc) @ [(u ''X-Request-ID'', request_id)])))"

record ws_connect_kw =
  kw_open_timeout :: real
  kw_max_size :: "int option"
  kw_ping_interval :: "real option"
  kw_ping_timeout :: "real option"
  kw_close_timeout :: "real option"

definition ws_connect_kwargs :: "gateway_options \<Rightarrow> ws_connect_kw" where
  "ws_connect_kwargs opts = \<lparr>kw_open_timeout = ws_open_timeout_s opts, kw_max_size = ws_max_message_bytes opts,
     kw_ping_interval = ws_ping_interval_s opts, kw_ping_timeout = ws_ping_timeout_s opts,
     kw_close_timeout = ws_close_timeout_s opts\<rparr>"

text \<open>A connection attempt fails with one of the exceptions the code catches, raises another, or
  gives a connection and the subprotocol Streamlit picked.\<close>

datatype connect_result = ConnectFailed | ConnectRaised exc | Connected "pystr option"

datatype handshake = HandshakeOver "asgi_out list" outcome | Relaying asgi_out "asgi_in list"

definition accept_message :: "pystr option \<Rightarrow> pystr list \<Rightarrow> asgi_out" where
  "accept_message accepted subprotocols =
     (if opt_str accepted \<noteq> [] \<and> opt_str accepted \<in> set subprotocols then WsAccept accepted else WsAccept None)"

definition proxy_websocket ::
  "(pystr \<Rightarrow> (pystr \<times> pystr) list \<Rightarrow> ws_connect_kw \<Rightarrow> connect_result) \<Rightarrow> gateway_options \<Rightarrow> scope \<Rightarrow>
     asgi_in list \<Rightarrow> pystr \<Rightarrow> pystr \<Rightarrow> pystr option \<Rightarrow> pystr \<Rightarrow> handshake" where
  "proxy_websocket ws_connect opts sc msgs upstream streamlit_path forwarded_prefix request_id =
     (case msgs of
        [] \<Rightarrow> HandshakeOver [] Blocked
      | first # rest \<Rightarrow>
          if first \<noteq> WsConnect then HandshakeOver [WsClose 1002 None] Returned
          else (case parse_ws_target sc upstream (Some streamlit_path) of
              Inl e \<Rightarrow> HandshakeOver [] (Raised e)
            | Inr target \<Rightarrow>
                (case ws_handshake_headers sc upstream forwarded_prefix request_id of
                   Inl e \<Rightarrow> HandshakeOver [] (Raised e)
                 | Inr extra \<Rightarrow>
                     (case ws_connect target extra (ws_connect_kwargs opts) of
                        ConnectFailed \<Rightarrow> HandshakeOver [WsClose 1011 None] Returned
                      | ConnectRaised e \<Rightarrow> HandshakeOver [] (Raised e)
                      | Connected accepted \<Rightarrow> Relaying (accept_message accepted (sc_subprotocols sc)) rest))))"

subsection \<open>The relay\<close>

datatype ws_msg = MsgBytes bytes | MsgText pystr

datatype task = TaskRunning | TaskClosing | TaskDone

record relay =
  rl_from_client :: "asgi_in list"
  rl_from_upstream :: "ws_msg list"
  rl_to_client :: "asgi_out list"
  rl_to_upstream :: "ws_msg list"
  rl_close_sent :: bool
  rl_cancelled :: bool
  rl_c2u :: task
  rl_u2c :: task

definition relay_init :: "asgi_in list \<Rightarrow> ws_msg list \<Rightarrow> relay" where
  "relay_init cs us = \<lparr>rl_from_client = cs, rl_from_upstream = us, rl_to_client = [], rl_to_upstream = [],
     rl_close_sent = False, rl_cancelled = False, rl_c2u = TaskRunning, rl_u2c = TaskRunning\<rparr>"

fun payload :: "asgi_in \<Rightarrow> ws_msg list" where
  "payload (WsReceive (Some b) t) = [MsgBytes b]"
| "payload (WsReceive None (Some t)) = [MsgText t]"
| "payload msg = []"

fun to_client_message :: "ws_msg \<Rightarrow> asgi_out" where
  "to_client_message (MsgBytes b) = WsSendBytes b"
| "to_client_message (MsgText t) = WsSendText t"

text \<open>\<open>_try_close_client_after_relay_error\<close>: the flag is set before the close is awaited; the close
  itself may fail (\<open>delivered\<close> is then false).\<close>

definition try_close :: "bool \<Rightarrow> relay \<Rightarrow> relay" where
  "try_close delivered s =
     (if rl_close_sent s then s
      else s\<lparr>rl_close_sent := True,
             rl_to_client := rl_to_client s @ (if delivered then [WsClose 1011 None] else [])\<rparr>)"

inductive relay_step :: "relay \<Rightarrow> relay \<Rightarrow> bool" where
  c2u_forward: "rl_c2u s = TaskRunning \<Longrightarrow> \<not> rl_cancelled s \<Longrightarrow> rl_from_client s = m # ms \<Longrightarrow> m \<noteq> WsDisconnect \<Longrightarrow>
     relay_step s (s\<lparr>rl_from_client := ms, rl_to_upstream := rl_to_upstream s @ payload m\<rparr>)"
| c2u_disconnect: "rl_c2u s = TaskRunning \<Longrightarrow> \<not> rl_cancelled s \<Longrightarrow> rl_from_client s = WsDisconnect # ms \<Longrightarrow>
     relay_step s (s\<lparr>rl_from_client := ms, rl_cancelled := True, rl_c2u := TaskDone\<rparr>)"
| c2u_upstream_closed: "rl_c2u s = TaskRunning \<Longrightarrow> \<not> rl_cancelled s \<Longrightarrow> rl_from_client s = m # ms \<Longrightarrow> payload m \<noteq> [] \<Longrightarrow>
     relay_step s (s\<lparr>rl_from_client := ms, rl_cancelled := True, rl_c2u := TaskDone\<rparr>)"
| c2u_error: "rl_c2u s = TaskRunning \<Longrightarrow> \<not> rl_cancelled s \<Longrightarrow> rl_from_client s = ms @ ms' \<Longrightarrow> length ms \<le> 1 \<Longrightarrow>
     relay_step s (try_close delivered (s\<lparr>rl_from_client := ms', rl_c2u := TaskClosing\<rparr>))"
| u2c_forward: "rl_u2c s = TaskRunning \<Longrightarrow> \<not> rl_cancelled s \<Longrightarrow> rl_from_upstream s = m # ms \<Longrightarrow>
     relay_step s (s\<lparr>rl_from_upstream := ms, rl_to_client := rl_to_client s @ [to_client_message m]\<rparr>)"
| u2c_upstream_closed: "rl_u2c s = TaskRunning \<Longrightarrow> \<not> rl_cancelled s \<Longrightarrow>
     relay_step s (s\<lparr>rl_cancelled := True, rl_u2c := TaskDone\<rparr>)"
| u2c_error: "rl_u2c s = TaskRunning \<Longrightarrow> \<not> rl_cancelled s \<Longrightarrow> rl_from_upstream s = ms @ ms' \<Longrightarrow> length ms \<le> 1 \<Longrightarrow>
     relay_step s (try_close delivered (s\<lparr>rl_from_upstream := ms', rl_u2c := TaskClosing\<rparr>))"
| c2u_close_sent: "rl_c2u s = TaskClosing \<Longrightarrow> relay_step s (s\<lparr>rl_cancelled := True, rl_c2u := TaskDone\<rparr>)"
| u2c_close_sent: "rl_u2c s = TaskClosing \<Longrightarrow> relay_step s (s\<lparr>rl_cancelled := True, rl_u2c := TaskDone\<rparr>)"
| c2u_cancelled: "rl_cancelled s \<Longrightarrow> rl_c2u s \<noteq> TaskDone \<Longrightarrow> relay_step s (s\<lparr>rl_c2u := TaskDone\<rparr>)"
| u2c_cancelled: "rl_cancelled s \<Longrightarrow> rl_u2c s \<noteq> TaskDone \<Longrightarrow> relay_step s (s\<lparr>rl_u2c := TaskDone\<rparr>)"

inductive_cases relay_stepE: "relay_step s s'"

definition is_close :: "asgi_out \<Rightarrow> bool" where
  "is_close m = (case m of WsClose _ _ \<Rightarrow> True | _ \<Rightarrow> False)"

lemma is_close_simps [simp]: "is_close (WsClose c r)" "\<not> is_close (to_client_message m)"
  by (simp add: is_close_def, cases m) (simp_all add: is_close_def)

definition closes :: "relay \<Rightarrow> asgi_out list" where
  "closes s = filter is_close (rl_to_client s)"

definition client_data :: "relay \<Rightarrow> asgi_out list" where
  "client_data s = filter (\<lambda>m. \<not> is_close m) (rl_to_client s)"

text \<open>The relay invariant: one close at most and only once the flag is set; what was sent each way is
  what was received, in order, as long as the task runs, and a prefix of it afterwards.\<close>

definition relay_inv :: "asgi_in list \<Rightarrow> ws_msg list \<Rightarrow> relay \<Rightarrow> bool" where
  "relay_inv cs us s \<longleftrightarrow>
     closes s \<in> {[], [WsClose 1011 None]} \<and> (\<not> rl_close_sent s \<longrightarrow> closes s = []) \<and>
     prefix (client_data s) (map to_client_message us) \<and>
     prefix (rl_to_upstream s) (concat (map payload cs)) \<and>
     (rl_u2c s = TaskRunning \<longrightarrow> client_data s @ map to_client_message (rl_from_upstream s) = map to_client_message us) \<and>
     (rl_c2u s = TaskRunning \<longrightarrow> rl_to_upstream s @ concat (map payload (rl_from_client s)) = concat (map payload cs))"

lemma relay_init_inv: "relay_inv cs us (relay_init cs us)"
  by (simp add: relay_inv_def relay_init_def closes_def client_data_def)

lemma sent_frame [simp]:
  "closes (s\<lparr>rl_from_client := x\<rparr>) = closes s" "client_data (s\<lparr>rl_from_client := x\<rparr>) = client_data s"
  "closes (s\<lparr>rl_from_upstream := y\<rparr>) = closes s" "client_data (s\<lparr>rl_from_upstream := y\<rparr>) = client_data s"
  "closes (s\<lparr>rl_to_upstream := z\<rparr>) = closes s" "client_data (s\<lparr>rl_to_upstream := z\<rparr>) = client_data s"
  "closes (s\<lparr>rl_cancelled := b\<rparr>) = closes s" "client_data (s\<lparr>rl_cancelled := b\<rparr>) = client_data s"
  "closes (s\<lparr>rl_c2u := t\<rparr>) = closes s" "client_data (s\<lparr>rl_c2u := t\<rparr>) = client_data s"
  "closes (s\<lparr>rl_u2c := t\<rparr>) = closes s" "client_data (s\<lparr>rl_u2c := t\<rparr>) = client_data s"
  by (simp_all add: closes_def client_data_def)

lemma sent_data [simp]:
  "closes (s\<lparr>rl_to_client := rl_to_client s @ [to_client_message m]\<rparr>) = closes s"
  "client_data (s\<lparr>rl_to_client := rl_to_client s @ [to_client_message m]\<rparr>) = client_data s @ [to_client_message m]"
  by (simp_all add: closes_def client_data_def)

lemma try_close_fields [simp]:
  "rl_from_client (try_close d s) = rl_from_client s" "rl_from_upstream (try_close d s) = rl_from_upstream s"
  "rl_to_upstream (try_close d s) = rl_to_upstream s" "rl_close_sent (try_close d s)"
  "rl_cancelled (try_close d s) = rl_cancelled s" "rl_c2u (try_close d s) = rl_c2u s"
  "rl_u2c (try_close d s) = rl_u2c s" "client_data (try_close d s) = client_data s"
  by (simp_all add: try_close_def client_data_def)

lemma closes_try_close:
  "closes (try_close d s) = (if rl_close_sent s \<or> \<not> d then closes s else closes s @ [WsClose 1011 None])"
  by (simp add: try_close_def closes_def)

lemma relay_step_inv: "relay_step s s' \<Longrightarrow> relay_inv cs us s \<Longrightarrow> relay_inv cs us s'"
proof (induction rule: relay_step.induct)
  case (c2u_forward s m ms)
  then have "(rl_to_upstream s @ payload m) @ concat (map payload ms) = concat (map payload cs)"
    by (simp add: relay_inv_def)
  moreover from this have "prefix (rl_to_upstream s @ payload m) (concat (map payload cs))"
    by (metis prefixI)
  ultimately show ?case using c2u_forward by (simp add: relay_inv_def)
next
  case (u2c_forward s m ms)
  then have "(client_data s @ [to_client_message m]) @ map to_client_message ms = map to_client_message us"
    by (simp add: relay_inv_def)
  moreover from this have "prefix (client_data s @ [to_client_message m]) (map to_client_message us)"
    by (metis prefixI)
  moreover have "client_data (s\<lparr>rl_from_upstream := ms, rl_to_client := rl_to_client s @ [to_client_message m]\<rparr>)
      = client_data s @ [to_client_message m]"
    "closes (s\<lparr>rl_from_upstream := ms, rl_to_client := rl_to_client s @ [to_client_message m]\<rparr>) = closes s"
    using sent_data [of "s\<lparr>rl_from_upstream := ms\<rparr>" m] by simp_all
  ultimately show ?case using u2c_forward by (simp add: relay_inv_def)
next
  case (c2u_error s ms ms' delivered)
  then show ?case by (simp add: relay_inv_def closes_try_close)
next
  case (u2c_error s ms ms' delivered)
  then show ?case by (simp add: relay_inv_def closes_try_close)
qed (simp_all add: relay_inv_def)

interpretation relay_tasks: invariant_system relay_step "\<lambda>s. s = relay_init cs us" "relay_inv cs us" for cs us
  by unfold_locales (auto intro: relay_init_inv relay_step_inv)

text \<open>C12: However the two relay tasks interleave and whichever socket fails, the browser gets at most one
  close, it and Streamlit get the other's messages in the order they were sent with none invented or
  repeated, and nothing is lost while the task that forwards them runs.\<close>

theorem relay_safe:
  assumes "relay_step\<^sup>*\<^sup>* (relay_init cs us) s"
  shows "filter is_close (rl_to_client s) \<in> {[], [WsClose 1011 None]}
       \<and> prefix (filter (\<lambda>m. \<not> is_close m) (rl_to_client s)) (map to_client_message us)
       \<and> prefix (rl_to_upstream s) (concat (map payload cs))
       \<and> (rl_u2c s = TaskRunning \<longrightarrow> filter (\<lambda>m. \<not> is_close m) (rl_to_client s) @
            map to_client_message (rl_from_upstream s) = map to_client_message us)
       \<and> (rl_c2u s = TaskRunning \<longrightarrow> rl_to_upstream s @ concat (map payload (rl_from_client s)) = concat (map payload cs))"
  using relay_tasks.good_reachable [OF assms refl] by (simp add: relay_inv_def closes_def client_data_def)

theorem relay_safe_witness:
  "relay_step\<^sup>*\<^sup>* (relay_init [WsReceive None (Some (u ''hi''))] [MsgBytes ''x''])
     ((relay_init [] [])\<lparr>rl_to_upstream := [MsgText (u ''hi'')], rl_to_client := [WsSendBytes ''x'']\<rparr>)
   \<and> prefix [WsSendBytes ''x''] (map to_client_message [MsgBytes ''x''])"
proof -
  have a: "relay_step (relay_init [WsReceive None (Some (u ''hi''))] [MsgBytes ''x''])
      ((relay_init [] [MsgBytes ''x''])\<lparr>rl_to_upstream := [MsgText (u ''hi'')]\<rparr>)"
    using c2u_forward [of "relay_init [WsReceive None (Some (u ''hi''))] [MsgBytes ''x'']" "WsReceive None (Some (u ''hi''))" "[]"]
    by (simp add: relay_init_def)
  have b: "relay_step ((relay_init [] [MsgBytes ''x''])\<lparr>rl_to_upstream := [MsgText (u ''hi'')]\<rparr>)
      ((relay_init [] [])\<lparr>rl_to_upstream := [MsgText (u ''hi'')], rl_to_client := [WsSendBytes ''x'']\<rparr>)"
    using u2c_forward [of "(relay_init [] [MsgBytes ''x''])\<lparr>rl_to_upstream := [MsgText (u ''hi'')]\<rparr>" "MsgBytes ''x''" "[]"]
    by (simp add: relay_init_def)
  from a b have r: "relay_step\<^sup>*\<^sup>* (relay_init [WsReceive None (Some (u ''hi''))] [MsgBytes ''x''])
      ((relay_init [] [])\<lparr>rl_to_upstream := [MsgText (u ''hi'')], rl_to_client := [WsSendBytes ''x'']\<rparr>)"
    by (rule converse_rtranclp_into_rtranclp [OF _ r_into_rtranclp])
  from relay_safe [OF r] r show ?thesis by (simp add: is_close_def)
qed

subsection \<open>The relay ends\<close>

fun task_weight :: "task \<Rightarrow> nat" where
  "task_weight TaskRunning = 2"
| "task_weight TaskClosing = 1"
| "task_weight TaskDone = 0"

lemma task_weight_pos [simp]: "0 < task_weight t \<longleftrightarrow> t \<noteq> TaskDone"
  by (cases t) auto

definition relay_measure :: "relay \<Rightarrow> nat" where
  "relay_measure s = length (rl_from_client s) + length (rl_from_upstream s) + task_weight (rl_c2u s) + task_weight (rl_u2c s)"

lemma relay_step_decreases: "relay_step s s' \<Longrightarrow> relay_measure s' < relay_measure s"
  by (induction rule: relay_step.induct)
    (auto simp: relay_measure_def try_close_def)

interpretation relay_ends: ranked_system relay_step relay_measure
  by unfold_locales (rule relay_step_decreases)



subsection \<open>What Streamlit is told in the handshake\<close>

definition handshake_values :: "(pystr \<times> pystr) list \<Rightarrow> bytes \<Rightarrow> pystr list" where
  "handshake_values hs n = map snd (filter (\<lambda>p. lower (fst p) = u n) hs)"

lemma client_ws_values_skipped: "u n \<in> set skip_ws \<Longrightarrow> handshake_values (client_ws_headers raw) n = []"
  by (auto simp: handshake_values_def client_ws_headers_def filter_empty_conv)

lemma handshake_values_append [simp]: "handshake_values (a @ b) n = handshake_values a n @ handshake_values b n"
  by (simp add: handshake_values_def)

lemma handshake_values_simps [simp]:
  "handshake_values [] n = []"
  "handshake_values ((k, v) # hs) n = (if lower k = u n then [v] else []) @ handshake_values hs n"
  by (simp_all add: handshake_values_def)

lemma client_ws_values:
  assumes "\<forall>c \<in> set n. of_char c < (128 :: nat)" and "u n \<notin> set skip_ws"
  shows "handshake_values (client_ws_headers raw) n =
    map (\<lambda>(k, v). latin1_decode v) (filter (\<lambda>(k, v). bytes_lower k = n) raw)"
  using assms
  by (induction raw) (auto simp: handshake_values_def client_ws_headers_def lower_latin1_ascii)

text \<open>On the WebSocket hop the client cannot influence \<open>Host\<close>, \<open>X-Request-ID\<close> and four of the five
  forwarding headers, but its own \<open>X-Forwarded-Prefix\<close> lines are passed on after the gateway's.\<close>

theorem ws_handshake_forwarding:
  assumes "ws_handshake_headers sc upstream pfx rid = Inr hs"
  shows "\<exists>ph ps. public_host_from_scope sc upstream = Inr ph \<and> forwarded_upstream_header_pairs sc ph pfx = Inr ps
     \<and> handshake_values hs ''host'' = [ph] \<and> handshake_values hs ''x-request-id'' = [rid]
     \<and> map (handshake_values hs) [''x-forwarded-for'', ''x-forwarded-host'', ''x-forwarded-proto'', ''x-forwarded-port'']
        = map (handshake_values ps) [''x-forwarded-for'', ''x-forwarded-host'', ''x-forwarded-proto'', ''x-forwarded-port'']
     \<and> handshake_values hs ''x-forwarded-prefix'' = handshake_values ps ''x-forwarded-prefix'' @
         map (\<lambda>(k, v). latin1_decode v) (filter (\<lambda>(k, v). bytes_lower k = ''x-forwarded-prefix'') (sc_headers sc))"
proof -
  obtain ph ps where st: "public_host_from_scope sc upstream = Inr ph"
    "forwarded_upstream_header_pairs sc ph pfx = Inr ps"
    "hs = [(u ''Host'', ph)] @ ps @ client_ws_headers (sc_headers sc) @ [(u ''X-Request-ID'', rid)]"
    using assms by (auto simp: ws_handshake_headers_def bind_exc_Inr_iff)
  have names: "lower (u ''Host'') = u ''host''" "lower (u ''X-Request-ID'') = u ''x-request-id''"
    by (simp_all add: pystr_eval)
  have psn: "handshake_values ps n = []" if "n \<notin> set client_forwarding_headers" for n
    using forwarded_pairs_names(2) [OF st(2)] that
    by (fastforce simp: handshake_values_def filter_empty_conv)
  have "handshake_values ps ''host'' = []" "handshake_values ps ''x-request-id'' = []"
    by (rule psn, simp add: client_forwarding_headers_def)+
  moreover have "handshake_values (client_ws_headers (sc_headers sc)) ''x-forwarded-prefix'' =
      map (\<lambda>(k, v). latin1_decode v) (filter (\<lambda>(k, v). bytes_lower k = ''x-forwarded-prefix'') (sc_headers sc))"
    by (rule client_ws_values) (simp_all add: skip_ws_def)
  ultimately have "handshake_values hs ''host'' = [ph] \<and> handshake_values hs ''x-request-id'' = [rid]
     \<and> map (handshake_values hs) [''x-forwarded-for'', ''x-forwarded-host'', ''x-forwarded-proto'', ''x-forwarded-port'']
        = map (handshake_values ps) [''x-forwarded-for'', ''x-forwarded-host'', ''x-forwarded-proto'', ''x-forwarded-port'']
     \<and> handshake_values hs ''x-forwarded-prefix'' = handshake_values ps ''x-forwarded-prefix'' @
         map (\<lambda>(k, v). latin1_decode v) (filter (\<lambda>(k, v). bytes_lower k = ''x-forwarded-prefix'') (sc_headers sc))"
    by (simp add: st(3) client_ws_values_skipped skip_ws_def names)
  with st(1,2) show ?thesis by blast
qed

lemma spoofing_ws_handshake:
  "ws_handshake_headers spoofing_scope (u ''http://127.0.0.1:8501'') None (u ''r1'') = Inr
     [(u ''Host'', u ''shop.example:8443''), (u ''X-Forwarded-Host'', u ''shop.example:8443''),
      (u ''X-Forwarded-Proto'', u ''https''), (u ''X-Forwarded-Port'', u ''8443''), (u ''X-Forwarded-For'', u ''10.0.0.9''),
      (u ''Cookie'', u ''s=1''), (u ''x-forwarded-Prefix'', u ''/evil''), (u ''Cookie'', u ''t=2''),
      (u ''X-Request-ID'', u ''r1'')]"
proof -
  have "client_ws_headers (sc_headers spoofing_scope) =
      [(u ''Cookie'', u ''s=1''), (u ''x-forwarded-Prefix'', u ''/evil''), (u ''Cookie'', u ''t=2'')]"
    by (simp add: client_ws_headers_def spoofing_scope_def skip_ws_def pystr_eval)
  then show ?thesis by (simp add: ws_handshake_headers_def spoofing_public_host spoofing_pairs)
qed

theorem ws_handshake_forwarding_witness:
  "\<exists>hs. ws_handshake_headers spoofing_scope (u ''http://127.0.0.1:8501'') None (u ''r1'') = Inr hs
     \<and> handshake_values hs ''x-forwarded-prefix'' = [u ''/evil''] \<and> handshake_values hs ''x-forwarded-for'' = [u ''10.0.0.9'']"
  using ws_handshake_forwarding [OF spoofing_ws_handshake]
  by (simp add: spoofing_ws_handshake spoofing_public_host spoofing_pairs)
    (simp add: handshake_values_def spoofing_scope_def pystr_eval)

end
