(* ===== verification/Gateway_Dispatch.thy ===== *)
theory Gateway_Dispatch
  imports Http_Proxy Ws_Proxy
begin

section \<open>The gateway: configuration, dispatch, metrics and debug ring\<close>

text \<open>
  Models \<open>gateway/builder.py\<close>, \<open>gateway/dispatch.py\<close>, \<open>gateway/metrics.py\<close> and
  \<open>gateway/debug_ring.py\<close>. \<open>gateway_config\<close> holds what \<open>build_gateway\<close> computes once,
  \<open>gateway_env\<close> what the handler calls (the API application, the upstream resolver, \<open>httpx\<close>,
  \<open>websockets\<close>, \<open>prometheus_client\<close>), \<open>gateway_state\<close> what it changes. What it logs and
  traces is in \<open>Request_Logging\<close>.
\<close>

subsection \<open>Metrics objects and the debug ring\<close>

datatype prom_cache = PromUnset | PromUnavailable | PromCached nat

text \<open>\<open>import_ok\<close>: whether \<open>prometheus_client\<close> can be imported; \<open>fresh\<close> identifies the pair of
  metric objects a construction makes.\<close>

definition get_gateway_prom_metrics :: "bool \<Rightarrow> nat \<Rightarrow> prom_cache \<Rightarrow> nat option \<times> prom_cache" where
  "get_gateway_prom_metrics import_ok fresh cache =
     (case cache of
        PromUnavailable \<Rightarrow> (None, cache)
      | PromCached n \<Rightarrow> (Some n, cache)
      | PromUnset \<Rightarrow> if import_ok then (Some fresh, PromCached fresh) else (None, PromUnavailable))"

type_synonym ring_entry = "pystr \<times> pystr \<times> pystr"

definition ring_maxlen :: nat where
  "ring_maxlen = 32"

definition record_gateway_dispatch :: "ring_entry \<Rightarrow> ring_entry list \<Rightarrow> ring_entry list" where
  "record_gateway_dispatch e ring =
     (let r = ring @ [e] in if length r > ring_maxlen then tl r else r)"

definition recent_gateway_dispatches :: "ring_entry list \<Rightarrow> pystr dict list" where
  "recent_gateway_dispatches ring =
     map (\<lambda>(rid, d, p). [(u ''request_id'', rid), (u ''dispatch'', d), (u ''path'', p)]) ring"

subsection \<open>Building the gateway\<close>

record gateway_config =
  gc_prefix :: pystr
  gc_mount :: pystr
  gc_opts :: gateway_options
  gc_prom :: "nat option"
  gc_prom_path :: pystr
  gc_debug_mode :: bool
  gc_debug_path :: pystr
  gc_access_log :: bool
  gc_log_sensitive_query_keys :: "pystr set"

definition under_prefix :: "pystr \<Rightarrow> pystr \<Rightarrow> bool" where
  "under_prefix pre path \<longleftrightarrow> path = pre \<or> startswith path (pre @ [slash])"

definition default_sensitive_query_keys :: "pystr set" where
  "default_sensitive_query_keys = {u ''fluxlit_sid'', u ''auth_code''}"

definition prom_path_of :: "fluxlit_settings \<Rightarrow> pystr" where
  "prom_path_of fs = lead_slash (strip (or_str (fs_gateway_prometheus_metrics_path fs) (u ''/__fluxlit/metrics'')))"

definition build_gateway ::
  "nat option \<Rightarrow> bool \<Rightarrow> pystr \<Rightarrow> pystr \<Rightarrow> fluxlit_settings option \<Rightarrow> gateway_config" where
  "build_gateway prom access_log api_prefix root_mount proxy_settings =
     (let pre = normalize_api_mount_path api_prefix;
          mount = normalize_root_mount root_mount;
          keys = (case proxy_settings of None \<Rightarrow> default_sensitive_query_keys
                  | Some fs \<Rightarrow> let p = strip (fs_url_session_query_param fs)
                      in if p \<noteq> [] then insert p default_sensitive_query_keys else default_sensitive_query_keys);
          (prom_metrics, prom_path) =
            (case proxy_settings of
               Some fs \<Rightarrow> if fs_enable_gateway_prometheus_metrics fs
                  then (if under_prefix pre (prom_path_of fs) then None else prom, prom_path_of fs)
                  else (None, u ''/__fluxlit/metrics'')
             | None \<Rightarrow> (None, u ''/__fluxlit/metrics''));
          debug_path = u ''/__fluxlit/debug'';
          debug_mode = (case proxy_settings of None \<Rightarrow> False
             | Some fs \<Rightarrow> fs_debug fs \<and> \<not> under_prefix pre debug_path)
      in \<lparr>gc_prefix = pre, gc_mount = mount, gc_opts = gateway_opts proxy_settings, gc_prom = prom_metrics,
          gc_prom_path = prom_path, gc_debug_mode = debug_mode, gc_debug_path = debug_path,
          gc_access_log = access_log, gc_log_sensitive_query_keys = keys\<rparr>)"

definition resolve_upstream :: "(exc + pystr) option \<Rightarrow> pystr \<Rightarrow> exc + pystr" where
  "resolve_upstream upstream_resolver upstream_base =
     (case upstream_resolver of
        Some r \<Rightarrow> bind_exc r (\<lambda>s. Inr (rstrip_slash (strip s)))
      | None \<Rightarrow> Inr (rstrip_slash upstream_base))"

subsection \<open>The shared HTTP client\<close>

record shared_client =
  cl_open :: bool
  cl_created :: nat
  cl_closed :: nat

definition shared_httpx_client :: "shared_client \<Rightarrow> shared_client" where
  "shared_httpx_client c = (if cl_open c then c else c\<lparr>cl_open := True, cl_created := cl_created c + 1\<rparr>)"

definition close_shared_httpx_client :: "shared_client \<Rightarrow> shared_client" where
  "close_shared_httpx_client c = (if cl_open c then c\<lparr>cl_open := False, cl_closed := cl_closed c + 1\<rparr> else c)"

text \<open>The pool limits passed to the client: none unless a maximum is configured.\<close>

definition client_limits :: "gateway_options \<Rightarrow> (int \<times> int) option" where
  "client_limits opts =
     (if httpx_max_connections opts > 0
      then Some (httpx_max_connections opts,
                 if httpx_max_keepalive_connections opts > 0 then httpx_max_keepalive_connections opts
                 else httpx_max_connections opts)
      else None)"

subsection \<open>Dispatch\<close>

record gateway_state =
  gs_request_id :: "pystr option"
  gs_counter :: "(pystr \<times> pystr) list"
  gs_observed :: "pystr list"
  gs_ring :: "ring_entry list"
  gs_client :: shared_client

record 'h gateway_env =
  ge_fresh_id :: pystr
  ge_api :: "pystr option \<Rightarrow> scope \<Rightarrow> asgi_in list \<Rightarrow> asgi_out list \<times> outcome"
  ge_upstream :: "exc + pystr"
  ge_headers :: "'h headers_api"
  ge_client :: "'h http_request \<Rightarrow> reply"
  ge_ws_connect :: "pystr \<Rightarrow> (pystr \<times> pystr) list \<Rightarrow> ws_connect_kw \<Rightarrow> connect_result"
  ge_relay :: "asgi_in list \<Rightarrow> asgi_out list \<times> outcome"
  ge_generate_latest :: bytes
  ge_content_type_latest :: bytes
  ge_debug_json :: "ring_entry list \<Rightarrow> bytes"

definition is_api :: "gateway_config \<Rightarrow> pystr \<Rightarrow> bool" where
  "is_api cfg path = under_prefix (gc_prefix cfg) path"

definition get_http :: "scope \<Rightarrow> bool" where
  "get_http sc \<longleftrightarrow> sc_type sc = HttpScope \<and> request_method sc = u ''GET''"

definition api_scope :: "gateway_config \<Rightarrow> scope \<Rightarrow> pystr \<Rightarrow> exc + scope" where
  "api_scope cfg sc path =
     bind_exc (latin1_encode path) (\<lambda>raw.
       strip_prefix_scope (sc\<lparr>sc_path := Some path, sc_raw_path := Some raw\<rparr>) (gc_prefix cfg))"

definition docs_redirect :: "gateway_config \<Rightarrow> scope \<Rightarrow> pystr \<Rightarrow> pystr option" where
  "docs_redirect cfg sc path =
     (if \<not> bodyless (request_method sc) then None
      else if path = u ''/docs'' \<or> path = u ''/docs/'' then Some (location_under_mount (gc_mount cfg) (gc_prefix cfg @ u ''/docs''))
      else if path = u ''/redoc'' \<or> path = u ''/redoc/'' then Some (location_under_mount (gc_mount cfg) (gc_prefix cfg @ u ''/redoc''))
      else if path = u ''/openapi.json'' then Some (location_under_mount (gc_mount cfg) (gc_prefix cfg @ u ''/openapi.json''))
      else None)"

text \<open>The part of the handler that answers with the Streamlit side: messages sent, outcome, and
  whether the HTTP client was asked for.\<close>

definition streamlit_side ::
  "gateway_config \<Rightarrow> 'h gateway_env \<Rightarrow> scope \<Rightarrow> asgi_in list \<Rightarrow> pystr \<Rightarrow> pystr \<Rightarrow> pystr \<Rightarrow>
     asgi_out list \<times> outcome \<times> bool" where
  "streamlit_side cfg env sc msgs rid path streamlit_path =
     (let pfx = (if gc_mount cfg \<noteq> [] then Some (gc_mount cfg) else None)
      in case ge_upstream env of
           Inl e \<Rightarrow> ([], Raised e, False)
         | Inr upstream \<Rightarrow>
             if upstream = [] \<and> sc_type sc = HttpScope then (bad_streamlit_upstream_http, Returned, False)
             else if upstream = [] \<and> sc_type sc = WebsocketScope
             then (let (out, oc) = bad_streamlit_upstream_ws msgs in (out, oc, False))
             else if sc_type sc = WebsocketScope
             then (case proxy_websocket (ge_ws_connect env) (gc_opts cfg) sc msgs upstream streamlit_path pfx rid of
                 HandshakeOver out oc \<Rightarrow> (out, oc, False)
               | Relaying accept rest \<Rightarrow> let (out, oc) = ge_relay env rest in (accept # out, oc, False))
             else if sc_type sc = HttpScope
             then (case docs_redirect cfg sc path of
                 Some loc \<Rightarrow> (case redirect loc 307 of Inl e \<Rightarrow> ([], Raised e, False) | Inr out \<Rightarrow> (out, Returned, False))
               | None \<Rightarrow>
                   let run = proxy_http_inner (ge_headers env) (ge_client env) (gc_opts cfg) sc msgs upstream
                               streamlit_path pfx rid
                   in (pr_out run, pr_outcome run, pr_request run \<noteq> None))
             else (not_found, Returned, False))"

definition method_kind :: "scope \<Rightarrow> pystr" where
  "method_kind sc = (if sc_type sc = WebsocketScope then u ''WEBSOCKET'' else request_method sc)"

definition dispatch_label :: "gateway_config \<Rightarrow> pystr \<Rightarrow> pystr" where
  "dispatch_label cfg path = (if is_api cfg path then u ''api'' else u ''streamlit'')"

definition finish_dispatch :: "gateway_config \<Rightarrow> scope \<Rightarrow> pystr option \<Rightarrow> bool \<Rightarrow> pystr \<Rightarrow> outcome \<Rightarrow> gateway_state \<Rightarrow> gateway_state" where
  "finish_dispatch cfg sc token skip_prom_observe label oc st =
     (if oc = Blocked then st
      else (let st' = (if gc_prom cfg \<noteq> None \<and> \<not> skip_prom_observe \<and> sc_type sc \<in> {HttpScope, WebsocketScope}
                       then st\<lparr>gs_observed := gs_observed st @ [label]\<rparr> else st)
            in st'\<lparr>gs_request_id := token\<rparr>))"

definition gateway_app ::
  "gateway_config \<Rightarrow> 'h gateway_env \<Rightarrow> scope \<Rightarrow> asgi_in list \<Rightarrow> gateway_state \<Rightarrow>
     asgi_out list \<times> outcome \<times> gateway_state" where
  "gateway_app cfg env sc msgs st =
     (if sc_type sc = LifespanScope
      then (case ge_api env (gs_request_id st) sc msgs of
              (out, Returned) \<Rightarrow> (out, Returned, st\<lparr>gs_client := close_shared_httpx_client (gs_client st)\<rparr>)
            | (out, oc) \<Rightarrow> (out, oc, st))
      else
        (let rid = request_id_from_scope (ge_fresh_id env) sc;
             token = gs_request_id st;
             st1 = st\<lparr>gs_request_id := Some rid\<rparr>;
             path_in = opt_str (sc_path sc);
             (path, streamlit_path) = split_gateway_paths path_in (gc_mount cfg);
             label = dispatch_label cfg path;
             st2 = (if gc_debug_mode cfg
                    then st1\<lparr>gs_ring := record_gateway_dispatch (rid, label, path_in) (gs_ring st1)\<rparr> else st1)
         in if gc_prom cfg \<noteq> None \<and> get_http sc \<and> path = gc_prom_path cfg
            then ([ResponseStart 200 [(''content-type'', ge_content_type_latest env)],
                   ResponseBody (ge_generate_latest env) False], Returned,
                  finish_dispatch cfg sc token True label Returned st2)
            else if get_http sc \<and> path = gc_debug_path cfg
            then ((if gc_debug_mode cfg
                   then [ResponseStart 200 [(''content-type'', ''application/json; charset=utf-8'')],
                         ResponseBody (ge_debug_json env (gs_ring st2)) False]
                   else not_found), Returned,
                  finish_dispatch cfg sc token True label Returned st2)
            else
              (let st3 = (if gc_prom cfg \<noteq> None
                          then st2\<lparr>gs_counter := gs_counter st2 @ [(label, method_kind sc)]\<rparr> else st2)
               in if is_api cfg path
                  then (case api_scope cfg sc path of
                      Inl e \<Rightarrow> ([], Raised e, finish_dispatch cfg sc token False label (Raised e) st3)
                    | Inr sc' \<Rightarrow>
                        (let (out, oc) = ge_api env (gs_request_id st3) sc' msgs
                         in (out, oc, finish_dispatch cfg sc token False label oc st3)))
                  else
                    (let (out, oc, used) = streamlit_side cfg env sc msgs rid path streamlit_path;
                         st4 = (if used then st3\<lparr>gs_client := shared_httpx_client (gs_client st3)\<rparr> else st3)
                     in (out, oc, finish_dispatch cfg sc token False label oc st4)))))"

subsection \<open>The two ways a proxy forwards the mount\<close>

lemma scope_path_frame:
  "sc_type (sc\<lparr>sc_path := x\<rparr>) = sc_type sc" "sc_headers (sc\<lparr>sc_path := x\<rparr>) = sc_headers sc"
  "sc_scheme (sc\<lparr>sc_path := x\<rparr>) = sc_scheme sc" "sc_client (sc\<lparr>sc_path := x\<rparr>) = sc_client sc"
  "sc_method (sc\<lparr>sc_path := x\<rparr>) = sc_method sc" "sc_query (sc\<lparr>sc_path := x\<rparr>) = sc_query sc"
  "sc_subprotocols (sc\<lparr>sc_path := x\<rparr>) = sc_subprotocols sc" "sc_path (sc\<lparr>sc_path := x\<rparr>) = x"
  by simp_all

lemma path_independent:
  "request_id_from_scope f (sc\<lparr>sc_path := x\<rparr>) = request_id_from_scope f sc"
  "request_method (sc\<lparr>sc_path := x\<rparr>) = request_method sc"
  "get_http (sc\<lparr>sc_path := x\<rparr>) = get_http sc"
  "method_kind (sc\<lparr>sc_path := x\<rparr>) = method_kind sc"
  "api_scope cfg (sc\<lparr>sc_path := x\<rparr>) path = api_scope cfg sc path"
  "docs_redirect cfg (sc\<lparr>sc_path := x\<rparr>) path = docs_redirect cfg sc path"
  "scope_query (sc\<lparr>sc_path := x\<rparr>) = scope_query sc"
  "use_path (sc\<lparr>sc_path := x\<rparr>) (Some p) = use_path sc (Some p)"
  "public_host_from_scope (sc\<lparr>sc_path := x\<rparr>) up = public_host_from_scope sc up"
  "forwarded_upstream_header_pairs (sc\<lparr>sc_path := x\<rparr>) ph pfx = forwarded_upstream_header_pairs sc ph pfx"
  "finish_dispatch cfg (sc\<lparr>sc_path := x\<rparr>) token skip label oc st = finish_dispatch cfg sc token skip label oc st"
  unfolding request_id_from_scope_def request_method_def get_http_def method_kind_def
      docs_redirect_def scope_query_def use_path_def public_host_from_scope_def forwarded_upstream_header_pairs_def
      finish_dispatch_def scope_path_frame
  by (simp_all add: api_scope_def)

lemma path_independent_hops:
  "proxy_http_inner H client opts (sc\<lparr>sc_path := x\<rparr>) msgs up p pfx rid = proxy_http_inner H client opts sc msgs up p pfx rid"
  "proxy_websocket conn opts (sc\<lparr>sc_path := x\<rparr>) msgs up p pfx rid = proxy_websocket conn opts sc msgs up p pfx rid"
  unfolding proxy_http_inner_def proxy_websocket_def upstream_headers_def build_target_url_def
      parse_ws_target_def ws_handshake_headers_def path_independent scope_path_frame
  by (rule refl)+

lemma path_independent_side:
  "streamlit_side cfg env (sc\<lparr>sc_path := x\<rparr>) msgs rid path sp = streamlit_side cfg env sc msgs rid path sp"
  unfolding streamlit_side_def path_independent path_independent_hops scope_path_frame by (rule refl)


definition sample_config :: gateway_config where
  "sample_config = \<lparr>gc_prefix = u ''/api'', gc_mount = u ''/app'', gc_opts = default_gateway_options, gc_prom = Some 1,
     gc_prom_path = u ''/__fluxlit/metrics'', gc_debug_mode = False, gc_debug_path = u ''/__fluxlit/debug'',
     gc_access_log = False, gc_log_sensitive_query_keys = default_sensitive_query_keys\<rparr>"

definition sample_env :: "(pystr \<times> pystr) list gateway_env" where
  "sample_env = \<lparr>ge_fresh_id = u ''uuid'', ge_api = (\<lambda>_ sc _. ([ResponseStart 204 [], ResponseBody [] False], Returned)),
     ge_upstream = Inr [], ge_headers = assoc_headers, ge_client = (\<lambda>_. Responded 0 sample_response),
     ge_ws_connect = (\<lambda>_ _ _. ConnectFailed), ge_relay = (\<lambda>_. ([], Returned)), ge_generate_latest = ''m'',
     ge_content_type_latest = ''text/plain'', ge_debug_json = (\<lambda>_. [])\<rparr>"

definition sample_state :: gateway_state where
  "sample_state = \<lparr>gs_request_id = None, gs_counter = [], gs_observed = [], gs_ring = [],
     gs_client = \<lparr>cl_open = False, cl_created = 0, cl_closed = 0\<rparr>\<rparr>"

lemma sample_mount: "normalize_root_mount (u ''/app'') = u ''/app''"
  by (simp add: normalize_root_mount_def lead_slash_def pystr_eval)


subsection \<open>Metrics and the request id\<close>

definition reserved_path :: "gateway_config \<Rightarrow> scope \<Rightarrow> bool" where
  "reserved_path cfg sc \<longleftrightarrow>
     (let path = fst (split_gateway_paths (opt_str (sc_path sc)) (gc_mount cfg))
      in get_http sc \<and> (gc_prom cfg \<noteq> None \<and> path = gc_prom_path cfg \<or> path = gc_debug_path cfg))"

lemma finish_dispatch_fields [simp]:
  "gs_counter (finish_dispatch cfg sc token skip label oc st) = gs_counter st"
  "gs_client (finish_dispatch cfg sc token skip label oc st) = gs_client st"
  "gs_ring (finish_dispatch cfg sc token skip label oc st) = gs_ring st"
  "gs_request_id (finish_dispatch cfg sc token skip label oc st) = (if oc = Blocked then gs_request_id st else token)"
  "gs_observed (finish_dispatch cfg sc token skip label oc st) =
     (if oc \<noteq> Blocked \<and> gc_prom cfg \<noteq> None \<and> \<not> skip \<and> sc_type sc \<in> {HttpScope, WebsocketScope}
      then gs_observed st @ [label] else gs_observed st)"
  by (simp_all add: finish_dispatch_def Let_def)

text \<open>Every request that ends, whatever it does and even when it raises, is counted once and timed once
  under the same dispatch label when metrics are on, except on the gateway's own metrics and debug
  paths, and leaves the request-id context as it found it.\<close>

theorem gateway_accounts_once:
  assumes "gateway_app cfg env sc msgs st = (out, oc, st')" and "oc \<noteq> Blocked"
    and "sc_type sc \<in> {HttpScope, WebsocketScope}"
  shows "gs_request_id st' = gs_request_id st \<and>
     (if gc_prom cfg = None \<or> reserved_path cfg sc
      then gs_counter st' = gs_counter st \<and> gs_observed st' = gs_observed st
      else (let label = dispatch_label cfg (fst (split_gateway_paths (opt_str (sc_path sc)) (gc_mount cfg)))
            in gs_counter st' = gs_counter st @ [(label, method_kind sc)] \<and> gs_observed st' = gs_observed st @ [label]))"
proof -
  obtain path sp where sp: "split_gateway_paths (opt_str (sc_path sc)) (gc_mount cfg) = (path, sp)" by fastforce
  have ty: "sc_type sc \<noteq> LifespanScope" "sc_type sc = HttpScope \<or> sc_type sc = WebsocketScope" using assms(3) by auto
  consider (prom) "gc_prom cfg \<noteq> None" "get_http sc" "path = gc_prom_path cfg"
    | (debug) "\<not> (gc_prom cfg \<noteq> None \<and> get_http sc \<and> path = gc_prom_path cfg)" "get_http sc" "path = gc_debug_path cfg"
    | (api) "\<not> reserved_path cfg sc" "is_api cfg path"
    | (side) "\<not> reserved_path cfg sc" "\<not> is_api cfg path"
    unfolding reserved_path_def sp Let_def fst_conv by blast
  then show ?thesis
  proof cases
    case prom
    with assms(1) ty show ?thesis by (auto simp: gateway_app_def sp reserved_path_def Let_def)
  next
    case debug
    with assms(1) ty show ?thesis by (auto simp: gateway_app_def sp reserved_path_def Let_def)
  next
    case api
    with assms(1,2) ty show ?thesis
      by (cases "api_scope cfg sc path") (auto simp: gateway_app_def sp reserved_path_def Let_def split: prod.splits)
  next
    case side
    with assms(1,2) ty show ?thesis
      by (auto simp: gateway_app_def sp reserved_path_def Let_def split: prod.splits)
  qed
qed

lemma sample_run:
  "gateway_app sample_config sample_env (spoofing_scope\<lparr>sc_path := Some (u ''/app/api/x'')\<rparr>) [] sample_state =
     ([ResponseStart 204 [], ResponseBody [] False], Returned,
      sample_state\<lparr>gs_counter := [(u ''api'', u ''GET'')], gs_observed := [u ''api'']\<rparr>)"
proof -
  have "u ''/app'' @ u ''/api/x'' = u ''/app/api/x''" "startswith (u ''/api/x'') [slash]"
    by (simp_all add: pystr_eval)
  then have "split_gateway_paths (u ''/app/api/x'') (u ''/app'') = (u ''/api/x'', u ''/app/api/x'')"
    using split_under_mount [OF sample_mount, of "u ''/api/x''"] by simp
  moreover have "under_prefix (u ''/api'') (u ''/api/x'')" by (simp add: under_prefix_def pystr_eval)
  moreover have "upper (u ''GET'') = u ''GET''" by (simp add: pystr_eval)
  moreover have "removeprefix (u ''/api/x'') (u ''/api'') = u ''/x''" by (simp add: pystr_eval)
  ultimately show ?thesis
    by (simp add: gateway_app_def sample_config_def sample_env_def sample_state_def spoofing_scope_def is_api_def
        get_http_def request_method_def api_scope_def strip_prefix_scope_def or_str_def Let_def dispatch_label_def
        method_kind_def finish_dispatch_def)
qed

theorem gateway_accounts_once_witness:
  "gs_counter (sample_state\<lparr>gs_counter := [(u ''api'', u ''GET'')], gs_observed := [u ''api'']\<rparr>) = [(u ''api'', u ''GET'')]
   \<and> gs_request_id (sample_state\<lparr>gs_counter := [(u ''api'', u ''GET'')], gs_observed := [u ''api'']\<rparr>) = None"
  using gateway_accounts_once [OF sample_run] by (simp add: spoofing_scope_def sample_state_def)

subsection \<open>Answers of the Streamlit side\<close>

lemma proxied_answer [simp]:
  "pr_outcome (proxy_http_inner H client opts sc msgs up p pfx rid) = Returned \<Longrightarrow>
     complete_response (pr_out (proxy_http_inner H client opts sc msgs up p pfx rid))"
  "pr_outcome (proxy_http_inner H client opts sc msgs up p pfx rid) \<noteq> Returned \<Longrightarrow>
     pr_out (proxy_http_inner H client opts sc msgs up p pfx rid) = []"
  using proxy_http_one_response_lemma [of H client opts sc msgs up p pfx rid] by simp_all

lemma streamlit_side_http:
  assumes "sc_type sc = HttpScope" and "streamlit_side cfg env sc msgs rid path sp = (out, oc, used)"
  shows "if oc = Returned then complete_response out else out = []"
  using assms complete_redirect
  by (auto simp: streamlit_side_def Let_def split: sum.splits option.splits if_splits)

text \<open>C3: Every HTTP request the gateway answers itself or proxies to Streamlit gets exactly one complete
  response; if it raises or hangs nothing was sent, so the server can still answer.\<close>

theorem gateway_http_answers_once:
  assumes "gateway_app cfg env sc msgs st = (out, oc, st')" and "sc_type sc = HttpScope"
    and "\<not> is_api cfg (fst (split_gateway_paths (opt_str (sc_path sc)) (gc_mount cfg))) \<or> reserved_path cfg sc"
  shows "if oc = Returned then complete_response out else out = []"
proof -
  obtain path sp where sp: "split_gateway_paths (opt_str (sc_path sc)) (gc_mount cfg) = (path, sp)" by fastforce
  show ?thesis
  proof (cases "reserved_path cfg sc")
    case True
    with assms(1,2) sp show ?thesis
      by (auto simp: gateway_app_def reserved_path_def Let_def complete_response_def split: if_splits)
        (auto simp: not_found_def)
  next
    case False
    obtain o1 oc1 used where side: "streamlit_side cfg env sc msgs (request_id_from_scope (ge_fresh_id env) sc) path sp = (o1, oc1, used)"
      by (metis prod_cases3)
    have "out = o1 \<and> oc = oc1"
      using assms False sp side by (auto simp: gateway_app_def reserved_path_def Let_def split: if_splits)
    with streamlit_side_http [OF assms(2) side] show ?thesis by simp
  qed
qed

lemma sample_run_502:
  "\<exists>st'. gateway_app sample_config sample_env (spoofing_scope\<lparr>sc_path := Some (u ''/x'')\<rparr>) [] sample_state =
     (bad_streamlit_upstream_http, Returned, st')"
proof -
  have "\<not> under_mount (u ''/app'') (u ''/x'')" by (simp add: under_mount_def pystr_eval)
  then have "split_gateway_paths (u ''/x'') (u ''/app'') = (u ''/x'', u ''/app'' @ u ''/x'')"
    using split_outside_mount [OF sample_mount, of "u ''/x''"] by (simp add: pystr_eval)
  moreover have "\<not> under_prefix (u ''/api'') (u ''/x'')" by (simp add: under_prefix_def pystr_eval)
  ultimately show ?thesis
    by (simp add: gateway_app_def sample_config_def sample_env_def sample_state_def spoofing_scope_def is_api_def
        streamlit_side_def Let_def)
qed

theorem gateway_http_answers_once_witness: "complete_response bad_streamlit_upstream_http"
proof -
  obtain st' where r: "gateway_app sample_config sample_env (spoofing_scope\<lparr>sc_path := Some (u ''/x'')\<rparr>) [] sample_state =
     (bad_streamlit_upstream_http, Returned, st')" using sample_run_502 by blast
  have "\<not> under_mount (u ''/app'') (u ''/x'')" by (simp add: under_mount_def pystr_eval)
  then have "split_gateway_paths (u ''/x'') (u ''/app'') = (u ''/x'', u ''/app'' @ u ''/x'')"
    using split_outside_mount [OF sample_mount, of "u ''/x''"] by (simp add: pystr_eval)
  moreover have "\<not> under_prefix (u ''/api'') (u ''/x'')" by (simp add: under_prefix_def pystr_eval)
  ultimately have "\<not> is_api sample_config
      (fst (split_gateway_paths (opt_str (sc_path (spoofing_scope\<lparr>sc_path := Some (u ''/x'')\<rparr>))) (gc_mount sample_config)))"
    by (simp add: is_api_def sample_config_def)
  with gateway_http_answers_once [OF r] show ?thesis by (simp add: spoofing_scope_def)
qed

text \<open>The API application receives exactly the requests at or below its prefix that are not on the
  gateway's own paths, with the prefix moved from the path to \<open>root_path\<close> and the gateway's request
  id in the context.\<close>

theorem gateway_calls_api:
  assumes "split_gateway_paths (opt_str (sc_path sc)) (gc_mount cfg) = (gc_prefix cfg @ slash # r, sp)"
    and "mount_shape (gc_prefix cfg)" and "\<forall>c \<in> set (gc_prefix cfg @ r). c < 256"
    and "sc_type sc \<noteq> LifespanScope" and "\<not> reserved_path cfg sc"
  shows "\<exists>raw. latin1_decode raw = slash # r \<and>
     (let inner = sc\<lparr>sc_path := Some (slash # r), sc_raw_path := Some raw,
                    sc_root_path := Some (rstrip_slash (opt_str (sc_root_path sc)) @ gc_prefix cfg)\<rparr>;
          (out, oc) = ge_api env (Some (request_id_from_scope (ge_fresh_id env) sc)) inner msgs
      in fst (gateway_app cfg env sc msgs st) = out \<and> fst (snd (gateway_app cfg env sc msgs st)) = oc)"
proof -
  let ?p = "gc_prefix cfg @ slash # r"
  obtain raw0 where raw0: "latin1_encode ?p = Inr raw0" using assms(3) latin1_encode_Inr_iff [of ?p] by auto
  let ?sc0 = "sc\<lparr>sc_path := Some ?p, sc_raw_path := Some raw0\<rparr>"
  obtain raw where raw: "strip_prefix_scope ?sc0 (gc_prefix cfg) =
      Inr (?sc0\<lparr>sc_path := Some (slash # r), sc_raw_path := Some raw,
        sc_root_path := Some (rstrip_slash (opt_str (sc_root_path ?sc0)) @ gc_prefix cfg)\<rparr>)" "latin1_decode raw = slash # r"
    using strip_prefix_scope_url_lemma [of "gc_prefix cfg" ?sc0 r] assms(2,3) by auto
  have "is_api cfg ?p" by (simp add: is_api_def under_prefix_def startswith_iff)
  then show ?thesis
    using assms(1,4,5) raw raw0
    by (intro exI [of _ raw]) (auto simp: gateway_app_def reserved_path_def api_scope_def Let_def split: prod.splits)
qed

theorem gateway_calls_api_witness:
  "fst (gateway_app sample_config sample_env (spoofing_scope\<lparr>sc_path := Some (u ''/app/api/x'')\<rparr>) [] sample_state) =
     [ResponseStart 204 [], ResponseBody [] False]"
proof -
  have e: "u ''/app'' @ u ''/api/x'' = u ''/app/api/x''" "startswith (u ''/api/x'') [slash]"
      "u ''/api/x'' = u ''/api'' @ slash # u ''x''"
    by (simp_all add: pystr_eval)
  then have s: "split_gateway_paths (u ''/app/api/x'') (u ''/app'') = (u ''/api'' @ slash # u ''x'', u ''/app/api/x'')"
    using split_under_mount [OF sample_mount, of "u ''/api/x''"] by simp
  have n: "u ''/api'' @ slash # u ''x'' \<noteq> u ''/__fluxlit/metrics''" "u ''/api'' @ slash # u ''x'' \<noteq> u ''/__fluxlit/debug''"
    by (simp_all add: pystr_eval)
  have m: "mount_shape (u ''/api'')" "\<forall>c \<in> set (u ''/api'' @ u ''x''). c < 256"
    by (simp_all add: mount_shape_def pystr_eval)
  from s n m show ?thesis
    using gateway_calls_api [of "spoofing_scope\<lparr>sc_path := Some (u ''/app/api/x'')\<rparr>" sample_config "u ''x''" "u ''/app/api/x''" sample_env "[]" sample_state]
    by (auto simp: sample_config_def sample_env_def spoofing_scope_def reserved_path_def)
qed

subsection \<open>Reserved paths\<close>

text \<open>In a gateway that \<open>build_gateway\<close> configures, an active metrics or debug endpoint never lies in
  the API's part of the URL space, so it takes no route away from the API.\<close>

theorem reserved_paths_outside_api:
  "(gc_prom (build_gateway prom acc api_prefix root_mount settings) \<noteq> None \<longrightarrow>
      \<not> is_api (build_gateway prom acc api_prefix root_mount settings)
          (gc_prom_path (build_gateway prom acc api_prefix root_mount settings))) \<and>
   (gc_debug_mode (build_gateway prom acc api_prefix root_mount settings) \<longrightarrow>
      \<not> is_api (build_gateway prom acc api_prefix root_mount settings)
          (gc_debug_path (build_gateway prom acc api_prefix root_mount settings)))"
  by (auto simp: build_gateway_def is_api_def Let_def split: option.splits if_splits)

theorem reserved_paths_outside_api_witness:
  "\<not> is_api (build_gateway (Some 1) False (u ''/api'') [] (Some (default_settings\<lparr>fs_debug := True\<rparr>))) (u ''/__fluxlit/debug'')"
proof -
  have "normalize_api_mount_path (u ''/api'') = u ''/api''"
    by (simp add: normalize_api_mount_path_def lead_slash_def pystr_eval)
  moreover have "\<not> under_prefix (u ''/api'') (u ''/__fluxlit/debug'')" by (simp add: under_prefix_def pystr_eval)
  ultimately show ?thesis
    using reserved_paths_outside_api [of "Some 1" False "u ''/api''" "[]" "Some (default_settings\<lparr>fs_debug := True\<rparr>)"]
    by (simp add: build_gateway_def default_settings_def Let_def)
qed

text \<open>The debug path is taken even when debug mode is off, also from an API mounted above it: such a
  request is answered 404 by the gateway and never reaches the API.\<close>

theorem debug_path_shadows_api:
  assumes "get_http sc" and "fst (split_gateway_paths (opt_str (sc_path sc)) (gc_mount cfg)) = gc_debug_path cfg"
    and "\<not> gc_debug_mode cfg" and "gc_prom cfg = None"
  shows "\<exists>st'. gateway_app cfg env sc msgs st = (not_found, Returned, st') \<and> gs_counter st' = gs_counter st"
  using assms by (auto simp: gateway_app_def get_http_def Let_def split: prod.splits)

theorem debug_path_shadows_api_witness:
  "\<exists>st'. gateway_app (sample_config\<lparr>gc_prefix := u ''/__fluxlit'', gc_mount := [], gc_prom := None\<rparr>) sample_env
      (spoofing_scope\<lparr>sc_path := Some (u ''/__fluxlit/debug'')\<rparr>) [] sample_state = (not_found, Returned, st')
   \<and> is_api (sample_config\<lparr>gc_prefix := u ''/__fluxlit'', gc_mount := [], gc_prom := None\<rparr>) (u ''/__fluxlit/debug'')"
proof -
  let ?cfg = "sample_config\<lparr>gc_prefix := u ''/__fluxlit'', gc_mount := [], gc_prom := None\<rparr>"
  let ?sc = "spoofing_scope\<lparr>sc_path := Some (u ''/__fluxlit/debug'')\<rparr>"
  have "split_gateway_paths (u ''/__fluxlit/debug'') [] = (u ''/__fluxlit/debug'', u ''/__fluxlit/debug'')"
    by (simp add: split_gateway_paths_def normalize_root_mount_def lead_slash_def pystr_eval)
  moreover have "upper (u ''GET'') = u ''GET''" by (simp add: pystr_eval)
  moreover have "startswith (u ''/__fluxlit/debug'') (u ''/__fluxlit'' @ [slash])" by (simp add: pystr_eval)
  ultimately show ?thesis
    using debug_path_shadows_api [of ?sc ?cfg sample_env "[]" sample_state]
    by (auto simp: sample_config_def spoofing_scope_def get_http_def request_method_def is_api_def under_prefix_def)
qed

subsection \<open>The documentation redirects\<close>

lemma docs_redirect_cases:
  assumes "docs_redirect cfg sc path = Some loc"
  obtains "bodyless (request_method sc)" "path = u ''/docs'' \<or> path = u ''/docs/''"
      "loc = location_under_mount (gc_mount cfg) (gc_prefix cfg @ u ''/docs'')"
  | "bodyless (request_method sc)" "path = u ''/redoc'' \<or> path = u ''/redoc/''"
      "loc = location_under_mount (gc_mount cfg) (gc_prefix cfg @ u ''/redoc'')"
  | "bodyless (request_method sc)" "path = u ''/openapi.json''"
      "loc = location_under_mount (gc_mount cfg) (gc_prefix cfg @ u ''/openapi.json'')"
  using assms unfolding docs_redirect_def by (metis option.inject option.distinct(1))

lemma root_location: "startswith (location_under_mount [] ([slash] @ slash # p)) (u ''//'')"
  by (simp add: location_under_mount_def normalize_root_mount_def pystr_eval)

text \<open>The shortcuts for the API documentation lead to the public URL of the page under mount and
  prefix; with the API at the root, though, the location starts with two slashes, which a browser
  reads as the host \<open>docs\<close>.\<close>

theorem docs_redirect_location:
  assumes "docs_redirect cfg sc path = Some loc"
  shows "bodyless (request_method sc) \<and>
     (\<exists>page \<in> {''/docs'', ''/redoc'', ''/openapi.json''}. startswith path (u page) \<and>
        loc = location_under_mount (gc_mount cfg) (gc_prefix cfg @ u page)) \<and>
     (gc_prefix cfg = [slash] \<and> gc_mount cfg = [] \<longrightarrow> startswith loc (u ''//''))"
proof -
  have sub: "startswith (u ''/docs/'') (u ''/docs'')" "startswith (u ''/redoc/'') (u ''/redoc'')"
    by (simp_all add: pystr_eval)
  have heads: "u ''/docs'' = slash # u ''docs''" "u ''/redoc'' = slash # u ''redoc''"
    "u ''/openapi.json'' = slash # u ''openapi.json''"
    by (simp_all add: pystr_eval)
  from assms show ?thesis
  proof (cases rule: docs_redirect_cases)
    case 1
    with sub root_location [of "u ''docs''"] heads(1) show ?thesis by auto
  next
    case 2
    with sub root_location [of "u ''redoc''"] heads(2) show ?thesis by auto
  next
    case 3
    with root_location [of "u ''openapi.json''"] heads(3) show ?thesis by auto
  qed
qed

theorem docs_redirect_location_witness:
  "docs_redirect (sample_config\<lparr>gc_prefix := [slash], gc_mount := []\<rparr>) spoofing_scope (u ''/docs'') = Some (u ''//docs'')
   \<and> startswith (u ''//docs'') (u ''//'')"
proof -
  have "bodyless (request_method spoofing_scope)"
    by (simp add: bodyless_def request_method_def spoofing_scope_def pystr_eval)
  moreover have "location_under_mount [] (slash # u ''/docs'') = u ''//docs''"
    by (simp add: location_under_mount_def normalize_root_mount_def pystr_eval)
  ultimately have r: "docs_redirect (sample_config\<lparr>gc_prefix := [slash], gc_mount := []\<rparr>) spoofing_scope (u ''/docs'') = Some (u ''//docs'')"
    by (simp add: docs_redirect_def)
  with docs_redirect_location [OF r] show ?thesis by simp
qed

subsection \<open>The shared client, the metrics objects and the debug ring\<close>

definition client_inv :: "shared_client \<Rightarrow> bool" where
  "client_inv c \<longleftrightarrow> cl_created c = cl_closed c + (if cl_open c then 1 else 0)"

lemma client_inv_steps [simp]:
  "client_inv c \<Longrightarrow> client_inv (shared_httpx_client c)" "client_inv c \<Longrightarrow> client_inv (close_shared_httpx_client c)"
  by (simp_all add: client_inv_def shared_httpx_client_def close_shared_httpx_client_def)

lemma gateway_app_client:
  assumes "gateway_app cfg env sc msgs st = (out, oc, st')"
  shows "gs_client st' \<in> {gs_client st, shared_httpx_client (gs_client st), close_shared_httpx_client (gs_client st)}"
    and "sc_type sc \<noteq> LifespanScope \<Longrightarrow> gs_client st' \<in> {gs_client st, shared_httpx_client (gs_client st)}"
  using assms by (auto simp: gateway_app_def Let_def split: if_splits prod.splits sum.splits outcome.splits)

text \<open>A run of the gateway: any sequence of requests, each with its own environment.\<close>

inductive gateway_run :: "'h headers_api \<Rightarrow> gateway_config \<Rightarrow> gateway_state \<Rightarrow> gateway_state \<Rightarrow> bool"
  for H :: "'h headers_api" and cfg :: gateway_config where
  run_start: "gateway_run H cfg st st"
| run_request: "gateway_run H cfg st st1 \<Longrightarrow> ge_headers env = H \<Longrightarrow>
     gateway_app cfg env sc msgs st1 = (out, oc, st2) \<Longrightarrow> gateway_run H cfg st st2"

inductive_simps gateway_run_simps: "gateway_run H cfg st st'"

text \<open>Over any sequence of requests and lifespan events, at most one HTTP client is open and every
  other one that was ever created has been closed: clients neither leak nor are closed twice.\<close>

theorem shared_client_never_leaks:
  assumes "gateway_run H cfg st st'" and "cl_created (gs_client st) = 0" and "cl_closed (gs_client st) = 0"
    and "\<not> cl_open (gs_client st)"
  shows "cl_created (gs_client st') = cl_closed (gs_client st') + (if cl_open (gs_client st') then 1 else 0)"
proof -
  have "client_inv (gs_client st')"
    using assms
  proof (induction rule: gateway_run.induct)
    case (run_start st)
    then show ?case by (simp add: client_inv_def)
  next
    case (run_request st st1 env sc msgs out oc st2)
    then have "client_inv (gs_client st1)" by blast
    with gateway_app_client(1) [OF run_request.hyps(3)] show ?case by auto
  qed
  then show ?thesis by (simp add: client_inv_def)
qed

theorem shared_client_never_leaks_witness:
  "\<exists>st'. gateway_run assoc_headers sample_config sample_state st' \<and> cl_created (gs_client st') = cl_closed (gs_client st') + (if cl_open (gs_client st') then 1 else 0)"
proof -
  have r: "gateway_run assoc_headers sample_config sample_state
      (sample_state\<lparr>gs_counter := [(u ''api'', u ''GET'')], gs_observed := [u ''api'']\<rparr>)"
    using run_request [OF run_start _ sample_run] by (simp add: sample_env_def)
  with shared_client_never_leaks [OF r] show ?thesis by (auto simp: sample_state_def)
qed

text \<open>The metric objects are constructed at most once per process: after the first call every later
  one gives the same answer, whatever is importable by then.\<close>

theorem prom_metrics_constructed_once:
  "(let (r, c) = get_gateway_prom_metrics import_ok fresh PromUnset
    in get_gateway_prom_metrics import_ok' fresh' c = (r, c) \<and> (r = None \<longleftrightarrow> \<not> import_ok))"
  by (simp add: get_gateway_prom_metrics_def)

definition ring_after :: "ring_entry list \<Rightarrow> ring_entry list" where
  "ring_after es = fold record_gateway_dispatch es []"

text \<open>The debug endpoint shows the last 32 dispatch decisions, oldest first, and never more.\<close>

theorem debug_ring_last_entries:
  "ring_after es = drop (length es - 32) es"
proof (induction es rule: rev_induct)
  case Nil
  then show ?case by (simp add: ring_after_def)
next
  case (snoc e es)
  have "ring_after (es @ [e]) = record_gateway_dispatch e (ring_after es)" by (simp add: ring_after_def)
  also have "\<dots> = drop (length (es @ [e]) - 32) (es @ [e])"
  proof (cases "length es < 32")
    case True
    with snoc show ?thesis by (simp add: record_gateway_dispatch_def ring_maxlen_def)
  next
    case False
    then have "drop (length es - 32) es \<noteq> []" by simp
    moreover have "tl (drop (length es - 32) es) = drop (Suc (length es) - 32) es"
    proof -
      have "Suc (length es) - 32 = Suc (length es - 32)" using False by arith
      then show ?thesis by (metis drop_Suc tl_drop)
    qed
    ultimately have "tl (drop (length es - 32) es @ [e]) = drop (Suc (length es) - 32) es @ [e]"
      by (metis tl_append2)
    with False snoc show ?thesis by (simp add: record_gateway_dispatch_def ring_maxlen_def Let_def)
  qed
  finally show ?case .
qed

end
