(* ===== verification/Url_Session.thy ===== *)
theory Url_Session
  imports Settings_Model "HOL-Library.Multiset"
begin

section \<open>URL-bound sessions\<close>

text \<open>
  Models \<open>url_session.py\<close>, \<open>runtime/env_parse.py\<close> and the SQLite store of
  \<open>examples/session_stores/sqlite_store.py\<close>. The protocol \<open>SessionStore\<close> is the record
  \<open>store_ops\<close> of its three operations, each of which also takes the readings of the clock it makes,
  and the locale \<open>session_store\<close> states what the page helpers rely on; it is interpreted on both
  stores. A payload is an insertion-ordered dict of JSON values; its text in the
  table is in \<open>Session_Text\<close>.
\<close>

type_synonym payload = "json dict"

text \<open>The two clock readings an operation makes, in order.\<close>

type_synonym clock = "real \<times> real"

record 'st store_ops =
  so_get :: "clock \<Rightarrow> pystr \<Rightarrow> 'st \<Rightarrow> payload option \<times> 'st"
  so_set :: "clock \<Rightarrow> pystr \<Rightarrow> payload \<Rightarrow> real option \<Rightarrow> 'st \<Rightarrow> 'st"
  so_delete :: "pystr \<Rightarrow> 'st \<Rightarrow> 'st"

subsection \<open>JSON values up to the order of members\<close>

fun canon_json :: "json \<Rightarrow> json" where
  "canon_json (JArr xs) = JArr (map canon_json xs)"
| "canon_json (JObj m) = JObj (sort_key fst (map (\<lambda>(k, v). (k, canon_json v)) m))"
| "canon_json j = j"

definition canon :: "payload \<Rightarrow> payload" where
  "canon p = sort_key fst (map (\<lambda>(k, v). (k, canon_json v)) p)"

lemma sorted_sort_key_id: "sorted (map f xs) \<Longrightarrow> sort_key f xs = xs"
  by (simp add: sort_key_id_if_sorted)

lemma canon_json_idem [simp]: "canon_json (canon_json j) = canon_json j"
proof (induction j)
  case (JObj m)
  let ?s = "sort_key fst (map (\<lambda>(k, v). (k, canon_json v)) m)"
  have "map (\<lambda>(k, v). (k, canon_json v)) ?s = ?s"
  proof (rule map_idI)
    fix x assume "x \<in> set ?s"
    then obtain k v where "x = (k, canon_json v)" "(k, v) \<in> set m" by auto
    with JObj show "(case x of (k, v) \<Rightarrow> (k, canon_json v)) = x"
      by (metis (mono_tags, lifting) case_prod_conv snds.intros snd_conv)
  qed
  moreover have "sort_key fst ?s = ?s" by (rule sorted_sort_key_id) (rule sorted_sort_key)
  ultimately show ?case by (simp only: canon_json.simps)
qed auto

lemma canon_idem [simp]: "canon (canon p) = canon p"
  using canon_json_idem [of "JObj p"] by (simp add: canon_def)

lemma dict_ok_canon [simp]: "dict_ok (canon p) = dict_ok p"
proof -
  have "mset (map fst (canon p)) = mset (map fst (map (\<lambda>(k, v). (k, canon_json v)) p))"
    by (simp only: canon_def mset_map mset_sort)
  also have "map fst (map (\<lambda>(k, v). (k, canon_json v)) p) = map fst p" by auto
  finally show ?thesis unfolding dict_ok_def by (rule mset_eq_imp_distinct_iff)
qed

lemma map_of_canon: "dict_ok p \<Longrightarrow> map_of (canon p) k = map_option canon_json (map_of p k)"
proof -
  assume ok: "dict_ok p"
  have "map_of (canon p) k = Some w \<longleftrightarrow> map_option canon_json (map_of p k) = Some w" for w
  proof -
    have "map_of (canon p) k = Some w \<longleftrightarrow> (k, w) \<in> set (canon p)"
      using ok dict_ok_canon [of p] by (intro map_of_eq_Some_iff) (simp add: dict_ok_def)
    also have "\<dots> \<longleftrightarrow> (\<exists>v. (k, v) \<in> set p \<and> w = canon_json v)" by (auto simp: canon_def)
    also have "\<dots> \<longleftrightarrow> map_option canon_json (map_of p k) = Some w"
      using ok by (auto simp: dict_ok_def)
    finally show ?thesis .
  qed
  then show ?thesis by (metis not_Some_eq)
qed

subsection \<open>The in-memory store\<close>

record memory_store =
  mem_max_entries :: int
  mem_default_ttl :: "real option"
  mem_data :: "(payload \<times> real option) dict"

definition new_memory_store :: "int \<Rightarrow> real option \<Rightarrow> memory_store" where
  "new_memory_store max_entries default_ttl =
     \<lparr>mem_max_entries = max 1 max_entries, mem_default_ttl = default_ttl, mem_data = []\<rparr>"

definition live_at :: "real \<Rightarrow> real option \<Rightarrow> bool" where
  "live_at now deadline = (case deadline of None \<Rightarrow> True | Some d \<Rightarrow> \<not> d \<le> now)"

definition evict_expired :: "real \<Rightarrow> memory_store \<Rightarrow> memory_store" where
  "evict_expired now s = s\<lparr>mem_data := filter (\<lambda>(k, (p, d)). live_at now d) (mem_data s)\<rparr>"

function trim_size :: "int \<Rightarrow> 'a list \<Rightarrow> 'a list" where
  "trim_size m d = (if int (length d) > m \<and> d \<noteq> [] then trim_size m (tl d) else d)"
  by auto
termination by (relation "measure (\<lambda>(m, d). length d)") auto

declare trim_size.simps [simp del]

definition memory_get :: "clock \<Rightarrow> pystr \<Rightarrow> memory_store \<Rightarrow> payload option \<times> memory_store" where
  "memory_get clk session_id s =
     (let s1 = evict_expired (fst clk) s
      in case map_of (mem_data s1) session_id of
           None \<Rightarrow> (None, s1)
         | Some (payload, deadline) \<Rightarrow>
             if \<not> live_at (snd clk) deadline
             then (None, s1\<lparr>mem_data := AList.delete session_id (mem_data s1)\<rparr>)
             else (Some payload, s1))"

definition write_deadline :: "real option \<Rightarrow> real option \<Rightarrow> real \<Rightarrow> real option" where
  "write_deadline ttl_seconds default_ttl now =
     (case (case ttl_seconds of None \<Rightarrow> default_ttl | Some t \<Rightarrow> Some t) of
        None \<Rightarrow> None | Some t \<Rightarrow> if t > 0 then Some (now + t) else None)"

definition memory_set :: "clock \<Rightarrow> pystr \<Rightarrow> payload \<Rightarrow> real option \<Rightarrow> memory_store \<Rightarrow> memory_store" where
  "memory_set clk session_id data ttl_seconds s =
     (let s1 = evict_expired (fst clk) s;
          deadline = write_deadline ttl_seconds (mem_default_ttl s) (snd clk)
      in s1\<lparr>mem_data := trim_size (mem_max_entries s) (AList.update session_id (data, deadline) (mem_data s1))\<rparr>)"

definition memory_delete :: "pystr \<Rightarrow> memory_store \<Rightarrow> memory_store" where
  "memory_delete session_id s = s\<lparr>mem_data := AList.delete session_id (mem_data s)\<rparr>"

definition memory_ops :: "memory_store store_ops" where
  "memory_ops = \<lparr>so_get = memory_get, so_set = memory_set, so_delete = memory_delete\<rparr>"

definition memory_inv :: "memory_store \<Rightarrow> bool" where
  "memory_inv s \<longleftrightarrow> 1 \<le> mem_max_entries s \<and> dict_ok (mem_data s) \<and> int (length (mem_data s)) \<le> mem_max_entries s
     \<and> (\<forall>e \<in> set (mem_data s). dict_ok (fst (snd e)))"

lemma trim_size_conv: "0 \<le> m \<Longrightarrow> trim_size m d = drop (nat (int (length d) - m)) d"
proof (induction m d rule: trim_size.induct)
  case (1 m d)
  show ?case
  proof (cases "int (length d) > m \<and> d \<noteq> []")
    case True
    then obtain x xs where d: "d = x # xs" by (cases d) auto
    have "nat (int (length d) - m) = Suc (nat (int (length xs) - m))" using True d by auto
    with 1 True d show ?thesis by (subst trim_size.simps) simp
  next
    case False
    with 1(2) have "nat (int (length d) - m) = 0 \<or> d = []" by auto
    with False show ?thesis by (subst trim_size.simps) auto
  qed
qed

lemma memory_new_inv: "memory_inv (new_memory_store m t)"
  by (simp add: memory_inv_def new_memory_store_def)

lemma dict_ok_filter [simp]: "dict_ok d \<Longrightarrow> dict_ok (filter P d)"
  by (simp add: dict_ok_def distinct_map_filter)

lemma dict_ok_drop [simp]: "dict_ok d \<Longrightarrow> dict_ok (drop n d)"
  by (simp add: dict_ok_def flip: drop_map)

lemma length_update: "length (AList.update k v d) = (if k \<in> fst ` set d then length d else Suc (length d))"
  by (induction d) auto

lemma set_update_subset: "set (AList.update k v d) \<subseteq> insert (k, v) (set d)"
  by (induction d) auto

lemma tl_subset: "set (tl d) \<subseteq> set d"
  by (cases d) auto

lemma memory_evict_inv [simp]: "memory_inv s \<Longrightarrow> memory_inv (evict_expired now s)"
  by (auto simp: memory_inv_def evict_expired_def intro: order_trans [of _ "int (length (mem_data s))"])

lemma memory_delete_inv [simp]: "memory_inv s \<Longrightarrow> memory_inv (memory_delete k s)"
  by (auto simp: memory_inv_def memory_delete_def AList.delete_eq intro: order_trans [of _ "int (length (mem_data s))"])

lemma update_new: "k \<notin> fst ` set d \<Longrightarrow> AList.update k v d = d @ [(k, v)]"
  by (induction d) auto

text \<open>Writing an entry to a full store drops its oldest entry and no other.\<close>

lemma memory_set_data:
  fixes s :: memory_store and clk :: clock and p :: payload and ttl :: "real option"
  assumes "memory_inv s"
  defines "d \<equiv> mem_data (evict_expired (fst clk) s)"
  defines "e \<equiv> (p, write_deadline ttl (mem_default_ttl s) (snd clk))"
  shows "mem_data (memory_set clk k p ttl s) =
     (if k \<in> fst ` set d then AList.update k e d
      else if int (length d) < mem_max_entries s then d @ [(k, e)] else tl d @ [(k, e)])"
proof -
  have inv: "memory_inv (evict_expired (fst clk) s)" using assms(1) by simp
  have m: "1 \<le> mem_max_entries s" and len: "int (length d) \<le> mem_max_entries s"
    using inv assms(1) by (auto simp: memory_inv_def d_def evict_expired_def)
  have set: "mem_data (memory_set clk k p ttl s) = drop (nat (int (length (AList.update k e d)) - mem_max_entries s)) (AList.update k e d)"
    using m by (simp add: memory_set_def Let_def d_def e_def trim_size_conv)
  show ?thesis
  proof (cases "k \<in> fst ` set d")
    case True
    with set len show ?thesis by (simp add: length_update)
  next
    case False
    then have u: "AList.update k e d = d @ [(k, e)]" by (rule update_new)
    show ?thesis
    proof (cases "int (length d) < mem_max_entries s")
      case True
      with False set u show ?thesis by simp
    next
      case full: False
      with m len have "d \<noteq> []" and "nat (int (length (d @ [(k, e)])) - mem_max_entries s) = 1" by auto
      then obtain x xs where "d = x # xs" by (cases d) auto
      with False full set u \<open>nat (int (length (d @ [(k, e)])) - mem_max_entries s) = 1\<close> show ?thesis by simp
    qed
  qed
qed

lemma memory_set_inv [simp]:
  assumes "memory_inv s" and "dict_ok p"
  shows "memory_inv (memory_set clk k p ttl s)"
proof -
  let ?d = "mem_data (evict_expired (fst clk) s)"
  let ?e = "(p, write_deadline ttl (mem_default_ttl s) (snd clk))"
  have inv: "memory_inv (evict_expired (fst clk) s)" using assms(1) by simp
  have max: "mem_max_entries (memory_set clk k p ttl s) = mem_max_entries s"
      "mem_max_entries (evict_expired (fst clk) s) = mem_max_entries s"
    by (simp_all add: memory_set_def evict_expired_def Let_def)
  have ok: "dict_ok (mem_data (memory_set clk k p ttl s))"
    using inv assms(1) by (simp add: memory_set_def Let_def memory_inv_def trim_size_conv)
  have len: "int (length (mem_data (memory_set clk k p ttl s))) \<le> mem_max_entries s"
    using memory_set_data [OF assms(1), of clk k p ttl] inv assms(1) max
    by (auto simp: memory_inv_def length_update)
  have "set (mem_data (memory_set clk k p ttl s)) \<subseteq> insert (k, ?e) (set ?d)"
    using memory_set_data [OF assms(1), of clk k p ttl] set_update_subset [of k ?e ?d] tl_subset [of ?d]
    by auto
  then have "\<forall>x \<in> set (mem_data (memory_set clk k p ttl s)). dict_ok (fst (snd x))"
    using inv assms(2) by (fastforce simp: memory_inv_def)
  with ok len max assms(1) show ?thesis by (simp add: memory_inv_def)
qed

lemma memory_get_inv [simp]: "memory_inv s \<Longrightarrow> memory_inv (snd (memory_get clk k s))"
  using memory_delete_inv [of "evict_expired (fst clk) s" k] memory_evict_inv [of s "fst clk"]
  by (auto simp: memory_get_def Let_def memory_delete_def split: option.splits)

lemma map_of_memory_set:
  assumes "memory_inv s"
  shows "map_of (mem_data (memory_set clk k p ttl s)) k = Some (p, write_deadline ttl (mem_default_ttl s) (snd clk))"
proof -
  let ?d = "mem_data (evict_expired (fst clk) s)"
  have "k \<notin> fst ` set ?d \<Longrightarrow> map_of (tl ?d) k = None \<and> map_of ?d k = None"
    by (cases ?d) (auto simp: map_of_eq_None_iff)
  then show ?thesis by (auto simp: memory_set_data [OF assms] map_add_def split: option.splits)
qed

lemma map_of_filter_distinct:
  "dict_ok d \<Longrightarrow> map_of (filter P d) k = (case map_of d k of None \<Rightarrow> None | Some v \<Rightarrow> if P (k, v) then Some v else None)"
  by (induction d) (auto simp: dict_ok_def map_of_eq_None_iff split: option.splits dest: map_of_SomeD)

lemma memory_get_eq:
  assumes "memory_inv s" and "fst clk \<le> snd clk"
  shows "fst (memory_get clk k s) =
     (case map_of (mem_data s) k of None \<Rightarrow> None | Some (p, d) \<Rightarrow> if live_at (snd clk) d then Some p else None)"
proof -
  have "live_at (snd clk) d \<Longrightarrow> live_at (fst clk) d" for d
    using assms(2) by (auto simp: live_at_def split: option.splits)
  then show ?thesis
    using assms(1)
    by (auto simp: memory_get_def Let_def evict_expired_def map_of_filter_distinct memory_inv_def split: option.splits)
qed

subsection \<open>The SQLite store\<close>

text \<open>The table by its primary key. A payload is stored as JSON text with sorted keys, so reading a row
  back gives the value with the members of every object sorted.\<close>

type_synonym sqlite_table = "(payload \<times> real option) dict"

definition sqlite_get :: "clock \<Rightarrow> pystr \<Rightarrow> sqlite_table \<Rightarrow> payload option \<times> sqlite_table" where
  "sqlite_get clk session_id t =
     (case map_of t session_id of
        None \<Rightarrow> (None, t)
      | Some (payload, expires_at) \<Rightarrow>
          if \<not> live_at (fst clk) expires_at then (None, AList.delete session_id t) else (Some payload, t))"

definition sqlite_set :: "clock \<Rightarrow> pystr \<Rightarrow> payload \<Rightarrow> real option \<Rightarrow> sqlite_table \<Rightarrow> sqlite_table" where
  "sqlite_set clk session_id data ttl_seconds t =
     (let expires_at = (case ttl_seconds of None \<Rightarrow> None | Some s \<Rightarrow> Some (fst clk + s))
      in AList.update session_id (canon data, expires_at) t)"

definition sqlite_delete :: "pystr \<Rightarrow> sqlite_table \<Rightarrow> sqlite_table" where
  "sqlite_delete session_id t = AList.delete session_id t"

definition sqlite_ops :: "sqlite_table store_ops" where
  "sqlite_ops = \<lparr>so_get = sqlite_get, so_set = sqlite_set, so_delete = sqlite_delete\<rparr>"

definition sqlite_inv :: "sqlite_table \<Rightarrow> bool" where
  "sqlite_inv t \<longleftrightarrow> dict_ok t \<and> (\<forall>e \<in> set t. dict_ok (fst (snd e)))"

subsection \<open>The helpers that pages call\<close>

definition truthy_env :: "pystr dict \<Rightarrow> pystr \<Rightarrow> bool" where
  "truthy_env env name \<longleftrightarrow>
     lower (strip (opt_str (map_of env name))) \<in> set (map u [''1'', ''true'', ''yes'', ''on''])"

definition url_session_disabled :: "pystr dict \<Rightarrow> bool" where
  "url_session_disabled env \<longleftrightarrow> truthy_env env (u ''FLUXLIT_DISABLE_URL_SESSION'') \<or>
     (truthy_env env (u ''FLUXLIT_TESTS'') \<and> \<not> truthy_env env (u ''FLUXLIT_FORCE_URL_SESSION_IN_TESTS''))"

definition default_url_session_param :: "fluxlit_settings \<Rightarrow> pystr" where
  "default_url_session_param fs = or_str (strip (fs_url_session_query_param fs)) (u ''fluxlit_sid'')"

definition resolve_url_session_param :: "fluxlit_settings \<Rightarrow> pystr option \<Rightarrow> pystr" where
  "resolve_url_session_param fs param = (case param of Some p \<Rightarrow> p | None \<Rightarrow> default_url_session_param fs)"

datatype query_value = QStr pystr | QList "pystr list"

record facade =
  fc_query :: "query_value dict option"
  fc_query_writable :: bool
  fc_state :: payload
  fc_filtered :: "payload option"
  fc_broken :: bool

definition query_param_get :: "facade \<Rightarrow> pystr \<Rightarrow> pystr option" where
  "query_param_get st param =
     (case fc_query st of
        None \<Rightarrow> None
      | Some qp \<Rightarrow> (case map_of qp param of
            None \<Rightarrow> None
          | Some (QList raw) \<Rightarrow> (case raw of [] \<Rightarrow> None | r # _ \<Rightarrow> Some r)
          | Some (QStr raw) \<Rightarrow> Some raw))"

definition query_param_set :: "facade \<Rightarrow> pystr \<Rightarrow> pystr \<Rightarrow> bool \<times> facade" where
  "query_param_set st param v =
     (case fc_query st of
        None \<Rightarrow> (False, st)
      | Some qp \<Rightarrow> if fc_query_writable st then (True, st\<lparr>fc_query := Some (AList.update param (QStr v) qp)\<rparr>)
                   else (False, st))"

definition setdefault :: "pystr \<times> json \<Rightarrow> payload \<Rightarrow> payload" where
  "setdefault kv ss = (if map_of ss (fst kv) = None then ss @ [kv] else ss)"

definition merge_payload :: "bool \<Rightarrow> payload \<Rightarrow> payload \<Rightarrow> payload" where
  "merge_payload merge p ss =
     (if merge then fold setdefault p ss else fold (\<lambda>(k, v). AList.update k v) p ss)"

definition hydrate_url_session ::
  "'st store_ops \<Rightarrow> pystr dict \<Rightarrow> fluxlit_settings \<Rightarrow> clock \<Rightarrow> pystr option \<Rightarrow> bool \<Rightarrow> payload option \<Rightarrow>
     facade \<Rightarrow> 'st \<Rightarrow> pystr option \<times> facade \<times> 'st" where
  "hydrate_url_session ops env fs clk param merge blob st store =
     (if url_session_disabled env then (None, st, store)
      else (case query_param_get st (resolve_url_session_param fs param) of
          None \<Rightarrow> (None, st, store)
        | Some sid \<Rightarrow>
            if sid = [] then (None, st, store)
            else (case blob of
                Some b \<Rightarrow> (Some sid, st\<lparr>fc_state := merge_payload merge b (fc_state st)\<rparr>, store)
              | None \<Rightarrow>
                  (let (from_store, store') = so_get ops clk sid store
                   in case from_store of
                        None \<Rightarrow> (Some sid, st, store')
                      | Some p \<Rightarrow> (Some sid, st\<lparr>fc_state := merge_payload merge p (fc_state st)\<rparr>, store')))))"

definition ensure_url_session ::
  "'st store_ops \<Rightarrow> pystr dict \<Rightarrow> fluxlit_settings \<Rightarrow> clock \<Rightarrow> clock \<Rightarrow> pystr \<Rightarrow> pystr option \<Rightarrow> payload \<Rightarrow>
     real option \<Rightarrow> facade \<Rightarrow> 'st \<Rightarrow> pystr \<times> facade \<times> 'st" where
  "ensure_url_session ops env fs clk clk' new_id param initial ttl st store =
     (let resolved = resolve_url_session_param fs param; existing = opt_str (query_param_get st resolved)
      in if url_session_disabled env then (existing, st, store)
         else if existing \<noteq> []
         then if initial \<noteq> []
              then (let (cur, store') = so_get ops clk existing store;
                        merged = fold (\<lambda>(k, v). AList.update k v) initial (case cur of None \<Rightarrow> [] | Some p \<Rightarrow> p)
                    in (existing, st, so_set ops clk' existing merged ttl store'))
              else (existing, st, store)
         else (new_id, snd (query_param_set st resolved new_id), so_set ops clk' new_id initial ttl store))"

definition session_snapshot :: "facade \<Rightarrow> payload option" where
  "session_snapshot st =
     (if fc_broken st then None
      else Some (filter (\<lambda>kv. \<not> startswith (fst kv) (u ''__''))
             (case fc_filtered st of Some f \<Rightarrow> f | None \<Rightarrow> fc_state st)))"

definition persist_url_session ::
  "'st store_ops \<Rightarrow> pystr dict \<Rightarrow> fluxlit_settings \<Rightarrow> clock \<Rightarrow> pystr option \<Rightarrow> real option \<Rightarrow> facade \<Rightarrow> 'st \<Rightarrow>
     pystr option \<times> 'st" where
  "persist_url_session ops env fs clk param ttl st store =
     (if url_session_disabled env then (None, store)
      else (case query_param_get st (resolve_url_session_param fs param) of
          None \<Rightarrow> (None, store)
        | Some sid \<Rightarrow>
            if sid = [] then (None, store)
            else (case session_snapshot st of
                None \<Rightarrow> (Some sid, store)
              | Some snap \<Rightarrow> (Some sid, so_set ops clk sid snap ttl store))))"

text \<open>\<open>validate\<close> and \<open>dump\<close> are the pydantic model's \<open>model_validate\<close> and \<open>model_dump\<close>.\<close>

definition hydrate_url_session_typed ::
  "'st store_ops \<Rightarrow> (payload \<Rightarrow> exc + 'm) \<Rightarrow> ('m \<Rightarrow> payload) \<Rightarrow> pystr dict \<Rightarrow> fluxlit_settings \<Rightarrow> clock \<Rightarrow>
     pystr option \<Rightarrow> bool \<Rightarrow> bool \<Rightarrow> facade \<Rightarrow> 'st \<Rightarrow> (exc + pystr option \<times> 'm option) \<times> facade \<times> 'st" where
  "hydrate_url_session_typed ops validate dump env fs clk param merge strict st store =
     (if url_session_disabled env then (Inr (None, None), st, store)
      else
       (let resolved = resolve_url_session_param fs param
        in case query_param_get st resolved of
             None \<Rightarrow> (Inr (None, None), st, store)
           | Some sid \<Rightarrow>
               if sid = [] then (Inr (None, None), st, store)
               else
                 (let (blob, store') = so_get ops clk sid store
                  in case blob of
                       None \<Rightarrow> (Inr (Some sid, None), st, store')
                     | Some b \<Rightarrow>
                         (case validate b of
                            Inl ValidationError \<Rightarrow>
                              ((if strict then Inl ValidationError else Inr (Some sid, None)), st, store')
                          | Inl e \<Rightarrow> (Inl e, st, store')
                          | Inr m \<Rightarrow>
                              (let (_, st', store'') =
                                 hydrate_url_session ops env fs clk (Some resolved) merge (Some (dump m)) st store'
                               in (Inr (Some sid, Some m), st', store''))))))"

subsection \<open>Merging\<close>

lemma map_of_fold_setdefault:
  "map_of (fold setdefault p ss) k = (case map_of ss k of Some v \<Rightarrow> Some v | None \<Rightarrow> map_of p k)"
proof (induction p arbitrary: ss)
  case Nil
  then show ?case by (simp split: option.splits)
next
  case (Cons kv p)
  then show ?case by (cases kv) (auto simp: setdefault_def map_add_def split: option.splits)
qed

lemma map_of_fold_update:
  "dict_ok p \<Longrightarrow> map_of (fold (\<lambda>(k, v). AList.update k v) p ss) k = (case map_of p k of Some v \<Rightarrow> Some v | None \<Rightarrow> map_of ss k)"
proof (induction p arbitrary: ss)
  case Nil
  then show ?case by simp
next
  case (Cons kv p)
  obtain a b where kv: "kv = (a, b)" by (cases kv)
  have "dict_ok p" and "map_of p a = None"
    using Cons.prems kv by (auto simp: dict_ok_def map_of_eq_None_iff)
  with Cons.IH [of "AList.update a b ss"] kv show ?case by (cases "k = a") (simp_all split: option.split)
qed

lemma map_of_merge_payload:
  "dict_ok p \<Longrightarrow> map_of (merge_payload merge p ss) k =
     (if merge then (case map_of ss k of Some v \<Rightarrow> Some v | None \<Rightarrow> map_of p k)
      else (case map_of p k of Some v \<Rightarrow> Some v | None \<Rightarrow> map_of ss k))"
  by (simp add: merge_payload_def map_of_fold_setdefault map_of_fold_update)

lemma dict_ok_fold_update [simp]: "dict_ok ss \<Longrightarrow> dict_ok (fold (\<lambda>(k, v). AList.update k v) p ss)"
  by (induction p arbitrary: ss) auto

subsection \<open>What a store promises\<close>

definition clock_ok :: "clock \<Rightarrow> bool" where
  "clock_ok c \<longleftrightarrow> fst c \<le> snd c"

locale session_store =
  fixes ops :: "'st store_ops" and inv :: "'st \<Rightarrow> bool"
  assumes get_inv: "inv s \<Longrightarrow> inv (snd (so_get ops c k s))"
    and set_inv: "inv s \<Longrightarrow> dict_ok p \<Longrightarrow> inv (so_set ops c k p ttl s)"
    and delete_inv: "inv s \<Longrightarrow> inv (so_delete ops k s)"
    and get_dict: "inv s \<Longrightarrow> fst (so_get ops c k s) = Some p \<Longrightarrow> dict_ok p"
    and get_after_set: "inv s \<Longrightarrow> dict_ok p \<Longrightarrow> clock_ok c \<Longrightarrow> clock_ok c' \<Longrightarrow> 0 < t \<Longrightarrow> snd c' < fst c + t \<Longrightarrow>
      \<exists>p'. fst (so_get ops c' k (so_set ops c k p (Some t) s)) = Some p' \<and> canon p' = canon p"
    and get_after_expiry: "inv s \<Longrightarrow> dict_ok p \<Longrightarrow> clock_ok c \<Longrightarrow> clock_ok c' \<Longrightarrow> 0 < t \<Longrightarrow> snd c + t \<le> fst c' \<Longrightarrow>
      fst (so_get ops c' k (so_set ops c k p (Some t) s)) = None"
    and get_after_delete: "inv s \<Longrightarrow> clock_ok c \<Longrightarrow> fst (so_get ops c k (so_delete ops k s)) = None"
begin

lemma hydrate_after_set:
  assumes "inv s" and "dict_ok p" and "clock_ok c" and "clock_ok c'" and "0 < t" and "snd c' < fst c + t"
    and "\<not> url_session_disabled env" and "query_param_get st (resolve_url_session_param fs param) = Some sid" and "sid \<noteq> []"
  shows "\<exists>p' s'. hydrate_url_session ops env fs c' param merge None st (so_set ops c sid p (Some t) s) =
      (Some sid, st\<lparr>fc_state := merge_payload merge p' (fc_state st)\<rparr>, s') \<and> canon p' = canon p \<and> dict_ok p'"
proof -
  obtain p' where p': "fst (so_get ops c' sid (so_set ops c sid p (Some t) s)) = Some p'" "canon p' = canon p"
    using get_after_set assms(1-6) by blast
  moreover have "dict_ok p'" using get_dict [OF set_inv [OF assms(1,2)] p'(1)] .
  ultimately show ?thesis
    using assms(7-9) by (auto simp: hydrate_url_session_def split: prod.splits)
qed

lemma persist_hydrate:
  assumes "inv s" and "clock_ok c" and "clock_ok c'" and "0 < t" and "snd c' < fst c + t"
    and "\<not> url_session_disabled env" and "sid \<noteq> []"
    and "query_param_get st (resolve_url_session_param fs param) = Some sid"
    and "session_snapshot st = Some snap" and "dict_ok snap"
    and "query_param_get st' (resolve_url_session_param fs param) = Some sid" and "fc_state st' = []"
  shows "\<exists>st2 s2. hydrate_url_session ops env fs c' param merge None st'
        (snd (persist_url_session ops env fs c param (Some t) st s)) = (Some sid, st2, s2)
      \<and> (\<forall>k. map_option canon_json (map_of (fc_state st2) k) = map_option canon_json (map_of snap k))"
proof -
  have "persist_url_session ops env fs c param (Some t) st s = (Some sid, so_set ops c sid snap (Some t) s)"
    using assms(6-9) by (simp add: persist_url_session_def)
  moreover obtain p' s' where h: "hydrate_url_session ops env fs c' param merge None st' (so_set ops c sid snap (Some t) s) =
      (Some sid, st'\<lparr>fc_state := merge_payload merge p' (fc_state st')\<rparr>, s')" "canon p' = canon snap" "dict_ok p'"
    using hydrate_after_set [OF assms(1,10,2,3,4,5,6,11,7)] by blast
  moreover have "map_option canon_json (map_of p' k) = map_option canon_json (map_of snap k)" for k
    using map_of_canon [OF h(3), of k] map_of_canon [OF assms(10), of k] h(2) by simp
  moreover have "map_of (merge_payload merge p' []) k = map_of p' k" for k
    using h(3) by (simp add: map_of_merge_payload split: option.splits)
  ultimately show ?thesis
    using assms(12) by auto
qed

lemma ensure_hydrate:
  assumes "inv s" and "dict_ok initial" and "clock_ok c" and "clock_ok c'" and "0 < t" and "snd c' < fst c + t"
    and "\<not> url_session_disabled env" and "new_id \<noteq> []"
    and "query_param_get st (resolve_url_session_param fs param) = None" and "fc_query st \<noteq> None" and "fc_query_writable st"
  shows "\<exists>st1 s1 st2 s2 p'. ensure_url_session ops env fs c0 c new_id param initial (Some t) st s = (new_id, st1, s1)
      \<and> hydrate_url_session ops env fs c' param merge None st1 s1 = (Some new_id, st2, s2)
      \<and> fc_state st2 = merge_payload merge p' (fc_state st) \<and> canon p' = canon initial"
proof -
  let ?r = "resolve_url_session_param fs param"
  obtain qp where qp: "fc_query st = Some qp" using assms(10) by blast
  let ?st1 = "st\<lparr>fc_query := Some (AList.update ?r (QStr new_id) qp)\<rparr>"
  have "ensure_url_session ops env fs c0 c new_id param initial (Some t) st s =
      (new_id, ?st1, so_set ops c new_id initial (Some t) s)"
    using assms(7,9,11) qp by (simp add: ensure_url_session_def query_param_set_def Let_def)
  moreover have "query_param_get ?st1 ?r = Some new_id" by (simp add: query_param_get_def)
  ultimately show ?thesis
    using hydrate_after_set [OF assms(1-7) _ assms(8), of ?st1 fs param merge] by fastforce
qed

end

lemma memory_get_dict: "memory_inv s \<Longrightarrow> fst (memory_get c k s) = Some p \<Longrightarrow> dict_ok p"
  using memory_evict_inv [of s "fst c"]
  by (force simp: memory_get_def Let_def memory_inv_def split: option.splits if_splits dest: map_of_SomeD)

interpretation mem: session_store memory_ops memory_inv
proof unfold_locales
  fix s c c' k p ttl and t :: real
  show "memory_inv s \<Longrightarrow> memory_inv (snd (so_get memory_ops c k s))" by (simp add: memory_ops_def)
  show "memory_inv s \<Longrightarrow> dict_ok p \<Longrightarrow> memory_inv (so_set memory_ops c k p ttl s)" by (simp add: memory_ops_def)
  show "memory_inv s \<Longrightarrow> memory_inv (so_delete memory_ops k s)" by (simp add: memory_ops_def)
  show "memory_inv s \<Longrightarrow> fst (so_get memory_ops c k s) = Some p \<Longrightarrow> dict_ok p"
    by (simp add: memory_ops_def memory_get_dict)
  show "\<exists>p'. fst (so_get memory_ops c' k (so_set memory_ops c k p (Some t) s)) = Some p' \<and> canon p' = canon p"
    if "memory_inv s" "dict_ok p" "clock_ok c" "clock_ok c'" "0 < t" "snd c' < fst c + t"
    using that by (simp add: memory_ops_def clock_ok_def memory_get_eq map_of_memory_set write_deadline_def live_at_def)
  show "fst (so_get memory_ops c' k (so_set memory_ops c k p (Some t) s)) = None"
    if "memory_inv s" "dict_ok p" "clock_ok c" "clock_ok c'" "0 < t" "snd c + t \<le> fst c'"
    using that by (simp add: memory_ops_def clock_ok_def memory_get_eq map_of_memory_set write_deadline_def live_at_def)
  show "fst (so_get memory_ops c k (so_delete memory_ops k s)) = None" if "memory_inv s" "clock_ok c"
    using that memory_get_eq [of "memory_delete k s" c k] by (simp add: memory_ops_def clock_ok_def) (simp add: memory_delete_def)
qed

interpretation sqlite: session_store sqlite_ops sqlite_inv
proof unfold_locales
  fix s c c' k p ttl and t :: real
  show "sqlite_inv s \<Longrightarrow> sqlite_inv (snd (so_get sqlite_ops c k s))"
    by (auto simp: sqlite_ops_def sqlite_get_def sqlite_inv_def AList.delete_eq split: option.splits)
  show "sqlite_inv s \<Longrightarrow> dict_ok p \<Longrightarrow> sqlite_inv (so_set sqlite_ops c k p ttl s)"
    using set_update_subset by (fastforce simp: sqlite_ops_def sqlite_set_def sqlite_inv_def)
  show "sqlite_inv s \<Longrightarrow> sqlite_inv (so_delete sqlite_ops k s)"
    by (auto simp: sqlite_ops_def sqlite_delete_def sqlite_inv_def AList.delete_eq)
  show "sqlite_inv s \<Longrightarrow> fst (so_get sqlite_ops c k s) = Some p \<Longrightarrow> dict_ok p"
    by (force simp: sqlite_ops_def sqlite_get_def sqlite_inv_def split: option.splits if_splits dest: map_of_SomeD)
  show "\<exists>p'. fst (so_get sqlite_ops c' k (so_set sqlite_ops c k p (Some t) s)) = Some p' \<and> canon p' = canon p"
    if "sqlite_inv s" "dict_ok p" "clock_ok c" "clock_ok c'" "0 < t" "snd c' < fst c + t"
    using that by (auto simp: sqlite_ops_def sqlite_get_def sqlite_set_def clock_ok_def live_at_def)
  show "fst (so_get sqlite_ops c' k (so_set sqlite_ops c k p (Some t) s)) = None"
    if "sqlite_inv s" "dict_ok p" "clock_ok c" "clock_ok c'" "0 < t" "snd c + t \<le> fst c'"
    using that by (auto simp: sqlite_ops_def sqlite_get_def sqlite_set_def clock_ok_def live_at_def)
  show "fst (so_get sqlite_ops c k (so_delete sqlite_ops k s)) = None" if "sqlite_inv s" "clock_ok c"
    by (simp add: sqlite_ops_def sqlite_get_def sqlite_delete_def)
qed

subsection \<open>Properties\<close>

text \<open>The in-memory store never holds more than its maximum, and a new session in a full store evicts
  the oldest one and no other; an update evicts none.\<close>

theorem memory_store_bounded_fifo:
  assumes "memory_inv s" and "dict_ok p"
  shows "int (length (mem_data (memory_set clk k p ttl s))) \<le> mem_max_entries s
    \<and> map fst (mem_data (memory_set clk k p ttl s)) =
       (let live = map fst (mem_data (evict_expired (fst clk) s))
        in if k \<in> set live then live
           else if int (length live) < mem_max_entries s then live @ [k] else tl live @ [k])"
proof -
  have "mem_max_entries (memory_set clk k p ttl s) = mem_max_entries s"
    by (simp add: memory_set_def evict_expired_def Let_def)
  then have "int (length (mem_data (memory_set clk k p ttl s))) \<le> mem_max_entries s"
    using memory_set_inv [OF assms, of clk k ttl] by (simp add: memory_inv_def)
  then show ?thesis
    by (simp add: memory_set_data [OF assms(1)] update_keys map_tl Let_def)
qed

theorem memory_store_bounded_fifo_witness:
  "map fst (mem_data (memory_set (0, 0) (u ''c'') [] None
     (memory_set (0, 0) (u ''b'') [] None (memory_set (0, 0) (u ''a'') [] None (new_memory_store 2 None))))) = [u ''b'', u ''c'']"
proof -
  let ?s1 = "memory_set (0, 0) (u ''a'') [] None (new_memory_store 2 None)"
  let ?s2 = "memory_set (0, 0) (u ''b'') [] None ?s1"
  have i: "memory_inv (new_memory_store 2 None)" "memory_inv ?s1" "memory_inv ?s2"
    by (simp_all add: memory_new_inv)
  have "mem_data ?s1 = [(u ''a'', [], None)]" "mem_max_entries ?s1 = 2" "mem_default_ttl ?s1 = None"
    by (simp_all add: memory_set_data [OF i(1)] new_memory_store_def evict_expired_def write_deadline_def)
      (simp_all add: memory_set_def evict_expired_def Let_def trim_size_conv write_deadline_def)
  then have "mem_data ?s2 = [(u ''a'', [], None), (u ''b'', [], None)]" "mem_max_entries ?s2 = 2"
    by (simp_all add: memory_set_data [OF i(2)] evict_expired_def write_deadline_def live_at_def)
      (simp_all add: memory_set_def evict_expired_def Let_def trim_size_conv write_deadline_def)
  then show ?thesis
    using memory_store_bounded_fifo [OF i(3), of "[]" "(0, 0)" "u ''c''" None]
    by (simp add: evict_expired_def live_at_def Let_def)
qed

text \<open>C17: What a page persists is what a later visit of the same link hydrates, in both stores and with
  either merge mode, as long as the time to live has not passed: every key that is not private has its
  value (members of JSON objects possibly reordered), and no private key is stored.\<close>

theorem persist_then_hydrate:
  assumes "memory_inv s" and "sqlite_inv q" and "clock_ok c" and "clock_ok c'" and "0 < t" and "snd c' < fst c + t"
    and "\<not> url_session_disabled env" and "sid \<noteq> []"
    and "query_param_get st (resolve_url_session_param fs param) = Some sid"
    and "\<not> fc_broken st" and "fc_filtered st = None" and "dict_ok (fc_state st)"
    and "query_param_get st' (resolve_url_session_param fs param) = Some sid" and "fc_state st' = []"
  shows "\<exists>m1 m2 q1 q2.
     hydrate_url_session memory_ops env fs c' param merge None st'
        (snd (persist_url_session memory_ops env fs c param (Some t) st s)) = (Some sid, m1, m2)
   \<and> hydrate_url_session sqlite_ops env fs c' param merge None st'
        (snd (persist_url_session sqlite_ops env fs c param (Some t) st q)) = (Some sid, q1, q2)
   \<and> (\<forall>k. let kept = (if startswith k (u ''__'') then None else map_option canon_json (map_of (fc_state st) k))
          in map_option canon_json (map_of (fc_state m1) k) = kept \<and> map_option canon_json (map_of (fc_state q1) k) = kept)"
proof -
  let ?snap = "filter (\<lambda>kv. \<not> startswith (fst kv) (u ''__'')) (fc_state st)"
  have snap: "session_snapshot st = Some ?snap" "dict_ok ?snap"
    using assms(10-12) by (simp_all add: session_snapshot_def)
  have kept: "map_option canon_json (map_of ?snap k) =
      (if startswith k (u ''__'') then None else map_option canon_json (map_of (fc_state st) k))" for k
    using assms(12) by (simp add: map_of_filter_distinct split: option.splits)
  obtain m1 m2 where m: "hydrate_url_session memory_ops env fs c' param merge None st'
        (snd (persist_url_session memory_ops env fs c param (Some t) st s)) = (Some sid, m1, m2)"
    "\<forall>k. map_option canon_json (map_of (fc_state m1) k) = map_option canon_json (map_of ?snap k)"
    using mem.persist_hydrate [OF assms(1,3-9) snap assms(13,14)] by blast
  obtain q1 q2 where q: "hydrate_url_session sqlite_ops env fs c' param merge None st'
        (snd (persist_url_session sqlite_ops env fs c param (Some t) st q)) = (Some sid, q1, q2)"
    "\<forall>k. map_option canon_json (map_of (fc_state q1) k) = map_option canon_json (map_of ?snap k)"
    using sqlite.persist_hydrate [OF assms(2,3-9) snap assms(13,14)] by blast
  from m q kept show ?thesis by (intro exI [of _ m1] exI [of _ m2] exI [of _ q1] exI [of _ q2]) (simp add: Let_def)
qed

definition sample_page :: facade where
  "sample_page = \<lparr>fc_query = Some [(u ''fluxlit_sid'', QStr (u ''abc''))], fc_query_writable = True,
     fc_state = [(u ''name'', JStr (u ''x'')), (u ''__t'', JNull)], fc_filtered = None, fc_broken = False\<rparr>"

lemma sample_param: "resolve_url_session_param default_settings None = u ''fluxlit_sid''"
  by (simp add: resolve_url_session_param_def default_url_session_param_def default_settings_def pystr_eval)

lemma enabled_by_default: "\<not> url_session_disabled []"
  by (simp add: url_session_disabled_def truthy_env_def pystr_eval)

theorem persist_then_hydrate_witness:
  "\<exists>m1 m2. hydrate_url_session memory_ops [] default_settings (1, 1) None True None (sample_page\<lparr>fc_state := []\<rparr>)
      (snd (persist_url_session memory_ops [] default_settings (0, 0) None (Some 60) sample_page (new_memory_store 9 None)))
      = (Some (u ''abc''), m1, m2)
    \<and> map_option canon_json (map_of (fc_state m1) (u ''name'')) = Some (JStr (u ''x''))"
proof -
  have "query_param_get sample_page (u ''fluxlit_sid'') = Some (u ''abc'')"
    "query_param_get (sample_page\<lparr>fc_state := []\<rparr>) (u ''fluxlit_sid'') = Some (u ''abc'')"
    by (simp_all add: query_param_get_def sample_page_def)
  moreover have "\<not> startswith (u ''name'') (u ''__'')" by (simp add: pystr_eval)
  ultimately obtain m1 m2 q1 q2 where
    "hydrate_url_session memory_ops [] default_settings (1, 1) None True None (sample_page\<lparr>fc_state := []\<rparr>)
      (snd (persist_url_session memory_ops [] default_settings (0, 0) None (Some 60) sample_page (new_memory_store 9 None)))
      = (Some (u ''abc''), m1, m2)"
    "hydrate_url_session sqlite_ops [] default_settings (1, 1) None True None (sample_page\<lparr>fc_state := []\<rparr>)
      (snd (persist_url_session sqlite_ops [] default_settings (0, 0) None (Some 60) sample_page []))
      = (Some (u ''abc''), q1, q2)"
    "\<forall>k. let kept = (if startswith k (u ''__'') then None else map_option canon_json (map_of (fc_state sample_page) k))
          in map_option canon_json (map_of (fc_state m1) k) = kept \<and> map_option canon_json (map_of (fc_state q1) k) = kept"
    using persist_then_hydrate [of "new_memory_store 9 None" "[]" "(0, 0)" "(1, 1)" 60 "[]" "u ''abc''" sample_page
        default_settings None "sample_page\<lparr>fc_state := []\<rparr>" True] memory_new_inv enabled_by_default
    by (auto simp: sample_param clock_ok_def sqlite_inv_def sample_page_def dict_ok_def)
  with \<open>\<not> startswith (u ''name'') (u ''__'')\<close> show ?thesis
    by (intro exI [of _ m1] exI [of _ m2]) (auto simp: sample_page_def Let_def)
qed

text \<open>A session that \<open>ensure_url_session\<close> starts is found by the next run of the page: the id it
  minted is in the URL and hydrates the initial data, in both stores.\<close>

theorem ensure_then_hydrate:
  assumes "memory_inv s" and "sqlite_inv q" and "dict_ok initial" and "clock_ok c" and "clock_ok c'" and "0 < t"
    and "snd c' < fst c + t" and "\<not> url_session_disabled env" and "new_id \<noteq> []"
    and "query_param_get st (resolve_url_session_param fs param) = None" and "fc_query st \<noteq> None" and "fc_query_writable st"
  shows "(\<exists>st1 s1 st2 s2 p'. ensure_url_session memory_ops env fs c0 c new_id param initial (Some t) st s = (new_id, st1, s1)
      \<and> hydrate_url_session memory_ops env fs c' param merge None st1 s1 = (Some new_id, st2, s2)
      \<and> fc_state st2 = merge_payload merge p' (fc_state st) \<and> canon p' = canon initial)
    \<and> (\<exists>st1 q1 st2 q2 p'. ensure_url_session sqlite_ops env fs c0 c new_id param initial (Some t) st q = (new_id, st1, q1)
      \<and> hydrate_url_session sqlite_ops env fs c' param merge None st1 q1 = (Some new_id, st2, q2)
      \<and> fc_state st2 = merge_payload merge p' (fc_state st) \<and> canon p' = canon initial)"
  using mem.ensure_hydrate [OF assms(1,3-12)] sqlite.ensure_hydrate [OF assms(2,3-12)] by blast

theorem ensure_then_hydrate_witness:
  "\<exists>st1 s1. ensure_url_session memory_ops [] default_settings (0, 0) (0, 0) (u ''new'') None [] (Some 5)
      (sample_page\<lparr>fc_query := Some []\<rparr>) (new_memory_store 9 None) = (u ''new'', st1, s1)"
proof -
  have "query_param_get (sample_page\<lparr>fc_query := Some []\<rparr>) (resolve_url_session_param default_settings None) = None"
    by (simp add: query_param_get_def)
  then show ?thesis
    using ensure_then_hydrate [of "new_memory_store 9 None" "[]" "[]" "(0, 0)" "(1, 1)" 5 "[]" "u ''new''"
        "sample_page\<lparr>fc_query := Some []\<rparr>" default_settings None "(0, 0)" True]
      memory_new_inv enabled_by_default
    by (auto simp: clock_ok_def sqlite_inv_def sample_page_def)
qed

text \<open>Hydrating with a model is all or nothing: unless the stored data validates, the page's session
  state is untouched, whatever the store, and on success the state is merged with the validated data.\<close>

theorem typed_hydrate_atomic:
  "let (r, st', store') = hydrate_url_session_typed ops validate dump env fs clk param merge strict st store
   in case r of
        Inr (Some sid, Some m) \<Rightarrow> st' = st\<lparr>fc_state := merge_payload merge (dump m) (fc_state st)\<rparr>
      | _ \<Rightarrow> st' = st"
  by (auto simp: hydrate_url_session_typed_def hydrate_url_session_def resolve_url_session_param_def Let_def
      split: option.splits prod.splits sum.splits exc.splits)

text \<open>With URL sessions disabled by the environment no helper changes the page or the store.\<close>

theorem disabled_url_session_inert:
  assumes "url_session_disabled env"
  shows "hydrate_url_session ops env fs clk param merge blob st store = (None, st, store)
    \<and> persist_url_session ops env fs clk param ttl st store = (None, store)
    \<and> snd (ensure_url_session ops env fs clk clk' new_id param initial ttl st store) = (st, store)
    \<and> hydrate_url_session_typed ops validate dump env fs clk param merge strict st store = (Inr (None, None), st, store)"
  using assms
  by (simp add: hydrate_url_session_def persist_url_session_def ensure_url_session_def hydrate_url_session_typed_def Let_def)

theorem disabled_url_session_inert_witness:
  "hydrate_url_session memory_ops [(u ''FLUXLIT_DISABLE_URL_SESSION'', u '' Yes '')] default_settings (0, 0) None True None
     sample_page (new_memory_store 9 None) = (None, sample_page, new_memory_store 9 None)"
proof -
  have "lower (strip (u '' Yes '')) = u ''yes''" by (simp add: pystr_eval)
  then have "url_session_disabled [(u ''FLUXLIT_DISABLE_URL_SESSION'', u '' Yes '')]"
    by (simp add: url_session_disabled_def truthy_env_def)
  then show ?thesis
    using disabled_url_session_inert [of "[(u ''FLUXLIT_DISABLE_URL_SESSION'', u '' Yes '')]" memory_ops default_settings
        "(0, 0)" None True None sample_page "new_memory_store 9 None" None "(0, 0)" "[]" "[]" "\<lambda>_. Inr ()" "\<lambda>_. []" True]
    by blast
qed

end
