(* ===== verification/Jwt_Auth.thy ===== *)
theory Jwt_Auth
  imports Settings_Model
begin

section \<open>Bearer tokens and forward authentication\<close>

text \<open>
  Models \<open>auth/jwt.py\<close> and \<open>auth/trusted_proxy.py\<close>. PyJWT is the argument \<open>L\<close> (signing key lookup,
  decoding, encoding), and so is pydantic's validation of \<open>StandardClaims\<close> (\<open>jl_claims\<close>); \<open>decode_sound\<close> states what decoding promises: the token carries a signature
  made with the key under one of the accepted algorithms, and the claims were checked. A request
  is what the code reads of it: header lookup, client host and URL scheme.
\<close>

record http_req =
  hr_header :: "pystr \<Rightarrow> pystr option"
  hr_client_host :: "pystr option"
  hr_scheme :: pystr

datatype audience = AudStr pystr | AudList "pystr list"

datatype jwt_failure = ExpiredSignature | InvalidToken | OtherJwtError exc

datatype 'k jwt_key = SecretKey pystr | SigningKey 'k

record 'k jwt_lib =
  jl_installed :: bool
  jl_signing_key :: "pystr \<Rightarrow> pystr \<Rightarrow> jwt_failure + 'k"
  jl_decode :: "pystr \<Rightarrow> 'k jwt_key \<Rightarrow> pystr list \<Rightarrow> audience \<Rightarrow> pystr \<Rightarrow> int \<Rightarrow> jwt_failure + json dict"
  jl_encode :: "json dict \<Rightarrow> pystr \<Rightarrow> pystr"
  jl_claims :: "json dict \<Rightarrow> exc + json dict"

subsection \<open>JWT bearer\<close>

record jwt_auth_config =
  jc_issuer :: pystr
  jc_audience :: audience
  jc_algorithms :: "pystr list"
  jc_jwks_url :: "pystr option"
  jc_hs256_secret :: "pystr option"
  jc_leeway_seconds :: int

record jwt_bearer =
  jb_config :: jwt_auth_config
  jb_jwks_client :: "pystr option"

definition make_jwt_bearer :: "'k jwt_lib \<Rightarrow> jwt_auth_config \<Rightarrow> exc + jwt_bearer" where
  "make_jwt_bearer L config =
     (if opt_str (jc_hs256_secret config) \<noteq> []
      then (if u ''HS256'' \<notin> set (jc_algorithms config) then Inl ValueError
            else Inr \<lparr>jb_config = config, jb_jwks_client = None\<rparr>)
      else if opt_str (jc_jwks_url config) \<noteq> []
      then (if \<not> jl_installed L then Inl RuntimeError
            else Inr \<lparr>jb_config = config, jb_jwks_client = jc_jwks_url config\<rparr>)
      else Inl ValueError)"

definition bearer_from_settings :: "'k jwt_lib \<Rightarrow> fluxlit_settings \<Rightarrow> exc + jwt_bearer" where
  "bearer_from_settings L fs =
     (let issuer = strip (fs_jwt_issuer fs); audience = strip (fs_jwt_audience fs);
          secret = strip (fs_jwt_hs256_secret fs); jwks = strip (fs_jwt_jwks_url fs)
      in if secret \<noteq> [] \<and> jwks \<noteq> [] then Inl ValueError
         else if issuer = [] \<or> audience = [] then Inl ValueError
         else if secret \<noteq> []
         then make_jwt_bearer L \<lparr>jc_issuer = issuer, jc_audience = AudStr audience, jc_algorithms = [u ''HS256''],
                jc_jwks_url = None, jc_hs256_secret = Some secret, jc_leeway_seconds = fs_jwt_leeway_seconds fs\<rparr>
         else if jwks \<noteq> []
         then make_jwt_bearer L \<lparr>jc_issuer = issuer, jc_audience = AudStr audience, jc_algorithms = [u ''RS256''],
                jc_jwks_url = Some jwks, jc_hs256_secret = None, jc_leeway_seconds = fs_jwt_leeway_seconds fs\<rparr>
         else Inl ValueError)"

definition decode_with :: "'k jwt_lib \<Rightarrow> jwt_auth_config \<Rightarrow> pystr \<Rightarrow> 'k jwt_key \<Rightarrow> jwt_failure + json dict" where
  "decode_with L c token key =
     jl_decode L token key (jc_algorithms c) (jc_audience c) (jc_issuer c) (jc_leeway_seconds c)"

definition decode_token_json :: "'k jwt_lib \<Rightarrow> jwt_bearer \<Rightarrow> pystr \<Rightarrow> jwt_failure + json dict" where
  "decode_token_json L b token =
     (if \<not> jl_installed L then Inl (OtherJwtError RuntimeError)
      else (case jc_hs256_secret (jb_config b) of
          Some secret \<Rightarrow> decode_with L (jb_config b) token (SecretKey secret)
        | None \<Rightarrow>
            (case jb_jwks_client b of
               None \<Rightarrow> Inl (OtherJwtError AssertionError)
             | Some url \<Rightarrow>
                 (case jl_signing_key L url token of
                    Inl e \<Rightarrow> Inl e
                  | Inr key \<Rightarrow> decode_with L (jb_config b) token (SigningKey key)))))"

definition bearer_token :: "http_req \<Rightarrow> exc + pystr" where
  "bearer_token req =
     (let auth = opt_str (hr_header req (u ''authorization''))
      in if auth = [] \<or> \<not> startswith (lower auth) (u ''bearer '') then Inl (HTTPException 401 (u ''Missing bearer token''))
         else (let token = (case split1 auth (u '' '') of Some (_, t) \<Rightarrow> strip t | None \<Rightarrow> [])
               in if token = [] then Inl (HTTPException 401 (u ''Empty bearer token'')) else Inr token))"

definition bearer_call :: "'k jwt_lib \<Rightarrow> jwt_bearer \<Rightarrow> http_req \<Rightarrow> exc + json dict" where
  "bearer_call L b req =
     bind_exc (bearer_token req) (\<lambda>token.
       if \<not> jl_installed L then Inl RuntimeError
       else (case decode_token_json L b token of
           Inl ExpiredSignature \<Rightarrow> Inl (HTTPException 401 (u ''Token expired''))
         | Inl InvalidToken \<Rightarrow> Inl (HTTPException 401 (u ''Invalid token''))
         | Inl (OtherJwtError e) \<Rightarrow> Inl e
         | Inr decoded \<Rightarrow> jl_claims L decoded))"

subsection \<open>Scopes and roles\<close>

function split_ws :: "pystr \<Rightarrow> pystr list" where
  "split_ws s =
     (let t = dropWhile is_space s
      in if t = [] then []
         else takeWhile (\<lambda>c. \<not> is_space c) t # split_ws (dropWhile (\<lambda>c. \<not> is_space c) t))"
  by auto
termination
proof (relation "measure length")
  fix s t :: pystr
  assume t: "t = dropWhile is_space s" and ne: "t \<noteq> []"
  obtain c r where c: "t = c # r" using ne by (cases t) auto
  have "\<not> is_space (hd t)" using t ne hd_dropWhile [of is_space s] by simp
  with c have cr: "t = c # r" "\<not> is_space c" by simp_all
  have "length (dropWhile (\<lambda>c. \<not> is_space c) t) \<le> length r" using cr by (simp add: length_dropWhile_le)
  also have "\<dots> < length t" using cr by simp
  also have "\<dots> \<le> length s" using t by (simp add: length_dropWhile_le)
  finally show "(dropWhile (\<lambda>c. \<not> is_space c) t, s) \<in> measure length" by simp
qed simp

declare split_ws.simps [simp del, pystr_run]

text \<open>\<open>str(x)\<close> of a claim element; \<open>other\<close> prints values that are not strings.\<close>

definition py_str :: "(json \<Rightarrow> pystr) \<Rightarrow> json \<Rightarrow> pystr" where
  "py_str other x = (case x of JStr s \<Rightarrow> s | _ \<Rightarrow> other x)"

definition claims_scopes :: "(json \<Rightarrow> pystr) \<Rightarrow> json dict \<Rightarrow> pystr \<Rightarrow> pystr set" where
  "claims_scopes other claims scope_claim =
     (case map_of claims scope_claim of
        Some (JArr xs) \<Rightarrow> set (map (py_str other) xs)
      | Some (JStr s) \<Rightarrow> set (split_ws s)
      | _ \<Rightarrow> {})"

definition claims_roles :: "(json \<Rightarrow> pystr) \<Rightarrow> json dict \<Rightarrow> pystr \<Rightarrow> pystr set" where
  "claims_roles other claims roles_claim =
     (case map_of claims roles_claim of
        Some (JArr xs) \<Rightarrow> set (map (py_str other) xs)
      | Some (JStr s) \<Rightarrow> {s}
      | _ \<Rightarrow> {})"

definition require_scopes ::
  "'k jwt_lib \<Rightarrow> (json \<Rightarrow> pystr) \<Rightarrow> jwt_bearer \<Rightarrow> pystr set \<Rightarrow> pystr \<Rightarrow> http_req \<Rightarrow> exc + json dict" where
  "require_scopes L other b required scope_claim req =
     bind_exc (bearer_call L b req) (\<lambda>claims.
       if required \<subseteq> claims_scopes other claims scope_claim then Inr claims
       else Inl (HTTPException 403 (u ''Insufficient scope'')))"

definition require_roles ::
  "'k jwt_lib \<Rightarrow> (json \<Rightarrow> pystr) \<Rightarrow> jwt_bearer \<Rightarrow> pystr set \<Rightarrow> pystr \<Rightarrow> http_req \<Rightarrow> exc + json dict" where
  "require_roles L other b required roles_claim req =
     bind_exc (bearer_call L b req) (\<lambda>claims.
       if required \<inter> claims_roles other claims roles_claim \<noteq> {} then Inr claims
       else Inl (HTTPException 403 (u ''Insufficient role'')))"

subsection \<open>Issuing first-party tokens\<close>

definition access_token_payload :: "pystr \<Rightarrow> pystr \<Rightarrow> audience \<Rightarrow> int \<Rightarrow> int \<Rightarrow> json dict \<Rightarrow> json dict" where
  "access_token_payload subject issuer audience ttl_seconds now extra_claims =
     fold (\<lambda>(k, v). AList.update k v) extra_claims
       [(u ''sub'', JStr subject), (u ''iss'', JStr issuer),
        (u ''aud'', (case audience of AudStr a \<Rightarrow> JStr a | AudList xs \<Rightarrow> JArr (map JStr xs))),
        (u ''iat'', JInt now), (u ''exp'', JInt (now + ttl_seconds))]"

definition issue_hs256_access_token ::
  "'k jwt_lib \<Rightarrow> pystr \<Rightarrow> pystr \<Rightarrow> audience \<Rightarrow> pystr \<Rightarrow> int \<Rightarrow> int \<Rightarrow> json dict \<Rightarrow> exc + pystr" where
  "issue_hs256_access_token L subject issuer audience secret ttl_seconds now extra_claims =
     (if \<not> jl_installed L then Inl RuntimeError
      else Inr (jl_encode L (access_token_payload subject issuer audience ttl_seconds now extra_claims) secret))"

subsection \<open>Forward authentication\<close>

record trusted_proxy_config =
  tp_header_name :: pystr
  tp_require_https :: bool
  tp_trusted_client_hosts :: "pystr set option"
  tp_require_non_empty_user :: bool

definition proxy_user_header :: "pystr \<Rightarrow> http_req \<Rightarrow> pystr option" where
  "proxy_user_header header_name req = hr_header req header_name"

definition effective_scheme :: "http_req \<Rightarrow> pystr" where
  "effective_scheme req =
     (let forwarded = opt_str (hr_header req (u ''x-forwarded-proto''))
      in if forwarded \<noteq> [] then lower (strip (hd (split_chr 44 forwarded))) else lower (hr_scheme req))"

definition trusted_proxy_user :: "trusted_proxy_config \<Rightarrow> http_req \<Rightarrow> exc + pystr" where
  "trusted_proxy_user c req =
     (if (case tp_trusted_client_hosts c of None \<Rightarrow> False
            | Some hosts \<Rightarrow> (case hr_client_host req of None \<Rightarrow> True | Some h \<Rightarrow> h \<notin> hosts))
      then Inl (HTTPException 403 (u ''Untrusted client for forward-auth''))
      else if tp_require_https c \<and> effective_scheme req \<noteq> u ''https''
      then Inl (HTTPException 403 (u ''HTTPS required for forward-auth''))
      else (let raw = opt_str (hr_header req (tp_header_name c))
            in if tp_require_non_empty_user c \<and> strip raw = []
               then Inl (HTTPException 401 (u ''Missing trusted user header''))
               else Inr (strip raw)))"

subsection \<open>Who gets in\<close>

definition audience_ok :: "json dict \<Rightarrow> audience \<Rightarrow> bool" where
  "audience_ok p aud \<longleftrightarrow>
     (let accepted = (case aud of AudStr a \<Rightarrow> {a} | AudList xs \<Rightarrow> set xs);
          claimed = (case map_of p (u ''aud'') of
              Some (JStr a) \<Rightarrow> {a} | Some (JArr xs) \<Rightarrow> {a. JStr a \<in> set xs} | _ \<Rightarrow> {})
      in accepted \<inter> claimed \<noteq> {})"

text \<open>What PyJWT promises: \<open>signed tok key alg\<close> is the fact that the token's signature verifies.\<close>

definition decode_sound :: "'k jwt_lib \<Rightarrow> (pystr \<Rightarrow> 'k jwt_key \<Rightarrow> pystr \<Rightarrow> bool) \<Rightarrow> bool" where
  "decode_sound L signed \<longleftrightarrow>
     (\<forall>tok key algs aud iss leeway p. jl_decode L tok key algs aud iss leeway = Inr p \<longrightarrow>
        (\<exists>a \<in> set algs. signed tok key a) \<and> map_of p (u ''iss'') = Some (JStr iss) \<and> audience_ok p aud \<and>
        map_of p (u ''exp'') \<noteq> None)"

lemma decode_soundD:
  "decode_sound L signed \<Longrightarrow> decode_with L c tok key = Inr p \<Longrightarrow>
     (\<exists>a \<in> set (jc_algorithms c). signed tok key a) \<and> map_of p (u ''iss'') = Some (JStr (jc_issuer c)) \<and>
     audience_ok p (jc_audience c) \<and> map_of p (u ''exp'') \<noteq> None"
  unfolding decode_sound_def decode_with_def by (elim allE impE)

definition bearer_key :: "'k jwt_lib \<Rightarrow> jwt_bearer \<Rightarrow> pystr \<Rightarrow> 'k jwt_key \<Rightarrow> bool" where
  "bearer_key L b tok key \<longleftrightarrow>
     (case jc_hs256_secret (jb_config b) of
        Some s \<Rightarrow> key = SecretKey s
      | None \<Rightarrow> (\<exists>url k. jb_jwks_client b = Some url \<and> jl_signing_key L url tok = Inr k \<and> key = SigningKey k))"

lemma decode_token_json_Inr:
  "decode_token_json L b tok = Inr p \<Longrightarrow>
     \<exists>key. bearer_key L b tok key \<and> decode_with L (jb_config b) tok key = Inr p"
  by (auto simp: decode_token_json_def bearer_key_def split: if_splits option.splits sum.splits)

text \<open>C11: A route guarded by \<open>JWTBearer\<close> runs only for a request that carries a non-empty bearer token
  signed, under one of the configured algorithms, with the configured secret or with the key the JWKS
  names for it, whose issuer and audience are the configured ones and that has an expiry.\<close>

theorem bearer_accepts_only_signed:
  assumes "decode_sound L signed" and "bearer_call L b req = Inr claims"
  shows "\<exists>tok key p. bearer_token req = Inr tok \<and> tok \<noteq> [] \<and> bearer_key L b tok key \<and>
     (\<exists>a \<in> set (jc_algorithms (jb_config b)). signed tok key a) \<and>
     map_of p (u ''iss'') = Some (JStr (jc_issuer (jb_config b))) \<and> audience_ok p (jc_audience (jb_config b)) \<and>
     map_of p (u ''exp'') \<noteq> None \<and> jl_claims L p = Inr claims"
proof -
  obtain tok p where t: "bearer_token req = Inr tok" "decode_token_json L b tok = Inr p" "jl_claims L p = Inr claims"
    using assms(2) by (auto simp: bearer_call_def bind_exc_Inr_iff split: if_splits sum.splits jwt_failure.splits)
  obtain key where key: "bearer_key L b tok key" "decode_with L (jb_config b) tok key = Inr p"
    using decode_token_json_Inr [OF t(2)] by blast
  have "tok \<noteq> []" using t(1) by (auto simp: bearer_token_def Let_def split: if_splits)
  with t key decode_soundD [OF assms(1) key(2)] show ?thesis
    by (intro exI [of _ tok] exI [of _ key] exI [of _ p]) simp
qed

definition sample_lib :: "unit jwt_lib" where
  "sample_lib = \<lparr>jl_installed = True, jl_signing_key = (\<lambda>_ _. Inr ()),
     jl_decode = (\<lambda>tok key algs aud iss _.
        if tok = u ''good'' \<and> key = SecretKey (u ''k'') \<and> u ''HS256'' \<in> set algs \<and> aud = AudStr (u ''app'')
        then Inr [(u ''iss'', JStr iss), (u ''aud'', JStr (u ''app'')), (u ''exp'', JInt 9), (u ''scope'', JStr (u ''read write''))]
        else Inl InvalidToken),
     jl_encode = (\<lambda>_ _. u ''good''), jl_claims = Inr\<rparr>"

definition sample_signed :: "pystr \<Rightarrow> unit jwt_key \<Rightarrow> pystr \<Rightarrow> bool" where
  "sample_signed tok key alg \<longleftrightarrow> tok = u ''good'' \<and> key = SecretKey (u ''k'') \<and> alg = u ''HS256''"

definition sample_bearer :: jwt_bearer where
  "sample_bearer = \<lparr>jb_config = \<lparr>jc_issuer = u ''me'', jc_audience = AudStr (u ''app''), jc_algorithms = [u ''HS256''],
     jc_jwks_url = None, jc_hs256_secret = Some (u ''k''), jc_leeway_seconds = 0\<rparr>, jb_jwks_client = None\<rparr>"

definition sample_req :: http_req where
  "sample_req = \<lparr>hr_header = (\<lambda>n. if n = u ''authorization'' then Some (u ''Bearer good'') else None),
     hr_client_host = Some (u ''10.0.0.1''), hr_scheme = u ''http''\<rparr>"

lemma sample_lib_sound: "decode_sound sample_lib sample_signed"
  by (auto simp: decode_sound_def sample_lib_def sample_signed_def audience_ok_def)

lemma sample_token: "bearer_token sample_req = Inr (u ''good'')"
proof -
  have "startswith (lower (u ''Bearer good'')) (u ''bearer '')" by (simp add: pystr_eval)
  moreover have "split1 (u ''Bearer good'') (u '' '') = Some (u ''Bearer'', u ''good'')"
    by (simp add: pystr_eval pystr_run)
  moreover have "strip (u ''good'') = u ''good''" by (simp add: pystr_eval)
  ultimately show ?thesis by (simp add: bearer_token_def sample_req_def Let_def)
qed

lemma sample_call:
  "bearer_call sample_lib sample_bearer sample_req =
     Inr [(u ''iss'', JStr (u ''me'')), (u ''aud'', JStr (u ''app'')), (u ''exp'', JInt 9), (u ''scope'', JStr (u ''read write''))]"
  by (simp add: bearer_call_def sample_token decode_token_json_def decode_with_def sample_lib_def sample_bearer_def)

theorem bearer_accepts_only_signed_witness:
  "\<exists>key. bearer_key sample_lib sample_bearer (u ''good'') key \<and> sample_signed (u ''good'') key (u ''HS256'')"
  using bearer_accepts_only_signed [OF sample_lib_sound sample_call] sample_token
  by (auto simp: sample_bearer_def)

text \<open>Scope and role guards never let through what the bearer rejects, answer 403 to an authenticated
  caller without the permission, and return the bearer's claims otherwise; all required scopes are
  needed but any one role is enough, so a role guard with no role admits nobody.\<close>

theorem permission_guards:
  "require_scopes L other b required scope_claim req =
     (case bearer_call L b req of
        Inl e \<Rightarrow> Inl e
      | Inr claims \<Rightarrow> if required \<subseteq> claims_scopes other claims scope_claim then Inr claims
                      else Inl (HTTPException 403 (u ''Insufficient scope'')))
   \<and> (\<forall>claims. require_roles L other b required roles_claim req = Inr claims \<longleftrightarrow>
        bearer_call L b req = Inr claims \<and> (\<exists>r. r \<in> required \<and> r \<in> claims_roles other claims roles_claim))
   \<and> (\<forall>claims. require_roles L other b {} roles_claim req \<noteq> Inr claims)"
  by (auto simp: require_scopes_def require_roles_def bind_exc_def split: sum.splits if_splits)

text \<open>A bearer built from the settings needs an issuer, an audience and exactly one key source, checks
  exactly these, and uses HS256 with the secret or RS256 with the JWKS, never both.\<close>

theorem bearer_from_settings_iff:
  assumes "jl_installed L"
  shows "bearer_from_settings L fs = Inr b \<longleftrightarrow>
     strip (fs_jwt_issuer fs) \<noteq> [] \<and> strip (fs_jwt_audience fs) \<noteq> [] \<and>
     jc_issuer (jb_config b) = strip (fs_jwt_issuer fs) \<and> jc_audience (jb_config b) = AudStr (strip (fs_jwt_audience fs)) \<and>
     jc_leeway_seconds (jb_config b) = fs_jwt_leeway_seconds fs \<and>
     (if strip (fs_jwt_hs256_secret fs) \<noteq> []
      then strip (fs_jwt_jwks_url fs) = [] \<and> jc_hs256_secret (jb_config b) = Some (strip (fs_jwt_hs256_secret fs)) \<and>
        jc_algorithms (jb_config b) = [u ''HS256''] \<and> jc_jwks_url (jb_config b) = None \<and> jb_jwks_client b = None
      else strip (fs_jwt_jwks_url fs) \<noteq> [] \<and> jc_hs256_secret (jb_config b) = None \<and> jc_algorithms (jb_config b) = [u ''RS256''] \<and>
        jc_jwks_url (jb_config b) = Some (strip (fs_jwt_jwks_url fs)) \<and> jb_jwks_client b = Some (strip (fs_jwt_jwks_url fs)))"
proof -
  obtain i a al ju hs lw jc where b: "b = \<lparr>jb_config = \<lparr>jc_issuer = i, jc_audience = a, jc_algorithms = al, jc_jwks_url = ju,
      jc_hs256_secret = hs, jc_leeway_seconds = lw\<rparr>, jb_jwks_client = jc\<rparr>"
    by (metis jwt_bearer.cases jwt_auth_config.cases)
  show ?thesis
    unfolding bearer_from_settings_def make_jwt_bearer_def Let_def b using assms
    by (cases "strip (fs_jwt_hs256_secret fs) = []"; cases "strip (fs_jwt_jwks_url fs) = []") auto
qed

theorem bearer_from_settings_iff_witness:
  "bearer_from_settings sample_lib (default_settings\<lparr>fs_jwt_issuer := u ''me'', fs_jwt_audience := u ''app'', fs_jwt_hs256_secret := u ''k''\<rparr>)
     = Inr sample_bearer"
proof -
  have "strip (u ''me'') = u ''me''" "strip (u ''app'') = u ''app''" "strip (u ''k'') = u ''k''" "strip [] = []"
    by (simp_all add: pystr_eval)
  then show ?thesis
    using bearer_from_settings_iff [of sample_lib "default_settings\<lparr>fs_jwt_issuer := u ''me'', fs_jwt_audience := u ''app'', fs_jwt_hs256_secret := u ''k''\<rparr>" sample_bearer]
    by (simp add: sample_lib_def sample_bearer_def default_settings_def)
qed

text \<open>An explicitly empty HS256 secret next to a JWKS URL is accepted by the constructor, which takes
  the JWKS branch, but tokens are then verified with the empty secret and the JWKS is never asked.\<close>

theorem empty_secret_disables_jwks:
  assumes "make_jwt_bearer L c = Inr b" and "jc_hs256_secret c = Some []" and "jl_installed L"
  shows "jb_jwks_client b = jc_jwks_url c \<and> opt_str (jc_jwks_url c) \<noteq> [] \<and>
     decode_token_json L b tok = decode_with L c tok (SecretKey [])"
  using assms by (auto simp: make_jwt_bearer_def decode_token_json_def split: if_splits)

theorem empty_secret_disables_jwks_witness:
  "\<exists>b. make_jwt_bearer sample_lib ((jb_config sample_bearer)\<lparr>jc_jwks_url := Some (u ''https://idp/jwks''), jc_hs256_secret := Some []\<rparr>) = Inr b
     \<and> jb_jwks_client b = Some (u ''https://idp/jwks'')
     \<and> decode_token_json sample_lib b (u ''t'') =
        decode_with sample_lib ((jb_config sample_bearer)\<lparr>jc_jwks_url := Some (u ''https://idp/jwks''), jc_hs256_secret := Some []\<rparr>) (u ''t'') (SecretKey [])"
proof -
  let ?c = "(jb_config sample_bearer)\<lparr>jc_jwks_url := Some (u ''https://idp/jwks''), jc_hs256_secret := Some []\<rparr>"
  have m: "make_jwt_bearer sample_lib ?c = Inr \<lparr>jb_config = ?c, jb_jwks_client = Some (u ''https://idp/jwks'')\<rparr>"
    by (simp add: make_jwt_bearer_def sample_lib_def)
  from empty_secret_disables_jwks [OF m] m show ?thesis by (simp add: sample_lib_def)
qed

text \<open>Forward authentication admits a request exactly if its peer is trusted, it came over HTTPS where
  that is required and it names a user where that is required; the user is the header without
  surrounding blanks.\<close>

theorem trusted_proxy_user_iff:
  "trusted_proxy_user c req = Inr user \<longleftrightarrow>
     (tp_trusted_client_hosts c = None \<or>
        (\<exists>hosts h. tp_trusted_client_hosts c = Some hosts \<and> hr_client_host req = Some h \<and> h \<in> hosts)) \<and>
     (tp_require_https c = False \<or> effective_scheme req = u ''https'') \<and>
     (tp_require_non_empty_user c = False \<or> user \<noteq> []) \<and>
     user = strip (opt_str (hr_header req (tp_header_name c)))"
  by (auto simp: trusted_proxy_user_def Let_def split: option.splits if_splits)

end
