(* ===== verification/Oidc_Bff.thy ===== *)
theory Oidc_Bff
  imports Jwt_Auth
begin

section \<open>The OIDC login of the backend for frontend\<close>

text \<open>
  Models \<open>auth/oidc.py\<close>: the token store with its one-time entries, the generic OIDC client, the
  three routes of \<open>register_oidc_bff_routes\<close> and the resolution of the \<open>id_token\<close>. The store
  protocol is the record \<open>token_store_ops\<close>; the locale \<open>token_store\<close> states what the routes rely
  on and is interpreted on \<open>InMemoryOIDCBFFTokenStore\<close>. Random values (verifier, state, exchange code), clock
  readings, the HTTP post to the token endpoint, the PKCE challenge and the decoding of
  an unverified token are arguments; \<open>Token_Encoding\<close> provides the last two.
\<close>

subsection \<open>The token store\<close>

record 'st token_store_ops =
  ts_save_pkce :: "pystr \<Rightarrow> pystr \<Rightarrow> real \<Rightarrow> 'st \<Rightarrow> 'st"
  ts_pop_pkce :: "pystr \<Rightarrow> real \<Rightarrow> 'st \<Rightarrow> pystr option \<times> 'st"
  ts_save_exchange :: "pystr \<Rightarrow> pystr \<Rightarrow> real \<Rightarrow> 'st \<Rightarrow> 'st"
  ts_pop_exchange :: "pystr \<Rightarrow> real \<Rightarrow> 'st \<Rightarrow> pystr option \<times> 'st"

type_synonym stamped = "(pystr \<times> real) dict"

definition purge_expired :: "real \<Rightarrow> real \<Rightarrow> stamped \<Rightarrow> stamped" where
  "purge_expired ttl now store = filter (\<lambda>(k, (v, t0)). \<not> now - t0 > ttl) store"

record oidc_memory =
  om_pkce :: stamped
  om_exchange :: stamped
  om_state_ttl :: real
  om_otc_ttl :: real

definition new_oidc_memory :: "real \<Rightarrow> real \<Rightarrow> oidc_memory" where
  "new_oidc_memory state_ttl otc_ttl = \<lparr>om_pkce = [], om_exchange = [], om_state_ttl = state_ttl, om_otc_ttl = otc_ttl\<rparr>"

definition save_pkce_verifier :: "pystr \<Rightarrow> pystr \<Rightarrow> real \<Rightarrow> oidc_memory \<Rightarrow> oidc_memory" where
  "save_pkce_verifier state verifier now s =
     s\<lparr>om_pkce := AList.update state (verifier, now) (purge_expired (om_state_ttl s) now (om_pkce s))\<rparr>"

definition pop_pkce_verifier :: "pystr \<Rightarrow> real \<Rightarrow> oidc_memory \<Rightarrow> pystr option \<times> oidc_memory" where
  "pop_pkce_verifier state now s =
     (let d = purge_expired (om_state_ttl s) now (om_pkce s)
      in (map_option fst (map_of d state), s\<lparr>om_pkce := AList.delete state d\<rparr>))"

definition save_exchange_token :: "pystr \<Rightarrow> pystr \<Rightarrow> real \<Rightarrow> oidc_memory \<Rightarrow> oidc_memory" where
  "save_exchange_token auth_code token now s =
     s\<lparr>om_exchange := AList.update auth_code (token, now) (purge_expired (om_otc_ttl s) now (om_exchange s))\<rparr>"

definition pop_exchange_token :: "pystr \<Rightarrow> real \<Rightarrow> oidc_memory \<Rightarrow> pystr option \<times> oidc_memory" where
  "pop_exchange_token auth_code now s =
     (let d = purge_expired (om_otc_ttl s) now (om_exchange s)
      in (map_option fst (map_of d auth_code), s\<lparr>om_exchange := AList.delete auth_code d\<rparr>))"

definition oidc_memory_ops :: "oidc_memory token_store_ops" where
  "oidc_memory_ops = \<lparr>ts_save_pkce = save_pkce_verifier, ts_pop_pkce = pop_pkce_verifier,
     ts_save_exchange = save_exchange_token, ts_pop_exchange = pop_exchange_token\<rparr>"

subsection \<open>Providers\<close>

record oidc_doc =
  od_issuer :: pystr
  od_authorization_endpoint :: pystr
  od_token_endpoint :: pystr
  od_jwks_uri :: pystr

record generic_client =
  go_issuer :: pystr
  go_client_id :: pystr
  go_client_secret :: pystr
  go_doc :: "oidc_doc option"

record custom_provider =
  co_authorization_url :: "pystr \<Rightarrow> pystr \<Rightarrow> pystr \<Rightarrow> pystr \<Rightarrow> exc + pystr"
  co_exchange_code :: "pystr \<Rightarrow> pystr \<Rightarrow> pystr \<Rightarrow> exc + json dict"

datatype provider = GenericOIDC generic_client | CustomOIDC custom_provider

record 'k oidc_env =
  oe_lib :: "'k jwt_lib"
  oe_challenge :: "pystr \<Rightarrow> pystr"
  oe_http_post :: "pystr \<Rightarrow> (pystr \<times> pystr) list \<Rightarrow> exc + json"
  oe_http_get :: "pystr \<Rightarrow> exc + oidc_doc"
  oe_b64_json :: "pystr \<Rightarrow> exc + json"

definition client_issuer :: "generic_client \<Rightarrow> pystr" where
  "client_issuer c = (case go_doc c of Some d \<Rightarrow> od_issuer d | None \<Rightarrow> rstrip_slash (go_issuer c))"

definition load_discovery_sync :: "'k oidc_env \<Rightarrow> generic_client \<Rightarrow> exc + generic_client" where
  "load_discovery_sync env c =
     bind_exc (oe_http_get env (rstrip_slash (go_issuer c) @ u ''/.well-known/openid-configuration''))
       (\<lambda>d. Inr (c\<lparr>go_doc := Some d\<rparr>))"

definition require_doc :: "generic_client \<Rightarrow> exc + oidc_doc" where
  "require_doc c = (case go_doc c of None \<Rightarrow> Inl RuntimeError | Some d \<Rightarrow> Inr d)"

definition generic_authorization_url ::
  "generic_client \<Rightarrow> pystr \<Rightarrow> pystr \<Rightarrow> pystr \<Rightarrow> pystr \<Rightarrow> exc + pystr" where
  "generic_authorization_url c redirect_uri state code_challenge scope =
     bind_exc (require_doc c) (\<lambda>doc.
     bind_exc (urlencode [(u ''response_type'', u ''code''), (u ''client_id'', go_client_id c),
        (u ''redirect_uri'', redirect_uri), (u ''scope'', or_str scope (u ''openid profile email'')), (u ''state'', state),
        (u ''code_challenge'', code_challenge), (u ''code_challenge_method'', u ''S256'')]) (\<lambda>q.
     Inr (od_authorization_endpoint doc @ u ''?'' @ q)))"

definition generic_exchange_code ::
  "'k oidc_env \<Rightarrow> generic_client \<Rightarrow> pystr \<Rightarrow> pystr \<Rightarrow> pystr \<Rightarrow> exc + json dict" where
  "generic_exchange_code env c code code_verifier redirect_uri =
     bind_exc (require_doc c) (\<lambda>doc.
     bind_exc (oe_http_post env (od_token_endpoint doc)
        [(u ''grant_type'', u ''authorization_code''), (u ''code'', code), (u ''redirect_uri'', redirect_uri),
         (u ''client_id'', go_client_id c), (u ''client_secret'', go_client_secret c), (u ''code_verifier'', code_verifier)])
       (\<lambda>parsed. case parsed of JObj d \<Rightarrow> Inr d | _ \<Rightarrow> Inl ValueError))"

definition provider_authorization_url ::
  "provider \<Rightarrow> pystr \<Rightarrow> pystr \<Rightarrow> pystr \<Rightarrow> pystr \<Rightarrow> exc + pystr" where
  "provider_authorization_url p = (case p of GenericOIDC c \<Rightarrow> generic_authorization_url c | CustomOIDC c \<Rightarrow> co_authorization_url c)"

definition provider_exchange_code ::
  "'k oidc_env \<Rightarrow> provider \<Rightarrow> pystr \<Rightarrow> pystr \<Rightarrow> pystr \<Rightarrow> exc + json dict" where
  "provider_exchange_code env p = (case p of GenericOIDC c \<Rightarrow> generic_exchange_code env c | CustomOIDC c \<Rightarrow> co_exchange_code c)"

subsection \<open>Configuration and the id token\<close>

record oidc_bff_config =
  ob_oidc :: provider
  ob_first_party_secret :: pystr
  ob_token_issuer :: pystr
  ob_token_audience :: pystr
  ob_access_token_ttl_seconds :: int
  ob_public_base_url :: pystr
  ob_callback_path :: pystr
  ob_scope :: pystr
  ob_streamlit_redirect_path :: pystr
  ob_id_token_audience :: pystr
  ob_id_token_leeway_seconds :: int
  ob_allow_unverified :: bool

definition subject_of_claims :: "json dict \<Rightarrow> exc + pystr" where
  "subject_of_claims payload =
     (case map_of payload (u ''sub'') of
        Some (JStr s) \<Rightarrow> if s \<noteq> [] then Inr s else Inl (HTTPException 502 (u ''id_token missing sub''))
      | _ \<Rightarrow> Inl (HTTPException 502 (u ''id_token missing sub'')))"

definition id_token_algorithms :: "pystr list" where
  "id_token_algorithms = map u [''RS256'', ''ES256'', ''ES384'', ''ES512'']"

definition verify_id_token_jwks ::
  "'k jwt_lib \<Rightarrow> pystr \<Rightarrow> pystr \<Rightarrow> pystr \<Rightarrow> pystr \<Rightarrow> int \<Rightarrow> exc + pystr" where
  "verify_id_token_jwks L id_token issuer jwks_uri audience leeway =
     (if \<not> jl_installed L then Inl RuntimeError
      else (case (case jl_signing_key L jwks_uri id_token of
                Inl e \<Rightarrow> Inl e
              | Inr key \<Rightarrow> jl_decode L id_token (SigningKey key) id_token_algorithms (AudStr audience) issuer leeway) of
          Inl (OtherJwtError e) \<Rightarrow> Inl e
        | Inl _ \<Rightarrow> Inl (HTTPException 502 (u ''Invalid id_token''))
        | Inr payload \<Rightarrow> subject_of_claims payload))"

definition subject_parse_only :: "'k oidc_env \<Rightarrow> pystr \<Rightarrow> exc + pystr" where
  "subject_parse_only env id_token =
     (let parts = split_chr 46 id_token
      in if length parts \<noteq> 3 then Inl (HTTPException 502 (u ''Invalid id_token''))
         else (let p = parts ! 1; padded = p @ replicate ((4 - length p mod 4) mod 4) 61
               in case oe_b64_json env padded of
                    Inl _ \<Rightarrow> Inl (HTTPException 502 (u ''Invalid id_token''))
                  | Inr (JObj payload) \<Rightarrow> subject_of_claims payload
                  | Inr _ \<Rightarrow> Inl AttributeError))"

definition resolve_id_token_sub :: "'k oidc_env \<Rightarrow> oidc_bff_config \<Rightarrow> pystr \<Rightarrow> exc + pystr" where
  "resolve_id_token_sub env config id_token =
     (case ob_oidc config of
        GenericOIDC c \<Rightarrow> bind_exc (require_doc c) (\<lambda>doc.
          let aud = or_str (strip (ob_id_token_audience config)) (go_client_id c)
          in verify_id_token_jwks (oe_lib env) id_token (rstrip_slash (client_issuer c)) (od_jwks_uri doc) aud
               (ob_id_token_leeway_seconds config))
      | CustomOIDC _ \<Rightarrow>
          if \<not> ob_allow_unverified config then Inl (HTTPException 500 (u ''Custom OIDCProvider requires JWKS validation''))
          else subject_parse_only env id_token)"

definition with_query :: "pystr \<Rightarrow> pystr \<Rightarrow> (pystr \<times> pystr) list \<Rightarrow> exc + pystr" where
  "with_query base path query =
     (let full = rstrip_slash base @ lead_slash path
      in bind_exc (urlparse full) (\<lambda>parsed. bind_exc (urlencode query) (\<lambda>q.
           if u_scheme parsed \<noteq> [] \<and> u_netloc parsed \<noteq> [] then Inr (urlunparse (parsed\<lparr>u_query := q\<rparr>))
           else Inr (full @ u ''?'' @ q))))"

subsection \<open>The routes\<close>

datatype bff_event =
    Login pystr pystr pystr real
  | Callback pystr pystr pystr real real int pystr
  | Exchange pystr real

text \<open>\<open>Login base verifier state now\<close>, \<open>Callback base code state now now' iat otc\<close> with the two
  clock readings, the issuing time and the code that will be minted, \<open>Exchange code now\<close>.\<close>

datatype bff_response = Redirect pystr | TokenJson pystr | Failed exc

definition redirect_uri :: "oidc_bff_config \<Rightarrow> pystr \<Rightarrow> pystr" where
  "redirect_uri config base_url =
     rstrip_slash (or_str (ob_public_base_url config) base_url) @ lead_slash (ob_callback_path config)"

definition as_response :: "exc + bff_response \<Rightarrow> bff_response" where
  "as_response r = (case r of Inl e \<Rightarrow> Failed e | Inr x \<Rightarrow> x)"

definition login_route ::
  "'st token_store_ops \<Rightarrow> 'k oidc_env \<Rightarrow> oidc_bff_config \<Rightarrow> pystr \<Rightarrow> pystr \<Rightarrow> pystr \<Rightarrow> real \<Rightarrow> 'st \<Rightarrow>
     bff_response \<times> 'st" where
  "login_route ops env config base verifier state now s =
     (let s' = ts_save_pkce ops state verifier now s
      in (as_response (bind_exc (provider_authorization_url (ob_oidc config) (redirect_uri config base) state
            (oe_challenge env verifier) (ob_scope config)) (\<lambda>url. Inr (Redirect url))), s'))"

definition callback_token :: "'k oidc_env \<Rightarrow> oidc_bff_config \<Rightarrow> pystr \<Rightarrow> pystr \<Rightarrow> pystr \<Rightarrow> int \<Rightarrow> exc + pystr" where
  "callback_token env config base code verifier iat =
     bind_exc (provider_exchange_code env (ob_oidc config) code verifier (redirect_uri config base)) (\<lambda>tokens.
       case map_of tokens (u ''id_token'') of
         Some (JStr id_token) \<Rightarrow>
           if id_token = [] then Inl (HTTPException 502 (u ''IdP response missing id_token''))
           else bind_exc (resolve_id_token_sub env config id_token) (\<lambda>sub.
             issue_hs256_access_token (oe_lib env) sub (ob_token_issuer config) (AudStr (ob_token_audience config))
               (ob_first_party_secret config) (ob_access_token_ttl_seconds config) iat [])
       | _ \<Rightarrow> Inl (HTTPException 502 (u ''IdP response missing id_token'')))"

definition callback_route ::
  "'st token_store_ops \<Rightarrow> 'k oidc_env \<Rightarrow> oidc_bff_config \<Rightarrow> pystr \<Rightarrow> pystr \<Rightarrow> pystr \<Rightarrow> real \<Rightarrow> real \<Rightarrow> int \<Rightarrow>
     pystr \<Rightarrow> 'st \<Rightarrow> bff_response \<times> 'st" where
  "callback_route ops env config base code state now now' iat otc s =
     (if code = [] \<or> state = [] then (Failed (HTTPException 400 (u ''Missing code or state'')), s)
      else (case ts_pop_pkce ops state now s of
          (None, s1) \<Rightarrow> (Failed (HTTPException 400 (u ''Invalid or expired state'')), s1)
        | (Some verifier, s1) \<Rightarrow>
            (case callback_token env config base code verifier iat of
               Inl e \<Rightarrow> (Failed e, s1)
             | Inr access \<Rightarrow>
                 (as_response (bind_exc (with_query (rstrip_slash (or_str (ob_public_base_url config) base))
                     (ob_streamlit_redirect_path config) [(u ''auth_code'', otc)]) (\<lambda>dest. Inr (Redirect dest))),
                  ts_save_exchange ops otc access now' s1))))"

definition exchange_route :: "'st token_store_ops \<Rightarrow> pystr \<Rightarrow> real \<Rightarrow> 'st \<Rightarrow> bff_response \<times> 'st" where
  "exchange_route ops code now s =
     (if length code < 8 then (Failed ValidationError, s)
      else (case ts_pop_exchange ops code now s of
          (None, s') \<Rightarrow> (Failed (HTTPException 401 (u ''Invalid or expired auth code'')), s')
        | (Some token, s') \<Rightarrow> (TokenJson token, s')))"

fun bff_step :: "'st token_store_ops \<Rightarrow> 'k oidc_env \<Rightarrow> oidc_bff_config \<Rightarrow> bff_event \<Rightarrow> 'st \<Rightarrow> bff_response \<times> 'st" where
  "bff_step ops env config (Login base verifier state now) s = login_route ops env config base verifier state now s"
| "bff_step ops env config (Callback base code state now now' iat otc) s =
     callback_route ops env config base code state now now' iat otc s"
| "bff_step ops env config (Exchange code now) s = exchange_route ops code now s"

fun bff_run :: "'st token_store_ops \<Rightarrow> 'k oidc_env \<Rightarrow> oidc_bff_config \<Rightarrow> bff_event list \<Rightarrow> 'st \<Rightarrow>
    (bff_event \<times> bff_response) list" where
  "bff_run ops env config [] s = []"
| "bff_run ops env config (e # es) s =
     (let (r, s') = bff_step ops env config e s in (e, r) # bff_run ops env config es s')"

subsection \<open>What a token store promises\<close>

definition available :: "(pystr \<Rightarrow> real \<Rightarrow> 'st \<Rightarrow> pystr option \<times> 'st) \<Rightarrow> pystr \<Rightarrow> 'st \<Rightarrow> bool" where
  "available pop k s \<longleftrightarrow> (\<exists>t. fst (pop k t s) \<noteq> None)"

locale one_time_entries =
  fixes save :: "pystr \<Rightarrow> pystr \<Rightarrow> real \<Rightarrow> 'st \<Rightarrow> 'st"
    and pop :: "pystr \<Rightarrow> real \<Rightarrow> 'st \<Rightarrow> pystr option \<times> 'st"
    and ttl :: "'st \<Rightarrow> real"
  assumes pop_once: "\<not> available pop k (snd (pop k t s))"
    and pop_frame: "available pop k (snd (pop k' t s)) \<Longrightarrow> available pop k s"
    and save_available: "available pop k (save k' v t s) \<Longrightarrow> k = k' \<or> available pop k s"
    and pop_after_save: "t \<le> t' \<Longrightarrow> t' - t \<le> ttl s \<Longrightarrow> fst (pop k t' (save k v t s)) = Some v"

locale token_store =
  pkce: one_time_entries "ts_save_pkce ops" "ts_pop_pkce ops" state_ttl +
  exch: one_time_entries "ts_save_exchange ops" "ts_pop_exchange ops" otc_ttl
  for ops :: "'st token_store_ops" and state_ttl and otc_ttl +
  assumes pkce_frame: "available (ts_pop_exchange ops) k (ts_save_pkce ops st v t s) \<Longrightarrow> available (ts_pop_exchange ops) k s"
      "available (ts_pop_exchange ops) k (snd (ts_pop_pkce ops st t s)) \<Longrightarrow> available (ts_pop_exchange ops) k s"
    and exch_frame: "available (ts_pop_pkce ops) k (ts_save_exchange ops c v t s) \<Longrightarrow> available (ts_pop_pkce ops) k s"
      "available (ts_pop_pkce ops) k (snd (ts_pop_exchange ops c t s)) \<Longrightarrow> available (ts_pop_pkce ops) k s"

definition redeemed :: "pystr \<Rightarrow> (bff_event \<times> bff_response) list \<Rightarrow> nat" where
  "redeemed c run = length (filter (\<lambda>er. case er of (Exchange c' _, TokenJson _) \<Rightarrow> c' = c | _ \<Rightarrow> False) run)"

definition minted :: "pystr \<Rightarrow> bff_event list \<Rightarrow> nat" where
  "minted c es = length (filter (\<lambda>e. case e of Callback _ _ _ _ _ _ otc \<Rightarrow> otc = c | _ \<Rightarrow> False) es)"

definition logged_in :: "pystr \<Rightarrow> (bff_event \<times> bff_response) list \<Rightarrow> nat" where
  "logged_in st run = length (filter (\<lambda>er. case er of (Callback _ _ st' _ _ _ _, Redirect _) \<Rightarrow> st' = st | _ \<Rightarrow> False) run)"

definition started :: "pystr \<Rightarrow> bff_event list \<Rightarrow> nat" where
  "started st es = length (filter (\<lambda>e. case e of Login _ _ st' _ \<Rightarrow> st' = st | _ \<Rightarrow> False) es)"

context token_store
begin

lemma pop_frames:
  "ts_pop_pkce ops st t s = (x, s') \<Longrightarrow> available (ts_pop_exchange ops) c s' \<Longrightarrow> available (ts_pop_exchange ops) c s"
  "ts_pop_exchange ops c' t s = (x, s') \<Longrightarrow> available (ts_pop_exchange ops) c s' \<Longrightarrow> available (ts_pop_exchange ops) c s"
  "ts_pop_pkce ops st' t s = (x, s') \<Longrightarrow> available (ts_pop_pkce ops) st s' \<Longrightarrow> available (ts_pop_pkce ops) st s"
  "ts_pop_exchange ops c' t s = (x, s') \<Longrightarrow> available (ts_pop_pkce ops) st s' \<Longrightarrow> available (ts_pop_pkce ops) st s"
  using pkce_frame(2) exch.pop_frame pkce.pop_frame exch_frame(2) by (metis snd_conv)+

lemma step_exchange_available:
  assumes "bff_step ops env config e s = (r, s')" and "available (ts_pop_exchange ops) c s'"
  shows "available (ts_pop_exchange ops) c s \<or> (\<exists>b code st t t' i. e = Callback b code st t t' i c)"
  using assms
  by (cases e)
    (auto simp: login_route_def callback_route_def exchange_route_def Let_def
      dest: pkce_frame(1) exch.save_available pop_frames(1,2)
      split: option.splits sum.splits prod.splits if_splits)

lemma redeemed_bound:
  "redeemed c (bff_run ops env config es s) \<le> minted c es + (if available (ts_pop_exchange ops) c s then 1 else 0)"
proof (induction es arbitrary: s)
  case Nil
  then show ?case by (simp add: redeemed_def)
next
  case (Cons e es)
  obtain r s' where step: "bff_step ops env config e s = (r, s')" by fastforce
  have IH: "redeemed c (bff_run ops env config es s') \<le> minted c es + (if available (ts_pop_exchange ops) c s' then 1 else 0)"
    by (rule Cons.IH)
  show ?case
  proof (cases "\<exists>t v. e = Exchange c t \<and> r = TokenJson v")
    case True
    then obtain t v where e: "e = Exchange c t" "r = TokenJson v" by blast
    with step have "fst (ts_pop_exchange ops c t s) = Some v" "s' = snd (ts_pop_exchange ops c t s)"
      by (auto simp: exchange_route_def split: if_splits option.splits prod.splits)
    then have "available (ts_pop_exchange ops) c s" "\<not> available (ts_pop_exchange ops) c s'"
      using exch.pop_once by (auto simp: available_def)
    with IH e step show ?thesis by (simp add: redeemed_def minted_def)
  next
    case False
    then have "redeemed c ((e, r) # rs) = redeemed c rs" for rs
      by (auto simp: redeemed_def split: bff_event.splits bff_response.splits)
    moreover have "minted c (e # es) + (if available (ts_pop_exchange ops) c s then 1 else 0)
        \<ge> minted c es + (if available (ts_pop_exchange ops) c s' then 1 else 0)"
      using step_exchange_available [OF step, of c] by (auto simp: minted_def)
    ultimately show ?thesis using IH step by simp
  qed
qed

lemma step_pkce_available:
  assumes "bff_step ops env config e s = (r, s')" and "available (ts_pop_pkce ops) st s'"
  shows "available (ts_pop_pkce ops) st s \<or> (\<exists>b v t. e = Login b v st t)"
  using assms
  by (cases e)
    (auto simp: login_route_def callback_route_def exchange_route_def Let_def
      dest: pkce.save_available exch_frame(1) pop_frames(3,4)
      split: option.splits sum.splits prod.splits if_splits)

lemma logged_in_bound:
  "logged_in st (bff_run ops env config es s) \<le> started st es + (if available (ts_pop_pkce ops) st s then 1 else 0)"
proof (induction es arbitrary: s)
  case Nil
  then show ?case by (simp add: logged_in_def)
next
  case (Cons e es)
  obtain r s' where step: "bff_step ops env config e s = (r, s')" by fastforce
  have IH: "logged_in st (bff_run ops env config es s') \<le> started st es + (if available (ts_pop_pkce ops) st s' then 1 else 0)"
    by (rule Cons.IH)
  show ?case
  proof (cases "\<exists>b code t t' i otc u. e = Callback b code st t t' i otc \<and> r = Redirect u")
    case True
    then obtain b code t t' i otc w where e: "e = Callback b code st t t' i otc" "r = Redirect w" by blast
    with step obtain v s1 where pop: "ts_pop_pkce ops st t s = (Some v, s1)" "\<exists>tok. s' = ts_save_exchange ops otc tok t' s1"
      by (auto simp: callback_route_def split: if_splits option.splits prod.splits sum.splits)
    have "available (ts_pop_pkce ops) st s"
      using pop(1) unfolding available_def by (metis fst_conv option.distinct(1))
    moreover have "\<not> available (ts_pop_pkce ops) st s1" using pkce.pop_once pop(1) by (metis snd_conv)
    then have "\<not> available (ts_pop_pkce ops) st s'" using pop(2) exch_frame(1) by blast
    ultimately show ?thesis using IH e step by (simp add: logged_in_def started_def)
  next
    case False
    then have "logged_in st ((e, r) # rs) = logged_in st rs" for rs
      by (auto simp: logged_in_def split: bff_event.splits bff_response.splits)
    moreover have "started st (e # es) + (if available (ts_pop_pkce ops) st s then 1 else 0)
        \<ge> started st es + (if available (ts_pop_pkce ops) st s' then 1 else 0)"
      using step_pkce_available [OF step, of st] by (auto simp: started_def)
    ultimately show ?thesis using IH step by simp
  qed
qed

lemma exchange_after_callback:
  assumes "callback_route ops env config base code state now now' iat otc s = (Redirect dest, s')"
    and "8 \<le> length otc" and "now' \<le> t" and "t - now' \<le> otc_ttl (snd (ts_pop_pkce ops state now s))"
  shows "\<exists>verifier token. fst (ts_pop_pkce ops state now s) = Some verifier
     \<and> callback_token env config base code verifier iat = Inr token
     \<and> fst (exchange_route ops otc t s') = TokenJson token"
proof -
  obtain v s1 token where c: "ts_pop_pkce ops state now s = (Some v, s1)" "callback_token env config base code v iat = Inr token"
    "s' = ts_save_exchange ops otc token now' s1"
    using assms(1) by (auto simp: callback_route_def split: if_splits option.splits prod.splits sum.splits)
  have "fst (ts_pop_exchange ops otc t s') = Some token"
    using exch.pop_after_save [OF assms(3), where k = otc and v = token and s = s1] assms(4) c by simp
  then show ?thesis
    using c assms(2) by (auto simp: exchange_route_def split: option.splits prod.splits)
qed

end

subsection \<open>The in-memory store keeps the promise\<close>

lemma purge_expired_keys: "fst ` set (purge_expired ttl now d) \<subseteq> fst ` set d"
  by (auto simp: purge_expired_def)

lemma purge_expired_present:
  assumes "k \<in> fst ` set d"
  shows "\<exists>t. map_of (purge_expired ttl t d) k \<noteq> None"
proof -
  obtain v t0 where e: "(k, (v, t0)) \<in> set d" using assms by force
  then have "(k, (v, t0)) \<in> set (purge_expired ttl (t0 + ttl) d)" by (simp add: purge_expired_def)
  then have "k \<in> fst ` set (purge_expired ttl (t0 + ttl) d)" by force
  then have "map_of (purge_expired ttl (t0 + ttl) d) k \<noteq> None" by (simp add: map_of_eq_None_iff)
  then show ?thesis by blast
qed

lemma available_pkce [simp]: "available pop_pkce_verifier k s \<longleftrightarrow> k \<in> fst ` set (om_pkce s)"
proof
  show "available pop_pkce_verifier k s \<Longrightarrow> k \<in> fst ` set (om_pkce s)"
    by (force simp: available_def pop_pkce_verifier_def purge_expired_def Let_def dest: map_of_SomeD)
  show "k \<in> fst ` set (om_pkce s) \<Longrightarrow> available pop_pkce_verifier k s"
    using purge_expired_present [of k "om_pkce s" "om_state_ttl s"]
    by (simp add: available_def pop_pkce_verifier_def Let_def)
qed

lemma available_exchange [simp]: "available pop_exchange_token k s \<longleftrightarrow> k \<in> fst ` set (om_exchange s)"
proof
  show "available pop_exchange_token k s \<Longrightarrow> k \<in> fst ` set (om_exchange s)"
    by (force simp: available_def pop_exchange_token_def purge_expired_def Let_def dest: map_of_SomeD)
  show "k \<in> fst ` set (om_exchange s) \<Longrightarrow> available pop_exchange_token k s"
    using purge_expired_present [of k "om_exchange s" "om_otc_ttl s"]
    by (simp add: available_def pop_exchange_token_def Let_def)
qed

lemma delete_keys_gone: "k \<notin> fst ` set (AList.delete k d)"
  by (auto simp: AList.delete_eq)

lemma delete_purge_keys: "k \<in> fst ` set (AList.delete k' (purge_expired ttl t d)) \<Longrightarrow> k \<in> fst ` set d"
  by (auto simp: AList.delete_eq purge_expired_def)

lemma update_purge_keys: "k \<in> fst ` set (AList.update k' v (purge_expired ttl t d)) \<Longrightarrow> k = k' \<or> k \<in> fst ` set d"
  using purge_expired_keys [of ttl t d] by (auto simp: dom_update)

lemma map_of_purge_update:
  "t' - t \<le> ttl \<Longrightarrow> map_of (purge_expired ttl t' (AList.update k (v, t) d)) k = Some (v, t)"
  by (induction d) (auto simp: purge_expired_def)

lemmas oidc_memory_defs = save_pkce_verifier_def pop_pkce_verifier_def save_exchange_token_def pop_exchange_token_def Let_def

lemma oidc_memory_upd:
  "om_pkce (s\<lparr>om_pkce := d\<rparr>) = d" "om_exchange (s\<lparr>om_exchange := d\<rparr>) = d"
  "om_state_ttl (s\<lparr>om_pkce := d\<rparr>) = om_state_ttl s" "om_otc_ttl (s\<lparr>om_exchange := d\<rparr>) = om_otc_ttl s"
  by simp_all

lemma pkce_entries:
  "\<not> available pop_pkce_verifier k (snd (pop_pkce_verifier k t s))"
  "available pop_pkce_verifier k (snd (pop_pkce_verifier k' t s)) \<Longrightarrow> available pop_pkce_verifier k s"
  "available pop_pkce_verifier k (save_pkce_verifier k' v t s) \<Longrightarrow> k = k' \<or> available pop_pkce_verifier k s"
  "t' - t \<le> om_state_ttl s \<Longrightarrow> fst (pop_pkce_verifier k t' (save_pkce_verifier k v t s)) = Some v"
  unfolding available_pkce oidc_memory_defs snd_conv fst_conv oidc_memory_upd
     apply (simp add: delete_keys_gone)
    apply (erule delete_purge_keys)
   apply (erule update_purge_keys)
  apply (simp add: map_of_purge_update)
  done

lemma exchange_entries:
  "\<not> available pop_exchange_token k (snd (pop_exchange_token k t s))"
  "available pop_exchange_token k (snd (pop_exchange_token k' t s)) \<Longrightarrow> available pop_exchange_token k s"
  "available pop_exchange_token k (save_exchange_token k' v t s) \<Longrightarrow> k = k' \<or> available pop_exchange_token k s"
  "t' - t \<le> om_otc_ttl s \<Longrightarrow> fst (pop_exchange_token k t' (save_exchange_token k v t s)) = Some v"
  unfolding available_exchange oidc_memory_defs snd_conv fst_conv oidc_memory_upd
     apply (simp add: delete_keys_gone)
    apply (erule delete_purge_keys)
   apply (erule update_purge_keys)
  apply (simp add: map_of_purge_update)
  done

lemma store_frames:
  "available pop_exchange_token k (save_pkce_verifier st v t s) = available pop_exchange_token k s"
  "available pop_exchange_token k (snd (pop_pkce_verifier st t s)) = available pop_exchange_token k s"
  "available pop_pkce_verifier k (save_exchange_token c v t s) = available pop_pkce_verifier k s"
  "available pop_pkce_verifier k (snd (pop_exchange_token c t s)) = available pop_pkce_verifier k s"
  unfolding available_exchange available_pkce by (simp_all add: oidc_memory_defs)

lemma oidc_memory_ops_sel [simp]:
  "ts_save_pkce oidc_memory_ops = save_pkce_verifier" "ts_pop_pkce oidc_memory_ops = pop_pkce_verifier"
  "ts_save_exchange oidc_memory_ops = save_exchange_token" "ts_pop_exchange oidc_memory_ops = pop_exchange_token"
  by (simp_all add: oidc_memory_ops_def)

interpretation bff_memory: token_store oidc_memory_ops om_state_ttl om_otc_ttl
  by (unfold_locales; unfold oidc_memory_ops_sel store_frames)
    (rule pkce_entries exchange_entries, assumption?; assumption)+


subsection \<open>Properties\<close>

lemma new_oidc_memory_empty:
  "\<not> available (ts_pop_exchange oidc_memory_ops) c (new_oidc_memory a b)"
  "\<not> available (ts_pop_pkce oidc_memory_ops) st (new_oidc_memory a b)"
  by (simp_all add: new_oidc_memory_def)

text \<open>C8: For every sequence of logins, callbacks and exchanges on the in-memory store, each authorization
  code is turned into a token at most as often as a callback minted it (so once, its codes being random),
  and each \<open>state\<close> lets at most as many callbacks succeed as logins were started with it: replaying a
  code or a callback yields nothing.\<close>

theorem one_time_codes:
  "redeemed c (bff_run oidc_memory_ops env config es (new_oidc_memory a b)) \<le> minted c es \<and>
   logged_in st (bff_run oidc_memory_ops env config es (new_oidc_memory a b)) \<le> started st es"
  using bff_memory.redeemed_bound [of c env config es "new_oidc_memory a b"]
    bff_memory.logged_in_bound [of st env config es "new_oidc_memory a b"]
  by (simp only: new_oidc_memory_empty if_False add_0_right simp_thms)

lemma map_of_purge_expired_update:
  assumes "dict_ok d" and "\<not> t' - t \<le> ttl"
  shows "map_of (purge_expired ttl t' (AList.update k (v, t) (purge_expired ttl0 t0 d))) k = None"
proof -
  have "distinct (map fst (AList.update k (v, t) (purge_expired ttl0 t0 d)))"
    using assms(1) by (intro distinct_update) (simp add: dict_ok_def purge_expired_def distinct_map_filter)
  moreover have "(k, (v, t)) \<in> set (AList.update k (v, t) (purge_expired ttl0 t0 d))"
    by (rule map_of_SomeD) (simp add: update_conv')
  ultimately have "w = (v, t)" if "(k, w) \<in> set (AList.update k (v, t) (purge_expired ttl0 t0 d))" for w
    using that by (metis eq_key_imp_eq_value)
  then show ?thesis
    using assms(2) by (force simp: map_of_eq_None_iff purge_expired_def)
qed

lemma exchange_route_after_save:
  assumes "8 \<le> length otc" and "dict_ok (om_exchange s)"
  shows "fst (exchange_route oidc_memory_ops otc t (save_exchange_token otc token now s)) =
     (if t - now \<le> om_otc_ttl s then TokenJson token else Failed (HTTPException 401 (u ''Invalid or expired auth code'')))"
proof (cases "t - now \<le> om_otc_ttl s")
  case True
  then show ?thesis
    using assms(1) exchange_entries(4) [OF True, of otc token]
    by (auto simp: exchange_route_def split: option.splits prod.splits)
next
  case False
  then have "fst (pop_exchange_token otc t (save_exchange_token otc token now s)) = None"
    using map_of_purge_expired_update [OF assms(2) False] by (simp add: oidc_memory_defs)
  then show ?thesis using assms(1) False by (auto simp: exchange_route_def split: option.splits prod.splits)
qed

lemma minted_code_lemma:
  assumes "callback_route oidc_memory_ops env config base code state now now' iat otc s = (Redirect dest, s')"
    and "8 \<le> length otc" and "dict_ok (om_exchange s)"
  shows "\<exists>verifier token. fst (pop_pkce_verifier state now s) = Some verifier
     \<and> callback_token env config base code verifier iat = Inr token
     \<and> fst (exchange_route oidc_memory_ops otc t s') =
         (if t - now' \<le> om_otc_ttl s then TokenJson token
          else Failed (HTTPException 401 (u ''Invalid or expired auth code'')))"
proof -
  obtain v s1 token where c: "pop_pkce_verifier state now s = (Some v, s1)" "callback_token env config base code v iat = Inr token"
    "s' = save_exchange_token otc token now' s1"
    using assms(1) by (auto simp: callback_route_def split: if_splits option.splits prod.splits sum.splits)
  then have "om_exchange s1 = om_exchange s" "om_otc_ttl s1 = om_otc_ttl s"
    by (auto simp: pop_pkce_verifier_def Let_def)
  then show ?thesis
    using c exchange_route_after_save [OF assms(2), of s1 t token now'] assms(3) by simp
qed

text \<open>After a callback that redirected the browser, the code it minted is worth the first-party token
  issued for that login, up to the store's time to live, and a 401 afterwards; the callback itself
  succeeded only because its \<open>state\<close> still held a verifier and the provider's answer yielded a token.\<close>

theorem minted_code_worth_its_token:
  assumes "callback_route oidc_memory_ops env config base code state now now' iat otc s = (Redirect dest, s')"
    and "8 \<le> length otc" and "dict_ok (om_exchange s)"
  shows "\<exists>verifier token. fst (pop_pkce_verifier state now s) = Some verifier
     \<and> callback_token env config base code verifier iat = Inr token
     \<and> fst (exchange_route oidc_memory_ops otc t s') =
         (if t - now' \<le> om_otc_ttl s then TokenJson token
          else Failed (HTTPException 401 (u ''Invalid or expired auth code'')))"
  using assms by (rule minted_code_lemma)

definition sample_custom :: custom_provider where
  "sample_custom = \<lparr>co_authorization_url = (\<lambda>_ _ _ _. Inr (u ''https://idp/'')),
     co_exchange_code = (\<lambda>_ _ _. Inr [(u ''id_token'', JStr (u ''h.p.s''))])\<rparr>"

definition sample_oidc_env :: "unit oidc_env" where
  "sample_oidc_env = \<lparr>oe_lib = sample_lib, oe_challenge = (\<lambda>v. v), oe_http_post = (\<lambda>_ _. Inl ValueError),
     oe_http_get = (\<lambda>_. Inl ValueError), oe_b64_json = (\<lambda>_. Inr (JObj [(u ''sub'', JStr (u ''ada''))]))\<rparr>"

definition sample_bff :: oidc_bff_config where
  "sample_bff = \<lparr>ob_oidc = CustomOIDC sample_custom, ob_first_party_secret = u ''k'', ob_token_issuer = u ''me'',
     ob_token_audience = u ''app'', ob_access_token_ttl_seconds = 3600, ob_public_base_url = u ''http://h'',
     ob_callback_path = u ''/cb'', ob_scope = [], ob_streamlit_redirect_path = u ''/'', ob_id_token_audience = [],
     ob_id_token_leeway_seconds = 0, ob_allow_unverified = True\<rparr>"

lemma sample_callback:
  "callback_route oidc_memory_ops sample_oidc_env sample_bff [] (u ''c'') (u ''s'') 1 1 0 (u ''12345678'')
     (save_pkce_verifier (u ''s'') (u ''v'') 0 (new_oidc_memory 600 120))
   = (Redirect (u ''http://h/?auth_code=12345678''),
      save_exchange_token (u ''12345678'') (u ''good'') 1 (new_oidc_memory 600 120))"
proof -
  have q: "with_query (u ''http://h'') (u ''/'') [(u ''auth_code'', u ''12345678'')] = Inr (u ''http://h/?auth_code=12345678'')"
    by (simp add: with_query_def url_evals urlencode_def is_surrogate_def quote_plus_def quote_plus_cp_def unreserved_cp_def
      pystr_eval pystr_run)
  have b: "split_chr 46 (u ''h.p.s'') = [u ''h'', u ''p'', u ''s'']" by (simp add: pystr_eval split_chr.simps)
  have r: "rstrip_slash (u ''http://h'') = u ''http://h''" by (simp add: pystr_eval)
  have b4: "u ''c'' \<noteq> []" "u ''s'' \<noteq> []" "u ''ada'' \<noteq> []" "u ''http://h'' \<noteq> []" "u ''h.p.s'' \<noteq> []" by (simp_all add: u_def)
  show ?thesis
    by (simp add: callback_route_def oidc_memory_defs new_oidc_memory_def purge_expired_def callback_token_def
      provider_exchange_code_def sample_bff_def sample_custom_def sample_oidc_env_def resolve_id_token_sub_def subject_parse_only_def b
      subject_of_claims_def issue_hs256_access_token_def sample_lib_def as_response_def q r or_str_def b4)
qed

theorem minted_code_worth_its_token_witness:
  "fst (exchange_route oidc_memory_ops (u ''12345678'') 122
     (save_exchange_token (u ''12345678'') (u ''good'') 1 (new_oidc_memory 600 120)))
   = Failed (HTTPException 401 (u ''Invalid or expired auth code''))"
  using minted_code_worth_its_token [OF sample_callback, of 122]
  by (simp add: save_pkce_verifier_def new_oidc_memory_def dict_ok_def u_def) blast


definition idp_lib :: "unit jwt_lib" where
  "idp_lib = \<lparr>jl_installed = True, jl_signing_key = (\<lambda>_ _. Inr ()),
     jl_decode = (\<lambda>tok key algs aud iss _.
        if tok = u ''id'' \<and> key = SigningKey () \<and> u ''RS256'' \<in> set algs \<and> aud = AudStr (u ''cid'')
        then Inr [(u ''iss'', JStr iss), (u ''aud'', JStr (u ''cid'')), (u ''exp'', JInt 9), (u ''sub'', JStr (u ''ada''))]
        else Inl InvalidToken),
     jl_encode = (\<lambda>_ _. []), jl_claims = Inr\<rparr>"

definition sample_generic :: generic_client where
  "sample_generic = \<lparr>go_issuer = u ''https://idp/'', go_client_id = u ''cid'', go_client_secret = [],
     go_doc = Some \<lparr>od_issuer = u ''https://idp/'', od_authorization_endpoint = [], od_token_endpoint = [], od_jwks_uri = []\<rparr>\<rparr>"


end
