(* ===== verification/Page_DI.thy ===== *)
theory Page_DI
  imports Url_Session
begin

section \<open>Page handlers: signatures, injection and the call\<close>

text \<open>
  Models \<open>pages/di.py\<close>, \<open>pages/signature.py\<close>, \<open>pages/flags.py\<close>, \<open>pages/apply_meta.py\<close>,
  \<open>pages/meta.py\<close>, \<open>streamlit/page_config.py\<close> and \<open>streamlit/page_runner.py\<close>. A handler is what
  \<open>inspect\<close> and \<open>get_type_hints\<close> report of it: the parameters with kind, resolved annotation and
  default. An annotation is the class it names (or a subclass of it), with the \<open>Annotated\<close> markers.
  Dependencies are identified by a value of type \<open>'d\<close>; what a call of one yields may depend on the calls
  made before, and every call is recorded, so that the model shows which dependencies ran and how often.
  The user's handler body and pydantic's validation of a returned dict are arguments.
\<close>

subsection \<open>Signatures\<close>

datatype base_type =
    SettingsClass | PublicUrlsClass | FluxLitClass | ApiClientClass | SessionStoreClass | FeatureFlagsClass
  | AnyType | NoAnnotation | OtherClass pystr | NotAClass pystr

datatype 'd marker = DependsOn "'d option" bool | HeaderNamed pystr | CookieNamed pystr | OtherMarker

datatype 'd annotation = Bare base_type | Annotated base_type "'d marker list"

datatype param_kind = PositionalOnly | PositionalOrKeyword | VarPositional | KeywordOnly | VarKeyword

datatype 'd pdefault = NoDefault | DefaultDepends "'d option" bool | OtherDefault

record 'd param =
  pa_name :: pystr
  pa_kind :: param_kind
  pa_ann :: "'d annotation"
  pa_default :: "'d pdefault"

record 'd handler =
  ph_name :: "pystr option"
  ph_doc :: "pystr option"
  ph_hints :: "exc option"
  ph_params :: "'d param list"

definition header_marker :: "pystr \<Rightarrow> 'd marker" where
  "header_marker name = HeaderNamed (lower name)"

definition cookie_marker :: "pystr \<Rightarrow> 'd marker" where
  "cookie_marker name = CookieNamed (lower name)"

fun strip_annotated :: "'d annotation \<Rightarrow> base_type" where
  "strip_annotated (Bare b) = b"
| "strip_annotated (Annotated b ms) = b"

fun markers :: "'d annotation \<Rightarrow> 'd marker list" where
  "markers (Bare b) = []"
| "markers (Annotated b ms) = ms"

fun first_depends :: "'d marker list \<Rightarrow> ('d option \<times> bool) option" where
  "first_depends [] = None"
| "first_depends (DependsOn d c # ms) = Some (d, c)"
| "first_depends (m # ms) = first_depends ms"

fun first_header :: "'d marker list \<Rightarrow> pystr option" where
  "first_header [] = None"
| "first_header (HeaderNamed n # ms) = Some n"
| "first_header (m # ms) = first_header ms"

fun first_cookie :: "'d marker list \<Rightarrow> pystr option" where
  "first_cookie [] = None"
| "first_cookie (CookieNamed n # ms) = Some n"
| "first_cookie (m # ms) = first_cookie ms"

definition unwrap_depends :: "'d param \<Rightarrow> ('d option \<times> bool) option" where
  "unwrap_depends p =
     (case first_depends (markers (pa_ann p)) of
        Some dc \<Rightarrow> Some dc
      | None \<Rightarrow> (case pa_default p of DefaultDepends d c \<Rightarrow> Some (d, c) | _ \<Rightarrow> None))"

definition unwrap_header :: "'d param \<Rightarrow> pystr option" where
  "unwrap_header p = first_header (markers (pa_ann p))"

definition unwrap_cookie :: "'d param \<Rightarrow> pystr option" where
  "unwrap_cookie p = first_cookie (markers (pa_ann p))"

definition depends_with_callable :: "'d param \<Rightarrow> bool" where
  "depends_with_callable p \<longleftrightarrow>
     list_ex (\<lambda>m. case m of DependsOn (Some d) c \<Rightarrow> True | _ \<Rightarrow> False) (markers (pa_ann p)) \<or>
     (case pa_default p of DefaultDepends (Some d) c \<Rightarrow> True | _ \<Rightarrow> False)"

definition has_depends_without_callable :: "'d param \<Rightarrow> bool" where
  "has_depends_without_callable p \<longleftrightarrow>
     (case first_depends (markers (pa_ann p)) of
        Some (d, c) \<Rightarrow> d = None
      | None \<Rightarrow> (case pa_default p of DefaultDepends d c \<Rightarrow> d = None | _ \<Rightarrow> False))"

definition has_header_cookie :: "'d param \<Rightarrow> bool" where
  "has_header_cookie p \<longleftrightarrow>
     list_ex (\<lambda>m. case m of HeaderNamed n \<Rightarrow> True | CookieNamed n \<Rightarrow> True | _ \<Rightarrow> False) (markers (pa_ann p))"

fun is_injectable_type :: "base_type \<Rightarrow> bool" where
  "is_injectable_type SettingsClass = True"
| "is_injectable_type PublicUrlsClass = True"
| "is_injectable_type ApiClientClass = True"
| "is_injectable_type SessionStoreClass = True"
| "is_injectable_type FeatureFlagsClass = True"
| "is_injectable_type FluxLitClass = True"
| "is_injectable_type _ = False"

definition strict_param :: "'d param \<Rightarrow> exc + unit" where
  "strict_param p =
     (if pa_kind p = VarPositional \<or> pa_kind p = VarKeyword then Inl TypeError
      else if has_depends_without_callable p then Inl TypeError
      else if depends_with_callable p then Inr ()
      else if has_header_cookie p then Inr ()
      else if pa_name p = u ''st'' \<or> pa_name p = u ''client'' then Inr ()
      else if pa_ann p = Bare NoAnnotation \<or> strip_annotated (pa_ann p) = AnyType then Inl TypeError
      else if \<not> is_injectable_type (strip_annotated (pa_ann p)) then Inl TypeError
      else Inr ())"

fun strict_params :: "'d param list \<Rightarrow> exc + unit" where
  "strict_params [] = Inr ()"
| "strict_params (p # ps) = bind_exc (strict_param p) (\<lambda>_. strict_params ps)"

definition name_error :: exc where
  "name_error = OtherError (u ''NameError'')"

definition validate_strict_page_signature :: "'d handler \<Rightarrow> exc + unit" where
  "validate_strict_page_signature h =
     (case ph_hints h of
        Some e \<Rightarrow> if e = name_error \<or> e = TypeError then Inl TypeError else Inl e
      | None \<Rightarrow> strict_params (ph_params h))"

subsection \<open>Page metadata\<close>

record page_meta =
  pm_page_title :: "pystr option"
  pm_page_icon :: "pystr option"
  pm_layout :: "pystr option"
  pm_initial_sidebar_state :: "pystr option"
  pm_breadcrumb :: "pystr option"
  pm_order :: "int option"
  pm_description :: "pystr option"
  pm_children :: "json list"

definition empty_meta :: page_meta where
  "empty_meta = \<lparr>pm_page_title = None, pm_page_icon = None, pm_layout = None, pm_initial_sidebar_state = None,
     pm_breadcrumb = None, pm_order = None, pm_description = None, pm_children = []\<rparr>"

definition entry :: "string \<Rightarrow> pystr option \<Rightarrow> json dict" where
  "entry k v = (case v of None \<Rightarrow> [] | Some s \<Rightarrow> [(u k, JStr s)])"

definition page_meta_to_set_page_config_kwargs :: "page_meta \<Rightarrow> json dict" where
  "page_meta_to_set_page_config_kwargs meta =
     entry ''page_title'' (pm_page_title meta) @ entry ''page_icon'' (pm_page_icon meta) @
     entry ''layout'' (pm_layout meta) @ entry ''initial_sidebar_state'' (pm_initial_sidebar_state meta)"

definition json_falsy :: "json \<Rightarrow> bool" where
  "json_falsy v = (case v of JNull \<Rightarrow> True | JBool b \<Rightarrow> \<not> b | JInt i \<Rightarrow> i = 0 | JFloat r \<Rightarrow> r = 0 | JStr s \<Rightarrow> s = []
     | JArr xs \<Rightarrow> xs = [] | JObj d \<Rightarrow> d = [])"

definition build_set_page_config_kwargs :: "pystr \<Rightarrow> json dict \<Rightarrow> json dict" where
  "build_set_page_config_kwargs settings_title raw =
     (u ''page_title'', (case map_of raw (u ''page_title'') of
         Some v \<Rightarrow> if json_falsy v then JStr settings_title else v | None \<Rightarrow> JStr settings_title)) #
     concat (map (\<lambda>k. case map_of raw (u k) of
         None \<Rightarrow> [] | Some v \<Rightarrow> if v = JNull \<or> v = JStr [] then [] else [(u k, v)])
       [''page_icon'', ''layout'', ''initial_sidebar_state'', ''menu_items''])"

datatype page_value = PNone | PMeta page_meta | PDict "json dict" | POther pystr

datatype st_effect = Caption pystr | StError

definition coerce_page_return :: "(json dict \<Rightarrow> page_meta option) \<Rightarrow> page_value \<Rightarrow> page_meta option \<times> st_effect list" where
  "coerce_page_return validate value =
     (case value of PMeta m \<Rightarrow> (Some m, [])
      | PDict d \<Rightarrow> (case validate d of Some m \<Rightarrow> (Some m, []) | None \<Rightarrow> (None, [StError]))
      | _ \<Rightarrow> (None, []))"

definition apply_returned_page_meta :: "page_meta option \<Rightarrow> st_effect list" where
  "apply_returned_page_meta meta =
     (case meta of None \<Rightarrow> [] | Some m \<Rightarrow> (case pm_breadcrumb m of None \<Rightarrow> [] | Some b \<Rightarrow> if b = [] then [] else [Caption b]))"


subsection \<open>Injection\<close>

datatype 'v dep_outcome = Raised exc | Plain 'v | Coroutine "exc + 'v"

record ctx_proxy =
  cx_get :: "(pystr \<Rightarrow> exc + pystr option) option"
  cx_items :: "(exc + (pystr \<times> pystr) list) option"

record ('d, 'v) page_env =
  pe_is_async :: "'d \<Rightarrow> bool"
  pe_call :: "'d \<Rightarrow> 'd list \<Rightarrow> 'v dep_outcome"
  pe_header_ctx :: "pystr dict option"
  pe_cookie_ctx :: "pystr dict option"
  pe_st_headers :: "ctx_proxy option"
  pe_st_cookies :: "ctx_proxy option"
  pe_settings :: fluxlit_settings
  pe_has_store :: bool
  pe_environ :: "pystr dict"
  pe_json_loads :: "pystr \<Rightarrow> exc + json"

datatype 'v injected =
    DepValue 'v | Override json | HeaderValue "pystr option" | TheSt | TheClient | TheSettings | TheUrls | TheApp
  | TheStore | TheFlags bool

definition env_page_overrides :: "(pystr \<Rightarrow> exc + json) \<Rightarrow> pystr dict \<Rightarrow> json dict" where
  "env_page_overrides json_loads env =
     (let raw = strip (opt_str (map_of env (u ''FLUXLIT_TEST_PAGE_OVERRIDES'')))
      in if raw = [] then [] else (case json_loads raw of Inr (JObj d) \<Rightarrow> d | _ \<Rightarrow> []))"

definition dict_union :: "'a dict \<Rightarrow> 'a dict \<Rightarrow> 'a dict" where
  "dict_union a b = fold (\<lambda>(k, v). AList.update k v) b a"

definition opt_dict :: "'a dict option \<Rightarrow> 'a dict" where
  "opt_dict d = (case d of None \<Rightarrow> [] | Some kvs \<Rightarrow> kvs)"

definition find_lower :: "pystr \<Rightarrow> (pystr \<times> pystr) list \<Rightarrow> pystr option" where
  "find_lower name_lc kvs = map_option snd (find (\<lambda>(k, v). lower k = name_lc) kvs)"

definition items_lookup :: "ctx_proxy \<Rightarrow> pystr \<Rightarrow> pystr option" where
  "items_lookup c name_lc = (case cx_items c of Some (Inr kvs) \<Rightarrow> find_lower name_lc kvs | _ \<Rightarrow> None)"

definition header_from_streamlit_context :: "ctx_proxy option \<Rightarrow> pystr \<Rightarrow> pystr option" where
  "header_from_streamlit_context p name_lc =
     (case p of None \<Rightarrow> None
      | Some c \<Rightarrow> (case cx_get c of None \<Rightarrow> None
         | Some g \<Rightarrow> (case g name_lc of Inl e \<Rightarrow> None | Inr (Some v) \<Rightarrow> Some v | Inr None \<Rightarrow> items_lookup c name_lc)))"

definition cookie_from_streamlit_context :: "ctx_proxy option \<Rightarrow> pystr \<Rightarrow> pystr option" where
  "cookie_from_streamlit_context p name_lc =
     (case p of None \<Rightarrow> None
      | Some c \<Rightarrow> (case cx_get c of None \<Rightarrow> items_lookup c name_lc
         | Some g \<Rightarrow> (case g name_lc of Inl e \<Rightarrow> None | Inr (Some v) \<Rightarrow> Some v | Inr None \<Rightarrow> items_lookup c name_lc)))"

text \<open>Running a dependency: a coroutine is awaited (on a fresh event loop, in a thread of its own where one is
  running already) only if the settings allow it.\<close>

definition resolve_depends_callable :: "('d, 'v) page_env \<Rightarrow> 'd \<Rightarrow> 'd list \<Rightarrow> (exc + 'v) \<times> 'd list" where
  "resolve_depends_callable E d calls =
     (let allow_async = fs_async_page_depends (pe_settings E)
      in if pe_is_async E d
         then if \<not> allow_async then (Inl TypeError, calls)
              else (case pe_call E d calls of Coroutine r \<Rightarrow> r | Raised e \<Rightarrow> Inl e | Plain v \<Rightarrow> Inl TypeError, calls @ [d])
         else (case pe_call E d calls of
                 Raised e \<Rightarrow> Inl e
               | Plain v \<Rightarrow> Inr v
               | Coroutine r \<Rightarrow> if \<not> allow_async then Inl TypeError else r, calls @ [d]))"

definition feature_flags :: "('d, 'v) page_env \<Rightarrow> bool" where
  "feature_flags E =
     (let env_flags = truthy_env (pe_environ E) (u ''FLUXLIT_EXPERIMENTAL_YIELD_PAGES'')
      in if fs_experimental_yield_pages (pe_settings E) then env_flags \<or> fs_experimental_yield_pages (pe_settings E)
         else env_flags)"

definition typed_injection :: "('d, 'v) page_env \<Rightarrow> base_type \<Rightarrow> 'v injected option" where
  "typed_injection E base =
     (case base of
        SettingsClass \<Rightarrow> Some TheSettings
      | PublicUrlsClass \<Rightarrow> Some TheUrls
      | FluxLitClass \<Rightarrow> Some TheApp
      | ApiClientClass \<Rightarrow> Some TheClient
      | SessionStoreClass \<Rightarrow> if pe_has_store E then Some TheStore else None
      | FeatureFlagsClass \<Rightarrow> Some (TheFlags (feature_flags E))
      | _ \<Rightarrow> None)"

definition plain_injection :: "('d, 'v) page_env \<Rightarrow> json dict \<Rightarrow> 'd param \<Rightarrow> 'v injected option" where
  "plain_injection E merged p =
     (case unwrap_header p of
        Some name \<Rightarrow> Some (case map_of merged (pa_name p) of
            Some v \<Rightarrow> Override v
          | None \<Rightarrow> HeaderValue (case map_of (opt_dict (pe_header_ctx E)) name of
                Some v \<Rightarrow> Some v | None \<Rightarrow> header_from_streamlit_context (pe_st_headers E) name))
      | None \<Rightarrow> (case unwrap_cookie p of
          Some name \<Rightarrow> Some (case map_of merged (pa_name p) of
              Some v \<Rightarrow> Override v
            | None \<Rightarrow> HeaderValue (case map_of (opt_dict (pe_cookie_ctx E)) name of
                  Some v \<Rightarrow> Some v | None \<Rightarrow> cookie_from_streamlit_context (pe_st_cookies E) name))
        | None \<Rightarrow>
            if pa_name p = u ''st'' then Some TheSt
            else if pa_name p = u ''client'' then Some TheClient
            else typed_injection E (strip_annotated (pa_ann p))))"

fun resolve_params :: "('d, 'v) page_env \<Rightarrow> json dict \<Rightarrow> 'd param list \<Rightarrow> 'v injected dict \<Rightarrow> ('d \<Rightarrow> 'v option) \<Rightarrow> 'd list \<Rightarrow>
    (exc + 'v injected dict) \<times> 'd list" where
  "resolve_params E merged [] kwargs cache calls = (Inr kwargs, calls)"
| "resolve_params E merged (p # ps) kwargs cache calls =
     (case unwrap_depends p of
        Some (Some d, use_cache) \<Rightarrow>
          (case (if use_cache then cache d else None) of
             Some v \<Rightarrow> resolve_params E merged ps (AList.update (pa_name p) (DepValue v) kwargs) cache calls
           | None \<Rightarrow>
               (case resolve_depends_callable E d calls of
                  (Inl e, calls') \<Rightarrow> (Inl e, calls')
                | (Inr v, calls') \<Rightarrow>
                    resolve_params E merged ps (AList.update (pa_name p) (DepValue v) kwargs)
                      (if use_cache then cache(d \<mapsto> v) else cache) calls'))
      | _ \<Rightarrow>
          (case plain_injection E merged p of
             Some x \<Rightarrow> resolve_params E merged ps (AList.update (pa_name p) x kwargs) cache calls
           | None \<Rightarrow> resolve_params E merged ps kwargs cache calls))"

definition resolve_page_kwargs :: "('d, 'v) page_env \<Rightarrow> json dict \<Rightarrow> 'd handler \<Rightarrow> (exc + 'v injected dict) \<times> 'd list" where
  "resolve_page_kwargs E overrides h =
     (let merged = dict_union (env_page_overrides (pe_json_loads E) (pe_environ E)) overrides
      in case ph_hints h of Some e \<Rightarrow> (Inl e, []) | None \<Rightarrow> resolve_params E merged (ph_params h) [] (\<lambda>_. None) [])"

definition call_kw_for_fn :: "'d handler \<Rightarrow> 'v injected dict \<Rightarrow> 'v injected dict" where
  "call_kw_for_fn h kw =
     (if list_ex (\<lambda>p. pa_kind p = VarKeyword) (ph_params h) then kw
      else filter (\<lambda>(k, v). k \<in> pa_name ` set (ph_params h)) kw)"

subsection \<open>The call\<close>

text \<open>Python's binding of keyword arguments: a missing required parameter, a positional-only parameter without
  a default and a keyword no parameter takes all raise \<open>TypeError\<close>.\<close>

definition takes_keyword :: "'d param \<Rightarrow> bool" where
  "takes_keyword p \<longleftrightarrow> pa_kind p = PositionalOrKeyword \<or> pa_kind p = KeywordOnly"

definition binds :: "'d handler \<Rightarrow> 'v injected dict \<Rightarrow> bool" where
  "binds h kw \<longleftrightarrow>
     list_all (\<lambda>p. (takes_keyword p \<longrightarrow> pa_default p \<noteq> NoDefault \<or> map_of kw (pa_name p) \<noteq> None) \<and>
                   (pa_kind p = PositionalOnly \<longrightarrow> pa_default p \<noteq> NoDefault)) (ph_params h) \<and>
     (list_ex (\<lambda>p. pa_kind p = VarKeyword) (ph_params h) \<or>
      list_all (\<lambda>(k, v). list_ex (\<lambda>p. takes_keyword p \<and> pa_name p = k) (ph_params h)) kw)"

record 'v page_body =
  bo_is_generator :: bool
  bo_returns :: "'v injected dict \<Rightarrow> exc + page_value"
  bo_yields :: "'v injected dict \<Rightarrow> page_value list \<times> exc option"

definition returned_effects :: "(json dict \<Rightarrow> page_meta option) \<Rightarrow> page_value \<Rightarrow> st_effect list" where
  "returned_effects validate v =
     (case coerce_page_return validate v of (meta, errs) \<Rightarrow> errs @ apply_returned_page_meta meta)"

text \<open>A yielding page is driven for at most two values; \<open>bo_yields\<close> lists the values and how the generator ends.\<close>

definition drive_generator :: "(json dict \<Rightarrow> page_meta option) \<Rightarrow> page_value list \<times> exc option \<Rightarrow> (exc + page_value) \<times> st_effect list" where
  "drive_generator validate run =
     (case run of
        ([], None) \<Rightarrow> (Inr PNone, [])
      | ([], Some e) \<Rightarrow> (Inl e, [])
      | ([a], None) \<Rightarrow> (Inr a, returned_effects validate a)
      | ([a], Some e) \<Rightarrow> (Inl e, returned_effects validate a)
      | (a # b # rest, _) \<Rightarrow> (Inr b, returned_effects validate a @ returned_effects validate b))"

definition resolve_and_call_page ::
  "('d, 'v) page_env \<Rightarrow> (json dict \<Rightarrow> page_meta option) \<Rightarrow> json dict \<Rightarrow> 'd handler \<Rightarrow> 'v page_body \<Rightarrow>
     (exc + page_value) \<times> st_effect list \<times> 'd list" where
  "resolve_and_call_page E validate overrides h body =
     (let merged = dict_union (env_page_overrides (pe_json_loads E) (pe_environ E)) overrides
      in case resolve_page_kwargs E merged h of
           (Inl e, calls) \<Rightarrow> (Inl e, [], calls)
         | (Inr kw, calls) \<Rightarrow>
             (let call_kw = call_kw_for_fn h kw;
                  yield_pages = truthy_env (pe_environ E) (u ''FLUXLIT_EXPERIMENTAL_YIELD_PAGES'')
                    \<or> fs_experimental_yield_pages (pe_settings E)
              in if \<not> binds h call_kw then (Inl TypeError, [], calls)
                 else if yield_pages \<and> bo_is_generator body
                 then (case drive_generator validate (bo_yields body call_kw) of (r, eff) \<Rightarrow> (r, eff, calls))
                 else (case bo_returns body call_kw of
                     Inl e \<Rightarrow> (Inl e, [], calls)
                   | Inr out \<Rightarrow> (Inr out, returned_effects validate out, calls))))"


subsection \<open>Properties\<close>

definition provided :: "('d, 'v) page_env \<Rightarrow> json dict \<Rightarrow> 'd param \<Rightarrow> bool" where
  "provided E merged p \<longleftrightarrow> (\<exists>d c. unwrap_depends p = Some (Some d, c)) \<or> plain_injection E merged p \<noteq> None"

lemma update_keys: "fst ` set (AList.update k v d) = insert k (fst ` set d)"
  by (simp add: dom_update)

lemma resolve_params_keys:
  assumes "resolve_params E merged ps kwargs cache calls = (Inr kw, calls')"
  shows "fst ` set kw = fst ` set kwargs \<union> pa_name ` {p \<in> set ps. provided E merged p}"
  using assms
proof (induction ps arbitrary: kwargs cache calls)
  case Nil
  then show ?case by simp
next
  case (Cons p ps)
  show ?case
  proof (cases "\<exists>d c. unwrap_depends p = Some (Some d, c)")
    case True
    then obtain d c where d: "unwrap_depends p = Some (Some d, c)" by blast
    then obtain v cache' calls'' where
      "resolve_params E merged ps (AList.update (pa_name p) (DepValue v) kwargs) cache' calls'' = (Inr kw, calls')"
      using Cons.prems by (auto split: option.splits prod.splits sum.splits if_splits)
    from Cons.IH [OF this] show ?thesis using d by (auto simp: update_keys provided_def)
  next
    case False
    show ?thesis
    proof (cases "plain_injection E merged p")
      case None
      with False Cons.prems have "resolve_params E merged ps kwargs cache calls = (Inr kw, calls')"
        by (auto split: option.splits)
      from Cons.IH [OF this] show ?thesis using False None by (auto simp: provided_def)
    next
      case (Some x)
      with False Cons.prems have "resolve_params E merged ps (AList.update (pa_name p) x kwargs) cache calls = (Inr kw, calls')"
        by (auto split: option.splits)
      from Cons.IH [OF this] show ?thesis using Some by (auto simp: update_keys provided_def)
    qed
  qed
qed

lemma strict_params_all: "strict_params ps = Inr () \<longleftrightarrow> (\<forall>p \<in> set ps. strict_param p = Inr ())"
  by (induction ps) (auto simp: bind_exc_Inr_iff)

lemma has_header_cookie_unwrap: "has_header_cookie p \<longleftrightarrow> unwrap_header p \<noteq> None \<or> unwrap_cookie p \<noteq> None"
proof -
  have "list_ex (\<lambda>m. case m of HeaderNamed n \<Rightarrow> True | CookieNamed n \<Rightarrow> True | _ \<Rightarrow> False) ms \<longleftrightarrow>
      first_header ms \<noteq> None \<or> first_cookie ms \<noteq> None" for ms :: "'a marker list"
  proof (induction ms)
    case Nil
    then show ?case by simp
  next
    case (Cons m ms)
    then show ?case by (cases m) auto
  qed
  then show ?thesis by (simp add: has_header_cookie_def unwrap_header_def unwrap_cookie_def)
qed

lemma first_depends_callable:
  "list_ex (\<lambda>m. case m of DependsOn (Some d) c \<Rightarrow> True | _ \<Rightarrow> False) ms \<Longrightarrow> first_depends ms \<noteq> None"
  by (induction ms rule: first_depends.induct) auto

lemma depends_unwrap:
  "depends_with_callable p \<Longrightarrow> \<not> has_depends_without_callable p \<Longrightarrow> \<exists>d c. unwrap_depends p = Some (Some d, c)"
  using first_depends_callable [of "markers (pa_ann p)"]
  by (auto simp: depends_with_callable_def has_depends_without_callable_def unwrap_depends_def
      split: option.splits pdefault.splits prod.splits)

lemma strict_provided:
  assumes "strict_param p = Inr ()" and "pa_name p \<noteq> u ''st'' \<Longrightarrow> pa_name p \<noteq> u ''client'' \<Longrightarrow>
      strip_annotated (pa_ann p) = SessionStoreClass \<Longrightarrow> pe_has_store E"
  shows "provided E merged p"
proof (cases "depends_with_callable p")
  case True
  with assms(1) depends_unwrap [of p] show ?thesis by (auto simp: strict_param_def provided_def split: if_splits)
next
  case False
  with assms(1) have "has_header_cookie p \<or> pa_name p = u ''st'' \<or> pa_name p = u ''client'' \<or>
      is_injectable_type (strip_annotated (pa_ann p))"
    by (auto simp: strict_param_def split: if_splits)
  then have "plain_injection E merged p \<noteq> None"
    using assms(2)
    by (cases "strip_annotated (pa_ann p)")
      (auto simp: plain_injection_def has_header_cookie_unwrap typed_injection_def split: option.splits)
  then show ?thesis by (simp add: provided_def)
qed

text \<open>A handler that passes the strict signature check, that has no positional-only parameter and that asks for a
  session store only where the app has one, is always given every one of its parameters and nothing
  else, so that the call binds; if no dependency fails the page runs.\<close>

lemma strict_page_is_callable:
  assumes "validate_strict_page_signature h = Inr ()"
    and "PositionalOnly \<notin> pa_kind ` set (ph_params h)"
    and "\<forall>p \<in> set (ph_params h). pa_name p \<noteq> u ''st'' \<longrightarrow> pa_name p \<noteq> u ''client'' \<longrightarrow>
        strip_annotated (pa_ann p) = SessionStoreClass \<longrightarrow> pe_has_store E"
    and "resolve_page_kwargs E overrides h = (Inr kw, calls)"
  shows "fst ` set kw = pa_name ` set (ph_params h) \<and> call_kw_for_fn h kw = kw \<and> binds h kw"
proof -
  have hints: "ph_hints h = None" and strict: "\<forall>p \<in> set (ph_params h). strict_param p = Inr ()"
    using assms(1) by (auto simp: validate_strict_page_signature_def strict_params_all split: option.splits if_splits)
  let ?merged = "dict_union (env_page_overrides (pe_json_loads E) (pe_environ E)) overrides"
  have "provided E ?merged p" if "p \<in> set (ph_params h)" for p
  proof (rule strict_provided)
    show "strict_param p = Inr ()" using strict that by blast
    show "pe_has_store E" if "pa_name p \<noteq> u ''st''" "pa_name p \<noteq> u ''client''" "strip_annotated (pa_ann p) = SessionStoreClass"
      using assms(3) \<open>p \<in> set (ph_params h)\<close> that by blast
  qed
  then have all: "{p \<in> set (ph_params h). provided E ?merged p} = set (ph_params h)" by blast
  have "resolve_params E ?merged (ph_params h) [] (\<lambda>_. None) [] = (Inr kw, calls)"
    using assms(4) hints by (simp add: resolve_page_kwargs_def Let_def)
  from resolve_params_keys [OF this] have keys: "fst ` set kw = pa_name ` set (ph_params h)"
    unfolding all by simp
  have kinds: "takes_keyword p" if "p \<in> set (ph_params h)" for p
  proof -
    have "pa_kind p \<noteq> VarPositional" "pa_kind p \<noteq> VarKeyword"
      using strict that by (auto simp: strict_param_def split: if_splits)
    moreover have "pa_kind p \<noteq> PositionalOnly" using assms(2) that by force
    ultimately show ?thesis by (cases "pa_kind p") (auto simp: takes_keyword_def)
  qed
  have member: "k \<in> pa_name ` set (ph_params h)" if "(k, v) \<in> set kw" for k v
    using that keys by (metis fst_conv image_eqI)
  then have "filter (\<lambda>(k, v). k \<in> pa_name ` set (ph_params h)) kw = kw"
    by (intro filter_True) blast
  then have call: "call_kw_for_fn h kw = kw" by (simp add: call_kw_for_fn_def)
  have given: "map_of kw (pa_name p) \<noteq> None" if "p \<in> set (ph_params h)" for p
    using that keys by (simp add: map_of_eq_None_iff)
  have "pa_kind p \<noteq> PositionalOnly" if "p \<in> set (ph_params h)" for p using assms(2) that by force
  with given have params: "list_all (\<lambda>p. (takes_keyword p \<longrightarrow> pa_default p \<noteq> NoDefault \<or> map_of kw (pa_name p) \<noteq> None) \<and>
      (pa_kind p = PositionalOnly \<longrightarrow> pa_default p \<noteq> NoDefault)) (ph_params h)"
    unfolding list_all_iff by blast
  have "list_ex (\<lambda>p. takes_keyword p \<and> pa_name p = k) (ph_params h)" if "(k, v) \<in> set kw" for k v
  proof -
    have "k \<in> pa_name ` set (ph_params h)" using that by (rule member)
    then obtain p where "p \<in> set (ph_params h)" "pa_name p = k" by blast
    with kinds show ?thesis unfolding list_ex_iff by blast
  qed
  then have "list_all (\<lambda>(k, v). list_ex (\<lambda>p. takes_keyword p \<and> pa_name p = k) (ph_params h)) kw"
    unfolding list_all_iff by blast
  with params have "binds h kw" unfolding binds_def by blast
  with keys call show ?thesis by simp
qed

definition sample_handler :: "nat handler" where
  "sample_handler = \<lparr>ph_name = Some (u ''home''), ph_doc = None, ph_hints = None, ph_params =
     [\<lparr>pa_name = u ''st'', pa_kind = PositionalOrKeyword, pa_ann = Bare NoAnnotation, pa_default = NoDefault\<rparr>,
      \<lparr>pa_name = u ''user'', pa_kind = PositionalOrKeyword, pa_ann = Annotated (OtherClass (u ''User'')) [DependsOn (Some 7) True], pa_default = NoDefault\<rparr>,
      \<lparr>pa_name = u ''lang'', pa_kind = KeywordOnly, pa_ann = Annotated (OtherClass (u ''str'')) [header_marker (u ''Accept-Language'')], pa_default = NoDefault\<rparr>,
      \<lparr>pa_name = u ''again'', pa_kind = KeywordOnly, pa_ann = Bare AnyType, pa_default = DefaultDepends (Some 7) True\<rparr>]\<rparr>"

definition sample_page_env :: "(nat, nat) page_env" where
  "sample_page_env = \<lparr>pe_is_async = (\<lambda>_. False), pe_call = (\<lambda>d calls. Plain (length calls)),
     pe_header_ctx = Some [(u ''accept-language'', u ''en'')], pe_cookie_ctx = None, pe_st_headers = None, pe_st_cookies = None,
     pe_settings = default_settings, pe_has_store = False, pe_environ = [], pe_json_loads = (\<lambda>_. Inl ValueError)\<rparr>"

lemma sample_resolution:
  "resolve_page_kwargs sample_page_env [] sample_handler =
     (Inr [(u ''st'', TheSt), (u ''user'', DepValue 0), (u ''lang'', HeaderValue (Some (u ''en''))), (u ''again'', DepValue 0)], [7])"
  by (simp add: resolve_page_kwargs_def sample_page_env_def sample_handler_def env_page_overrides_def dict_union_def
    unwrap_depends_def plain_injection_def unwrap_header_def unwrap_cookie_def header_marker_def resolve_depends_callable_def
    opt_dict_def default_settings_def pystr_eval)

lemma sample_strict: "validate_strict_page_signature sample_handler = Inr ()"
  by (simp add: validate_strict_page_signature_def sample_handler_def strict_param_def has_depends_without_callable_def
    depends_with_callable_def has_header_cookie_def header_marker_def)

definition cached_use :: "'d \<Rightarrow> 'd handler \<Rightarrow> bool" where
  "cached_use d h \<longleftrightarrow> list_ex (\<lambda>p. unwrap_depends p = Some (Some d, True)) (ph_params h)"

definition uncached_uses :: "'d \<Rightarrow> 'd handler \<Rightarrow> nat" where
  "uncached_uses d h = length (filter (\<lambda>p. unwrap_depends p = Some (Some d, False)) (ph_params h))"

lemma resolve_depends_calls:
  "snd (resolve_depends_callable E d calls) = calls \<or> snd (resolve_depends_callable E d calls) = calls @ [d]"
  by (auto simp: resolve_depends_callable_def Let_def split: dep_outcome.splits)

lemma resolve_params_calls:
  "count_list (snd (resolve_params E merged ps kwargs cache calls)) d \<le> count_list calls d
     + (if cache d = None \<and> list_ex (\<lambda>p. unwrap_depends p = Some (Some d, True)) ps then 1 else 0)
     + length (filter (\<lambda>p. unwrap_depends p = Some (Some d, False)) ps)"
proof (induction ps arbitrary: kwargs cache calls)
  case Nil
  then show ?case by simp
next
  case (Cons p ps)
  let ?n = "\<lambda>cache :: 'a \<Rightarrow> 'b option. \<lambda>ps. if cache d = None \<and> list_ex (\<lambda>p. unwrap_depends p = Some (Some d, True)) ps then 1 else (0 :: nat)"
  show ?case
  proof (cases "\<exists>d' c. unwrap_depends p = Some (Some d', c)")
    case False
    then have "\<exists>kwargs'. resolve_params E merged (p # ps) kwargs cache calls = resolve_params E merged ps kwargs' cache calls"
      by (auto split: option.splits)
    with False Cons.IH show ?thesis by fastforce
  next
    case True
    then obtain d' c where d': "unwrap_depends p = Some (Some d', c)" by blast
    obtain r calls' where run: "resolve_depends_callable E d' calls = (r, calls')" by fastforce
    then have calls': "calls' = calls \<or> calls' = calls @ [d']" using resolve_depends_calls [of E d' calls] by simp
    show ?thesis
    proof (cases "if c then cache d' else None")
      case (Some v)
      then have "c" "cache d' \<noteq> None" by (auto split: if_splits)
      moreover have "resolve_params E merged (p # ps) kwargs cache calls =
          resolve_params E merged ps (AList.update (pa_name p) (DepValue v) kwargs) cache calls"
        using d' Some by simp
      ultimately show ?thesis using Cons.IH [of "AList.update (pa_name p) (DepValue v) kwargs" cache calls] d'
        by (auto split: if_splits)
    next
      case None
      show ?thesis
      proof (cases r)
        case (Inl e)
        then have "snd (resolve_params E merged (p # ps) kwargs cache calls) = calls'" using d' None run by simp
        then show ?thesis using calls' d' None by (cases c) auto
      next
        case (Inr v)
        let ?cache = "if c then cache(d' \<mapsto> v) else cache"
        have "resolve_params E merged (p # ps) kwargs cache calls =
            resolve_params E merged ps (AList.update (pa_name p) (DepValue v) kwargs) ?cache calls'"
          using d' None run Inr by simp
        then have "count_list (snd (resolve_params E merged (p # ps) kwargs cache calls)) d \<le> count_list calls' d
            + ?n ?cache ps + length (filter (\<lambda>p. unwrap_depends p = Some (Some d, False)) ps)"
          using Cons.IH [of "AList.update (pa_name p) (DepValue v) kwargs" ?cache calls'] by (simp only:)
        then show ?thesis
          using calls' d' None by (cases c; cases "d' = d") (auto simp del: resolve_params.simps split: if_splits)
      qed
    qed
  qed
qed

text \<open>C37: In one page run a dependency is called at most once for all the parameters that share its cached result,
  plus once per parameter that opted out of the cache, whatever the dependencies return or raise.\<close>

theorem dependency_called_at_most_once:
  "count_list (snd (resolve_page_kwargs E overrides h)) d \<le> (if cached_use d h then 1 else 0) + uncached_uses d h"
proof (cases "ph_hints h")
  case None
  then show ?thesis
    using resolve_params_calls [of E "dict_union (env_page_overrides (pe_json_loads E) (pe_environ E)) overrides" "ph_params h"
      "[]" "\<lambda>_. None" "[]" d]
    by (simp add: resolve_page_kwargs_def Let_def cached_use_def uncached_uses_def)
qed (simp add: resolve_page_kwargs_def Let_def)

end
