(* ===== verification/Nav_Build.thy ===== *)
theory Nav_Build
  imports Page_DI "HOL-Library.Product_Lexorder"
begin

section \<open>Pages: registration, navigation order and deep links\<close>

text \<open>
  Models \<open>application/page_registry.py\<close>, \<open>pages/records.py\<close>, \<open>pages/slug.py\<close>, \<open>pages/navigation.py\<close>,
  \<open>streamlit/nav_order.py\<close>, \<open>streamlit/nav_build.py\<close>, \<open>streamlit/main.py\<close> and
  \<open>deep_links.py\<close>. A page module's \<open>register\<close> function is the list of pages
  it declares. \<open>str\<close> of a JSON value is the argument \<open>str\<close>. The heap of \<open>order_records_with_children\<close> is a
  list sorted by its keys (the registration indices, which are distinct), popped at the front.
\<close>

subsection \<open>Records and registration\<close>

record 'd page_record =
  pr_path :: pystr
  pr_title :: pystr
  pr_fn :: "'d handler"
  pr_tags :: "pystr list"
  pr_description :: pystr
  pr_icon :: "pystr option"
  pr_page_meta :: "page_meta option"

record 'd fluxlit_app =
  fa_settings :: fluxlit_settings
  fa_has_store :: bool
  fa_pages :: "'d page_record list"

record 'd page_decl =
  pd_path :: pystr
  pd_title :: "pystr option"
  pd_icon :: "pystr option"
  pd_tags :: "pystr list"
  pd_page_meta :: "page_meta option"
  pd_fn :: "'d handler"

definition page_slug :: "pystr \<Rightarrow> pystr" where
  "page_slug path = or_str (strip_slash path) (u ''home'')"

abbreviation rec_slug :: "'d page_record \<Rightarrow> pystr" where
  "rec_slug r \<equiv> page_slug (pr_path r)"

definition docstring_first_line :: "'d handler \<Rightarrow> pystr" where
  "docstring_first_line fn =
     (case ph_doc fn of None \<Rightarrow> []
      | Some doc \<Rightarrow> if strip doc = [] then [] else strip (hd (split_chr 10 (strip doc))))"

text \<open>\<open>str.title\<close>, exact on ASCII names.\<close>

fun title_case :: "bool \<Rightarrow> pystr \<Rightarrow> pystr" where
  "title_case inner [] = []"
| "title_case inner (c # cs) =
     (if is_alpha_ascii c
      then (if inner then lower_cp c else if 97 \<le> c \<and> c \<le> 122 then c - 32 else c) # title_case True cs
      else c # title_case False cs)"

definition default_page_title :: "'d handler \<Rightarrow> pystr" where
  "default_page_title fn =
     (case ph_name fn of None \<Rightarrow> u ''Page''
      | Some name \<Rightarrow> title_case False (map (\<lambda>c. if c = 95 then 32 else c) name))"

definition validate_session_store_on_page :: "'d fluxlit_app \<Rightarrow> 'd handler \<Rightarrow> exc + unit" where
  "validate_session_store_on_page app fn =
     (if fa_has_store app then Inr ()
      else (case ph_hints fn of
          Some e \<Rightarrow> if e = name_error \<or> e = TypeError then Inr () else Inl e
        | None \<Rightarrow>
            if list_ex (\<lambda>p. pa_name p \<noteq> u ''st'' \<and> pa_name p \<noteq> u ''client'' \<and>
                 strip_annotated (pa_ann p) = SessionStoreClass) (ph_params fn)
            then Inl ValueError else Inr ()))"

definition register_streamlit_page :: "'d page_decl \<Rightarrow> 'd fluxlit_app \<Rightarrow> exc + 'd fluxlit_app" where
  "register_streamlit_page d app =
     bind_exc (if fs_strict_page_signatures (fa_settings app) then validate_strict_page_signature (pd_fn d) else Inr ()) (\<lambda>_.
     bind_exc (validate_session_store_on_page app (pd_fn d)) (\<lambda>_.
       if list_ex (\<lambda>r. pr_path r = pd_path d) (fa_pages app) then Inl ValueError
       else if list_ex (\<lambda>r. rec_slug r = page_slug (pd_path d)) (fa_pages app) then Inl ValueError
       else Inr (app\<lparr>fa_pages := fa_pages app @
          [\<lparr>pr_path = pd_path d, pr_title = or_str (opt_str (pd_title d)) (default_page_title (pd_fn d)), pr_fn = pd_fn d,
            pr_tags = pd_tags d, pr_description = docstring_first_line (pd_fn d), pr_icon = pd_icon d,
            pr_page_meta = pd_page_meta d\<rparr>]\<rparr>)))"

fun register_all :: "'d page_decl list \<Rightarrow> 'd fluxlit_app \<Rightarrow> exc option \<times> 'd fluxlit_app" where
  "register_all [] app = (None, app)"
| "register_all (d # ds) app =
     (case register_streamlit_page d app of Inl e \<Rightarrow> (Some e, app) | Inr app' \<Rightarrow> register_all ds app')"

record 'd page_module =
  mo_name :: pystr
  mo_is_pkg :: bool
  mo_register :: "'d page_decl list option"

fun register_modules :: "'d page_module list \<Rightarrow> 'd fluxlit_app \<Rightarrow> exc option \<times> 'd fluxlit_app" where
  "register_modules [] app = (None, app)"
| "register_modules (m # ms) app =
     (if mo_is_pkg m \<or> startswith (last (split_chr 46 (mo_name m))) (u ''_'') then register_modules ms app
      else (case mo_register m of
          None \<Rightarrow> register_modules ms app
        | Some ds \<Rightarrow> (case register_all ds app of
              (Some e, app') \<Rightarrow> (Some e, app')
            | (None, app') \<Rightarrow> register_modules ms app')))"

text \<open>\<open>found\<close> is what importing the package and its page package gives: the modules in it.\<close>

definition discover_streamlit_pages :: "exc + 'd page_module list \<Rightarrow> 'd fluxlit_app \<Rightarrow> exc option \<times> 'd fluxlit_app" where
  "discover_streamlit_pages found app =
     (case found of
        Inl e \<Rightarrow> (Some e, app)
      | Inr mods \<Rightarrow>
          (case register_modules (sort_key mo_name mods) app of
             (Some e, app') \<Rightarrow> (Some e, app')
           | (None, app') \<Rightarrow> (None, app'\<lparr>fa_pages := sort_key (\<lambda>r. (pr_path r, pr_title r)) (fa_pages app')\<rparr>)))"

subsection \<open>Children of pages\<close>

definition get_json :: "json dict \<Rightarrow> string \<Rightarrow> json option" where
  "get_json d k = (case map_of d (u k) of Some JNull \<Rightarrow> None | v \<Rightarrow> v)"

definition child_ref :: "(json \<Rightarrow> pystr) \<Rightarrow> json \<Rightarrow> (json dict \<times> pystr) option" where
  "child_ref str raw =
     (case raw of
        JObj d \<Rightarrow> (case get_json d ''path'' of
            Some p \<Rightarrow> Some (d, page_slug (str p))
          | None \<Rightarrow> map_option (\<lambda>p. (d, page_slug (str p))) (get_json d ''url_path''))
      | _ \<Rightarrow> None)"

definition children_of :: "'d page_record \<Rightarrow> json list" where
  "children_of r = (case pr_page_meta r of None \<Rightarrow> [] | Some m \<Rightarrow> pm_children m)"

type_synonym overrides = "pystr \<Rightarrow> pystr option \<times> pystr option"

definition merge_child :: "(json \<Rightarrow> pystr) \<Rightarrow> json \<Rightarrow> overrides \<Rightarrow> overrides" where
  "merge_child str raw ov =
     (case child_ref str raw of None \<Rightarrow> ov
      | Some (d, slug) \<Rightarrow>
          ov(slug := (case get_json d ''title'' of Some v \<Rightarrow> Some (str v) | None \<Rightarrow> fst (ov slug),
                      case get_json d ''icon'' of Some v \<Rightarrow> Some (str v) | None \<Rightarrow> snd (ov slug))))"

definition override_record :: "overrides \<Rightarrow> 'd page_record \<Rightarrow> 'd page_record" where
  "override_record ov r =
     r\<lparr>pr_title := (case fst (ov (rec_slug r)) of Some t \<Rightarrow> t | None \<Rightarrow> pr_title r),
       pr_icon := (case snd (ov (rec_slug r)) of Some i \<Rightarrow> Some i | None \<Rightarrow> pr_icon r)\<rparr>"

definition apply_children_overrides :: "(json \<Rightarrow> pystr) \<Rightarrow> 'd page_record list \<Rightarrow> 'd page_record list" where
  "apply_children_overrides str records =
     (let slug_to = fold (merge_child str) (concat (map children_of records)) (\<lambda>_. (None, None))
      in map (override_record slug_to) records)"

definition child_edges :: "(json \<Rightarrow> pystr) \<Rightarrow> 'd page_record list \<Rightarrow> (pystr \<times> pystr) list" where
  "child_edges str records =
     remdups (concat (map (\<lambda>r. concat (map (\<lambda>raw.
        case child_ref str raw of None \<Rightarrow> []
        | Some (d, cslug) \<Rightarrow>
            if cslug = rec_slug r \<or> cslug \<notin> rec_slug ` set records then [] else [(rec_slug r, cslug)])
        (children_of r))) records))"

subsection \<open>The topological order\<close>

definition by_slug :: "'d page_record list \<Rightarrow> pystr \<Rightarrow> 'd page_record option" where
  "by_slug records = map_of (rev (map (\<lambda>r. (rec_slug r, r)) records))"

definition slug_index :: "'d page_record list \<Rightarrow> pystr \<Rightarrow> nat" where
  "slug_index records s =
     (case map_of (rev (zip (map rec_slug records) [0..<length records])) s of Some i \<Rightarrow> i | None \<Rightarrow> 0)"

definition incoming_of :: "(pystr \<times> pystr) list \<Rightarrow> pystr \<Rightarrow> int" where
  "incoming_of edges c = int (length (filter (\<lambda>e. snd e = c) edges))"

definition successors :: "(pystr \<Rightarrow> nat) \<Rightarrow> (pystr \<times> pystr) list \<Rightarrow> pystr list \<Rightarrow> pystr \<Rightarrow> pystr list" where
  "successors idx edges nodes s = sort_key idx (filter (\<lambda>c. (s, c) \<in> set edges) nodes)"

fun relax :: "(pystr \<Rightarrow> nat) \<Rightarrow> pystr list \<Rightarrow> (pystr \<Rightarrow> int) \<Rightarrow> (nat \<times> pystr) list \<Rightarrow> (pystr \<Rightarrow> int) \<times> (nat \<times> pystr) list" where
  "relax idx [] incoming heap = (incoming, heap)"
| "relax idx (c # cs) incoming heap =
     (let incoming' = incoming(c := incoming c - 1)
      in relax idx cs incoming' (if incoming' c = 0 then insort_key fst (idx c, c) heap else heap))"

definition positive :: "pystr list \<Rightarrow> (pystr \<Rightarrow> int) \<Rightarrow> nat" where
  "positive nodes incoming = card {c \<in> set nodes. 0 < incoming c}"

lemma length_insort_key [simp]: "length (insort_key f x xs) = Suc (length xs)"
  by (induction xs) auto

lemma positive_step:
  "c \<in> set nodes \<Longrightarrow>
     positive nodes (incoming(c := incoming c - 1)) + (if incoming c = 1 then 1 else 0) \<le> positive nodes incoming"
proof -
  assume c: "c \<in> set nodes"
  let ?A = "{d \<in> set nodes. 0 < (incoming(c := incoming c - 1)) d}" and ?B = "{d \<in> set nodes. 0 < incoming d}"
  have sub: "?A \<subseteq> ?B" by auto
  show ?thesis
  proof (cases "incoming c = 1")
    case True
    then have "c \<in> ?B" "c \<notin> ?A" using c by auto
    with sub have "?A \<subset> ?B" by blast
    then have "card ?A < card ?B" by (intro psubset_card_mono) auto
    with True show ?thesis by (simp add: positive_def)
  next
    case False
    have "card ?A \<le> card ?B" using sub by (intro card_mono) auto
    with False show ?thesis by (simp add: positive_def)
  qed
qed

lemma relax_measure:
  "set cs \<subseteq> set nodes \<Longrightarrow> relax idx cs incoming heap = (incoming', heap') \<Longrightarrow>
     length heap' + positive nodes incoming' \<le> length heap + positive nodes incoming"
proof (induction cs arbitrary: incoming heap)
  case Nil
  then show ?case by simp
next
  case (Cons c cs)
  let ?inc = "incoming(c := incoming c - 1)"
  let ?heap = "if ?inc c = 0 then insort_key fst (idx c, c) heap else heap"
  have "length heap' + positive nodes incoming' \<le> length ?heap + positive nodes ?inc"
  proof (rule Cons.IH)
    show "set cs \<subseteq> set nodes" using Cons.prems(1) by simp
    show "relax idx cs ?inc ?heap = (incoming', heap')" using Cons.prems(2) by (simp only: relax.simps Let_def)
  qed
  moreover have "positive nodes ?inc + (if incoming c = 1 then 1 else 0) \<le> positive nodes incoming"
    using Cons.prems(1) by (intro positive_step) auto
  ultimately show ?case by (auto split: if_splits)
qed

function kahn :: "(pystr \<Rightarrow> nat) \<Rightarrow> (pystr \<times> pystr) list \<Rightarrow> pystr list \<Rightarrow> (pystr \<Rightarrow> int) \<Rightarrow> (nat \<times> pystr) list \<Rightarrow> pystr list \<Rightarrow> pystr list" where
  "kahn idx edges nodes incoming [] out_slugs = out_slugs"
| "kahn idx edges nodes incoming ((i, s) # heap) out_slugs =
     (if s \<in> set out_slugs then kahn idx edges nodes incoming heap out_slugs
      else (case relax idx (successors idx edges nodes s) incoming heap of
              (incoming', heap') \<Rightarrow> kahn idx edges nodes incoming' heap' (out_slugs @ [s])))"
  by pat_completeness auto
termination
proof (relation "measure (\<lambda>(idx, edges, nodes, incoming, heap, out). length heap + positive nodes incoming)", auto)
  fix idx edges nodes incoming s heap x y
  assume step: "(x, y) = relax idx (successors idx edges nodes s) incoming heap"
  have "set (successors idx edges nodes s) \<subseteq> set nodes" by (auto simp: successors_def)
  from relax_measure [OF this step [symmetric]]
  show "length y + positive nodes x < Suc (length heap + positive nodes incoming)" by simp
qed

definition order_records_with_children :: "(json \<Rightarrow> pystr) \<Rightarrow> 'd page_record list \<Rightarrow> 'd page_record list" where
  "order_records_with_children str records =
     (let edges = child_edges str records; idx = slug_index records; nodes = remdups (map rec_slug records)
      in if edges = [] then records
         else (let incoming = incoming_of edges;
                   ready = sort_key idx (filter (\<lambda>s. incoming s = 0) nodes);
                   out_slugs = kahn idx edges nodes incoming (map (\<lambda>s. (idx s, s)) ready) []
               in map (\<lambda>s. the (by_slug records s))
                    (out_slugs @ filter (\<lambda>s. s \<notin> set out_slugs) (sort_key idx nodes))))"

subsection \<open>The navigation model and the entry point\<close>

definition navigation_sort_key :: "pystr list \<Rightarrow> 'd page_record \<Rightarrow> nat \<times> pystr" where
  "navigation_sort_key order r =
     (if order = [] then (0, [])
      else (let keys = map page_slug order; slug = rec_slug r
            in (if slug \<in> set keys then length (takeWhile (\<lambda>k. k \<noteq> slug) keys) else length keys + 1, slug)))"

definition nav_records :: "(json \<Rightarrow> pystr) \<Rightarrow> pystr list option \<Rightarrow> 'd page_record list \<Rightarrow> 'd page_record list" where
  "nav_records str nav_model pages =
     (let records = (case nav_model of None \<Rightarrow> pages
         | Some order \<Rightarrow> if order = [] then pages else sort_key (navigation_sort_key order) pages)
      in apply_children_overrides str (order_records_with_children str records))"

record nav_page =
  np_title :: pystr
  np_url_path :: pystr
  np_icon :: "pystr option"

definition nav_page_of :: "'d page_record \<Rightarrow> nav_page" where
  "nav_page_of r = \<lparr>np_title = pr_title r, np_url_path = rec_slug r,
     np_icon = (let icon = or_str (opt_str (pr_icon r)) (case pr_page_meta r of None \<Rightarrow> [] | Some m \<Rightarrow> opt_str (pm_page_icon m))
                in if icon = [] then None else Some icon)\<rparr>"

definition row_matches :: "pystr \<Rightarrow> pystr \<times> pystr \<Rightarrow> bool" where
  "row_matches wanted row \<longleftrightarrow>
     (case row of (path, title) \<Rightarrow> wanted = title \<or> wanted = path \<or> wanted = page_slug path \<or>
        (strip_slash wanted \<noteq> [] \<and> strip_slash path \<noteq> [] \<and> strip_slash wanted = strip_slash path))"

definition match_nav_page :: "pystr dict \<Rightarrow> (pystr \<times> pystr) list \<Rightarrow> pystr \<Rightarrow> (pystr \<times> pystr) option" where
  "match_nav_page params pages page_key =
     (let wanted = strip (opt_str (map_of params page_key))
      in if wanted = [] then None else find (row_matches wanted) pages)"

text \<open>What the entry point shows: nothing registered, or the navigation with the page to switch to.\<close>

datatype entry_view = NoPages pystr | Navigation "nav_page list" "nav_page option"

definition streamlit_entry :: "(json \<Rightarrow> pystr) \<Rightarrow> pystr list option \<Rightarrow> 'd fluxlit_app \<Rightarrow> pystr dict \<Rightarrow> entry_view" where
  "streamlit_entry str nav_model app params =
     (let records = nav_records str nav_model (fa_pages app); pages = map nav_page_of records
      in if pages = [] then NoPages (fs_title (fa_settings app))
         else Navigation pages
           (case match_nav_page params (map (\<lambda>r. (pr_path r, pr_title r)) records) (u ''page'') of
              None \<Rightarrow> None
            | Some (path, title) \<Rightarrow> find (\<lambda>pg. np_url_path pg = page_slug path) pages))"


subsection \<open>Correctness of the order\<close>

lemma mset_insort_key [simp]: "mset (insort_key f x xs) = add_mset x (mset xs)"
  by (induction xs) auto

lemma relax_spec:
  assumes "distinct cs" and "relax idx cs incoming heap = (incoming', heap')"
  shows "incoming' = (\<lambda>c. if c \<in> set cs then incoming c - 1 else incoming c) \<and>
    mset heap' = mset heap + mset (map (\<lambda>c. (idx c, c)) (filter (\<lambda>c. incoming c = 1) cs))"
  using assms
proof (induction cs arbitrary: incoming heap)
  case Nil
  then show ?case by simp
next
  case (Cons c cs)
  let ?inc = "incoming(c := incoming c - 1)"
  let ?heap = "if ?inc c = 0 then insort_key fst (idx c, c) heap else heap"
  have "relax idx cs ?inc ?heap = (incoming', heap')" using Cons.prems(2) by (simp only: relax.simps Let_def)
  from Cons.IH [OF _ this] Cons.prems(1)
  have IH: "incoming' = (\<lambda>d. if d \<in> set cs then ?inc d - 1 else ?inc d)"
    "mset heap' = mset ?heap + mset (map (\<lambda>c. (idx c, c)) (filter (\<lambda>d. ?inc d = 1) cs))" by auto
  have "filter (\<lambda>d. ?inc d = 1) cs = filter (\<lambda>d. incoming d = 1) cs"
    using Cons.prems(1) by (intro filter_cong) auto
  with IH Cons.prems(1) show ?case by (auto simp: fun_eq_iff simp del: mset_filter)
qed

text \<open>The loop's invariant: \<open>incoming\<close> counts the predecessors not yet emitted, the heap holds the nodes with
  none, and every emitted node comes after its predecessors.\<close>

definition preds_left :: "(pystr \<times> pystr) list \<Rightarrow> pystr list \<Rightarrow> pystr \<Rightarrow> pystr set" where
  "preds_left edges out c = {p. (p, c) \<in> set edges \<and> p \<notin> set out}"

definition after_preds :: "(pystr \<times> pystr) list \<Rightarrow> pystr list \<Rightarrow> bool" where
  "after_preds edges out \<longleftrightarrow> (\<forall>xs c ys. out = xs @ c # ys \<longrightarrow> (\<forall>p. (p, c) \<in> set edges \<longrightarrow> p \<in> set xs))"

definition kahn_inv :: "(pystr \<times> pystr) list \<Rightarrow> pystr list \<Rightarrow> (pystr \<Rightarrow> int) \<Rightarrow> (nat \<times> pystr) list \<Rightarrow> pystr list \<Rightarrow> bool" where
  "kahn_inv edges nodes incoming heap out \<longleftrightarrow>
     (\<forall>c \<in> set nodes. incoming c = int (card (preds_left edges out c))) \<and>
     distinct (map snd heap) \<and>
     set (map snd heap) = {c \<in> set nodes. c \<notin> set out \<and> incoming c = 0} \<and>
     distinct out \<and> set out \<subseteq> set nodes \<and> after_preds edges out"

lemma finite_preds_left [simp]: "finite (preds_left edges out c)"
  by (rule finite_subset [of _ "fst ` set edges"]) (force simp: preds_left_def)+

lemma after_preds_snoc:
  "after_preds edges out \<Longrightarrow> preds_left edges out s = {} \<Longrightarrow> after_preds edges (out @ [s])"
  unfolding after_preds_def preds_left_def
  by (auto simp: append_eq_append_conv2 append_eq_Cons_conv Cons_eq_append_conv)

lemma preds_left_snoc:
  "s \<notin> set out \<Longrightarrow> card (preds_left edges (out @ [s]) c) =
     card (preds_left edges out c) - (if (s, c) \<in> set edges then 1 else 0)"
proof -
  assume s: "s \<notin> set out"
  have "preds_left edges (out @ [s]) c = preds_left edges out c - {s}" by (auto simp: preds_left_def)
  moreover have "s \<in> preds_left edges out c \<longleftrightarrow> (s, c) \<in> set edges" using s by (simp add: preds_left_def)
  ultimately show ?thesis by auto
qed

lemma kahn_inv_step:
  assumes inv: "kahn_inv edges nodes incoming ((i, s) # heap) out"
    and nodes: "distinct nodes" "set edges \<subseteq> set nodes \<times> set nodes" "\<forall>c. (c, c) \<notin> set edges"
    and relax: "relax idx (successors idx edges nodes s) incoming heap = (incoming', heap')"
  shows "kahn_inv edges nodes incoming' heap' (out @ [s])"
proof -
  let ?cs = "successors idx edges nodes s"
  have cs: "distinct ?cs" "set ?cs = {c \<in> set nodes. (s, c) \<in> set edges}"
    using nodes(1) by (auto simp: successors_def)
  have counts: "\<forall>c \<in> set nodes. incoming c = int (card (preds_left edges out c))"
    and heap: "set (map snd ((i, s) # heap)) = {c \<in> set nodes. c \<notin> set out \<and> incoming c = 0}" "distinct (map snd ((i, s) # heap))"
    and out: "distinct out" "set out \<subseteq> set nodes" "after_preds edges out"
    using inv unfolding kahn_inv_def by blast+
  have s: "s \<in> set nodes" "s \<notin> set out" "incoming s = 0" using heap(1) by auto
  have done_s: "preds_left edges out s = {}" using counts s by simp
  have spec: "incoming' = (\<lambda>c. if c \<in> set ?cs then incoming c - 1 else incoming c)"
    "mset heap' = mset heap + mset (map (\<lambda>c. (idx c, c)) (filter (\<lambda>c. incoming c = 1) ?cs))"
    using relax_spec [OF cs(1) relax] by blast+
  have counts': "incoming' c = int (card (preds_left edges (out @ [s]) c))" if "c \<in> set nodes" for c
  proof (cases "(s, c) \<in> set edges")
    case True
    then have "s \<in> preds_left edges out c" using s(2) by (simp add: preds_left_def)
    then have "0 < card (preds_left edges out c)" by (auto simp: card_gt_0_iff)
    with True that counts cs(2) show ?thesis by (auto simp: spec(1) preds_left_snoc [OF s(2)])
  next
    case False
    with that counts cs(2) show ?thesis by (auto simp: spec(1) preds_left_snoc [OF s(2)])
  qed
  have succ_later: "c \<notin> set out" if "(s, c) \<in> set edges" for c
  proof
    assume "c \<in> set out"
    then obtain xs ys where "out = xs @ c # ys" by (auto simp: in_set_conv_decomp)
    with out(3) that s(2) show False by (auto simp: after_preds_def)
  qed
  have "mset (map snd heap') = mset (map snd heap @ filter (\<lambda>c. incoming c = 1) ?cs)"
  proof -
    have "mset (map snd heap') = image_mset snd (mset heap')" by simp
    also have "\<dots> = mset (map snd heap @ filter (\<lambda>c. incoming c = 1) ?cs)"
      unfolding spec(2) by (simp add: multiset.map_comp o_def)
    finally show ?thesis .
  qed
  then have snd': "distinct (map snd heap') = distinct (map snd heap @ filter (\<lambda>c. incoming c = 1) ?cs)"
    "set (map snd heap') = set (map snd heap) \<union> {c \<in> set ?cs. incoming c = 1}"
    by (metis mset_eq_imp_distinct_iff) (metis \<open>mset (map snd heap') = _\<close> set_append set_filter set_mset_mset)
  have old: "set (map snd heap) = {c \<in> set nodes. c \<notin> set (out @ [s]) \<and> incoming c = 0}"
    using heap by auto
  have "distinct (map snd heap')"
    using heap(2) cs(1) old by (auto simp: snd'(1))
  moreover have "set (map snd heap') = {c \<in> set nodes. c \<notin> set (out @ [s]) \<and> incoming' c = 0}"
  proof -
    have "incoming c \<noteq> 0" if "c \<in> set ?cs" for c
    proof -
      have "s \<in> preds_left edges out c" using that cs(2) s(2) by (simp add: preds_left_def)
      then have "card (preds_left edges out c) \<noteq> 0" by auto
      with that cs(2) counts show ?thesis by simp
    qed
    then show ?thesis
      unfolding snd'(2) old spec(1) using cs(2) succ_later nodes(3) by auto
  qed
  ultimately show ?thesis
    using counts' out s after_preds_snoc [OF out(3) done_s] by (simp add: kahn_inv_def)
qed

lemma kahn_inv_final:
  assumes "distinct nodes" and "set edges \<subseteq> set nodes \<times> set nodes" and "\<forall>c. (c, c) \<notin> set edges"
    and "kahn_inv edges nodes incoming heap out"
  shows "\<exists>incoming'. kahn_inv edges nodes incoming' [] (kahn idx edges nodes incoming heap out)"
  using assms
proof (induction idx edges nodes incoming heap out rule: kahn.induct)
  case (1 idx edges nodes incoming out)
  then show ?case by auto
next
  case (2 idx edges nodes incoming i s heap out)
  then have s: "s \<notin> set out" by (auto simp: kahn_inv_def)
  obtain incoming' heap' where r: "relax idx (successors idx edges nodes s) incoming heap = (incoming', heap')" by fastforce
  show ?case
    using 2(2) [OF s r [symmetric] 2(3-5)] kahn_inv_step [OF 2(6) 2(3-5) r] s r by simp
qed


lemma distinct_child_edges: "distinct (child_edges str records)"
  by (simp add: child_edges_def)

lemma child_edges_within:
  "set (child_edges str records) \<subseteq> rec_slug ` set records \<times> rec_slug ` set records"
  "(c, c) \<notin> set (child_edges str records)"
  by (auto simp: child_edges_def split: option.splits if_splits)

lemma incoming_of_card: "distinct edges \<Longrightarrow> incoming_of edges c = int (card {p. (p, c) \<in> set edges})"
proof -
  assume d: "distinct edges"
  have "inj_on fst (set (filter (\<lambda>e. snd e = c) edges))" by (auto simp: inj_on_def)
  then have "card (fst ` set (filter (\<lambda>e. snd e = c) edges)) = card (set (filter (\<lambda>e. snd e = c) edges))"
    by (rule card_image)
  also have "\<dots> = length (filter (\<lambda>e. snd e = c) edges)" using d by (intro distinct_card) simp
  also have "fst ` set (filter (\<lambda>e. snd e = c) edges) = {p. (p, c) \<in> set edges}" by force
  finally show ?thesis by (simp add: incoming_of_def)
qed

definition kahn_order :: "(json \<Rightarrow> pystr) \<Rightarrow> 'd page_record list \<Rightarrow> pystr list" where
  "kahn_order str records =
     (let edges = child_edges str records; idx = slug_index records; nodes = remdups (map rec_slug records);
          ready = sort_key idx (filter (\<lambda>s. incoming_of edges s = 0) nodes)
      in kahn idx edges nodes (incoming_of edges) (map (\<lambda>s. (idx s, s)) ready) [])"

lemma kahn_order_inv:
  "\<exists>incoming. kahn_inv (child_edges str records) (remdups (map rec_slug records)) incoming [] (kahn_order str records)"
proof -
  let ?edges = "child_edges str records" and ?nodes = "remdups (map rec_slug records)" and ?idx = "slug_index records"
  let ?ready = "sort_key ?idx (filter (\<lambda>s. incoming_of ?edges s = 0) ?nodes)"
  have "preds_left ?edges [] c = {p. (p, c) \<in> set ?edges}" for c by (simp add: preds_left_def)
  then have "kahn_inv ?edges ?nodes (incoming_of ?edges) (map (\<lambda>s. (?idx s, s)) ?ready) []"
    by (auto simp: kahn_inv_def incoming_of_card [OF distinct_child_edges] after_preds_def o_def)
  moreover have "set ?edges \<subseteq> set ?nodes \<times> set ?nodes" "\<forall>c. (c, c) \<notin> set ?edges"
    using child_edges_within [where str = str and records = records] by auto
  ultimately show ?thesis
    using kahn_inv_final [of ?nodes ?edges] by (simp add: kahn_order_def Let_def)
qed

lemma order_records_kahn:
  "order_records_with_children str records =
     (if child_edges str records = [] then records
      else map (\<lambda>s. the (by_slug records s)) (kahn_order str records @
        filter (\<lambda>s. s \<notin> set (kahn_order str records)) (sort_key (slug_index records) (remdups (map rec_slug records)))))"
  by (simp add: order_records_with_children_def kahn_order_def Let_def)

lemma by_slug_record:
  assumes "distinct (map rec_slug records)" and "r \<in> set records"
  shows "by_slug records (rec_slug r) = Some r"
proof -
  have "distinct (map fst (rev (map (\<lambda>r. (rec_slug r, r)) records)))"
    using assms(1) by (simp add: rev_map [symmetric] o_def)
  moreover have "(rec_slug r, r) \<in> set (rev (map (\<lambda>r. (rec_slug r, r)) records))" using assms(2) by auto
  ultimately show ?thesis unfolding by_slug_def by (rule map_of_is_SomeI)
qed

lemma order_slugs:
  fixes str :: "json \<Rightarrow> pystr" and records :: "'d page_record list"
  assumes "distinct (map rec_slug records)"
  defines "rest \<equiv> filter (\<lambda>s. s \<notin> set (kahn_order str records)) (sort_key (slug_index records) (remdups (map rec_slug records)))"
  shows "mset (kahn_order str records @ rest) = mset (map rec_slug records)"
proof -
  obtain incoming where inv: "kahn_inv (child_edges str records) (remdups (map rec_slug records)) incoming [] (kahn_order str records)"
    using kahn_order_inv by blast
  then have out: "distinct (kahn_order str records)" "set (kahn_order str records) \<subseteq> rec_slug ` set records"
    by (auto simp: kahn_inv_def)
  have "distinct rest" by (simp add: rest_def)
  moreover have "set rest = rec_slug ` set records - set (kahn_order str records)" by (auto simp: rest_def)
  ultimately have "distinct (kahn_order str records @ rest)" "set (kahn_order str records @ rest) = set (map rec_slug records)"
    using out by auto
  with assms(1) show ?thesis by (metis set_eq_iff_mset_eq_distinct)
qed

lemma order_records_permutes:
  assumes "distinct (map rec_slug records)"
  shows "mset (order_records_with_children str records) = mset records"
proof (cases "child_edges str records = []")
  case False
  let ?f = "\<lambda>s. the (by_slug records s)"
  have "mset (order_records_with_children str records) = image_mset ?f (mset (map rec_slug records))"
    unfolding order_slugs [OF assms, of str, symmetric] using False by (simp only: order_records_kahn if_False mset_map)
  also have "\<dots> = mset (map (?f \<circ> rec_slug) records)" by (simp add: multiset.map_comp)
  also have "map (?f \<circ> rec_slug) records = records"
    using by_slug_record [OF assms] by (intro map_idI) simp
  finally show ?thesis .
qed (simp add: order_records_kahn)

lemma order_records_slugs:
  assumes "distinct (map rec_slug records)" and "child_edges str records \<noteq> []"
  shows "map rec_slug (order_records_with_children str records) = kahn_order str records @
     filter (\<lambda>s. s \<notin> set (kahn_order str records)) (sort_key (slug_index records) (remdups (map rec_slug records)))"
proof -
  let ?slugs = "kahn_order str records @
     filter (\<lambda>s. s \<notin> set (kahn_order str records)) (sort_key (slug_index records) (remdups (map rec_slug records)))"
  have "rec_slug (the (by_slug records s)) = s" if "s \<in> set ?slugs" for s
  proof -
    have "s \<in> set (map rec_slug records)" using that order_slugs [OF assms(1), of str] by (metis set_mset_mset)
    then show ?thesis using by_slug_record [OF assms(1)] by auto
  qed
  then have "map (rec_slug \<circ> (\<lambda>s. the (by_slug records s))) ?slugs = ?slugs" by (intro map_idI) simp
  then show ?thesis using assms(2) by (simp add: order_records_kahn)
qed

lemma kahn_order_complete:
  assumes "acyclic (set (child_edges str records))"
  shows "set (kahn_order str records) = rec_slug ` set records"
proof (rule ccontr)
  let ?E = "set (child_edges str records)" and ?out = "kahn_order str records"
  assume ne: "set ?out \<noteq> rec_slug ` set records"
  obtain incoming where inv: "kahn_inv (child_edges str records) (remdups (map rec_slug records)) incoming [] ?out"
    using kahn_order_inv by blast
  let ?Q = "rec_slug ` set records - set ?out"
  from ne inv have "?Q \<noteq> {}" by (auto simp: kahn_inv_def)
  moreover have "wf ?E" using assms by (simp add: finite_acyclic_wf)
  ultimately obtain z where z: "z \<in> ?Q" "\<And>y. (y, z) \<in> ?E \<Longrightarrow> y \<notin> ?Q" by (metis all_not_in_conv wfE_min)
  then have "preds_left (child_edges str records) ?out z = {}"
    using child_edges_within(1) [of str records] by (auto simp: preds_left_def)
  then have "incoming z = 0" using inv z(1) by (auto simp: kahn_inv_def)
  with inv z(1) show False by (auto simp: kahn_inv_def)
qed

text \<open>C32: Where the declared children contain no cycle, every page comes after each page that declares it as a child.\<close>

theorem parents_before_children:
  assumes "distinct (map rec_slug records)" and "acyclic (set (child_edges str records))"
    and "(p, c) \<in> set (child_edges str records)"
  shows "\<exists>us vs. map rec_slug (order_records_with_children str records) = us @ c # vs \<and> p \<in> set us"
proof -
  obtain incoming where inv: "kahn_inv (child_edges str records) (remdups (map rec_slug records)) incoming [] (kahn_order str records)"
    using kahn_order_inv by blast
  have "c \<in> set (kahn_order str records)"
    using kahn_order_complete [OF assms(2)] child_edges_within(1) assms(3) by blast
  then obtain us ws where k: "kahn_order str records = us @ c # ws" by (meson split_list)
  then have "p \<in> set us" using inv assms(3) by (auto simp: kahn_inv_def after_preds_def)
  moreover have "child_edges str records \<noteq> []" using assms(3) by auto
  ultimately show ?thesis using order_records_slugs [OF assms(1)] k by (metis append_Cons append_assoc)
qed


subsection \<open>What registration guarantees\<close>

datatype 'd setup_step = DecoratePage "'d page_decl" | DiscoverPages "exc + 'd page_module list"

text \<open>An app's set-up; an exception leaves the pages registered so far.\<close>

fun run_setup :: "'d setup_step list \<Rightarrow> 'd fluxlit_app \<Rightarrow> 'd fluxlit_app" where
  "run_setup [] app = app"
| "run_setup (DecoratePage d # steps) app =
     run_setup steps (case register_streamlit_page d app of Inl e \<Rightarrow> app | Inr app' \<Rightarrow> app')"
| "run_setup (DiscoverPages found # steps) app = run_setup steps (snd (discover_streamlit_pages found app))"

definition page_checked :: "'d fluxlit_app \<Rightarrow> 'd page_record \<Rightarrow> bool" where
  "page_checked app r \<longleftrightarrow>
     (fs_strict_page_signatures (fa_settings app) \<longrightarrow> validate_strict_page_signature (pr_fn r) = Inr ()) \<and>
     validate_session_store_on_page app (pr_fn r) = Inr ()"

definition app_inv :: "'d fluxlit_app \<Rightarrow> bool" where
  "app_inv app \<longleftrightarrow> distinct (map rec_slug (fa_pages app)) \<and> (\<forall>r \<in> set (fa_pages app). page_checked app r)"

definition same_app :: "'d fluxlit_app \<Rightarrow> 'd fluxlit_app \<Rightarrow> bool" where
  "same_app a b \<longleftrightarrow> fa_settings a = fa_settings b \<and> fa_has_store a = fa_has_store b"

lemma page_checked_same: "same_app a b \<Longrightarrow> page_checked a = page_checked b"
  by (simp add: fun_eq_iff page_checked_def same_app_def validate_session_store_on_page_def)

lemma register_page_inv:
  assumes "app_inv app" and "register_streamlit_page d app = Inr app'"
  shows "app_inv app' \<and> same_app app' app"
proof -
  have checks: "fs_strict_page_signatures (fa_settings app) \<Longrightarrow> validate_strict_page_signature (pd_fn d) = Inr ()"
    "validate_session_store_on_page app (pd_fn d) = Inr ()" "page_slug (pd_path d) \<notin> rec_slug ` set (fa_pages app)"
    using assms(2) by (auto simp: register_streamlit_page_def bind_exc_Inr_iff list_ex_iff split: if_splits)
  obtain r where r: "app' = app\<lparr>fa_pages := fa_pages app @ [r]\<rparr>" "pr_path r = pd_path d" "pr_fn r = pd_fn d"
    using assms(2) by (auto simp: register_streamlit_page_def bind_exc_Inr_iff split: if_splits)
  have same: "same_app app' app" by (simp add: r(1) same_app_def)
  have "page_checked app r" using checks(1,2) r(3) by (simp add: page_checked_def)
  then show ?thesis
    using same assms(1) checks(3) page_checked_same [OF same] by (auto simp: app_inv_def r(1,2))
qed

lemma same_app_trans: "same_app a b \<Longrightarrow> same_app b c \<Longrightarrow> same_app a c"
  by (simp add: same_app_def)

lemma register_all_inv:
  "app_inv app \<Longrightarrow> app_inv (snd (register_all ds app)) \<and> same_app (snd (register_all ds app)) app"
proof (induction ds arbitrary: app)
  case Nil
  then show ?case by (simp add: same_app_def)
next
  case (Cons d ds)
  show ?case
  proof (cases "register_streamlit_page d app")
    case (Inr app')
    with Cons register_page_inv [OF Cons.prems Inr] show ?thesis by (auto intro: same_app_trans)
  qed (use Cons.prems in \<open>simp add: same_app_def\<close>)
qed

lemma register_modules_inv:
  "app_inv app \<Longrightarrow> app_inv (snd (register_modules ms app)) \<and> same_app (snd (register_modules ms app)) app"
proof (induction ms arbitrary: app)
  case Nil
  then show ?case by (simp add: same_app_def)
next
  case (Cons m ms)
  have reg: "app_inv (snd (register_all ds app)) \<and> same_app (snd (register_all ds app)) app" for ds
    using Cons.prems by (rule register_all_inv)
  show ?case
  proof (cases "mo_register m")
    case (Some ds)
    obtain e app' where r: "register_all ds app = (e, app')" by fastforce
    with reg [of ds] have "app_inv app'" "same_app app' app" by auto
    with Cons r Some show ?thesis by (cases e) (auto intro: same_app_trans)
  qed (use Cons in auto)
qed

lemma discover_inv:
  "app_inv app \<Longrightarrow> app_inv (snd (discover_streamlit_pages found app)) \<and> same_app (snd (discover_streamlit_pages found app)) app"
proof (cases found)
  case (Inr mods)
  assume "app_inv app"
  then have inv: "app_inv (snd (register_modules (sort_key mo_name mods) app))"
    "same_app (snd (register_modules (sort_key mo_name mods) app)) app" using register_modules_inv by blast+
  have sorted: "app_inv (a\<lparr>fa_pages := sort_key f (fa_pages a)\<rparr>)" if "app_inv a" for a :: "'a fluxlit_app" and f :: "'a page_record \<Rightarrow> pystr \<times> pystr"
  proof -
    have "mset (map rec_slug (sort_key f (fa_pages a))) = mset (map rec_slug (fa_pages a))" by simp
    then have "distinct (map rec_slug (sort_key f (fa_pages a)))"
      using that by (metis app_inv_def mset_eq_imp_distinct_iff)
    moreover have "page_checked (a\<lparr>fa_pages := sort_key f (fa_pages a)\<rparr>) = page_checked a"
      by (rule page_checked_same) (simp add: same_app_def)
    ultimately show ?thesis using that by (simp add: app_inv_def)
  qed
  obtain e app' where r: "register_modules (sort_key mo_name mods) app = (e, app')" by fastforce
  with inv have "app_inv app'" "same_app app' app" by auto
  then show ?thesis using Inr r sorted by (cases e) (auto simp: discover_streamlit_pages_def same_app_def)
qed (simp add: discover_streamlit_pages_def same_app_def)

lemma run_setup_inv: "app_inv app \<Longrightarrow> app_inv (run_setup steps app) \<and> same_app (run_setup steps app) app"
proof (induction steps app rule: run_setup.induct)
  case (1 app)
  then show ?case by (simp add: same_app_def)
next
  case (2 d steps app)
  show ?case
  proof (cases "register_streamlit_page d app")
    case (Inr app')
    with 2 register_page_inv [OF 2(2) Inr] show ?thesis by (auto intro: same_app_trans)
  qed (use 2 in simp)
next
  case (3 found steps app)
  with discover_inv [of app found] show ?case by (auto intro: same_app_trans)
qed

definition new_app :: "fluxlit_settings \<Rightarrow> bool \<Rightarrow> 'd fluxlit_app" where
  "new_app fs store = \<lparr>fa_settings = fs, fa_has_store = store, fa_pages = []\<rparr>"

lemma new_app_inv: "app_inv (new_app fs store)"
  by (simp add: app_inv_def new_app_def)

lemma override_record_sel [simp]:
  "pr_path (override_record ov r) = pr_path r" "pr_fn (override_record ov r) = pr_fn r"
  by (simp_all add: override_record_def)

lemma nav_records_mset:
  assumes "distinct (map rec_slug pages)"
  shows "mset (map (\<lambda>r. (pr_path r, pr_fn r)) (nav_records str nav pages)) = mset (map (\<lambda>r. (pr_path r, pr_fn r)) pages)"
proof -
  let ?f = "\<lambda>r :: 'a page_record. (pr_path r, pr_fn r)"
  define rs where "rs = (case nav of None \<Rightarrow> pages | Some order \<Rightarrow> if order = [] then pages else sort_key (navigation_sort_key order) pages)"
  have rs: "mset rs = mset pages" by (simp add: rs_def split: option.splits)
  then have "mset (map rec_slug rs) = mset (map rec_slug pages)" by simp
  then have "distinct (map rec_slug rs)" using assms by (metis mset_eq_imp_distinct_iff)
  from order_records_permutes [OF this, of str] rs
  have "mset (order_records_with_children str rs) = mset pages" by simp
  moreover have "map ?f (nav_records str nav pages) = map ?f (order_records_with_children str rs)"
    by (simp add: nav_records_def apply_children_overrides_def Let_def rs_def)
  ultimately show ?thesis by simp
qed

lemma nav_records_slugs:
  assumes "distinct (map rec_slug pages)"
  shows "distinct (map rec_slug (nav_records str nav pages))"
proof -
  have "image_mset (\<lambda>x. page_slug (fst x)) (mset (map (\<lambda>r. (pr_path r, pr_fn r)) (nav_records str nav pages)))
      = image_mset (\<lambda>x. page_slug (fst x)) (mset (map (\<lambda>r. (pr_path r, pr_fn r)) pages))"
    by (simp only: nav_records_mset [OF assms])
  then have "mset (map rec_slug (nav_records str nav pages)) = mset (map rec_slug pages)"
    by (simp add: multiset.map_comp o_def)
  with assms show ?thesis by (metis mset_eq_imp_distinct_iff)
qed

lemma run_setup_slugs: "distinct (map rec_slug (fa_pages (run_setup steps (new_app fs store))))"
  using run_setup_inv [OF new_app_inv] by (auto simp: app_inv_def)

text \<open>C33: However an app's pages were declared, discovered and ordered, the navigation shows each registered page exactly
  once with its handler, and no two of them share a URL segment.\<close>

theorem nav_shows_each_page_once:
  "mset (map (\<lambda>r. (pr_path r, pr_fn r)) (nav_records str nav (fa_pages (run_setup steps (new_app fs store)))))
     = mset (map (\<lambda>r. (pr_path r, pr_fn r)) (fa_pages (run_setup steps (new_app fs store)))) \<and>
   distinct (map rec_slug (nav_records str nav (fa_pages (run_setup steps (new_app fs store)))))"
  using nav_records_mset [OF run_setup_slugs] nav_records_slugs [OF run_setup_slugs] by blast


lemma nav_record_registered:
  assumes "r \<in> set (nav_records str nav (fa_pages (run_setup steps (new_app fs store))))"
  shows "\<exists>r' \<in> set (fa_pages (run_setup steps (new_app fs store))). pr_fn r' = pr_fn r"
proof -
  have inv: "distinct (map rec_slug (fa_pages (run_setup steps (new_app fs store))))"
    using run_setup_inv [OF new_app_inv] by (auto simp: app_inv_def)
  have "(pr_path r, pr_fn r) \<in># mset (map (\<lambda>r. (pr_path r, pr_fn r)) (nav_records str nav (fa_pages (run_setup steps (new_app fs store)))))"
    using assms by auto
  then show ?thesis unfolding nav_records_mset [OF inv] by auto
qed


definition sample_decl :: "pystr \<Rightarrow> json list \<Rightarrow> nat page_decl" where
  "sample_decl path children = \<lparr>pd_path = path, pd_title = None, pd_icon = None, pd_tags = [],
     pd_page_meta = Some (empty_meta\<lparr>pm_children := children\<rparr>), pd_fn = sample_handler\<rparr>"

definition sample_str :: "json \<Rightarrow> pystr" where
  "sample_str v = (case v of JStr s \<Rightarrow> s | _ \<Rightarrow> [])"

definition strict_settings :: fluxlit_settings where
  "strict_settings = default_settings\<lparr>fs_strict_page_signatures := True\<rparr>"

lemma sample_slugs: "page_slug (u ''/a'') = u ''a''" "page_slug (u ''/b'') = u ''b''" "page_slug (u ''/c'') = u ''c''"
  by (simp_all add: page_slug_def strip_slash_def pystr_eval)

lemma sample_registration:
  "\<exists>r. run_setup [DecoratePage (sample_decl (u ''/a'') [])] (new_app strict_settings False) = (new_app strict_settings False)\<lparr>fa_pages := [r]\<rparr>
     \<and> pr_fn r = sample_handler \<and> pr_path r = u ''/a''"
proof -
  have "validate_session_store_on_page (new_app strict_settings False) sample_handler = Inr ()"
    by (simp add: validate_session_store_on_page_def new_app_def sample_handler_def)
  then show ?thesis
    by (simp add: register_streamlit_page_def sample_decl_def sample_strict new_app_def strict_settings_def)
qed


definition sample_records :: "nat page_record list" where
  "sample_records = map (\<lambda>(p, cs). \<lparr>pr_path = p, pr_title = p, pr_fn = sample_handler, pr_tags = [], pr_description = [],
      pr_icon = None, pr_page_meta = Some (empty_meta\<lparr>pm_children := cs\<rparr>)\<rparr>)
     [(u ''/a'', []), (u ''/b'', [JObj [(u ''path'', JStr (u ''/a''))], JObj [(u ''url_path'', JStr (u ''nowhere''))]]), (u ''/c'', [])]"

lemma sample_edges: "child_edges sample_str sample_records = [(u ''b'', u ''a'')]"
proof -
  have "page_slug (u ''nowhere'') = u ''nowhere''" by (simp add: page_slug_def strip_slash_def pystr_eval)
  then show ?thesis
    by (simp add: child_edges_def sample_records_def children_of_def child_ref_def get_json_def sample_str_def sample_slugs empty_meta_def)
qed

theorem parents_before_children_witness:
  "\<exists>us vs. map rec_slug (order_records_with_children sample_str sample_records) = us @ u ''a'' # vs \<and> u ''b'' \<in> set us"
proof -
  have "distinct (map rec_slug sample_records)" by (simp add: sample_records_def sample_slugs)
  moreover have "acyclic (set (child_edges sample_str sample_records))"
    by (auto simp: sample_edges acyclic_def trancl_insert)
  ultimately show ?thesis
    using parents_before_children [of sample_records sample_str "u ''b''" "u ''a''"] by (simp add: sample_edges)
qed

lemma strip_slash_idem [simp]: "strip_slash (strip_slash s) = strip_slash s"
  by (simp add: strip_slash_def)

lemma page_slug_home: "page_slug (u ''home'') = u ''home''"
  by (simp add: page_slug_def strip_slash_def pystr_eval)

lemma page_slug_idem [simp]: "page_slug (page_slug p) = page_slug p"
  using page_slug_home by (cases "strip_slash p = []") (simp_all add: page_slug_def or_str_def)

lemma row_matches_slug: "row_matches wanted (path, title) \<Longrightarrow> wanted = title \<or> page_slug wanted = page_slug path"
proof -
  assume "row_matches wanted (path, title)"
  then consider "wanted = title" | "wanted = path" | "wanted = page_slug path" | "strip_slash wanted = strip_slash path"
    by (auto simp: row_matches_def)
  then show ?thesis
  proof cases
    case 4
    then show ?thesis by (simp add: page_slug_def)
  qed simp_all
qed

text \<open>The path or the URL segment of a page in the \<open>page\<close> query parameter opens that page, unless another page
  bears it as its title: titles are compared too, and the first match in navigation order wins.\<close>

theorem deep_link_opens_page:
  assumes "distinct (map rec_slug records)" and "r \<in> set records"
    and "wanted = pr_path r \<or> wanted = rec_slug r" and "strip wanted = wanted" and "wanted \<noteq> []"
    and "map_of params key = Some wanted" and "wanted \<notin> pr_title ` (set records - {r})"
  shows "match_nav_page params (map (\<lambda>r. (pr_path r, pr_title r)) records) key = Some (pr_path r, pr_title r)"
proof -
  obtain us vs where split: "records = us @ r # vs" using assms(2) by (meson split_list)
  have "\<not> row_matches wanted (pr_path q, pr_title q)" if "q \<in> set us" for q
  proof
    assume "row_matches wanted (pr_path q, pr_title q)"
    then have "wanted = pr_title q \<or> page_slug wanted = rec_slug q" by (rule row_matches_slug)
    moreover have "rec_slug q \<noteq> rec_slug r"
    proof
      assume "rec_slug q = rec_slug r"
      moreover have "rec_slug q \<in> rec_slug ` set us" using that by blast
      ultimately show False using assms(1) by (simp add: split)
    qed
    moreover have "page_slug wanted = rec_slug r" using assms(3) by auto
    moreover have "q \<in> set records - {r}" using that assms(1) by (auto simp: split)
    ultimately show False using assms(7) by auto
  qed
  then have none: "find (row_matches wanted) (map (\<lambda>r. (pr_path r, pr_title r)) us) = None"
    by (auto simp: find_None_iff)
  have "row_matches wanted (pr_path r, pr_title r)" using assms(3) by (auto simp: row_matches_def)
  with none have "find (row_matches wanted) (map (\<lambda>r. (pr_path r, pr_title r)) records) = Some (pr_path r, pr_title r)"
    unfolding split by (induction us) (auto split: if_splits)
  then show ?thesis using assms(4-6) by (simp add: match_nav_page_def Let_def)
qed

theorem deep_link_opens_page_witness:
  "match_nav_page [(u ''page'', u ''b'')] (map (\<lambda>r. (pr_path r, pr_title r)) sample_records) (u ''page'') = Some (u ''/b'', u ''/b'')"
proof -
  have s: "strip (u ''b'') = u ''b''" by (simp add: pystr_eval)
  have d: "distinct (map rec_slug sample_records)" by (simp add: sample_records_def sample_slugs)
  have r: "sample_records ! 1 \<in> set sample_records" by (simp add: sample_records_def)
  have p: "pr_path (sample_records ! 1) = u ''/b''" "pr_title (sample_records ! 1) = u ''/b''" by (simp_all add: sample_records_def)
  have n: "u ''b'' \<notin> pr_title ` (set sample_records - {sample_records ! 1})" by (auto simp: sample_records_def)
  have w: "u ''b'' = pr_path (sample_records ! 1) \<or> u ''b'' = rec_slug (sample_records ! 1)" unfolding p sample_slugs by simp
  have "u ''b'' \<noteq> []" "map_of [(u ''page'', u ''b'')] (u ''page'') = Some (u ''b'')" by simp_all
  from deep_link_opens_page [OF d r w s this n] show ?thesis unfolding p .
qed

end
