(* ===== verification/Process_Control.thy ===== *)
theory Process_Control
  imports Url_Session
begin

section \<open>Project configuration, the sidecar's command line and process control\<close>

text \<open>
  Models \<open>config/project.py\<close>, \<open>runtime/resolve.py\<close>, \<open>runtime/import_target.py\<close> (the internal API URL),
  \<open>runtime/streamlit_proc.py\<close>, \<open>runtime/wait_tcp.py\<close>, \<open>runtime/upstream_state.py\<close> and
  \<open>runtime/process_control.py\<close>. The environment is a dictionary, the file system a map from paths to
  contents; the TOML parser and \<open>ipaddress.ip_address\<close> are arguments. What the operating system answers
  (is the process alive, does a signal arrive, does a wait time out) is an argument of each operation, in the
  order in which the code asks.
\<close>

subsection \<open>Python's \<open>int(str)\<close>\<close>

fun digits_us :: "bool \<Rightarrow> pystr \<Rightarrow> bool" where
  "digits_us after [] = after"
| "digits_us after (c # cs) =
     (if 48 \<le> c \<and> c \<le> 57 then digits_us True cs else c = 95 \<and> after \<and> cs \<noteq> [] \<and> digits_us False cs)"

text \<open>\<open>py_int\<close> is exact on ASCII text: blanks around, a sign, digits with single underscores between them.\<close>

definition py_int :: "pystr \<Rightarrow> exc + int" where
  "py_int raw =
     (let s = strip raw;
          (sign, ds) = (if s \<noteq> [] \<and> hd s = 45 then (- 1, tl s) else if s \<noteq> [] \<and> hd s = 43 then (1, tl s) else (1, s))
      in if digits_us False ds then Inr (sign * int (digits_value (filter (\<lambda>c. c \<noteq> 95) ds))) else Inl ValueError)"

lemma digits_us_all: "\<forall>c \<in> set s. 48 \<le> c \<and> c \<le> 57 \<Longrightarrow> digits_us b s \<longleftrightarrow> s \<noteq> [] \<or> b"
  by (induction s arbitrary: b) auto

lemma strip_str_of_nat: "strip (str_of_nat n) = str_of_nat n"
proof -
  have "\<not> is_space c" if "c \<in> set (str_of_nat n)" for c
    using str_of_nat_digits [of n] that by (fastforce simp: is_space_def)
  then show ?thesis
    using str_of_nat_digits [of n] unfolding strip_def by (intro strip_by_id) simp
qed

lemma py_int_str_of_nat: "py_int (str_of_nat n) = Inr (int n)"
proof -
  have c: "\<forall>c \<in> set (str_of_nat n). 48 \<le> c \<and> c \<le> 57" "str_of_nat n \<noteq> []" using str_of_nat_digits by blast+
  then have "hd (str_of_nat n) \<noteq> 45" "hd (str_of_nat n) \<noteq> 43" using hd_in_set [OF c(2)] by fastforce+
  moreover have "filter (\<lambda>c. c \<noteq> 95) (str_of_nat n) = str_of_nat n" using c(1) by (intro filter_True) auto
  ultimately show ?thesis
    using c by (simp add: py_int_def strip_str_of_nat digits_us_all)
qed

subsection \<open>The project file\<close>

record project_config =
  pc_target :: "pystr option"
  pc_gateway_host :: "pystr option"
  pc_gateway_port :: "int option"
  pc_log_level :: "pystr option"
  pc_api_mount_path :: "pystr option"
  pc_root_path :: "pystr option"

definition str_value :: "json dict \<Rightarrow> string \<Rightarrow> pystr option" where
  "str_value raw k = (case map_of raw (u k) of Some (JStr s) \<Rightarrow> Some s | _ \<Rightarrow> None)"

text \<open>\<open>int(float)\<close> truncates towards zero; \<open>int\<close> of a table or array raises \<open>TypeError\<close>.\<close>

definition port_value :: "json dict \<Rightarrow> int option" where
  "port_value raw =
     (case map_of raw (u ''gateway_port'') of
        Some (JInt i) \<Rightarrow> Some i
      | Some (JFloat r) \<Rightarrow> Some (if r < 0 then - \<lfloor>- r\<rfloor> else \<lfloor>r\<rfloor>)
      | Some (JStr s) \<Rightarrow> (case py_int s of Inr i \<Rightarrow> Some i | Inl e \<Rightarrow> None)
      | _ \<Rightarrow> None)"

definition parse_table :: "json dict \<Rightarrow> project_config" where
  "parse_table raw =
     \<lparr>pc_target = str_value raw ''target'', pc_gateway_host = str_value raw ''gateway_host'', pc_gateway_port = port_value raw,
      pc_log_level = str_value raw ''log_level'', pc_api_mount_path = str_value raw ''api_mount_path'',
      pc_root_path = str_value raw ''root_path''\<rparr>"

text \<open>\<open>fluxlit_toml\<close> and \<open>pyproject_toml\<close> are the texts of the two files where they exist, \<open>toml_loads\<close> the parser
  (\<open>None\<close> for a decoding error).\<close>

definition load_project_config :: "(pystr \<Rightarrow> json dict option) \<Rightarrow> pystr option \<Rightarrow> pystr option \<Rightarrow> project_config option" where
  "load_project_config toml_loads fluxlit_toml pyproject_toml =
     (case fluxlit_toml of
        Some text \<Rightarrow> map_option parse_table (toml_loads text)
      | None \<Rightarrow>
          (case pyproject_toml of
             None \<Rightarrow> None
           | Some text \<Rightarrow>
               (case toml_loads text of
                  None \<Rightarrow> None
                | Some data \<Rightarrow>
                    (case map_of data (u ''tool'') of
                       Some (JObj tool) \<Rightarrow> (case map_of tool (u ''fluxlit'') of Some (JObj section) \<Rightarrow> Some (parse_table section) | _ \<Rightarrow> None)
                     | _ \<Rightarrow> None))))"

definition resolve_target :: "pystr option \<Rightarrow> project_config option \<Rightarrow> pystr" where
  "resolve_target cli_target pc =
     (case cli_target of
        Some t \<Rightarrow> t
      | None \<Rightarrow> (case pc of None \<Rightarrow> u ''app:app'' | Some c \<Rightarrow> or_str (opt_str (pc_target c)) (u ''app:app'')))"

definition first_str :: "pystr option \<Rightarrow> (project_config \<Rightarrow> pystr option) \<Rightarrow> project_config option \<Rightarrow> pystr \<Rightarrow> pystr" where
  "first_str cli sel pc fallback =
     (let chosen = (case cli of Some s \<Rightarrow> Some s | None \<Rightarrow> (case pc of None \<Rightarrow> None | Some c \<Rightarrow> sel c))
      in or_str (opt_str chosen) fallback)"

definition resolve_binding ::
  "pystr option \<Rightarrow> int option \<Rightarrow> pystr option \<Rightarrow> project_config option \<Rightarrow> pystr \<Rightarrow> int \<Rightarrow> pystr \<Rightarrow> pystr \<times> int \<times> pystr" where
  "resolve_binding cli_host cli_port cli_log_level pc settings_host settings_port settings_log_level =
     (let port = (case cli_port of Some p \<Rightarrow> Some p | None \<Rightarrow> (case pc of None \<Rightarrow> None | Some c \<Rightarrow> pc_gateway_port c))
      in (first_str cli_host pc_gateway_host pc settings_host,
          (case port of Some p \<Rightarrow> if p = 0 then settings_port else p | None \<Rightarrow> settings_port),
          first_str cli_log_level pc_log_level pc settings_log_level))"

definition resolve_import_target :: "pystr option \<Rightarrow> pystr dict \<Rightarrow> project_config option \<Rightarrow> pystr" where
  "resolve_import_target import_target env pc =
     (if opt_str import_target \<noteq> [] then strip (opt_str import_target)
      else (let env_t = strip (opt_str (map_of env (u ''FLUXLIT_APP''))) in if env_t \<noteq> [] then env_t else resolve_target None pc))"

definition gateway_bind_for_streamlit_child :: "fluxlit_settings \<Rightarrow> pystr dict \<Rightarrow> project_config option \<Rightarrow> pystr \<times> int" where
  "gateway_bind_for_streamlit_child fs env pc =
     (let h0 = strip (opt_str (map_of env (u ''FLUXLIT_GATEWAY_HOST'')));
          h1 = (if h0 = [] then (case pc of Some c \<Rightarrow> strip (opt_str (pc_gateway_host c)) | None \<Rightarrow> []) else h0);
          host = (if h1 = [] then strip (fs_gateway_host fs) else h1);
          port_s = strip (opt_str (map_of env (u ''FLUXLIT_GATEWAY_PORT'')));
          port = (if port_s \<noteq> [] then (case py_int port_s of Inr p \<Rightarrow> p | Inl e \<Rightarrow> fs_gateway_port fs)
                  else (case pc of Some c \<Rightarrow> (case pc_gateway_port c of Some p \<Rightarrow> p | None \<Rightarrow> fs_gateway_port fs)
                        | None \<Rightarrow> fs_gateway_port fs))
      in (host, port))"

datatype ip_addr = IPv4 pystr bool | IPv6 pystr bool

text \<open>\<open>ip_address\<close> gives the canonical text and whether the address is unspecified.\<close>

definition loopback_http_host_for_client :: "(pystr \<Rightarrow> ip_addr option) \<Rightarrow> pystr \<Rightarrow> pystr" where
  "loopback_http_host_for_client ip_address bind_host =
     (let h = strip bind_host
      in if h = [] \<or> h = u ''0.0.0.0'' then u ''127.0.0.1''
         else (let bare = (if startswith h (u ''['') \<and> h \<noteq> [] \<and> last h = 93 then butlast (tl h) else h)
               in case ip_address bare of
                    None \<Rightarrow> h
                  | Some (IPv4 text unspecified) \<Rightarrow> if unspecified then u ''127.0.0.1'' else text
                  | Some (IPv6 text unspecified) \<Rightarrow> if unspecified then u ''127.0.0.1'' else u ''['' @ text @ u '']''))"

definition internal_api_base_url :: "(pystr \<Rightarrow> ip_addr option) \<Rightarrow> pystr \<Rightarrow> int \<Rightarrow> pystr \<Rightarrow> pystr" where
  "internal_api_base_url ip_address bind_host port api_mount_path =
     urlunparse \<lparr>u_scheme = u ''http'', u_netloc = loopback_http_host_for_client ip_address bind_host @ u '':'' @ str_of_int port,
       u_path = normalize_api_mount_path api_mount_path, u_params = [], u_query = [], u_fragment = []\<rparr>"

subsection \<open>The sidecar's command line and environment\<close>

definition owned_flags :: "pystr list" where
  "owned_flags = map u [''--server.port'', ''--server.address'', ''--server.baseUrlPath'']"

definition owned_flag :: "pystr \<Rightarrow> bool" where
  "owned_flag a \<longleftrightarrow> list_ex (\<lambda>f. startswith a (f @ u ''='')) owned_flags \<or> a \<in> set owned_flags"

fun validate_streamlit_extra_cli_args :: "pystr list \<Rightarrow> exc + unit" where
  "validate_streamlit_extra_cli_args [] = Inr ()"
| "validate_streamlit_extra_cli_args (a # as) = (if owned_flag a then Inl ValueError else validate_streamlit_extra_cli_args as)"

definition build_streamlit_cmd :: "pystr \<Rightarrow> pystr \<Rightarrow> int \<Rightarrow> pystr \<Rightarrow> pystr list \<Rightarrow> exc + pystr list" where
  "build_streamlit_cmd executable runner port base_url_path extra_cli_args =
     bind_exc (validate_streamlit_extra_cli_args extra_cli_args) (\<lambda>_.
       let m = normalize_root_mount base_url_path
       in Inr ([executable, u ''-m'', u ''streamlit'', u ''run'', runner, u ''--server.headless'', u ''true'',
            u ''--server.port'', str_of_int port, u ''--server.address'', u ''127.0.0.1'',
            u ''--server.enableXsrfProtection'', u ''false'', u ''--server.enableCORS'', u ''false'',
            u ''--browser.gatherUsageStats'', u ''false''] @
          (if m \<noteq> [] then [u ''--server.baseUrlPath'', m] else []) @ extra_cli_args))"

definition build_streamlit_env :: "pystr dict \<Rightarrow> pystr \<Rightarrow> pystr \<Rightarrow> pystr \<Rightarrow> pystr dict" where
  "build_streamlit_env environ target api_prefix internal_api_base =
     AList.update (u ''FLUXLIT_INTERNAL_API_BASE'') internal_api_base
       (AList.update (u ''FLUXLIT_API_PREFIX'') api_prefix (AList.update (u ''FLUXLIT_APP'') target environ))"

subsection \<open>The upstream URL in file and environment\<close>

record host_state =
  ho_environ :: "pystr dict"
  ho_files :: "pystr dict"

definition upstream_file_env :: pystr where
  "upstream_file_env = u ''FLUXLIT_STREAMLIT_UPSTREAM_FILE''"

definition upstream_env :: pystr where
  "upstream_env = u ''FLUXLIT_STREAMLIT_UPSTREAM''"

definition read_streamlit_upstream_url :: "host_state \<Rightarrow> pystr" where
  "read_streamlit_upstream_url s =
     (let fp = strip (opt_str (map_of (ho_environ s) upstream_file_env));
          raw = (if fp \<noteq> [] then strip (opt_str (map_of (ho_files s) fp)) else [])
      in if raw \<noteq> [] then rstrip_slash raw else rstrip_slash (strip (opt_str (map_of (ho_environ s) upstream_env))))"

definition write_streamlit_upstream_state :: "pystr \<Rightarrow> pystr \<Rightarrow> host_state \<Rightarrow> pystr \<times> host_state" where
  "write_streamlit_upstream_state name url s =
     (name, s\<lparr>ho_files := AList.update name (strip url) (ho_files s),
              ho_environ := AList.update upstream_file_env name (AList.update upstream_env (strip url) (ho_environ s))\<rparr>)"

definition update_streamlit_upstream_file :: "pystr \<Rightarrow> pystr \<Rightarrow> host_state \<Rightarrow> host_state" where
  "update_streamlit_upstream_file path url s =
     s\<lparr>ho_files := AList.update path (strip url) (ho_files s), ho_environ := AList.update upstream_env (strip url) (ho_environ s)\<rparr>"


subsection \<open>Waiting, terminating, stopping\<close>

text \<open>\<open>attempts\<close>: the outcome of each connection attempt made before the deadline.\<close>

fun wait_for_tcp :: "bool list \<Rightarrow> exc + unit" where
  "wait_for_tcp [] = Inl TimeoutError"
| "wait_for_tcp (ok # attempts) = (if ok then Inr () else wait_for_tcp attempts)"

datatype proc_signal = Sigint | CtrlBreak | Sigterm | Sigkill

text \<open>\<open>exited\<close>, \<open>waits1\<close>, \<open>waits2\<close>: does the process have an exit code at once, within the first and within the
  second wait.\<close>

definition terminate_process :: "bool \<Rightarrow> bool \<Rightarrow> bool \<Rightarrow> bool \<Rightarrow> proc_signal list" where
  "terminate_process windows exited waits1 waits2 =
     (if exited then []
      else (let s1 = (if windows then CtrlBreak else Sigint)
            in if waits1 then [s1] else if waits2 then [s1, Sigterm] else [s1, Sigterm, Sigkill]))"

datatype kill_result = Delivered | NoSuchProcess | NotPermitted | OtherFailure

datatype stop_action = SendTerm int | TaskKill int bool | SendKill int

datatype stop_message =
    NoPidfile | RemovedInvalid | RemovedStale int | ExitedBeforeSignal int | CannotSignal int
  | Stopped int | Killed int | StillRunning int

record stop_report =
  sr_code :: nat
  sr_message :: stop_message
  sr_removed :: bool
  sr_actions :: "stop_action list"

record stop_world =
  sw_windows :: bool
  sw_pidfile :: "(exc + pystr) option"
  sw_running :: bool
  sw_term :: kill_result
  sw_taskkill :: "int \<times> pystr"
  sw_polls :: "bool list"
  sw_escalate_polls :: "bool list"
  sw_kill :: kill_result
  sw_kill_polls :: "bool list"
  sw_running_end :: bool

definition report :: "nat \<Rightarrow> stop_message \<Rightarrow> bool \<Rightarrow> stop_action list \<Rightarrow> exc + stop_report" where
  "report code msg removed actions = Inr \<lparr>sr_code = code, sr_message = msg, sr_removed = removed, sr_actions = actions\<rparr>"

definition stopped_during :: "bool list \<Rightarrow> bool" where
  "stopped_during polls \<longleftrightarrow> False \<in> set polls"

definition taskkill_says_gone :: "int \<times> pystr \<Rightarrow> bool" where
  "taskkill_says_gone tk \<longleftrightarrow>
     (case tk of (returncode, out) \<Rightarrow> returncode \<noteq> 0 \<and>
        (contains (lower out) (u ''could not find'') \<or> contains (lower out) (u ''not found'') \<or> contains (lower out) (u ''not running'')))"

text \<open>The first signal: a final report, or the actions taken before waiting.\<close>

definition first_signal :: "stop_world \<Rightarrow> int \<Rightarrow> (exc + stop_report) + stop_action list" where
  "first_signal w pid =
     (case sw_term w of
        Delivered \<Rightarrow> Inr [SendTerm pid]
      | NoSuchProcess \<Rightarrow> Inl (report 0 (ExitedBeforeSignal pid) True [SendTerm pid])
      | NotPermitted \<Rightarrow>
          if sw_windows w
          then (if taskkill_says_gone (sw_taskkill w) then Inl (report 0 (ExitedBeforeSignal pid) True [SendTerm pid, TaskKill pid False])
                else Inr [SendTerm pid, TaskKill pid False])
          else Inl (report 1 (CannotSignal pid) False [SendTerm pid])
      | OtherFailure \<Rightarrow>
          if sw_windows w
          then (if taskkill_says_gone (sw_taskkill w) then Inl (report 0 (ExitedBeforeSignal pid) True [SendTerm pid, TaskKill pid False])
                else Inr [SendTerm pid, TaskKill pid False])
          else Inl (Inl OSError))"

definition stop_pid :: "stop_world \<Rightarrow> bool \<Rightarrow> int \<Rightarrow> exc + stop_report" where
  "stop_pid w force pid =
     (case first_signal w pid of
        Inl r \<Rightarrow> r
      | Inr acts1 \<Rightarrow>
          if stopped_during (sw_polls w) then report 0 (Stopped pid) True acts1
          else (let acts2 = (if sw_windows w \<and> \<not> force then acts1 @ [TaskKill pid True] else acts1)
                in if sw_windows w \<and> \<not> force \<and> stopped_during (sw_escalate_polls w) then report 0 (Stopped pid) True acts2
                   else (let acts3 = (if force then acts2 @ [if sw_windows w then TaskKill pid True else SendKill pid] else acts2)
                         in if force \<and> \<not> sw_windows w \<and> sw_kill w \<notin> {Delivered, NoSuchProcess} then Inl OSError
                            else if force \<and> stopped_during (sw_kill_polls w) then report 0 (Killed pid) True acts3
                            else if \<not> sw_running_end w then report 0 (Stopped pid) True acts3
                            else report 1 (StillRunning pid) False acts3)))"

definition shutdown_unified_process :: "stop_world \<Rightarrow> bool \<Rightarrow> exc + stop_report" where
  "shutdown_unified_process w force =
     (case sw_pidfile w of
        None \<Rightarrow> report 2 NoPidfile False []
      | Some content \<Rightarrow>
          (case bind_exc content (\<lambda>raw. py_int (strip raw)) of
             Inl e \<Rightarrow> if e = OSError \<or> e = ValueError then report 0 RemovedInvalid True [] else Inl e
           | Inr pid \<Rightarrow> if \<not> sw_running w then report 0 (RemovedStale pid) True [] else stop_pid w force pid))"

subsection \<open>Properties\<close>

text \<open>What the operating system reported of the process, in the order in which the code asked.\<close>

definition seen_gone :: "stop_world \<Rightarrow> bool \<Rightarrow> bool" where
  "seen_gone w force \<longleftrightarrow> \<not> sw_running w \<or> sw_term w = NoSuchProcess \<or> (sw_windows w \<and> taskkill_says_gone (sw_taskkill w)) \<or>
     stopped_during (sw_polls w) \<or> (sw_windows w \<and> stopped_during (sw_escalate_polls w)) \<or>
     (force \<and> stopped_during (sw_kill_polls w)) \<or> \<not> sw_running_end w"

text \<open>Stopping reports honestly: the PID file is removed exactly when success is reported; a success with a readable
  PID file means that the process was seen to be gone; exit code 2 means there was no PID file; and no
  process is sent \<open>SIGKILL\<close> unless force was asked for and every poll of the grace period saw it alive.\<close>

theorem stop_reports_honestly:
  assumes "shutdown_unified_process w force = Inr r"
  shows "(sr_removed r \<longleftrightarrow> sr_code r = 0) \<and> (sr_code r = 2 \<longleftrightarrow> sw_pidfile w = None) \<and> sr_code r \<le> 2 \<and>
     (sr_code r = 0 \<longrightarrow> sr_message r = RemovedInvalid \<or> seen_gone w force) \<and>
     (\<forall>pid. SendKill pid \<in> set (sr_actions r) \<longrightarrow> force \<and> \<not> sw_windows w \<and> \<not> stopped_during (sw_polls w))"
  using assms unfolding shutdown_unified_process_def stop_pid_def first_signal_def report_def seen_gone_def Let_def
  by (auto split: option.splits sum.splits kill_result.splits if_splits)

definition stubborn :: stop_world where
  "stubborn = \<lparr>sw_windows = False, sw_pidfile = Some (Inr (u ''42'')), sw_running = True, sw_term = Delivered, sw_taskkill = (0, []),
     sw_polls = [True, True], sw_escalate_polls = [], sw_kill = Delivered, sw_kill_polls = [True, False], sw_running_end = False\<rparr>"

theorem stop_reports_honestly_witness:
  "shutdown_unified_process stubborn True =
     Inr \<lparr>sr_code = 0, sr_message = Killed 42, sr_removed = True, sr_actions = [SendTerm 42, SendKill 42]\<rparr> \<and> seen_gone stubborn True"
proof -
  have "py_int (strip (u ''42'')) = Inr 42" by (simp add: py_int_def pystr_eval)
  then have r: "shutdown_unified_process stubborn True =
      Inr \<lparr>sr_code = 0, sr_message = Killed 42, sr_removed = True, sr_actions = [SendTerm 42, SendKill 42]\<rparr>"
    by (simp add: shutdown_unified_process_def stubborn_def stop_pid_def first_signal_def report_def stopped_during_def)
  with stop_reports_honestly [OF r] show ?thesis by simp
qed

lemma owned_flag_dashes: "owned_flag a \<Longrightarrow> \<exists>r. a = 45 # 45 # r"
  by (auto simp: owned_flag_def owned_flags_def startswith_iff u_def)

lemma str_of_nat_no_dash: "str_of_nat n \<noteq> 45 # r"
  using str_of_nat_digits [of n] by auto

lemma fixed_args_not_owned:
  "\<not> owned_flag (str_of_int port)" "\<not> owned_flag (normalize_root_mount base)"
proof -
  have "str_of_int port \<noteq> 45 # 45 # r" for r
    using str_of_nat_no_dash by (auto simp: str_of_int_def split: if_splits)
  then show "\<not> owned_flag (str_of_int port)" using owned_flag_dashes by blast
  have "normalize_root_mount base \<noteq> 45 # 45 # r" for r
    using normalize_root_mount_shape [of base] by (auto simp: mount_shape_def)
  then show "\<not> owned_flag (normalize_root_mount base)" using owned_flag_dashes by blast
qed

lemma sidecar_command_line:
  "(case build_streamlit_cmd exe runner port base extra of
      Inl e \<Rightarrow> e = ValueError \<and> list_ex owned_flag extra
    | Inr cmd \<Rightarrow>
        filter owned_flag (drop 5 cmd) = [u ''--server.port'', u ''--server.address''] @
          (if normalize_root_mount base \<noteq> [] then [u ''--server.baseUrlPath''] else []) \<and>
        take 4 (drop 7 cmd) = [u ''--server.port'', str_of_int port, u ''--server.address'', u ''127.0.0.1''])"
proof -
  have v: "validate_streamlit_extra_cli_args extra = (if list_ex owned_flag extra then Inl ValueError else Inr ())"
    by (induction extra) auto
  have "filter owned_flag extra = []" if "\<not> list_ex owned_flag extra" using that by (auto simp: filter_empty_conv list_ex_iff)
  moreover have "owned_flag (u ''--server.port'')" "owned_flag (u ''--server.address'')" "owned_flag (u ''--server.baseUrlPath'')"
    "\<not> owned_flag (u ''--server.headless'')" "\<not> owned_flag (u ''true'')" "\<not> owned_flag (u ''127.0.0.1'')" "\<not> owned_flag (u ''false'')"
    "\<not> owned_flag (u ''--server.enableXsrfProtection'')" "\<not> owned_flag (u ''--server.enableCORS'')"
    "\<not> owned_flag (u ''--browser.gatherUsageStats'')"
    by (simp_all add: owned_flag_def owned_flags_def u_def)
  ultimately show ?thesis
    using fixed_args_not_owned(1) [of port] fixed_args_not_owned(2) [of base]
    by (simp add: build_streamlit_cmd_def v Let_def)
qed

text \<open>Extra \<open>streamlit run\<close> arguments that are accepted cannot move the sidecar: after the runner, the flags
  FluxLit owns occur once each in the command line (the base path only under a public mount), followed by
  FluxLit's port and address; arguments that would set one of them, in either form, are refused.\<close>

theorem sidecar_bind_not_overridden:
  "(case build_streamlit_cmd exe runner port base extra of
      Inl e \<Rightarrow> e = ValueError \<and> list_ex owned_flag extra
    | Inr cmd \<Rightarrow>
        filter owned_flag (drop 5 cmd) = [u ''--server.port'', u ''--server.address''] @
          (if normalize_root_mount base \<noteq> [] then [u ''--server.baseUrlPath''] else []) \<and>
        take 4 (drop 7 cmd) = [u ''--server.port'', str_of_int port, u ''--server.address'', u ''127.0.0.1''])"
  by (rule sidecar_command_line)

text \<open>A non-blank URL written to the state file is what every process reads that was given the file, also after an
  update, whatever older URL its own environment still holds.\<close>

theorem upstream_file_wins:
  assumes "map_of child_env upstream_file_env = Some path" and "strip path = path" and "path \<noteq> []" and "strip url \<noteq> []"
  shows "read_streamlit_upstream_url \<lparr>ho_environ = child_env, ho_files = ho_files (update_streamlit_upstream_file path url s)\<rparr> = rstrip_slash (strip url)
    \<and> read_streamlit_upstream_url (snd (write_streamlit_upstream_state path url s)) = rstrip_slash (strip url)"
  using assms
  by (simp add: read_streamlit_upstream_url_def update_streamlit_upstream_file_def write_streamlit_upstream_state_def
    upstream_file_env_def upstream_env_def)

theorem upstream_file_wins_witness:
  "read_streamlit_upstream_url \<lparr>ho_environ = [(upstream_env, u ''http://old''), (upstream_file_env, u ''/tmp/f'')],
     ho_files = ho_files (update_streamlit_upstream_file (u ''/tmp/f'') (u ''http://new/'') \<lparr>ho_environ = [], ho_files = []\<rparr>)\<rparr> = u ''http://new''"
proof -
  have s: "strip (u ''/tmp/f'') = u ''/tmp/f''" "strip (u ''http://new/'') = u ''http://new/''" "rstrip_slash (u ''http://new/'') = u ''http://new''"
    by (simp_all add: pystr_eval)
  show ?thesis
    using upstream_file_wins [of "[(upstream_env, u ''http://old''), (upstream_file_env, u ''/tmp/f'')]" "u ''/tmp/f''" "u ''http://new/''"]
    by (simp add: s upstream_file_env_def upstream_env_def)
qed

end
