(* ===== verification/Lifespan_Bridge.thy ===== *)
theory Lifespan_Bridge
  imports Gateway_Dispatch Process_Control
begin

section \<open>The unified application: sidecar, inner lifespan and gateway\<close>

text \<open>
  Models \<open>runtime/lifespan_bridge.py\<close>, \<open>runtime/uvicorn_multiworker.py\<close> and the application
  object of \<open>runtime/public_mount.py\<close> with its shutdown hook. The bridge is a state record;
  the server's lifespan messages, the inner application's answers, the sidecar's death and the requests that
  arrive in between are the steps of a relation. Between two awaits of the bridge nothing else runs, so what
  the code does there is one step. \<open>subprocess.Popen\<close>, the port, the inner application and the running loop's
  tasks are arguments; \<open>br_spawned\<close>, \<open>br_terminated\<close> and \<open>br_exited\<close> record what happened to processes.
\<close>

subsection \<open>Uvicorn's workers\<close>

text \<open>A task of the running loop: class module and qualified name of the coroutine's local \<open>self\<close>, and its
  \<open>config.workers\<close>, \<open>None\<close> where the attribute is missing.\<close>

record loop_task =
  lt_module :: pystr
  lt_qualname :: pystr
  lt_workers :: "json option"

definition int_of_json :: "json \<Rightarrow> exc + int" where
  "int_of_json v =
     (case v of JInt i \<Rightarrow> Inr i | JBool b \<Rightarrow> Inr (if b then 1 else 0) | JStr s \<Rightarrow> py_int s
      | JFloat r \<Rightarrow> Inr (if r < 0 then \<lceil>r\<rceil> else \<lfloor>r\<rfloor>) | _ \<Rightarrow> Inl TypeError)"

fun uvicorn_workers_from_running_loop :: "loop_task list \<Rightarrow> int option" where
  "uvicorn_workers_from_running_loop [] = None"
| "uvicorn_workers_from_running_loop (t # ts) =
     (if lt_qualname t \<noteq> u ''LifespanOn'' \<or> lt_module t \<noteq> u ''uvicorn.lifespan.on''
      then uvicorn_workers_from_running_loop ts
      else case lt_workers t of
             None \<Rightarrow> uvicorn_workers_from_running_loop ts
           | Some JNull \<Rightarrow> uvicorn_workers_from_running_loop ts
           | Some v \<Rightarrow> (case int_of_json v of Inl e \<Rightarrow> None | Inr n \<Rightarrow> Some n))"

definition unified_multiworker_startup_error :: "pystr dict \<Rightarrow> loop_task list \<Rightarrow> pystr option" where
  "unified_multiworker_startup_error env tasks =
     (if truthy_env env (u ''FLUXLIT_ALLOW_UNIFIED_UVICORN_MULTIWORKER'') then None
      else case uvicorn_workers_from_running_loop tasks of
             None \<Rightarrow> None
           | Some workers \<Rightarrow>
               if workers > 1
               then Some (u ''FluxLit unified runtime is incompatible with Uvicorn --workers > 1 (detected workers='' @
                 str_of_int workers @ u ''). Use a single worker and scale out with '' @
                 u ''replicas or separate processes. Set FLUXLIT_ALLOW_UNIFIED_UVICORN_MULTIWORKER=1 '' @
                 u ''only if you accept an unsupported configuration.'')
               else None)"

subsection \<open>Messages and state\<close>

datatype lifespan_in = Startup | Shutdown | OtherLifespan pystr

datatype lifespan_out = StartupComplete | StartupFailed pystr | ShutdownComplete | ShutdownFailed pystr

datatype inner_task = NoTask | Running | Finished "pystr option"

datatype bridge_phase = InLoop | AwaitingInner | Ended | EndedRaising pystr

text \<open>What one start-up meets: the environment and the loop's tasks, the spawned process or the error of
  \<open>Popen\<close>, the connection attempts, and what the inner application does in its first slice: what it sends,
  and how it ended if it did (\<open>Some None\<close> is a normal return, \<open>Some (Some m)\<close> an exception).\<close>

record launch =
  la_environ :: "pystr dict"
  la_tasks :: "loop_task list"
  la_popen :: "pystr + nat"
  la_attempts :: "bool list"
  la_tick :: "lifespan_out list \<times> pystr option option"

record bridge =
  br_upstream :: pystr
  br_proc :: "nat option"
  br_inner :: inner_task
  br_queue :: "lifespan_in list"
  br_sent :: "lifespan_out list"
  br_hook_calls :: nat
  br_phase :: bridge_phase
  br_spawned :: "nat list"
  br_terminated :: "nat list"
  br_exited :: "nat list"

definition bridge_init :: bridge where
  "bridge_init = \<lparr>br_upstream = [], br_proc = None, br_inner = NoTask, br_queue = [], br_sent = [], br_hook_calls = 0,
     br_phase = InLoop, br_spawned = [], br_terminated = [], br_exited = []\<rparr>"

definition sidecar_url :: "nat \<Rightarrow> pystr" where
  "sidecar_url port = u ''http://127.0.0.1:'' @ str_of_nat port"

subsection \<open>Start-up and shutdown\<close>

definition send_lifespan :: "lifespan_out \<Rightarrow> bridge \<Rightarrow> bridge" where
  "send_lifespan m s = s\<lparr>br_sent := br_sent s @ [m]\<rparr>"

definition drop_sidecar :: "bridge \<Rightarrow> bridge" where
  "drop_sidecar s = (case br_proc s of None \<Rightarrow> s
     | Some p \<Rightarrow> s\<lparr>br_proc := None, br_terminated := p # br_terminated s\<rparr>)"

definition startup_aborted :: "pystr \<Rightarrow> bridge \<Rightarrow> bridge" where
  "startup_aborted e s =
     (send_lifespan (StartupFailed e) ((drop_sidecar s)\<lparr>br_upstream := []\<rparr>))\<lparr>br_phase := Ended\<rparr>"

definition start_inner :: "launch \<Rightarrow> bridge \<Rightarrow> bridge" where
  "start_inner l s =
     (let (out, finished) = la_tick l;
          s1 = s\<lparr>br_inner := Running, br_queue := br_queue s @ [Startup], br_sent := br_sent s @ out\<rparr>
      in case finished of
           None \<Rightarrow> s1
         | Some r \<Rightarrow>
             (send_lifespan (StartupFailed (case r of Some m \<Rightarrow> m
                 | None \<Rightarrow> u ''inner application lifespan exited during startup''))
               (drop_sidecar (s1\<lparr>br_inner := Finished r, br_upstream := []\<rparr>)))\<lparr>br_phase := Ended\<rparr>)"

definition handle_startup :: "nat \<Rightarrow> launch \<Rightarrow> bridge \<Rightarrow> bridge" where
  "handle_startup port l s =
     (if br_inner s \<noteq> NoTask then send_lifespan StartupComplete s
      else case unified_multiworker_startup_error (la_environ l) (la_tasks l) of
             Some err \<Rightarrow> (send_lifespan (StartupFailed err) s)\<lparr>br_phase := Ended\<rparr>
           | None \<Rightarrow> (case la_popen l of
               Inl e \<Rightarrow> startup_aborted e s
             | Inr pid \<Rightarrow>
                 let s1 = s\<lparr>br_proc := Some pid, br_spawned := br_spawned s @ [pid]\<rparr>
                 in case wait_for_tcp (la_attempts l) of
                      Inl e \<Rightarrow> startup_aborted (u ''Timed out waiting for 127.0.0.1:'' @ str_of_nat port) s1
                    | Inr _ \<Rightarrow> start_inner l (s1\<lparr>br_upstream := sidecar_url port\<rparr>)))"

text \<open>\<open>hook\<close>: does the gateway object carry \<open>fluxlit_shutdown\<close>.\<close>

definition finish_shutdown :: "bool \<Rightarrow> pystr option \<Rightarrow> bridge \<Rightarrow> bridge" where
  "finish_shutdown hook raised s =
     (let s1 = drop_sidecar (s\<lparr>br_upstream := []\<rparr>);
          s2 = (if hook then s1\<lparr>br_hook_calls := br_hook_calls s1 + 1\<rparr> else s1)
      in s2\<lparr>br_phase := (case raised of None \<Rightarrow> Ended | Some e \<Rightarrow> EndedRaising e)\<rparr>)"

definition handle_shutdown :: "bool \<Rightarrow> bridge \<Rightarrow> bridge" where
  "handle_shutdown hook s =
     (if br_inner s \<noteq> NoTask then s\<lparr>br_queue := br_queue s @ [Shutdown], br_phase := AwaitingInner\<rparr>
      else finish_shutdown hook None (send_lifespan ShutdownComplete s))"

definition await_inner :: "bool \<Rightarrow> bridge \<Rightarrow> bridge" where
  "await_inner hook s = (case br_inner s of Finished r \<Rightarrow> finish_shutdown hook r s | _ \<Rightarrow> s)"

subsection \<open>Requests\<close>

definition sidecar_down :: "bridge \<Rightarrow> bool" where
  "sidecar_down s \<longleftrightarrow> br_upstream s = [] \<or> (case br_proc s of None \<Rightarrow> False | Some p \<Rightarrow> p \<in> set (br_exited s))"

definition down_answer :: "scope_type \<Rightarrow> asgi_out list" where
  "down_answer t =
     (if t = HttpScope
      then [ResponseStart 503 text_plain, ResponseBody ''FluxLit Streamlit sidecar is not running.'' False]
      else [WsClose 1013 (Some ''FluxLit Streamlit sidecar is not running.'')])"

text \<open>\<open>None\<close>: the request goes on to the gateway.\<close>

definition guard_request :: "scope_type \<Rightarrow> bridge \<Rightarrow> (exc + asgi_out list) option \<times> bridge" where
  "guard_request t s =
     (if t \<noteq> HttpScope \<and> t \<noteq> WebsocketScope then (Some (Inl RuntimeError), s)
      else if sidecar_down s then (Some (Inr (down_answer t)), s\<lparr>br_upstream := [], br_proc := None\<rparr>)
      else (None, s))"

definition unified_request ::
  "(scope \<Rightarrow> asgi_in list \<Rightarrow> 'g \<Rightarrow> asgi_out list \<times> outcome \<times> 'g) \<Rightarrow> scope \<Rightarrow> asgi_in list \<Rightarrow> bridge \<Rightarrow> 'g \<Rightarrow>
     (asgi_out list \<times> outcome) \<times> bridge \<times> 'g" where
  "unified_request gateway sc msgs s g =
     (case guard_request (sc_type sc) s of
        (Some (Inl e), s') \<Rightarrow> (([], Raised e), s', g)
      | (Some (Inr out), s') \<Rightarrow> ((out, Returned), s', g)
      | (None, s') \<Rightarrow> (let (out, oc, g') = gateway sc msgs g in ((out, oc), s', g')))"

subsection \<open>The steps of the bridge\<close>

inductive bridge_step :: "bool \<Rightarrow> nat \<Rightarrow> bridge \<Rightarrow> bridge \<Rightarrow> bool" for hook :: bool and port :: nat where
  receive_startup: "br_phase s = InLoop \<Longrightarrow> bridge_step hook port s (handle_startup port l s)"
| receive_shutdown: "br_phase s = InLoop \<Longrightarrow> bridge_step hook port s (handle_shutdown hook s)"
| receive_other: "br_phase s = InLoop \<Longrightarrow> bridge_step hook port s s"
| inner_sends: "br_inner s = Running \<Longrightarrow> bridge_step hook port s (send_lifespan m s)"
| inner_finishes: "br_inner s = Running \<Longrightarrow> bridge_step hook port s (s\<lparr>br_inner := Finished r\<rparr>)"
| inner_awaited: "br_phase s = AwaitingInner \<Longrightarrow> bridge_step hook port s (await_inner hook s)"
| sidecar_exits: "br_proc s = Some p \<Longrightarrow> bridge_step hook port s (s\<lparr>br_exited := p # br_exited s\<rparr>)"
| request_arrives: "bridge_step hook port s (snd (guard_request t s))"

inductive_cases bridge_stepE: "bridge_step hook port s s'"

definition bridge_reachable :: "bool \<Rightarrow> nat \<Rightarrow> bridge \<Rightarrow> bool" where
  "bridge_reachable hook port s \<longleftrightarrow> (bridge_step hook port)\<^sup>*\<^sup>* bridge_init s"

lemma reach_init: "bridge_reachable hook port bridge_init"
  by (simp add: bridge_reachable_def)

lemma reach_step: "bridge_reachable hook port s \<Longrightarrow> bridge_step hook port s s' \<Longrightarrow> bridge_reachable hook port s'"
  unfolding bridge_reachable_def by (rule rtranclp.rtrancl_into_rtrancl)

lemmas bridge_defs = send_lifespan_def drop_sidecar_def startup_aborted_def start_inner_def handle_startup_def
  finish_shutdown_def handle_shutdown_def await_inner_def guard_request_def sidecar_down_def

subsection \<open>The invariant\<close>

definition bridge_over :: "bridge \<Rightarrow> bool" where
  "bridge_over s \<longleftrightarrow> (case br_phase s of Ended \<Rightarrow> True | EndedRaising _ \<Rightarrow> True | _ \<Rightarrow> False)"

text \<open>The upstream URL is published exactly while a process is held; a process is held only while the inner
  application has been started and the bridge still listens; every spawned process is the one held, was
  terminated by the bridge or had exited by itself; at most one was ever spawned.\<close>

definition bridge_inv :: "bool \<Rightarrow> nat \<Rightarrow> bridge \<Rightarrow> bool" where
  "bridge_inv hook port s \<longleftrightarrow>
     br_upstream s = (if br_proc s = None then [] else sidecar_url port) \<and>
     (br_proc s = None \<or> br_inner s \<noteq> NoTask \<and> \<not> bridge_over s) \<and>
     set (br_spawned s) \<subseteq> set (br_terminated s) \<union> set (br_exited s) \<union> set_option (br_proc s) \<and>
     set_option (br_proc s) \<subseteq> set (br_spawned s) \<and>
     length (br_spawned s) \<le> 1 \<and>
     (br_inner s = NoTask \<and> br_phase s = InLoop \<longrightarrow> br_spawned s = []) \<and>
     (br_inner s = Running \<longrightarrow> \<not> bridge_over s) \<and>
     (br_phase s = AwaitingInner \<longrightarrow> br_inner s \<noteq> NoTask) \<and>
     br_hook_calls s \<le> (if hook \<and> bridge_over s then 1 else 0)"

lemma sidecar_url_nonempty [simp]: "sidecar_url port \<noteq> []"
  by (simp add: sidecar_url_def pystr_eval)

lemma bridge_inv_init: "bridge_inv hook port bridge_init"
  by (simp add: bridge_inv_def bridge_init_def bridge_over_def)

lemma bridge_inv_startup:
  assumes "bridge_inv hook port s" and "br_phase s = InLoop"
  shows "bridge_inv hook port (handle_startup port l s)"
proof (cases "br_inner s = NoTask")
  case True
  with assms have "br_proc s = None" "br_upstream s = []" "br_spawned s = []" "br_hook_calls s = 0"
    by (auto simp: bridge_inv_def bridge_over_def split: if_splits)
  with True assms show ?thesis
    by (auto simp: handle_startup_def startup_aborted_def start_inner_def send_lifespan_def drop_sidecar_def
        bridge_inv_def bridge_over_def Let_def split: option.splits sum.splits prod.splits)
next
  case False
  with assms show ?thesis by (simp add: handle_startup_def send_lifespan_def bridge_inv_def bridge_over_def)
qed

lemma finish_shutdown_over: "bridge_over (finish_shutdown hook r s)"
  by (simp add: finish_shutdown_def bridge_over_def Let_def split: option.split)

lemma finish_shutdown_fields [simp]:
  "br_upstream (finish_shutdown hook r s) = []"
  "br_proc (finish_shutdown hook r s) = None"
  "br_inner (finish_shutdown hook r s) = br_inner s"
  "br_spawned (finish_shutdown hook r s) = br_spawned s"
  "br_exited (finish_shutdown hook r s) = br_exited s"
  "br_terminated (finish_shutdown hook r s) =
     (case br_proc s of None \<Rightarrow> br_terminated s | Some p \<Rightarrow> p # br_terminated s)"
  "br_hook_calls (finish_shutdown hook r s) = br_hook_calls s + (if hook then 1 else 0)"
  "br_phase (finish_shutdown hook r s) = (case r of None \<Rightarrow> Ended | Some e \<Rightarrow> EndedRaising e)"
  by (simp_all add: finish_shutdown_def drop_sidecar_def Let_def split: option.split)

lemma bridge_inv_finish:
  assumes "bridge_inv hook port s" and "\<not> bridge_over s" and "br_inner s \<noteq> Running"
  shows "bridge_inv hook port (finish_shutdown hook r s)"
  using assms finish_shutdown_over [of hook r s]
  by (auto simp: bridge_inv_def split: option.splits if_splits)

lemma bridge_inv_step:
  assumes "bridge_inv hook port s" and "bridge_step hook port s s'"
  shows "bridge_inv hook port s'"
  using assms(2)
proof cases
  case (receive_startup l)
  with assms(1) bridge_inv_startup show ?thesis by simp
next
  case receive_shutdown
  show ?thesis
  proof (cases "br_inner s = NoTask")
    case True
    have "bridge_inv hook port (send_lifespan ShutdownComplete s)"
      using assms(1) by (simp add: bridge_inv_def send_lifespan_def bridge_over_def)
    then have "bridge_inv hook port (finish_shutdown hook None (send_lifespan ShutdownComplete s))"
      by (rule bridge_inv_finish) (use True receive_shutdown in \<open>simp_all add: bridge_over_def send_lifespan_def\<close>)
    with True receive_shutdown(1) show ?thesis by (simp add: handle_shutdown_def)
  next
    case False
    with assms(1) receive_shutdown show ?thesis by (auto simp: handle_shutdown_def bridge_inv_def bridge_over_def)
  qed
next
  case inner_awaited
  with assms(1) show ?thesis
    by (auto simp: await_inner_def bridge_over_def split: inner_task.split intro: bridge_inv_finish)
qed (use assms(1) in \<open>auto simp: bridge_inv_def bridge_over_def send_lifespan_def guard_request_def sidecar_down_def split: option.splits if_splits\<close>)

subsection \<open>The service the bridge implements\<close>

text \<open>Seen from outside the application is idle, serving, down (its sidecar died) or closed, and moves only
  forward in this order.\<close>

datatype service = Idle | Serving | Down | Closed

instantiation service :: linorder
begin

primrec service_rank :: "service \<Rightarrow> nat" where
  "service_rank Idle = 0"
| "service_rank Serving = 1"
| "service_rank Down = 2"
| "service_rank Closed = 3"

definition less_eq_service :: "service \<Rightarrow> service \<Rightarrow> bool" where
  "less_eq_service a b \<longleftrightarrow> service_rank a \<le> service_rank b"

definition less_service :: "service \<Rightarrow> service \<Rightarrow> bool" where
  "less_service a b \<longleftrightarrow> service_rank a < service_rank b"

instance
proof
  fix a b :: service
  show "a \<le> b \<Longrightarrow> b \<le> a \<Longrightarrow> a = b"
    by (cases a; cases b) (simp_all add: less_eq_service_def)
qed (auto simp: less_eq_service_def less_service_def)

end

inductive service_step :: "service \<Rightarrow> service \<Rightarrow> bool" where
  comes_up: "service_step Idle Serving"
| refused: "service_step Idle Closed"
| crashes: "service_step Serving Down"
| stops: "service_step Serving Closed"
| gives_up: "service_step Down Closed"

inductive_simps service_step_simps: "service_step a b"

definition service_of :: "bridge \<Rightarrow> service" where
  "service_of s =
     (if bridge_over s then Closed else if br_inner s = NoTask then Idle
      else if br_proc s \<noteq> None then Serving else Down)"

lemma service_step_forward: "service_step a b \<Longrightarrow> a < b"
  by (auto simp: service_step_simps less_service_def)

lemma service_of_serving: "bridge_inv hook port s \<Longrightarrow> br_upstream s \<noteq> [] \<longleftrightarrow> service_of s = Serving"
  by (auto simp: service_of_def bridge_inv_def)

lemma service_of_startup:
  assumes "bridge_inv hook port s" and "br_phase s = InLoop"
  shows "service_of (handle_startup port l s) = service_of s \<or> service_step (service_of s) (service_of (handle_startup port l s))"
proof (cases "br_inner s = NoTask")
  case True
  with assms have "service_of s = Idle" "br_proc s = None" by (auto simp: service_of_def bridge_over_def bridge_inv_def)
  with True show ?thesis
    by (auto simp: handle_startup_def startup_aborted_def start_inner_def send_lifespan_def drop_sidecar_def
        service_of_def bridge_over_def service_step_simps Let_def split: option.splits sum.splits prod.splits)
next
  case False
  then show ?thesis by (simp add: handle_startup_def service_of_def bridge_over_def send_lifespan_def)
qed

lemma service_of_finish: "service_of (finish_shutdown hook r s) = Closed"
  by (simp add: service_of_def finish_shutdown_over)

lemma bridge_simulates:
  assumes "bridge_inv hook port s" and "bridge_step hook port s s'"
  shows "service_of s' = service_of s \<or> service_step (service_of s) (service_of s')"
  using assms(2)
proof cases
  case (receive_startup l)
  with assms(1) service_of_startup show ?thesis by simp
next
  case receive_shutdown
  then show ?thesis
    by (cases "br_inner s") (auto simp: handle_shutdown_def service_of_finish service_step_simps service_of_def bridge_over_def)
next
  case inner_awaited
  then show ?thesis
    by (cases "br_inner s") (auto simp: await_inner_def service_of_finish service_step_simps service_of_def [of s] bridge_over_def)
qed (use assms(1) in \<open>auto simp: service_of_def bridge_over_def send_lifespan_def guard_request_def sidecar_down_def
      bridge_inv_def service_step_simps split: option.splits if_splits\<close>)

interpretation bridge: forward_simulation "bridge_step hook port" "\<lambda>s. s = bridge_init" "bridge_inv hook port"
    service_of service_step for hook port
  by unfold_locales (auto intro: bridge_inv_init bridge_inv_step service_step_forward dest: bridge_simulates)

lemma bridge_reachable_inv: "bridge_reachable hook port s \<Longrightarrow> bridge_inv hook port s"
  unfolding bridge_reachable_def by (rule bridge.good_reachable) simp_all

text \<open>A start-up that goes well, and the state it leaves.\<close>

definition good_launch :: launch where
  "good_launch = \<lparr>la_environ = [], la_tasks = [], la_popen = Inr 4711, la_attempts = [False, True], la_tick = ([], None)\<rparr>"

definition serving_bridge :: bridge where
  "serving_bridge = bridge_init\<lparr>br_upstream := sidecar_url 8501, br_proc := Some 4711, br_inner := Running,
     br_queue := [Startup], br_spawned := [4711]\<rparr>"

lemma good_startup: "handle_startup 8501 good_launch bridge_init = serving_bridge"
  by (simp add: handle_startup_def bridge_init_def good_launch_def serving_bridge_def start_inner_def
      unified_multiworker_startup_error_def)

lemma serving_reachable: "bridge_reachable hook 8501 serving_bridge"
proof -
  have "bridge_step hook 8501 bridge_init (handle_startup 8501 good_launch bridge_init)"
    by (rule receive_startup) (simp add: bridge_init_def)
  then show ?thesis using reach_step [OF reach_init] by (simp add: good_startup)
qed

subsection \<open>Properties of the bridge\<close>

text \<open>C4: However lifespan messages, the inner application, requests and crashes interleave, one application
  spawns at most one sidecar, the gateway sees an upstream URL exactly while that process is held, and once the
  bridge has returned or raised the process was terminated or had exited by itself.\<close>

theorem sidecar_never_orphaned:
  assumes "bridge_reachable hook port s"
  shows "length (br_spawned s) \<le> 1 \<and>
    br_upstream s = (if br_proc s = None then [] else sidecar_url port) \<and>
    set (br_spawned s) \<subseteq> set (br_terminated s) \<union> set (br_exited s) \<union>
      (if bridge_over s then {} else set_option (br_proc s))"
  using bridge_reachable_inv [OF assms] by (auto simp: bridge_inv_def)

theorem sidecar_never_orphaned_witness:
  "length (br_spawned serving_bridge) \<le> 1 \<and>
    br_upstream serving_bridge = (if br_proc serving_bridge = None then [] else sidecar_url 8501) \<and>
    set (br_spawned serving_bridge) \<subseteq> set (br_terminated serving_bridge) \<union> set (br_exited serving_bridge) \<union>
      (if bridge_over serving_bridge then {} else set_option (br_proc serving_bridge))"
  by (rule sidecar_never_orphaned [OF serving_reachable [of True]])



lemma awaiting_persists:
  assumes "bridge_step hook port s s'" and "bridge_inv hook port s" and "bridge_over s \<or> br_phase s = AwaitingInner"
    and "br_hook_calls s = (if hook \<and> bridge_over s then 1 else 0)"
  shows "(bridge_over s' \<or> br_phase s' = AwaitingInner) \<and> br_hook_calls s' = (if hook \<and> bridge_over s' then 1 else 0)"
  using assms(1)
proof cases
  case inner_awaited
  with assms(4) show ?thesis
    by (cases "br_inner s") (simp_all add: await_inner_def finish_shutdown_over, simp add: bridge_over_def)
qed (use assms(2-4) in \<open>auto simp: bridge_over_def send_lifespan_def guard_request_def bridge_inv_def split: option.splits\<close>)

lemma awaiting_persists_run:
  assumes "(bridge_step hook port)\<^sup>*\<^sup>* s s'" and "bridge_inv hook port s" and "bridge_over s \<or> br_phase s = AwaitingInner"
    and "br_hook_calls s = (if hook \<and> bridge_over s then 1 else 0)"
  shows "(bridge_over s' \<or> br_phase s' = AwaitingInner) \<and> br_hook_calls s' = (if hook \<and> bridge_over s' then 1 else 0)"
  by (rule bridge.kept_on_run [OF assms(1,2)]) (use assms(3,4) awaiting_persists in blast)+

lemma handle_shutdown_awaits:
  assumes "bridge_inv hook port s" and "br_phase s = InLoop"
  shows "bridge_over (handle_shutdown hook s) \<or> br_phase (handle_shutdown hook s) = AwaitingInner"
    and "br_hook_calls (handle_shutdown hook s) = (if hook \<and> bridge_over (handle_shutdown hook s) then 1 else 0)"
  using assms finish_shutdown_over
  by (auto simp: handle_shutdown_def bridge_inv_def send_lifespan_def bridge_over_def [of s]) (simp_all add: bridge_over_def)

lemma await_finished:
  assumes "bridge_inv hook port s" and "br_phase s = AwaitingInner" and "br_inner s = Finished r" and "br_hook_calls s = 0"
  shows "bridge_over (await_inner hook s) \<and> br_proc (await_inner hook s) = None \<and>
    set (br_spawned (await_inner hook s)) \<subseteq> set (br_terminated (await_inner hook s)) \<union> set (br_exited (await_inner hook s)) \<and>
    br_hook_calls (await_inner hook s) = (if hook then 1 else 0)"
proof -
  have "bridge_inv hook port (await_inner hook s)" using assms(1) inner_awaited [OF assms(2)] by (rule bridge_inv_step)
  with assms(3,4) show ?thesis by (auto simp: await_inner_def finish_shutdown_over bridge_inv_def)
qed

text \<open>C14: Shutdown ends. After the server's shutdown message, whatever happens in between, either the bridge
  is already over or it waits for nothing but the inner application's return; when that comes, with a result or
  an exception, the bridge ends, holds no process and has run the gateway's shutdown hook exactly once.\<close>

theorem shutdown_completes:
  assumes "bridge_reachable hook port s" and "br_phase s = InLoop"
    and "(bridge_step hook port)\<^sup>*\<^sup>* (handle_shutdown hook s) s1"
  shows "let s2 = (if br_inner s1 = Running then s1\<lparr>br_inner := Finished r\<rparr> else s1);
             s3 = (if bridge_over s1 then s1 else await_inner hook s2)
         in (bridge_step hook port)\<^sup>*\<^sup>* s1 s3 \<and> bridge_over s3 \<and> br_proc s3 = None \<and>
            set (br_spawned s3) \<subseteq> set (br_terminated s3) \<union> set (br_exited s3) \<and>
            br_hook_calls s3 = (if hook then 1 else 0)"
proof -
  let ?s2 = "if br_inner s1 = Running then s1\<lparr>br_inner := Finished r\<rparr> else s1"
  have inv0: "bridge_inv hook port s" using assms(1) by (rule bridge_reachable_inv)
  have inv: "bridge_inv hook port (handle_shutdown hook s)"
    using inv0 receive_shutdown [OF assms(2)] by (rule bridge_inv_step)
  have inv1: "bridge_inv hook port s1" using assms(3) inv by (rule bridge.good_run)
  have s1: "(bridge_over s1 \<or> br_phase s1 = AwaitingInner) \<and> br_hook_calls s1 = (if hook \<and> bridge_over s1 then 1 else 0)"
    by (rule awaiting_persists_run [OF assms(3) inv handle_shutdown_awaits [OF inv0 assms(2)]])
  show ?thesis
  proof (cases "bridge_over s1")
    case True
    with s1 inv1 show ?thesis by (auto simp: bridge_inv_def)
  next
    case False
    with s1 have ph: "br_phase s1 = AwaitingInner" "br_hook_calls s1 = 0" by auto
    with inv1 have "br_inner s1 \<noteq> NoTask" by (simp add: bridge_inv_def)
    then obtain r' where r': "br_inner ?s2 = Finished r'" by (cases "br_inner s1") auto
    have "(bridge_step hook port)\<^sup>*\<^sup>* s1 ?s2" by (auto intro: inner_finishes)
    moreover have "bridge_step hook port ?s2 (await_inner hook ?s2)" by (rule inner_awaited) (simp add: ph)
    ultimately have run: "(bridge_step hook port)\<^sup>*\<^sup>* s1 (await_inner hook ?s2)" by (rule rtranclp.rtrancl_into_rtrancl)
    have "(bridge_step hook port)\<^sup>*\<^sup>* s1 ?s2" by (auto intro: inner_finishes)
    from bridge.good_run [OF this inv1] have "bridge_inv hook port ?s2" .
    from await_finished [OF this _ r'] ph False run show ?thesis by (simp add: Let_def)
  qed
qed

theorem shutdown_completes_witness:
  "br_proc (await_inner True ((handle_shutdown True serving_bridge)\<lparr>br_inner := Finished None\<rparr>)) = None \<and>
   br_hook_calls (await_inner True ((handle_shutdown True serving_bridge)\<lparr>br_inner := Finished None\<rparr>)) = 1"
proof -
  have "br_phase serving_bridge = InLoop" by (simp add: serving_bridge_def bridge_init_def)
  from shutdown_completes [OF serving_reachable [of True] this rtranclp.rtrancl_refl, of None]
  show ?thesis
    by (simp add: Let_def handle_shutdown_def serving_bridge_def bridge_init_def bridge_over_def split: if_splits)
qed

subsection \<open>An inner application that fails late\<close>

text \<open>What a server does that gave up after a failed start-up: it sends no shutdown message, so all that can
  still happen is up to the inner application, the sidecar and late requests.\<close>

inductive abandoned_step :: "bridge \<Rightarrow> bridge \<Rightarrow> bool" where
  late_send: "br_inner s = Running \<Longrightarrow> abandoned_step s (send_lifespan m s)"
| late_finish: "br_inner s = Running \<Longrightarrow> abandoned_step s (s\<lparr>br_inner := Finished r\<rparr>)"
| late_request: "abandoned_step s (snd (guard_request t s))"

lemma abandoned_keeps_sidecar:
  assumes "abandoned_step s s'" and "br_phase s = InLoop" and "br_proc s = Some p" and "br_upstream s \<noteq> []"
    and "p \<notin> set (br_exited s)"
  shows "br_phase s' = InLoop \<and> br_proc s' = Some p \<and> br_upstream s' \<noteq> [] \<and> br_exited s' = br_exited s \<and>
    br_terminated s' = br_terminated s"
  using assms(1)
  by cases (use assms(2-) in \<open>simp_all add: send_lifespan_def guard_request_def sidecar_down_def\<close>)

definition late_failure :: bridge where
  "late_failure = (send_lifespan (StartupFailed (u ''no database'')) serving_bridge)\<lparr>br_inner := Finished None\<rparr>"

lemma late_failure_reachable: "bridge_reachable hook 8501 late_failure"
proof -
  have run: "br_inner serving_bridge = Running" by (simp add: serving_bridge_def)
  have "bridge_reachable hook 8501 (send_lifespan (StartupFailed (u ''no database'')) serving_bridge)"
    using serving_reachable inner_sends [OF run] by (rule reach_step)
  moreover have "bridge_step hook 8501 (send_lifespan (StartupFailed (u ''no database'')) serving_bridge) late_failure"
    unfolding late_failure_def by (rule inner_finishes) (simp add: send_lifespan_def run)
  ultimately show ?thesis by (rule reach_step)
qed

text \<open>The bridge looks at the inner application once, right after starting it. When its start-up fails any
  later, the server is told that start-up failed and never sends a shutdown; the bridge goes on waiting for a
  message, and whatever happens apart from the sidecar dying by itself the sidecar keeps running, held and
  published, although nothing will ever stop it.\<close>

theorem late_startup_failure_leaves_sidecar:
  "bridge_reachable hook 8501 late_failure \<and> StartupFailed (u ''no database'') \<in> set (br_sent late_failure) \<and>
   {s. abandoned_step\<^sup>*\<^sup>* late_failure s} \<subseteq>
     {s. br_phase s = InLoop \<and> br_proc s = Some 4711 \<and> 4711 \<notin> set (br_terminated s) \<and> 4711 \<notin> set (br_exited s)}"
proof -
  have "br_phase s = InLoop \<and> br_proc s = Some 4711 \<and> br_upstream s \<noteq> [] \<and> br_exited s = [] \<and> br_terminated s = []"
    if "abandoned_step\<^sup>*\<^sup>* late_failure s" for s
    using that
  proof (induction rule: rtranclp_induct)
    case base
    show ?case by (simp add: late_failure_def send_lifespan_def serving_bridge_def bridge_init_def)
  next
    case (step y z)
    with abandoned_keeps_sidecar [OF step.hyps(2)] show ?case by simp
  qed
  then have "{s. abandoned_step\<^sup>*\<^sup>* late_failure s} \<subseteq>
     {s. br_phase s = InLoop \<and> br_proc s = Some 4711 \<and> 4711 \<notin> set (br_terminated s) \<and> 4711 \<notin> set (br_exited s)}"
    by auto
  with late_failure_reachable show ?thesis by (simp add: late_failure_def send_lifespan_def)
qed

text \<open>An inner application that reports its failure itself and returns at once is reported twice.\<close>

theorem startup_failure_reported_twice:
  "br_sent (handle_startup 8501 (good_launch\<lparr>la_tick := ([StartupFailed m], Some None)\<rparr>) bridge_init) =
     [StartupFailed m, StartupFailed (u ''inner application lifespan exited during startup'')]"
  by (simp add: handle_startup_def bridge_init_def good_launch_def start_inner_def send_lifespan_def drop_sidecar_def
      unified_multiworker_startup_error_def)

subsection \<open>The application object and its shutdown hook\<close>

record 'g app_object =
  ao_call :: "scope \<Rightarrow> asgi_in list \<Rightarrow> 'g \<Rightarrow> asgi_out list \<times> outcome \<times> 'g"
  ao_fluxlit_shutdown :: "('g \<Rightarrow> 'g) option"

definition gateway_object :: "gateway_config \<Rightarrow> 'h gateway_env \<Rightarrow> gateway_state app_object" where
  "gateway_object cfg env = \<lparr>ao_call = gateway_app cfg env,
     ao_fluxlit_shutdown = Some (\<lambda>g. g\<lparr>gs_client := close_shared_httpx_client (gs_client g)\<rparr>)\<rparr>"

definition inject_root_path_object :: "pystr \<Rightarrow> 'g app_object \<Rightarrow> 'g app_object" where
  "inject_root_path_object public_mount app =
     (if normalize_root_mount public_mount = [] then app
      else \<lparr>ao_call = (\<lambda>sc. ao_call app (inject_public_root_path public_mount sc)), ao_fluxlit_shutdown = None\<rparr>)"

text \<open>Lines 135 to 141 of the bridge: fetch the hook of the gateway object and call it.\<close>

definition run_shutdown_hook :: "'g app_object \<Rightarrow> 'g \<Rightarrow> 'g" where
  "run_shutdown_hook app g = (case ao_fluxlit_shutdown app of None \<Rightarrow> g | Some f \<Rightarrow> f g)"

text \<open>Shutting the unified application down closes the gateway's shared HTTP client exactly when the
  application is not mounted under a public path: the wrapper that injects the mount drops the hook.\<close>

theorem shutdown_hook_lost_under_mount:
  "cl_open (gs_client (run_shutdown_hook (inject_root_path_object mount (gateway_object cfg env)) g)) \<longleftrightarrow>
     cl_open (gs_client g) \<and> normalize_root_mount mount \<noteq> []"
  by (simp add: run_shutdown_hook_def inject_root_path_object_def gateway_object_def close_shared_httpx_client_def)

end
