(* ===== verification/Unified_App.thy ===== *)
theory Unified_App
  imports Lifespan_Bridge
begin

section \<open>Assembling the application: orchestration, public URLs, health, API middleware\<close>

text \<open>
  Models \<open>runtime/orchestrate.py\<close>, the state of a \<open>FluxLit\<close> object (\<open>app.py\<close>: settings merge, the cached
  ASGI stack and its invalidation), \<open>runtime/debug_settings.py\<close>, \<open>application/public_urls.py\<close>,
  \<open>application/api_bootstrap.py\<close>, \<open>security/headers.py\<close> and \<open>health.py\<close>. The environment, the project file,
  the free port and the loaded module are arguments; the stack is the record of what the code passes to the
  sidecar and to the gateway.
\<close>

subsection \<open>Building the stack\<close>

record build_env =
  be_environ :: "pystr dict"
  be_project :: "project_config option"
  be_ip_address :: "pystr \<Rightarrow> ip_addr option"
  be_executable :: pystr
  be_runner :: pystr
  be_free_port :: nat
  be_prom :: "nat option"

record unified_stack =
  us_api :: nat
  us_cmd :: "pystr list"
  us_child_env :: "pystr dict"
  us_port :: nat
  us_mount :: pystr
  us_config :: gateway_config

definition environ_str :: "pystr dict \<Rightarrow> string \<Rightarrow> pystr" where
  "environ_str env name = strip (opt_str (map_of env (u name)))"

definition asgi_from_fluxlit :: "build_env \<Rightarrow> fluxlit_settings \<Rightarrow> nat \<Rightarrow> pystr \<Rightarrow> exc + unified_stack" where
  "asgi_from_fluxlit be fs api import_target =
     (let target = strip import_target
      in if target = [] then Inl ValueError
         else
           (let api_prefix = fs_api_mount_path fs;
                mount = normalize_root_mount (public_mount_path fs);
                ambient = environ_str (be_environ be) ''FLUXLIT_INTERNAL_API_BASE'';
                internal = (if ambient \<noteq> [] then ambient
                  else (let (host, port) = gateway_bind_for_streamlit_child fs (be_environ be) (be_project be)
                        in internal_api_base_url (be_ip_address be) host port api_prefix))
            in bind_exc (build_streamlit_cmd (be_executable be) (be_runner be) (int (be_free_port be))
                 (public_mount_path fs) (fs_streamlit_run_cli_args fs)) (\<lambda>cmd. Inr
                   \<lparr>us_api = api, us_cmd = cmd,
                    us_child_env = build_streamlit_env (be_environ be) target api_prefix internal,
                    us_port = be_free_port be, us_mount = mount,
                    us_config = build_gateway (be_prom be) (fs_enable_gateway_access_log fs) api_prefix mount (Some fs)\<rparr>)))"

definition create_unified_app :: "build_env \<Rightarrow> (pystr \<Rightarrow> exc + fluxlit_settings \<times> nat) \<Rightarrow> exc + unified_stack" where
  "create_unified_app be load_fluxlit =
     (let target = environ_str (be_environ be) ''FLUXLIT_APP''
      in if target = [] then Inl RuntimeError
         else bind_exc (load_fluxlit target) (\<lambda>(fs, api). asgi_from_fluxlit be fs api target))"

text \<open>The split-mode factory: the mount it injects and the gateway it builds.\<close>

definition create_gateway_app ::
  "build_env \<Rightarrow> pystr dict \<Rightarrow> (pystr \<Rightarrow> exc + fluxlit_settings \<times> nat) \<Rightarrow> exc + pystr \<times> gateway_config" where
  "create_gateway_app be files load_fluxlit =
     (if environ_str (be_environ be) ''FLUXLIT_APP'' = [] then Inl RuntimeError
      else if read_streamlit_upstream_url \<lparr>ho_environ = be_environ be, ho_files = files\<rparr> = [] then Inl RuntimeError
      else (let api_prefix = normalize_api_mount_path
                  (case map_of (be_environ be) (u ''FLUXLIT_API_PREFIX'') of None \<Rightarrow> u ''/api'' | Some p \<Rightarrow> p)
            in bind_exc (load_fluxlit (environ_str (be_environ be) ''FLUXLIT_APP'')) (\<lambda>(fs, api).
                 let mount = normalize_root_mount (public_mount_path fs)
                 in Inr (mount, build_gateway (be_prom be) (fs_enable_gateway_access_log fs) api_prefix mount (Some fs)))))"

subsection \<open>The FluxLit object\<close>

definition merge_debug_settings :: "fluxlit_settings \<Rightarrow> fluxlit_settings" where
  "merge_debug_settings fs =
     (if \<not> fs_debug fs then fs
      else (let need_lv = lower (strip (fs_log_level fs)) = u ''info''
            in fs\<lparr>fs_enable_gateway_access_log := True, fs_enable_request_logging := True,
                  fs_log_level := (if need_lv then u ''debug'' else fs_log_level fs)\<rparr>))"

definition fluxlit_init_settings ::
  "pystr option \<Rightarrow> pystr list option \<Rightarrow> json dict option \<Rightarrow> fluxlit_settings \<Rightarrow> fluxlit_settings" where
  "fluxlit_init_settings title streamlit_run_args streamlit_page_config fs =
     (let fs1 = (case title of None \<Rightarrow> fs | Some t \<Rightarrow> fs\<lparr>fs_title := t\<rparr>);
          fs2 = (case streamlit_run_args of None \<Rightarrow> fs1
                 | Some args \<Rightarrow> fs1\<lparr>fs_streamlit_run_cli_args := fs_streamlit_run_cli_args fs1 @ args\<rparr>);
          fs3 = (case streamlit_page_config of None \<Rightarrow> fs2
                 | Some cfg \<Rightarrow> fs2\<lparr>fs_streamlit_page_config :=
                     fold (\<lambda>(k, v). AList.update k v) cfg (fs_streamlit_page_config fs2)\<rparr>)
      in merge_debug_settings fs3)"

text \<open>\<open>fx_api\<close> identifies the FastAPI object; the cached stack comes with the state of its bridge closure.\<close>

record fluxlit =
  fx_settings :: fluxlit_settings
  fx_import_target :: "pystr option"
  fx_api :: nat
  fx_cache :: "(unified_stack \<times> bridge) option"

definition new_fluxlit :: "fluxlit_settings \<Rightarrow> pystr option \<Rightarrow> nat \<Rightarrow> fluxlit" where
  "new_fluxlit fs import_target api = \<lparr>fx_settings = fs,
     fx_import_target = (if opt_str import_target = [] then None else map_option strip import_target),
     fx_api = api, fx_cache = None\<rparr>"

definition set_api :: "nat \<Rightarrow> fluxlit \<Rightarrow> fluxlit" where
  "set_api api fx = fx\<lparr>fx_api := api, fx_cache := (if api = fx_api fx then fx_cache fx else None)\<rparr>"

definition unified_asgi :: "build_env \<Rightarrow> fluxlit \<Rightarrow> (exc + unified_stack \<times> bridge) \<times> fluxlit" where
  "unified_asgi be fx =
     (case fx_cache fx of
        Some c \<Rightarrow> (Inr c, fx)
      | None \<Rightarrow>
          (case asgi_from_fluxlit be (fx_settings fx) (fx_api fx)
                  (resolve_import_target (fx_import_target fx) (be_environ be) (be_project be)) of
             Inl e \<Rightarrow> (Inl e, fx)
           | Inr st \<Rightarrow> (Inr (st, bridge_init), fx\<lparr>fx_cache := Some (st, bridge_init)\<rparr>)))"

text \<open>\<open>__call__\<close> on the server's start-up message and on a request: the answer, \<open>None\<close> when the request goes
  to the gateway of the returned stack.\<close>

definition fluxlit_startup :: "build_env \<Rightarrow> launch \<Rightarrow> fluxlit \<Rightarrow> exc option \<times> fluxlit" where
  "fluxlit_startup be l fx =
     (case unified_asgi be fx of
        (Inl e, fx') \<Rightarrow> (Some e, fx')
      | (Inr (st, b), fx') \<Rightarrow> (None, fx'\<lparr>fx_cache := Some (st, handle_startup (us_port st) l b)\<rparr>))"

definition fluxlit_request ::
  "build_env \<Rightarrow> scope_type \<Rightarrow> fluxlit \<Rightarrow> ((exc + asgi_out list) option \<times> unified_stack option) \<times> fluxlit" where
  "fluxlit_request be t fx =
     (case unified_asgi be fx of
        (Inl e, fx') \<Rightarrow> ((Some (Inl e), None), fx')
      | (Inr (st, b), fx') \<Rightarrow>
          (let (ans, b') = guard_request t b in ((ans, Some st), fx'\<lparr>fx_cache := Some (st, b')\<rparr>)))"

subsection \<open>Public URLs\<close>

definition request_origin :: "pystr \<Rightarrow> pystr \<Rightarrow> pystr" where
  "request_origin scheme netloc = rstrip_slash (scheme @ u ''://'' @ netloc)"

definition join_url :: "pystr \<Rightarrow> pystr list \<Rightarrow> pystr" where
  "join_url base parts = fold (\<lambda>part out. if part = [] then out else out @ lead_slash part) parts (rstrip_slash base)"

definition app_base :: "fluxlit_settings \<Rightarrow> pystr \<Rightarrow> pystr \<Rightarrow> exc + pystr" where
  "app_base fs scheme netloc =
     (let mount = normalize_root_mount (public_mount_path fs);
          pb = strip (fs_public_base_url fs);
          from_request = (let origin = request_origin scheme netloc
                          in if mount \<noteq> [] then join_url origin [mount] else origin)
      in if pb = [] then Inr from_request
         else bind_exc (urlparse pb) (\<lambda>pu. Inr (
           if u_scheme pu \<noteq> [] \<and> u_netloc pu \<noteq> []
           then (let origin = rstrip_slash (u_scheme pu @ u ''://'' @ u_netloc pu); path = rstrip_slash (u_path pu)
                 in if path \<noteq> [] then rstrip_slash pb
                    else if mount \<noteq> [] then join_url origin [mount] else origin)
           else from_request)))"

definition api_base :: "fluxlit_settings \<Rightarrow> pystr \<Rightarrow> pystr \<Rightarrow> exc + pystr" where
  "api_base fs scheme netloc =
     bind_exc (app_base fs scheme netloc) (\<lambda>b. Inr (join_url b [normalize_api_mount_path (fs_api_mount_path fs)]))"

text \<open>\<open>docs_url\<close>, \<open>redoc_url\<close> and \<open>openapi_url\<close>: nothing when the API disables the route.\<close>

definition api_doc_url :: "fluxlit_settings \<Rightarrow> pystr \<Rightarrow> pystr \<Rightarrow> pystr option \<Rightarrow> exc + pystr option" where
  "api_doc_url fs scheme netloc route =
     (case route of None \<Rightarrow> Inr None
      | Some r \<Rightarrow> bind_exc (api_base fs scheme netloc) (\<lambda>b. Inr (Some (join_url b [r]))))"

definition health_url :: "fluxlit_settings \<Rightarrow> pystr \<Rightarrow> pystr \<Rightarrow> exc + pystr" where
  "health_url fs scheme netloc = bind_exc (api_base fs scheme netloc) (\<lambda>b. Inr (join_url b [u ''/healthz'']))"

definition ready_url :: "fluxlit_settings \<Rightarrow> pystr \<Rightarrow> pystr \<Rightarrow> exc + pystr" where
  "ready_url fs scheme netloc = bind_exc (api_base fs scheme netloc) (\<lambda>b. Inr (join_url b [u ''/readyz'']))"

definition for_page :: "fluxlit_settings \<Rightarrow> pystr \<Rightarrow> pystr \<Rightarrow> pystr \<Rightarrow> (pystr \<times> pystr) list \<Rightarrow> exc + pystr" where
  "for_page fs scheme netloc path query =
     bind_exc (app_base fs scheme netloc) (\<lambda>b.
       let base = rstrip_slash b; p = lead_slash path;
           url = (if p \<noteq> [slash] then base @ p else base @ [slash])
       in if query = [] then Inr url else bind_exc (urlencode query) (\<lambda>q. Inr (url @ u ''?'' @ q)))"

subsection \<open>Readiness\<close>

definition streamlit_readiness_urls :: "pystr \<Rightarrow> fluxlit_settings \<Rightarrow> pystr list" where
  "streamlit_readiness_urls upstream fs =
     (let base = rstrip_slash upstream; mount = strip_slash (strip (public_mount_path fs))
      in (base @ [slash]) # (if mount \<noteq> [] then [base @ [slash] @ mount @ [slash]] else []))"

text \<open>\<open>get\<close>: the status of a GET, or the text of a transport error.\<close>

fun probe_urls :: "(pystr \<Rightarrow> pystr + nat) \<Rightarrow> pystr list \<Rightarrow> pystr list \<Rightarrow> exc + bool \<times> pystr" where
  "probe_urls get failures [] = Inr (False, u ''upstream_http_failed '' @ join_with (u '';'') failures)"
| "probe_urls get failures (url # urls) =
     (case get url of
        Inl detail \<Rightarrow> Inr (False, detail)
      | Inr status \<Rightarrow>
          if 200 \<le> status \<and> status < 300 then Inr (True, u ''ok'')
          else bind_exc (urlparse url) (\<lambda>p.
            probe_urls get (failures @ [or_str (u_path p) [slash] @ u '':'' @ str_of_nat status]) urls))"

definition probe_streamlit_ready ::
  "(pystr \<Rightarrow> pystr + nat) \<Rightarrow> host_state \<Rightarrow> pystr option \<Rightarrow> fluxlit_settings \<Rightarrow> exc + bool \<times> pystr" where
  "probe_streamlit_ready get host upstream fs =
     (let resolved = (case upstream of None \<Rightarrow> read_streamlit_upstream_url host | Some s \<Rightarrow> s)
      in if resolved = [] then Inr (True, u ''not_configured'')
         else probe_urls get [] (streamlit_readiness_urls resolved fs))"

definition readyz :: "(pystr \<Rightarrow> pystr + nat) \<Rightarrow> host_state \<Rightarrow> pystr option \<Rightarrow> fluxlit_settings \<Rightarrow> exc + nat \<times> json dict" where
  "readyz get host resolver fs =
     bind_exc (probe_streamlit_ready get host resolver fs) (\<lambda>(ok, detail). Inr (
       if ok then (200, [(u ''status'', JStr (u ''ready'')), (u ''streamlit'', JStr detail)])
       else (503, [(u ''status'', JStr (u ''not_ready'')), (u ''detail'', JStr detail)])))"

definition healthz :: "nat \<times> json dict" where
  "healthz = (200, [(u ''status'', JStr (u ''ok''))])"

subsection \<open>API middleware\<close>

definition cors_middleware_extras :: "json dict \<Rightarrow> json dict" where
  "cors_middleware_extras kwargs =
     filter (\<lambda>(k, v). k \<notin> set (map u [''allow_origins'', ''allow_credentials'', ''allow_methods'', ''allow_headers''])) kwargs"

text \<open>The keyword arguments of the CORS middleware, \<open>None\<close> when it is not installed.\<close>

definition cors_arguments :: "fluxlit_settings \<Rightarrow> json dict option" where
  "cors_arguments fs =
     (if fs_cors_allow_origins fs = [] then None
      else Some ([(u ''allow_origins'', JArr (map JStr (fs_cors_allow_origins fs))),
                  (u ''allow_credentials'', JBool (fs_cors_allow_credentials fs)),
                  (u ''allow_methods'', JArr [JStr (u ''*'')]), (u ''allow_headers'', JArr [JStr (u ''*'')])] @
                 cors_middleware_extras (fs_cors_middleware_kwargs fs)))"

definition header_setdefault :: "bytes \<Rightarrow> bytes \<Rightarrow> headers \<Rightarrow> headers" where
  "header_setdefault k v hs = (if list_ex (\<lambda>p. bytes_lower (fst p) = k) hs then hs else hs @ [(k, v)])"

fun header_get :: "bytes \<Rightarrow> headers \<Rightarrow> pystr option" where
  "header_get k [] = None"
| "header_get k ((n, v) # hs) = (if bytes_lower n = k then Some (latin1_decode v) else header_get k hs)"

definition hsts_value :: bytes where
  "hsts_value = ''max-age=63072000; includeSubDomains''"

definition security_headers_dispatch :: "headers \<Rightarrow> pystr \<Rightarrow> headers \<Rightarrow> headers" where
  "security_headers_dispatch request_headers scheme response =
     (let r1 = header_setdefault ''x-content-type-options'' ''nosniff'' response;
          r2 = header_setdefault ''x-frame-options'' ''SAMEORIGIN'' r1;
          r3 = header_setdefault ''referrer-policy'' ''strict-origin-when-cross-origin'' r2;
          xf = (case header_get ''x-forwarded-proto'' request_headers of None \<Rightarrow> scheme | Some v \<Rightarrow> v);
          proto = lower (strip (takeWhile (\<lambda>c. c \<noteq> 44) xf))
      in if proto = u ''https''
         then header_setdefault ''strict-transport-security'' hsts_value r3 else r3)"

subsection \<open>Sidecar and gateway agree\<close>

lemma api_prefix_starts: "startswith (normalize_api_mount_path p) [slash]" "normalize_api_mount_path p \<noteq> []"
  using normalize_api_mount_path_shape [of p]
  by (cases "normalize_api_mount_path p"; auto simp: mount_shape_def)+

lemma internal_api_base_url_text:
  "internal_api_base_url ip host port p =
     u ''http://'' @ loopback_http_host_for_client ip host @ u '':'' @ str_of_int port @ normalize_api_mount_path p"
  using api_prefix_starts [of p]
  by (auto simp: internal_api_base_url_def urlunparse_def pystr_eval startswith_iff)

text \<open>The sidecar and the gateway of one stack agree: the command line carries the gateway's public
  mount as its base path and the free port, the child's environment names the import target, and the internal
  API base it calls is the ambient one or the bind address followed by the prefix the gateway serves.\<close>

theorem unified_stack_agrees:
  assumes "asgi_from_fluxlit be fs api target = Inr st"
    and "normalize_root_mount (normalize_root_mount (public_mount_path fs)) = normalize_root_mount (public_mount_path fs)"
  shows "gc_mount (us_config st) = us_mount st \<and>
    filter owned_flag (drop 5 (us_cmd st)) = [u ''--server.port'', u ''--server.address''] @
      (if gc_mount (us_config st) \<noteq> [] then [u ''--server.baseUrlPath''] else []) \<and>
    take 3 (drop 7 (us_cmd st)) = [u ''--server.port'', str_of_int (int (us_port st)), u ''--server.address''] \<and>
    (if gc_mount (us_config st) \<noteq> [] then us_cmd st ! 18 = gc_mount (us_config st) else True) \<and>
    map_of (us_child_env st) (u ''FLUXLIT_APP'') = Some (strip target) \<and>
    map_of (us_child_env st) (u ''FLUXLIT_INTERNAL_API_BASE'') = Some (
      if environ_str (be_environ be) ''FLUXLIT_INTERNAL_API_BASE'' \<noteq> []
      then environ_str (be_environ be) ''FLUXLIT_INTERNAL_API_BASE''
      else (let (host, port) = gateway_bind_for_streamlit_child fs (be_environ be) (be_project be)
            in u ''http://'' @ loopback_http_host_for_client (be_ip_address be) host @ u '':'' @ str_of_int port @
               gc_prefix (us_config st)))"
proof -
  obtain cmd where cmd: "build_streamlit_cmd (be_executable be) (be_runner be) (int (be_free_port be))
      (public_mount_path fs) (fs_streamlit_run_cli_args fs) = Inr cmd" and us: "us_cmd st = cmd"
    using assms(1) by (auto simp: asgi_from_fluxlit_def Let_def bind_exc_Inr_iff split: if_splits)
  have st: "us_mount st = normalize_root_mount (public_mount_path fs)" "us_port st = be_free_port be"
    "us_config st = build_gateway (be_prom be) (fs_enable_gateway_access_log fs) (fs_api_mount_path fs) (us_mount st) (Some fs)"
    using assms(1) by (auto simp: asgi_from_fluxlit_def Let_def bind_exc_Inr_iff split: if_splits)
  have cfg: "gc_mount (us_config st) = us_mount st" "gc_prefix (us_config st) = normalize_api_mount_path (fs_api_mount_path fs)"
    using assms(2) by (simp_all add: st build_gateway_def Let_def split: option.split prod.split)
  have env: "us_child_env st = build_streamlit_env (be_environ be) (strip target) (fs_api_mount_path fs)
      (if environ_str (be_environ be) ''FLUXLIT_INTERNAL_API_BASE'' \<noteq> []
       then environ_str (be_environ be) ''FLUXLIT_INTERNAL_API_BASE''
       else (let (host, port) = gateway_bind_for_streamlit_child fs (be_environ be) (be_project be)
             in internal_api_base_url (be_ip_address be) host port (fs_api_mount_path fs)))"
    using assms(1) by (auto simp: asgi_from_fluxlit_def Let_def bind_exc_Inr_iff split: if_splits prod.splits)
  have flags: "filter owned_flag (drop 5 cmd) = [u ''--server.port'', u ''--server.address''] @
      (if us_mount st \<noteq> [] then [u ''--server.baseUrlPath''] else [])"
    and port: "take 4 (drop 7 cmd) = [u ''--server.port'', str_of_int (int (us_port st)), u ''--server.address'', u ''127.0.0.1'']"
    using sidecar_command_line [where exe = "be_executable be" and runner = "be_runner be" and port = "int (be_free_port be)"
        and base = "public_mount_path fs" and extra = "fs_streamlit_run_cli_args fs"] by (simp_all add: cmd st(1,2))
  have "take 3 (drop 7 cmd) = take 3 (take 4 (drop 7 cmd))" by simp
  then have port': "take 3 (drop 7 cmd) = [u ''--server.port'', str_of_int (int (us_port st)), u ''--server.address'']"
    unfolding port by simp
  have base: "us_mount st \<noteq> [] \<Longrightarrow> cmd ! 18 = us_mount st"
    using cmd by (auto simp: build_streamlit_cmd_def bind_exc_Inr_iff st(1) Let_def)
  show ?thesis
    by (simp add: us cfg env flags port' base build_streamlit_env_def internal_api_base_url_text split: prod.split)
qed

definition sample_build :: build_env where
  "sample_build = \<lparr>be_environ = [], be_project = None, be_ip_address = (\<lambda>_. None), be_executable = u ''python'',
     be_runner = u ''main.py'', be_free_port = 8501, be_prom = None\<rparr>"

definition mounted_settings :: fluxlit_settings where
  "mounted_settings = default_settings\<lparr>fs_root_path := u ''/app''\<rparr>"

lemma mounted_path: "public_mount_path mounted_settings = u ''/app''"
  by (simp add: mounted_settings_def public_mount_path_def default_settings_def pystr_eval)

lemma sample_stack_builds: "\<exists>st. asgi_from_fluxlit sample_build mounted_settings api (u ''main:app'') = Inr st"
  by (simp add: asgi_from_fluxlit_def sample_build_def mounted_settings_def default_settings_def build_streamlit_cmd_def
      bind_exc_def pystr_eval Let_def)

theorem unified_stack_agrees_witness:
  "\<exists>st. asgi_from_fluxlit sample_build mounted_settings 7 (u ''main:app'') = Inr st \<and> us_cmd st ! 18 = u ''/app''"
proof -
  obtain st where st: "asgi_from_fluxlit sample_build mounted_settings 7 (u ''main:app'') = Inr st"
    using sample_stack_builds by blast
  have m: "normalize_root_mount (public_mount_path mounted_settings) = u ''/app''"
    by (simp add: mounted_path sample_mount)
  with st have "us_mount st = u ''/app''" by (auto simp: asgi_from_fluxlit_def Let_def bind_exc_Inr_iff split: if_splits)
  with unified_stack_agrees [OF st] m st show ?thesis by (auto simp: sample_mount)
qed

subsection \<open>The cached stack\<close>

theorem merge_debug_settings_idempotent:
  "merge_debug_settings (merge_debug_settings fs) = merge_debug_settings fs"
  by (simp add: merge_debug_settings_def Let_def pystr_eval)

inductive fluxlit_run :: "build_env \<Rightarrow> fluxlit \<Rightarrow> fluxlit \<Rightarrow> bool" for be :: build_env where
  fl_new: "fluxlit_run be (new_fluxlit fs target api) (new_fluxlit fs target api)"
| fl_set_api: "fluxlit_run be fx fx' \<Longrightarrow> fluxlit_run be fx (set_api api fx')"
| fl_startup: "fluxlit_run be fx fx' \<Longrightarrow> fluxlit_run be fx (snd (fluxlit_startup be l fx'))"
| fl_request: "fluxlit_run be fx fx' \<Longrightarrow> fluxlit_run be fx (snd (fluxlit_request be t fx'))"

definition cache_current :: "fluxlit \<Rightarrow> bool" where
  "cache_current fx \<longleftrightarrow> (case fx_cache fx of None \<Rightarrow> True | Some (st, b) \<Rightarrow> us_api st = fx_api fx)"

lemma asgi_from_fluxlit_api: "asgi_from_fluxlit be fs api target = Inr st \<Longrightarrow> us_api st = api"
  by (auto simp: asgi_from_fluxlit_def Let_def bind_exc_Inr_iff split: if_splits)

lemma unified_asgi_current:
  assumes "unified_asgi be fx = (r, fx')" and "cache_current fx"
  shows "cache_current fx'" and "fx_api fx' = fx_api fx" and "r = Inr (st, b) \<Longrightarrow> us_api st = fx_api fx"
  using assms by (auto simp: unified_asgi_def cache_current_def asgi_from_fluxlit_api split: option.splits sum.splits)

lemma cache_current_startup: "cache_current fx \<Longrightarrow> cache_current (snd (fluxlit_startup be l fx))"
proof -
  assume cur: "cache_current fx"
  obtain r fx1 where u: "unified_asgi be fx = (r, fx1)" by force
  show ?thesis
    using unified_asgi_current [OF u cur] by (cases r) (auto simp: fluxlit_startup_def u cache_current_def)
qed

lemma cache_current_request: "cache_current fx \<Longrightarrow> cache_current (snd (fluxlit_request be t fx))"
proof -
  assume cur: "cache_current fx"
  obtain r fx1 where u: "unified_asgi be fx = (r, fx1)" by force
  show ?thesis
    using unified_asgi_current [OF u cur]
    by (cases r) (auto simp: fluxlit_request_def u cache_current_def Let_def split: prod.split)
qed

lemma fluxlit_run_current: "fluxlit_run be fx fx' \<Longrightarrow> cache_current fx'"
  by (induction rule: fluxlit_run.induct)
    (simp_all add: cache_current_startup cache_current_request,
     auto simp: cache_current_def new_fluxlit_def set_api_def split: option.splits)

text \<open>Whatever was assigned to \<open>api\<close> and whatever was served before, a request is answered by a stack built
  for the current \<open>api\<close>; the stack is built at most once per assignment.\<close>

theorem stack_serves_current_api:
  assumes "fluxlit_run be fx0 fx" and "fluxlit_request be t fx = ((ans, Some st), fx')"
  shows "us_api st = fx_api fx \<and> map_option fst (fx_cache fx') = Some st \<and>
    fluxlit_request be t' fx' = (let (a, b) = guard_request t' (snd (the (fx_cache fx')))
                                 in ((a, Some st), fx'\<lparr>fx_cache := Some (st, b)\<rparr>))"
proof -
  obtain b fx1 where s: "unified_asgi be fx = (Inr (st, b), fx1)" "fx_cache fx' = Some (st, snd (guard_request t b))"
    using assms(2) by (auto simp: fluxlit_request_def Let_def split: prod.splits sum.splits)
  from unified_asgi_current(3) [OF s(1) fluxlit_run_current [OF assms(1)]] s(2) show ?thesis
    by (simp add: fluxlit_request_def unified_asgi_def)
qed

theorem stack_serves_current_api_witness:
  "\<exists>st ans fx'. fluxlit_request sample_build HttpScope (set_api 8 (new_fluxlit mounted_settings (Some (u ''main:app'')) 7)) =
      ((ans, Some st), fx') \<and> us_api st = 8"
proof -
  let ?fx = "set_api 8 (new_fluxlit mounted_settings (Some (u ''main:app'')) 7)"
  have run: "fluxlit_run sample_build (new_fluxlit mounted_settings (Some (u ''main:app'')) 7) ?fx"
    by (intro fl_set_api fl_new)
  obtain st where st: "asgi_from_fluxlit sample_build mounted_settings 8 (u ''main:app'') = Inr st"
    using sample_stack_builds by blast
  have fx: "fx_settings ?fx = mounted_settings" "fx_api ?fx = 8" "fx_cache ?fx = None"
    "resolve_import_target (fx_import_target ?fx) e p = u ''main:app''" for e p
    by (simp_all add: set_api_def new_fluxlit_def resolve_import_target_def pystr_eval)
  obtain ans fx' where r: "fluxlit_request sample_build HttpScope ?fx = ((ans, Some st), fx')"
    by (cases "guard_request HttpScope bridge_init") (simp add: fluxlit_request_def unified_asgi_def fx st)
  from stack_serves_current_api [OF run r] r show ?thesis by (auto simp: fx(2))
qed

lemma request_keeps_down:
  assumes "fx_cache fx = Some (st, b)" and "br_upstream b = []"
  shows "fluxlit_request be HttpScope fx =
    ((Some (Inr (down_answer HttpScope)), Some st), fx\<lparr>fx_cache := Some (st, b\<lparr>br_upstream := [], br_proc := None\<rparr>)\<rparr>)"
  using assms by (simp add: fluxlit_request_def unified_asgi_def guard_request_def sidecar_down_def)

text \<open>Replacing \<open>api\<close> on an application that is already being served takes it down: the rebuilt stack has
  a sidecar of its own, which only a start-up message would launch, so every further request gets the 503.\<close>

theorem replaced_api_is_down:
  assumes "api \<noteq> fx_api fx"
    and "asgi_from_fluxlit be (fx_settings fx) api (resolve_import_target (fx_import_target fx) (be_environ be) (be_project be)) = Inr st"
  shows "fst (fluxlit_request be HttpScope (((\<lambda>f. snd (fluxlit_request be HttpScope f)) ^^ n) (set_api api fx))) =
    (Some (Inr (down_answer HttpScope)), Some st)"
proof -
  have first: "fluxlit_request be HttpScope (set_api api fx) =
    ((Some (Inr (down_answer HttpScope)), Some st), (set_api api fx)\<lparr>fx_cache := Some (st, bridge_init)\<rparr>)"
    using assms by (simp add: fluxlit_request_def unified_asgi_def set_api_def guard_request_def sidecar_down_def
        bridge_init_def)
  have later: "\<exists>b. fx_cache (((\<lambda>f. snd (fluxlit_request be HttpScope f)) ^^ Suc n) (set_api api fx)) = Some (st, b) \<and> br_upstream b = []" for n
  proof (induction n)
    case 0
    then show ?case by (simp add: first bridge_init_def)
  next
    case (Suc n)
    then show ?case using request_keeps_down by fastforce
  qed
  show ?thesis
  proof (cases n)
    case 0
    then show ?thesis by (simp add: first)
  next
    case (Suc m)
    then show ?thesis using later [of m] request_keeps_down by fastforce
  qed
qed

theorem replaced_api_is_down_witness:
  "\<exists>st. fst (fluxlit_request sample_build HttpScope (set_api 7
      \<lparr>fx_settings = mounted_settings, fx_import_target = Some (u ''main:app''), fx_api = 6, fx_cache = Some (st, serving_bridge)\<rparr>)) =
    (Some (Inr (down_answer HttpScope)), Some st)"
proof -
  obtain st where st: "asgi_from_fluxlit sample_build mounted_settings 7 (u ''main:app'') = Inr st"
    using sample_stack_builds by blast
  let ?fx = "\<lparr>fx_settings = mounted_settings, fx_import_target = Some (u ''main:app''), fx_api = 6, fx_cache = Some (st, serving_bridge)\<rparr>"
  have "resolve_import_target (fx_import_target ?fx) e p = u ''main:app''" for e p
    by (simp add: resolve_import_target_def pystr_eval)
  with st have "fst (fluxlit_request sample_build HttpScope (((\<lambda>f. snd (fluxlit_request sample_build HttpScope f)) ^^ 0) (set_api 7 ?fx))) =
      (Some (Inr (down_answer HttpScope)), Some st)"
    by (intro replaced_api_is_down) simp_all
  then show ?thesis by auto
qed

subsection \<open>Where a public URL leads\<close>

lemma join_url_one: "join_url base [p] = (if p = [] then rstrip_slash base else rstrip_slash base @ lead_slash p)"
  by (simp add: join_url_def)

lemma rstrip_slash_append_mount: "mount_shape m \<Longrightarrow> m \<noteq> [] \<Longrightarrow> rstrip_slash (b @ m) = b @ m"
  by (auto simp: mount_shape_def intro: rstrip_slash_id)

lemma app_base_request:
  assumes "strip (fs_public_base_url fs) = []"
  shows "app_base fs scheme netloc = Inr (request_origin scheme netloc @ normalize_root_mount (public_mount_path fs))"
proof -
  let ?m = "normalize_root_mount (public_mount_path fs)"
  have m: "mount_shape ?m" by (rule normalize_root_mount_shape)
  have "rstrip_slash (request_origin scheme netloc) = request_origin scheme netloc" by (simp add: request_origin_def)
  with m assms show ?thesis by (simp add: app_base_def join_url_one Let_def)
qed

lemma rstrip_app_base:
  "rstrip_slash (request_origin scheme netloc @ normalize_root_mount raw) = request_origin scheme netloc @ normalize_root_mount raw"
  using rstrip_slash_append_mount [OF normalize_root_mount_shape [of raw]]
  by (cases "normalize_root_mount raw = []") (simp_all add: request_origin_def)

lemma health_url_request:
  assumes "strip (fs_public_base_url fs) = []" and "normalize_api_mount_path (fs_api_mount_path fs) \<noteq> [slash]"
  shows "health_url fs scheme netloc = Inr (request_origin scheme netloc @ normalize_root_mount (public_mount_path fs) @
    normalize_api_mount_path (fs_api_mount_path fs) @ u ''/healthz'')"
proof -
  let ?p = "normalize_api_mount_path (fs_api_mount_path fs)"
  have p: "mount_shape ?p" "?p \<noteq> []" using normalize_api_mount_path_shape [of "fs_api_mount_path fs"] assms(2) by auto
  have b: "api_base fs scheme netloc = Inr ((request_origin scheme netloc @ normalize_root_mount (public_mount_path fs)) @ ?p)"
    using p by (simp add: api_base_def app_base_request [OF assms(1)] join_url_one rstrip_app_base)
  have "lead_slash (u ''/healthz'') = u ''/healthz''" by (simp add: pystr_eval)
  then show ?thesis
    using rstrip_slash_append_mount [OF p, of "request_origin scheme netloc @ normalize_root_mount (public_mount_path fs)"]
    by (simp add: health_url_def b join_url_one)
qed

lemma split_of_mounted:
  assumes "normalize_root_mount m = m" and "startswith p [slash]"
  shows "split_gateway_paths (m @ p) m = (p, m @ p)"
proof (cases "m = []")
  case True
  with assms show ?thesis by (auto simp: split_gateway_paths_def startswith_slash_iff Let_def)
next
  case False
  have "mount_shape m" using normalize_root_mount_shape [of m] assms(1) by simp
  with False have "lead_slash (m @ p) = m @ p" by (cases m) (auto simp: mount_shape_def)
  moreover have "under_mount m (m @ p)" using assms(2) by (auto simp: under_mount_def startswith_slash_iff)
  moreover have "p \<noteq> [] \<and> lead_slash p = p" using assms(2) by (auto simp: startswith_slash_iff)
  ultimately show ?thesis using False assms(1) by (simp add: split_gateway_paths_def)
qed

text \<open>The URLs the helpers print lead where they say: without a configured public base the health URL is
  the request's origin and a path which the gateway, with the same settings, routes to the API as \<open>/healthz\<close>;
  a page URL is the origin and a path the gateway reads back as the page's path and forwards to Streamlit whole.\<close>

theorem public_urls_route:
  assumes "strip (fs_public_base_url fs) = []" and "m = normalize_root_mount (public_mount_path fs)"
    and "normalize_root_mount m = m" and "normalize_api_mount_path (fs_api_mount_path fs) \<noteq> [slash]"
    and "startswith p [slash]" and "cfg = build_gateway prom al (fs_api_mount_path fs) m (Some fs)"
  shows "health_url fs scheme netloc = Inr (request_origin scheme netloc @ m @ gc_prefix cfg @ u ''/healthz'') \<and>
    is_api cfg (fst (split_gateway_paths (m @ gc_prefix cfg @ u ''/healthz'') (gc_mount cfg))) \<and>
    removeprefix (fst (split_gateway_paths (m @ gc_prefix cfg @ u ''/healthz'') (gc_mount cfg))) (gc_prefix cfg) = u ''/healthz'' \<and>
    for_page fs scheme netloc p [] = Inr (request_origin scheme netloc @ m @ p) \<and>
    split_gateway_paths (m @ p) (gc_mount cfg) = (p, m @ p)"
proof -
  have cfg: "gc_mount cfg = m" "gc_prefix cfg = normalize_api_mount_path (fs_api_mount_path fs)"
    by (simp_all add: assms(6) assms(3) build_gateway_def Let_def split: prod.split)
  have "startswith (gc_prefix cfg @ u ''/healthz'') [slash]"
    using api_prefix_starts(1) [of "fs_api_mount_path fs"] by (auto simp: cfg startswith_slash_iff)
  then have "split_gateway_paths (m @ gc_prefix cfg @ u ''/healthz'') (gc_mount cfg) =
      (gc_prefix cfg @ u ''/healthz'', m @ gc_prefix cfg @ u ''/healthz'')"
    using split_of_mounted [OF assms(3)] by (simp add: cfg(1))
  moreover have "is_api cfg (gc_prefix cfg @ u ''/healthz'')" by (simp add: is_api_def under_prefix_def pystr_eval)
  moreover have "for_page fs scheme netloc p [] = Inr (request_origin scheme netloc @ m @ p)"
    using assms(5) by (auto simp: for_page_def app_base_request [OF assms(1)] rstrip_app_base assms(2) startswith_slash_iff Let_def)
  ultimately show ?thesis
    using health_url_request [OF assms(1,4)] split_of_mounted [OF assms(3,5)] by (simp add: assms(2) cfg)
qed

theorem public_urls_route_witness:
  "health_url mounted_settings (u ''https'') (u ''x.org'') = Inr (u ''https://x.org/app/api/healthz'') \<and>
   for_page mounted_settings (u ''https'') (u ''x.org'') (u ''/reports'') [] = Inr (u ''https://x.org/app/reports'')"
proof -
  have api: "normalize_api_mount_path (fs_api_mount_path mounted_settings) = u ''/api''"
    by (simp add: mounted_settings_def default_settings_def normalize_api_mount_path_def pystr_eval)
  have o1: "request_origin (u ''https'') (u ''x.org'') = u ''https://x.org''" by (simp add: request_origin_def pystr_eval)
  have m: "u ''/app'' = normalize_root_mount (public_mount_path mounted_settings)"
    by (simp add: mounted_path sample_mount)
  have pre: "gc_prefix (build_gateway None False (fs_api_mount_path mounted_settings) (u ''/app'') (Some mounted_settings)) = u ''/api''"
    by (simp add: build_gateway_def api Let_def split: prod.split)
  have "strip (fs_public_base_url mounted_settings) = []"
    by (simp add: mounted_settings_def default_settings_def pystr_eval)
  moreover have "u ''/api'' \<noteq> [slash]" "startswith (u ''/reports'') [slash]" by (simp_all add: pystr_eval)
  ultimately show ?thesis
    using public_urls_route [OF _ m sample_mount _ _ refl, of "u ''/reports''" "u ''https''" "u ''x.org''" None False]
    unfolding api pre o1 by (simp add: pystr_eval)
qed

text \<open>The documented restriction that a path in \<open>public_base_url\<close> counts only when it is the public mount is not
  in the code: any path there replaces the mount.\<close>

theorem public_base_path_wins:
  assumes "strip (fs_public_base_url fs) \<noteq> []" and "urlparse (strip (fs_public_base_url fs)) = Inr pu"
    and "u_scheme pu \<noteq> []" and "u_netloc pu \<noteq> []" and "rstrip_slash (u_path pu) \<noteq> []"
  shows "app_base fs scheme netloc = Inr (rstrip_slash (strip (fs_public_base_url fs)))"
  using assms by (simp add: app_base_def Let_def)

subsection \<open>Readiness and security headers\<close>

lemma probe_urls_ready:
  "probe_urls get failures urls = Inr (True, d) \<Longrightarrow>
    d = u ''ok'' \<and> (\<exists>pre url post st. urls = pre @ url # post \<and> get url = Inr st \<and> 200 \<le> st \<and> st < 300 \<and>
      list_all (\<lambda>v. \<exists>st'. get v = Inr st' \<and> \<not> (200 \<le> st' \<and> st' < 300)) pre)"
proof (induction get failures urls rule: probe_urls.induct)
  case (2 get failures url urls)
  show ?case
  proof (cases "get url")
    case (Inl e)
    with 2 show ?thesis by simp
  next
    case (Inr st)
    show ?thesis
    proof (cases "200 \<le> st \<and> st < 300")
      case True
      with 2(2) Inr have "d = u ''ok''" by simp
      moreover have "url # urls = [] @ url # urls" by simp
      ultimately show ?thesis using Inr True by (intro conjI exI [of _ "[]"] exI [of _ url] exI [of _ urls] exI [of _ st]) auto
    next
      case False
      with 2(2) Inr obtain p where p: "urlparse url = Inr p"
        "probe_urls get (failures @ [or_str (u_path p) [slash] @ u '':'' @ str_of_nat st]) urls = Inr (True, d)"
        by (auto simp: bind_exc_Inr_iff)
      from 2(1) [OF Inr False p(2)] obtain pre url' post st' where
        "d = u ''ok''" "urls = pre @ url' # post" "get url' = Inr st'" "200 \<le> st'" "st' < 300"
        "list_all (\<lambda>v. \<exists>st'. get v = Inr st' \<and> \<not> (200 \<le> st' \<and> st' < 300)) pre" by blast
      moreover from this have "url # urls = (url # pre) @ url' # post" by simp
      moreover have "list_all (\<lambda>v. \<exists>st'. get v = Inr st' \<and> \<not> (200 \<le> st' \<and> st' < 300)) (url # pre)"
        using calculation Inr False by simp
      ultimately show ?thesis by blast
    qed
  qed
qed simp

text \<open>The readiness endpoint answers 200 only when nothing is configured or a probed URL answered 2xx.\<close>

theorem readyz_honest:
  assumes "readyz get host resolver fs = Inr (200, body)"
  shows "(case resolver of None \<Rightarrow> read_streamlit_upstream_url host | Some s \<Rightarrow> s) = [] \<or>
    (\<exists>url st. url \<in> set (streamlit_readiness_urls (case resolver of None \<Rightarrow> read_streamlit_upstream_url host | Some s \<Rightarrow> s) fs) \<and>
       get url = Inr st \<and> 200 \<le> st \<and> st < 300)"
proof -
  obtain d where "probe_streamlit_ready get host resolver fs = Inr (True, d)"
    using assms by (auto simp: readyz_def bind_exc_Inr_iff split: if_splits)
  then show ?thesis by (auto simp: probe_streamlit_ready_def Let_def dest!: probe_urls_ready split: if_splits)
qed

theorem readyz_honest_witness:
  "readyz (\<lambda>_. Inr 200) \<lparr>ho_environ = [], ho_files = []\<rparr> (Some (u ''http://s'')) default_settings =
     Inr (200, [(u ''status'', JStr (u ''ready'')), (u ''streamlit'', JStr (u ''ok''))]) \<and>
   (\<exists>url. url \<in> set (streamlit_readiness_urls (u ''http://s'') default_settings))"
proof -
  have r: "readyz (\<lambda>_. Inr 200) \<lparr>ho_environ = [], ho_files = []\<rparr> (Some (u ''http://s'')) default_settings =
     Inr (200, [(u ''status'', JStr (u ''ready'')), (u ''streamlit'', JStr (u ''ok''))])"
    by (simp add: readyz_def probe_streamlit_ready_def streamlit_readiness_urls_def Let_def bind_exc_def)
  from readyz_honest [OF r] r show ?thesis by auto
qed

lemma header_setdefault_keeps: "\<exists>extra. header_setdefault k v hs = hs @ extra \<and> set extra \<subseteq> {(k, v)}"
  by (simp add: header_setdefault_def)

lemma header_setdefault_present:
  "bytes_lower k = k \<Longrightarrow> list_ex (\<lambda>p. bytes_lower (fst p) = k) (header_setdefault k v hs)"
  by (simp add: header_setdefault_def)

lemma header_setdefault_mono:
  "list_ex (\<lambda>p. bytes_lower (fst p) = k) hs \<Longrightarrow> list_ex (\<lambda>p. bytes_lower (fst p) = k) (header_setdefault k' v hs)"
  by (simp add: header_setdefault_def)

lemma header_setdefault_idle: "list_ex (\<lambda>p. bytes_lower (fst p) = k) hs \<Longrightarrow> header_setdefault k v hs = hs"
  by (simp add: header_setdefault_def)

text \<open>The middleware only adds headers, never overrides the application's, and adds HSTS only for requests whose
  (forwarded) scheme is https.\<close>

theorem security_headers_only_added:
  "\<exists>extra. security_headers_dispatch rq scheme rs = rs @ extra \<and>
     set extra \<subseteq> {(''x-content-type-options'', ''nosniff''), (''x-frame-options'', ''SAMEORIGIN''),
       (''referrer-policy'', ''strict-origin-when-cross-origin'')} \<union>
       (if lower (strip (takeWhile (\<lambda>c. c \<noteq> 44) (case header_get ''x-forwarded-proto'' rq of None \<Rightarrow> scheme | Some v \<Rightarrow> v))) = u ''https''
        then {(''strict-transport-security'', hsts_value)} else {})"
  unfolding security_headers_dispatch_def Let_def by (auto simp: header_setdefault_def)

end
