(* ===== verification/Api_Client.thy ===== *)
theory Api_Client
  imports Oidc_Bff Page_DI Process_Control
begin

section \<open>The API client of the Streamlit pages\<close>

text \<open>
  Models \<open>client.py\<close>, \<open>auth/streamlit.py\<close> and \<open>application/auth_attachment.py\<close>. A client is a record; the
  callable that yields authorization headers is a value of \<open>auth_factory\<close>, where \<open>CallerFactory f\<close> stands for a
  callable of the application, answered by an argument. \<open>httpx.Headers\<close>, the transport and pydantic's
  validation are arguments; what the code relies on of \<open>httpx.Headers\<close> is \<open>header_map_laws\<close>. The options of a
  request that the code only passes on are one value.
\<close>

subsection \<open>Paths\<close>

definition relative_api_path_or_raise :: "pystr \<Rightarrow> exc + pystr" where
  "relative_api_path_or_raise path =
     (let url = lead_slash path
      in if contains url (u ''://'') \<or> startswith url (u ''//'') then Inl ValueError else Inr url)"

subsection \<open>Clients\<close>

datatype 'f auth_factory =
    CallerFactory 'f
  | BearerFactory pystr
  | WithBearer "'f auth_factory option" pystr

definition bearer_value :: "pystr \<Rightarrow> pystr" where
  "bearer_value token = u ''Bearer '' @ token"

fun run_factory :: "('f \<Rightarrow> exc + pystr dict) \<Rightarrow> 'f auth_factory \<Rightarrow> exc + pystr dict" where
  "run_factory call (CallerFactory f) = call f"
| "run_factory call (BearerFactory token) = Inr [(u ''Authorization'', bearer_value token)]"
| "run_factory call (WithBearer None token) = Inr [(u ''Authorization'', bearer_value token)]"
| "run_factory call (WithBearer (Some parent) token) =
     bind_exc (run_factory call parent) (\<lambda>merged. Inr (AList.update (u ''Authorization'') (bearer_value token) merged))"

record 'f api_client =
  ac_resolved_base :: pystr
  ac_timeout :: real
  ac_default_headers :: "pystr dict"
  ac_auth_header_factory :: "'f auth_factory option"
  ac_propagate_request_id :: bool

definition new_api_client ::
  "pystr dict \<Rightarrow> pystr option \<Rightarrow> real \<Rightarrow> pystr dict option \<Rightarrow> 'f auth_factory option \<Rightarrow> bool \<Rightarrow> 'f api_client" where
  "new_api_client environ base_url timeout default_headers auth_header_factory propagate_request_id =
     (let env_base = rstrip_slash (opt_str (map_of environ (u ''FLUXLIT_INTERNAL_API_BASE'')));
          resolved = rstrip_slash (or_str (opt_str base_url) (or_str env_base (u ''http://127.0.0.1:8000/api'')))
      in \<lparr>ac_resolved_base = resolved, ac_timeout = timeout, ac_default_headers = opt_dict default_headers,
          ac_auth_header_factory = auth_header_factory, ac_propagate_request_id = propagate_request_id\<rparr>)"

definition for_fluxlit ::
  "pystr dict \<Rightarrow> pystr option \<Rightarrow> 'f auth_factory option \<Rightarrow> pystr option \<Rightarrow> real \<Rightarrow> pystr dict option \<Rightarrow> bool \<Rightarrow>
     exc + 'f api_client" where
  "for_fluxlit environ bearer_tok auth_header_factory base_url timeout default_headers propagate_request_id =
     (if bearer_tok \<noteq> None \<and> auth_header_factory \<noteq> None then Inl TypeError
      else (let factory = (case bearer_tok of None \<Rightarrow> auth_header_factory | Some token \<Rightarrow> Some (BearerFactory token))
            in Inr (new_api_client environ base_url timeout default_headers factory propagate_request_id)))"

definition with_bearer :: "pystr dict \<Rightarrow> pystr \<Rightarrow> 'f api_client \<Rightarrow> 'f api_client" where
  "with_bearer environ tok c =
     new_api_client environ (Some (ac_resolved_base c)) (ac_timeout c) (Some (ac_default_headers c))
       (Some (WithBearer (ac_auth_header_factory c) tok)) (ac_propagate_request_id c)"

subsection \<open>Requests\<close>

record 'h header_map =
  hm_new :: "(pystr \<times> pystr) list \<Rightarrow> exc + 'h"
  hm_update :: "'h \<Rightarrow> (pystr \<times> pystr) list \<Rightarrow> exc + 'h"
  hm_setdefault :: "'h \<Rightarrow> pystr \<Rightarrow> pystr \<Rightarrow> exc + 'h"
  hm_values :: "'h \<Rightarrow> pystr \<Rightarrow> pystr list"

definition values_of :: "(pystr \<times> pystr) list \<Rightarrow> pystr \<Rightarrow> pystr list" where
  "values_of ps n = map snd (filter (\<lambda>p. lower (fst p) = lower n) ps)"

definition build_request_headers ::
  "'h header_map \<Rightarrow> ('f \<Rightarrow> exc + pystr dict) \<Rightarrow> 'f api_client \<Rightarrow> pystr option \<Rightarrow> (pystr \<times> pystr) list option \<Rightarrow> exc + 'h" where
  "build_request_headers H call c request_id headers =
     bind_exc (hm_new H (ac_default_headers c)) (\<lambda>h0.
     bind_exc (case ac_auth_header_factory c of None \<Rightarrow> Inr h0
               | Some f \<Rightarrow> bind_exc (run_factory call f) (hm_update H h0)) (\<lambda>h1.
     bind_exc (case headers of None \<Rightarrow> Inr h1 | Some hs \<Rightarrow> hm_update H h1 hs) (\<lambda>h2.
       if ac_propagate_request_id c \<and> opt_str request_id \<noteq> []
       then hm_setdefault H h2 request_id_header (opt_str request_id) else Inr h2)))"

record ('h, 'x) api_call =
  al_method :: pystr
  al_base :: pystr
  al_url :: pystr
  al_json :: "json option"
  al_headers :: 'h
  al_options :: 'x

definition api_request ::
  "'h header_map \<Rightarrow> ('f \<Rightarrow> exc + pystr dict) \<Rightarrow> 'f api_client \<Rightarrow> pystr option \<Rightarrow> pystr \<Rightarrow> pystr \<Rightarrow> json option \<Rightarrow>
     (pystr \<times> pystr) list option \<Rightarrow> 'x \<Rightarrow> exc + ('h, 'x) api_call" where
  "api_request H call c request_id method path json_body headers options =
     bind_exc (relative_api_path_or_raise path) (\<lambda>url.
     bind_exc (build_request_headers H call c request_id headers) (\<lambda>merged.
       Inr \<lparr>al_method = method, al_base = ac_resolved_base c, al_url = url, al_json = json_body, al_headers = merged,
            al_options = options\<rparr>))"

definition api_get ::
  "'h header_map \<Rightarrow> ('f \<Rightarrow> exc + pystr dict) \<Rightarrow> 'f api_client \<Rightarrow> pystr option \<Rightarrow> pystr \<Rightarrow>
     (pystr \<times> pystr) list option \<Rightarrow> 'x \<Rightarrow> exc + ('h, 'x) api_call" where
  "api_get H call c request_id path = api_request H call c request_id (u ''GET'') path None"

definition api_post ::
  "'h header_map \<Rightarrow> ('f \<Rightarrow> exc + pystr dict) \<Rightarrow> 'f api_client \<Rightarrow> pystr option \<Rightarrow> pystr \<Rightarrow> json option \<Rightarrow>
     (pystr \<times> pystr) list option \<Rightarrow> 'x \<Rightarrow> exc + ('h, 'x) api_call" where
  "api_post H call c request_id path = api_request H call c request_id (u ''POST'') path"

definition api_put ::
  "'h header_map \<Rightarrow> ('f \<Rightarrow> exc + pystr dict) \<Rightarrow> 'f api_client \<Rightarrow> pystr option \<Rightarrow> pystr \<Rightarrow> json option \<Rightarrow>
     (pystr \<times> pystr) list option \<Rightarrow> 'x \<Rightarrow> exc + ('h, 'x) api_call" where
  "api_put H call c request_id path = api_request H call c request_id (u ''PUT'') path"

definition api_delete ::
  "'h header_map \<Rightarrow> ('f \<Rightarrow> exc + pystr dict) \<Rightarrow> 'f api_client \<Rightarrow> pystr option \<Rightarrow> pystr \<Rightarrow>
     (pystr \<times> pystr) list option \<Rightarrow> 'x \<Rightarrow> exc + ('h, 'x) api_call" where
  "api_delete H call c request_id path = api_request H call c request_id (u ''DELETE'') path None"

record api_response =
  ar_status :: nat
  ar_content :: bytes

definition http_status_error :: exc where
  "http_status_error = OtherError (u ''httpx.HTTPStatusError'')"

definition raise_for_status :: "api_response \<Rightarrow> exc + api_response" where
  "raise_for_status r = (if 200 \<le> ar_status r \<and> ar_status r < 300 then Inr r else Inl http_status_error)"

definition get_model ::
  "'h header_map \<Rightarrow> ('f \<Rightarrow> exc + pystr dict) \<Rightarrow> 'f api_client \<Rightarrow> pystr option \<Rightarrow> (('h, 'x) api_call \<Rightarrow> exc + api_response) \<Rightarrow>
     pystr \<Rightarrow> (bytes \<Rightarrow> exc + 'm) \<Rightarrow> (pystr \<times> pystr) list option \<Rightarrow> 'x \<Rightarrow> exc + 'm" where
  "get_model H call c request_id send path validate_json headers options =
     bind_exc (api_get H call c request_id path headers options) (\<lambda>rq.
     bind_exc (send rq) (\<lambda>rs. bind_exc (raise_for_status rs) (\<lambda>rs'. validate_json (ar_content rs'))))"

text \<open>A body is a pydantic model, given by its JSON dump, or a mapping.\<close>

datatype model_body = ModelBody json | MappingBody "json dict"

definition post_model ::
  "'h header_map \<Rightarrow> ('f \<Rightarrow> exc + pystr dict) \<Rightarrow> 'f api_client \<Rightarrow> pystr option \<Rightarrow> (('h, 'x) api_call \<Rightarrow> exc + api_response) \<Rightarrow>
     pystr \<Rightarrow> (bytes \<Rightarrow> exc + 'm) \<Rightarrow> model_body option \<Rightarrow> json option \<Rightarrow> (pystr \<times> pystr) list option \<Rightarrow> 'x \<Rightarrow> exc + 'm" where
  "post_model H call c request_id send path validate_json body json_arg headers options =
     (if body \<noteq> None \<and> json_arg \<noteq> None then Inl TypeError
      else (let json_body = (case body of Some (ModelBody j) \<Rightarrow> Some j | Some (MappingBody d) \<Rightarrow> Some (JObj d) | None \<Rightarrow> json_arg)
            in bind_exc (api_post H call c request_id path json_body headers options) (\<lambda>rq.
               bind_exc (send rq) (\<lambda>rs. bind_exc (raise_for_status rs) (\<lambda>rs'. validate_json (ar_content rs'))))))"

subsection \<open>Exchanging an authorization code in a page\<close>

datatype st_query_value = QOne pystr | QMany "pystr list"

text \<open>What the helpers use of the Streamlit module: query parameters, session state, and whether
  \<open>query_params.pop\<close> exists and works.\<close>

record st_page =
  sp_query :: "st_query_value dict"
  sp_session :: "json dict"
  sp_pop_works :: bool

definition query_param_raw :: "st_query_value dict \<Rightarrow> pystr \<Rightarrow> pystr option" where
  "query_param_raw query_params key =
     (case map_of query_params key of
        None \<Rightarrow> None
      | Some (QOne s) \<Rightarrow> Some s
      | Some (QMany []) \<Rightarrow> None
      | Some (QMany (s # _)) \<Rightarrow> Some s)"

text \<open>\<open>post\<close>: the JSON answer of the exchange endpoint, errors of the status included.\<close>

definition exchange_auth_code_from_query ::
  "(pystr \<Rightarrow> exc + json) \<Rightarrow> pystr \<Rightarrow> pystr \<Rightarrow> st_page \<Rightarrow> (exc + pystr option) \<times> st_page" where
  "exchange_auth_code_from_query post query_key session_key sp =
     (let code = opt_str (query_param_raw (sp_query sp) query_key)
      in if code = [] then (Inr None, sp)
         else (case post code of
             Inl e \<Rightarrow> (Inl e, sp)
           | Inr (JObj data) \<Rightarrow>
               (case map_of data (u ''access_token'') of
                  Some (JStr token) \<Rightarrow>
                    if token = [] then (Inl ValueError, sp)
                    else (Inr (Some token),
                          sp\<lparr>sp_session := AList.update session_key (JStr token) (sp_session sp),
                             sp_query := (if sp_pop_works sp then AList.delete query_key (sp_query sp) else sp_query sp)\<rparr>)
                | _ \<Rightarrow> (Inl ValueError, sp))
           | Inr _ \<Rightarrow> (Inl AttributeError, sp)))"

definition session_token :: "(json \<Rightarrow> pystr) \<Rightarrow> json dict \<Rightarrow> pystr \<Rightarrow> pystr option" where
  "session_token other session session_key =
     (case map_of session session_key of
        None \<Rightarrow> None | Some v \<Rightarrow> if json_falsy v then None else Some (py_str other v))"

definition bearer_headers_from_session :: "(json \<Rightarrow> pystr) \<Rightarrow> json dict \<Rightarrow> pystr \<Rightarrow> pystr dict" where
  "bearer_headers_from_session other session session_key =
     (case session_token other session session_key of None \<Rightarrow> []
      | Some token \<Rightarrow> [(u ''Authorization'', bearer_value token)])"

text \<open>\<open>client_options\<close>: the keyword arguments passed on to the client's constructor.\<close>

record 'f client_options =
  po_base_url :: "pystr option"
  po_timeout :: real
  po_default_headers :: "pystr dict option"
  po_factory :: "'f auth_factory option"
  po_propagate :: bool

definition client_from_options :: "pystr dict \<Rightarrow> pystr option \<Rightarrow> 'f client_options \<Rightarrow> exc + 'f api_client" where
  "client_from_options environ tok opts =
     for_fluxlit environ tok (po_factory opts) (po_base_url opts) (po_timeout opts) (po_default_headers opts) (po_propagate opts)"

text \<open>The result also counts the connection pools opened and closed on the way.\<close>

definition prepare_streamlit_api_client ::
  "pystr dict \<Rightarrow> (json \<Rightarrow> pystr) \<Rightarrow> (pystr \<Rightarrow> exc + json) \<Rightarrow> pystr \<Rightarrow> 'f client_options \<Rightarrow> st_page \<Rightarrow>
     (exc + 'f api_client) \<times> st_page \<times> nat \<times> nat" where
  "prepare_streamlit_api_client environ other post session_key opts sp =
     (let opened = (\<lambda>r. case r of Inl e \<Rightarrow> 0 | Inr c \<Rightarrow> 1)
      in case session_token other (sp_session sp) session_key of
        Some token \<Rightarrow> (let r = client_from_options environ (Some token) opts in (r, sp, opened r, 0))
      | None \<Rightarrow>
          (let bootstrap = new_api_client environ (po_base_url opts) (po_timeout opts) (po_default_headers opts)
                             (po_factory opts) (po_propagate opts)
           in case exchange_auth_code_from_query post (u ''auth_code'') session_key sp of
                (Inl e, sp') \<Rightarrow> (Inl e, sp', 1, 1)
              | (Inr _, sp') \<Rightarrow>
                  (case session_token other (sp_session sp') session_key of
                     None \<Rightarrow> (Inr bootstrap, sp', 1, 0)
                   | Some raw \<Rightarrow> (let r = client_from_options environ (Some raw) opts in (r, sp', 1 + opened r, 1)))))"

subsection \<open>Attaching the OIDC routes\<close>

definition attach_oidc_secret :: "bool \<Rightarrow> pystr option \<Rightarrow> fluxlit_settings \<Rightarrow> exc + pystr" where
  "attach_oidc_secret already first_party_secret fs =
     (if already then Inl ValueError
      else (let secret = strip (or_str (opt_str first_party_secret) (fs_oidc_bff_secret fs))
            in if secret = [] then Inl ValueError else Inr secret))"

definition attach_oidc_public_base :: "pystr option \<Rightarrow> fluxlit_settings \<Rightarrow> pystr" where
  "attach_oidc_public_base public_raw fs =
     (case public_raw of Some p \<Rightarrow> strip p | None \<Rightarrow> strip (fs_public_base_url fs))"

text \<open>\<open>make_config\<close>: the configuration built from provider, secret, public base URL and overrides.\<close>

definition attach_oidc_login ::
  "(pystr \<Rightarrow> pystr \<Rightarrow> oidc_bff_config) \<Rightarrow> pystr option \<Rightarrow> pystr option \<Rightarrow> fluxlit_settings \<Rightarrow> bool \<Rightarrow>
     (exc + oidc_bff_config) \<times> bool" where
  "attach_oidc_login make_config first_party_secret public_raw fs attached =
     (case attach_oidc_secret attached first_party_secret fs of
        Inl e \<Rightarrow> (Inl e, attached)
      | Inr secret \<Rightarrow> (Inr (make_config secret (attach_oidc_public_base public_raw fs)), True))"

subsection \<open>Requests stay on the configured host\<close>

lemma contains_append: "contains (a @ p @ b) p"
proof (induction a)
  case Nil
  have "startswith s p \<Longrightarrow> contains s p" for s by (cases s) auto
  then show ?case by simp
next
  case (Cons c a)
  then show ?case by simp
qed

lemma urlparse_plain_path:
  assumes "startswith s [slash]" and "\<not> startswith s (u ''//'')" and "{9, 10, 13} \<inter> set s = {}"
  shows "\<exists>p. urlparse s = Inr p \<and> u_scheme p = [] \<and> u_netloc p = []"
proof -
  obtain r where s: "s = slash # r" using assms(1) by (auto simp: startswith_slash_iff)
  have clean: "filter (\<lambda>c. c \<noteq> 9 \<and> c \<noteq> 10 \<and> c \<noteq> 13) (lstrip_by (\<lambda>c. c \<le> 32) s) = s"
    using assms(3) s by (auto simp: lstrip_by_def intro!: filter_True)
  have "split_scheme s = ([], s)"
  proof (cases "split1 s (u '':'')")
    case None
    then show ?thesis by (simp add: split_scheme_def)
  next
    case (Some ab)
    then obtain a b where ab: "split1 s (u '':'') = Some (a, b)" by (cases ab) auto
    then have "s = a @ u '':'' @ b" by (rule split1_Some)
    then have "a = [] \<or> hd a = slash" using s by (cases a) (auto simp: u_def)
    then show ?thesis using ab by (cases a) (auto simp: split_scheme_def is_alpha_ascii_def is_scheme_char_def)
  qed
  then show ?thesis using assms(2) clean by (simp add: urlparse_def Let_def split: prod.split)
qed

text \<open>C24: Whatever path a page passes to the client, a request that is sent goes to the configured base URL: its
  path is accepted only if it has a leading slash and, read as a URL, neither scheme nor host; a path that
  carries an absolute URL or starts with two slashes is refused before anything is sent.\<close>

theorem api_requests_stay_on_host:
  assumes "api_request H call c request_id method path json_body headers options = Inr rq"
    and "{9, 10, 13} \<inter> set path = {}"
  shows "al_base rq = ac_resolved_base c \<and> al_url rq = lead_slash path \<and>
    (\<exists>p. urlparse (al_url rq) = Inr p \<and> u_scheme p = [] \<and> u_netloc p = []) \<and>
    \<not> startswith path (u ''//'') \<and> (\<nexists>a b. path = a @ u ''://'' @ b)"
proof -
  have rq: "\<not> contains (lead_slash path) (u ''://'')" "\<not> startswith (lead_slash path) (u ''//'')"
    "al_url rq = lead_slash path" "al_base rq = ac_resolved_base c"
    using assms(1) by (auto simp: api_request_def relative_api_path_or_raise_def bind_exc_Inr_iff Let_def split: if_splits)
  have "{9, 10, 13} \<inter> set (lead_slash path) = {}" using assms(2) by (auto simp: lead_slash_def)
  from urlparse_plain_path [OF lead_slash_starts rq(2) this] have
    "\<exists>p. urlparse (lead_slash path) = Inr p \<and> u_scheme p = [] \<and> u_netloc p = []" .
  moreover have "\<not> startswith path (u ''//'')"
    using rq(2) by (auto simp: lead_slash_def pystr_eval startswith_iff split: if_splits)
  moreover have "path \<noteq> a @ u ''://'' @ b" for a b
    using rq(1) contains_append [of a "u ''://''" b] contains_append [of "slash # a" "u ''://''" b]
    by (auto simp: lead_slash_def split: if_splits)
  ultimately show ?thesis using rq by simp
qed

subsection \<open>Precedence of headers\<close>

text \<open>What the client relies on of \<open>httpx.Headers\<close>: construction keeps all pairs, \<open>update\<close> replaces the names it
  mentions and keeps the rest, \<open>setdefault\<close> adds a missing name; names are compared without case.\<close>

definition mentions :: "(pystr \<times> pystr) list \<Rightarrow> pystr \<Rightarrow> bool" where
  "mentions ps n \<longleftrightarrow> list_ex (\<lambda>p. lower (fst p) = lower n) ps"

definition header_map_laws :: "'h header_map \<Rightarrow> bool" where
  "header_map_laws H \<longleftrightarrow>
     (\<forall>ps h n. hm_new H ps = Inr h \<longrightarrow> hm_values H h n = values_of ps n) \<and>
     (\<forall>h ps h' n. hm_update H h ps = Inr h' \<longrightarrow>
        hm_values H h' n = (if mentions ps n then values_of ps n else hm_values H h n)) \<and>
     (\<forall>h k v h' n. hm_setdefault H h k v = Inr h' \<longrightarrow>
        hm_values H h' n = (if hm_values H h n = [] \<and> lower n = lower k then [v] else hm_values H h n))"

lemma header_map_lawsD:
  assumes "header_map_laws H"
  shows "hm_new H ps = Inr h \<Longrightarrow> hm_values H h n = values_of ps n"
    and "hm_update H h ps = Inr h' \<Longrightarrow> hm_values H h' n = (if mentions ps n then values_of ps n else hm_values H h n)"
    and "hm_setdefault H h k v = Inr h' \<Longrightarrow>
      hm_values H h' n = (if hm_values H h n = [] \<and> lower n = lower k then [v] else hm_values H h n)"
  using assms unfolding header_map_laws_def by blast+

definition opt_pairs :: "(pystr \<times> pystr) list option \<Rightarrow> (pystr \<times> pystr) list" where
  "opt_pairs x = (case x of None \<Rightarrow> [] | Some ps \<Rightarrow> ps)"

text \<open>For every header name the caller's headers win over those of the authorization factory, which win
  over the client's defaults; the gateway's request id is added only where none of them names it.\<close>

theorem request_header_precedence:
  assumes "header_map_laws H" and "build_request_headers H call c request_id headers = Inr h"
    and "auth = (case ac_auth_header_factory c of None \<Rightarrow> Inr [] | Some f \<Rightarrow> run_factory call f)"
  shows "\<exists>ps. auth = Inr ps \<and>
    hm_values H h n =
      (if mentions (opt_pairs headers) n then values_of (opt_pairs headers) n
       else if mentions ps n then values_of ps n
       else if mentions (ac_default_headers c) n then values_of (ac_default_headers c) n
       else if ac_propagate_request_id c \<and> opt_str request_id \<noteq> [] \<and> lower n = request_id_header then [opt_str request_id]
       else [])"
proof -
  have nil: "\<not> mentions ps m \<Longrightarrow> values_of ps m = []" "mentions ps m \<Longrightarrow> values_of ps m \<noteq> []" for ps m
    by (auto simp: mentions_def values_of_def list_ex_iff filter_empty_conv)
  obtain h0 h1 h2 where h: "hm_new H (ac_default_headers c) = Inr h0"
    "(case ac_auth_header_factory c of None \<Rightarrow> Inr h0 | Some f \<Rightarrow> bind_exc (run_factory call f) (hm_update H h0)) = Inr h1"
    "(case headers of None \<Rightarrow> Inr h1 | Some hs \<Rightarrow> hm_update H h1 hs) = Inr h2"
    "(if ac_propagate_request_id c \<and> opt_str request_id \<noteq> []
      then hm_setdefault H h2 request_id_header (opt_str request_id) else Inr h2) = Inr h"
    using assms(2) by (auto simp: build_request_headers_def bind_exc_Inr_iff)
  note laws = header_map_lawsD [OF assms(1)]
  obtain ps where ps: "auth = Inr ps" "hm_values H h1 n = (if mentions ps n then values_of ps n else hm_values H h0 n)"
  proof (cases "ac_auth_header_factory c")
    case None
    with h(2) assms(3) that [of "[]"] show ?thesis by (simp add: mentions_def)
  next
    case (Some f)
    with h(2) obtain qs where "run_factory call f = Inr qs" "hm_update H h0 qs = Inr h1" by (auto simp: bind_exc_Inr_iff)
    with Some assms(3) laws(2) [of h0 qs h1 n] that [of qs] show ?thesis by simp
  qed
  have h0: "hm_values H h0 n = values_of (ac_default_headers c) n" using laws(1) [OF h(1)] .
  have h2: "hm_values H h2 n = (if mentions (opt_pairs headers) n then values_of (opt_pairs headers) n else hm_values H h1 n)"
    using h(3) laws(2) [of h1 _ h2 n] by (cases headers) (auto simp: opt_pairs_def mentions_def)
  have "lower request_id_header = request_id_header" by (simp add: request_id_header_def pystr_eval)
  then have hn: "hm_values H h n = (if ac_propagate_request_id c \<and> opt_str request_id \<noteq> [] \<and> hm_values H h2 n = [] \<and> lower n = request_id_header
      then [opt_str request_id] else hm_values H h2 n)"
    using h(4) laws(3) [of h2 request_id_header "opt_str request_id" h n] by (auto split: if_splits)
  show ?thesis
    by (rule exI [of _ ps], simp add: ps(1) hn h2 ps(2) h0) (use nil in auto)
qed

text \<open>An implementation of the laws, as a list of pairs.\<close>

definition pair_headers :: "(pystr \<times> pystr) list header_map" where
  "pair_headers = \<lparr>hm_new = Inr,
     hm_update = (\<lambda>h ps. Inr (filter (\<lambda>p. \<not> mentions ps (fst p)) h @ ps)),
     hm_setdefault = (\<lambda>h k v. Inr (if mentions h k then h else h @ [(k, v)])), hm_values = values_of\<rparr>"

lemma values_of_append [simp]: "values_of (xs @ ys) n = values_of xs n @ values_of ys n"
  by (simp add: values_of_def)

lemma values_of_Nil_iff: "values_of ps n = [] \<longleftrightarrow> \<not> mentions ps n"
  by (auto simp: mentions_def values_of_def list_ex_iff filter_empty_conv)

lemma mentions_lower: "lower a = lower b \<Longrightarrow> mentions ps a = mentions ps b"
  by (simp add: mentions_def)

lemma values_of_filter_mentions:
  "values_of (filter (\<lambda>p. \<not> mentions ps (fst p)) h) n = (if mentions ps n then [] else values_of h n)"
proof (induction h)
  case (Cons p h)
  then show ?case using mentions_lower [of "fst p" n ps] by (auto simp: values_of_def)
qed (simp add: values_of_def)

lemma pair_headers_laws: "header_map_laws pair_headers"
proof -
  have one: "values_of [(k, v)] n = (if lower n = lower k then [v] else [])" for k v n by (simp add: values_of_def)
  have sd: "values_of (if mentions h k then h else h @ [(k, v)]) n =
      (if values_of h n = [] \<and> lower n = lower k then [v] else values_of h n)" for h k v n
    using mentions_lower [of n k h] values_of_Nil_iff [of h n] by (auto simp: one)
  have "values_of (filter (\<lambda>p. \<not> mentions ps (fst p)) h @ ps) n = (if mentions ps n then values_of ps n else values_of h n)" for h ps n
    by (simp add: values_of_filter_mentions values_of_Nil_iff)
  with sd show ?thesis by (simp add: header_map_laws_def pair_headers_def)
qed

definition sample_client :: "unit api_client" where
  "sample_client = \<lparr>ac_resolved_base = u ''http://h/api'', ac_timeout = 30, ac_default_headers = [(u ''authorization'', u ''d'')],
     ac_auth_header_factory = Some (BearerFactory (u ''t'')), ac_propagate_request_id = True\<rparr>"

lemma sample_headers:
  "build_request_headers pair_headers call sample_client (Some (u ''r1'')) (Some [(u ''Accept'', u ''a'')]) =
     Inr [(u ''Authorization'', u ''Bearer t''), (u ''Accept'', u ''a''), (request_id_header, u ''r1'')]"
  by (simp add: build_request_headers_def pair_headers_def sample_client_def bind_exc_def mentions_def bearer_value_def
      request_id_header_def pystr_eval)

theorem api_requests_stay_on_host_witness:
  "\<exists>rq. api_request pair_headers (\<lambda>_. Inr []) sample_client (Some (u ''r1'')) (u ''GET'') (u ''users'') None (Some [(u ''Accept'', u ''a'')]) () = Inr rq
     \<and> al_base rq = u ''http://h/api'' \<and> al_url rq = lead_slash (u ''users'')"
proof -
  have "relative_api_path_or_raise (u ''users'') = Inr (lead_slash (u ''users''))"
    by (simp add: relative_api_path_or_raise_def lead_slash_def pystr_eval pystr_run)
  then obtain rq where rq: "api_request pair_headers (\<lambda>_. Inr []) sample_client (Some (u ''r1'')) (u ''GET'') (u ''users'') None
      (Some [(u ''Accept'', u ''a'')]) () = Inr rq"
    by (simp add: api_request_def sample_headers)
  have "{9, 10, 13} \<inter> set (u ''users'') = {}" by (simp add: pystr_eval)
  from api_requests_stay_on_host [OF rq this] rq show ?thesis by (simp add: sample_client_def)
qed

theorem request_header_precedence_witness:
  "values_of [(u ''Authorization'', u ''Bearer t''), (u ''Accept'', u ''a''), (request_id_header, u ''r1'')] (u ''authorization'') =
     [u ''Bearer t'']"
proof -
  have "\<not> mentions [(u ''Accept'', u ''a'')] (u ''authorization'')"
    "mentions [(u ''Authorization'', u ''Bearer t'')] (u ''authorization'')"
    "values_of [(u ''Authorization'', u ''Bearer t'')] (u ''authorization'') = [u ''Bearer t'']"
    by (simp_all add: mentions_def values_of_def pystr_eval)
  moreover have "u ''Bearer '' @ u ''t'' = u ''Bearer t''" by (simp add: pystr_eval)
  ultimately show ?thesis
    using request_header_precedence [OF pair_headers_laws sample_headers refl, of "\<lambda>_. Inr []" "u ''authorization''"]
    by (simp add: sample_client_def opt_pairs_def bearer_value_def pair_headers_def)
qed

text \<open>\<open>with_bearer\<close> over a factory that spells the name in lower case does not replace its header: the request
  carries both.\<close>

theorem with_bearer_keeps_lower_case_header:
  "run_factory (\<lambda>_. Inr [(u ''authorization'', u ''Bearer old'')]) (WithBearer (Some (CallerFactory f)) (u ''new'')) = Inr ps \<longleftrightarrow>
     values_of ps (u ''authorization'') = [u ''Bearer old'', u ''Bearer new''] \<and> length ps = 2 \<and>
     ps = [(u ''authorization'', u ''Bearer old''), (u ''Authorization'', u ''Bearer new'')]"
  by (auto simp: bind_exc_def bearer_value_def values_of_def pystr_eval)

subsection \<open>From the page's session to the API's guard\<close>

lemma bearer_token_reads_back:
  assumes "strip token = token" and "token \<noteq> []" and "hr_header req (u ''authorization'') = Some (bearer_value token)"
  shows "bearer_token req = Inr token"
proof -
  have v: "bearer_value token = u ''Bearer'' @ 32 # token" by (simp add: bearer_value_def pystr_eval)
  have "32 \<notin> set (u ''Bearer'')" by (simp add: pystr_eval)
  then have "split1 (bearer_value token) (u '' '') = Some (u ''Bearer'', token)"
    unfolding v using split1_chr [of 32 "u ''Bearer''" token] by (simp add: u_def)
  moreover have "startswith (lower (bearer_value token)) (u ''bearer '')"
    by (simp add: bearer_value_def lower_append pystr_eval)
  moreover have "bearer_value token \<noteq> []" by (simp add: v)
  ultimately show ?thesis using assms by (simp add: bearer_token_def)
qed

text \<open>The exchange endpoint as a page sees it.\<close>

definition exchange_answer :: "bff_response \<Rightarrow> exc + json" where
  "exchange_answer r =
     (case r of TokenJson token \<Rightarrow> Inr (JObj [(u ''access_token'', JStr token), (u ''token_type'', JStr (u ''bearer''))])
      | _ \<Rightarrow> Inl http_status_error)"

text \<open>What the code relies on of PyJWT when it issues and reads a token with one secret: a token is a non-empty
  text without surrounding blanks, and decoding it returns the payload while \<open>valid\<close> holds of its times.\<close>

definition jwt_roundtrip :: "'k jwt_lib \<Rightarrow> (json dict \<Rightarrow> int \<Rightarrow> bool) \<Rightarrow> bool" where
  "jwt_roundtrip L valid \<longleftrightarrow>
     (\<forall>p secret. jl_encode L p secret \<noteq> [] \<and> strip (jl_encode L p secret) = jl_encode L p secret) \<and>
     (\<forall>p secret algs aud iss leeway.
        u ''HS256'' \<in> set algs \<and> map_of p (u ''iss'') = Some (JStr iss) \<and> audience_ok p aud \<and> valid p leeway \<longrightarrow>
        jl_decode L (jl_encode L p secret) (SecretKey secret) algs aud iss leeway = Inr p)"

lemma issued_token_decodes:
  assumes "jwt_roundtrip L valid" and "jl_installed L"
    and "jc_hs256_secret (jb_config b) = Some secret" and "u ''HS256'' \<in> set (jc_algorithms (jb_config b))"
    and "jc_audience (jb_config b) = AudStr aud" and "jc_issuer (jb_config b) = iss"
    and "p = access_token_payload sub iss (AudStr aud) ttl now []" and "valid p (jc_leeway_seconds (jb_config b))"
  shows "decode_token_json L b (jl_encode L p secret) = Inr p"
proof -
  have "map_of p (u ''iss'') = Some (JStr iss)" "audience_ok p (AudStr aud)"
    by (simp_all add: assms(7) access_token_payload_def audience_ok_def pystr_eval)
  with assms show ?thesis unfolding jwt_roundtrip_def by (simp add: decode_token_json_def decode_with_def)
qed

lemma prepare_after_exchange:
  assumes "session_token other (sp_session sp) key = None" and "query_param_raw (sp_query sp) (u ''auth_code'') = Some code"
    and "code \<noteq> []" and "post code = Inr (JObj ((u ''access_token'', JStr token) # rest))" and "token \<noteq> []"
    and "po_factory opts = None"
  shows "\<exists>c sp'. prepare_streamlit_api_client environ other post key opts sp = (Inr c, sp', 2, 1) \<and>
    ac_auth_header_factory c = Some (BearerFactory token) \<and>
    bearer_headers_from_session other (sp_session sp') key = [(u ''Authorization'', bearer_value token)]"
  using assms
  by (simp add: prepare_streamlit_api_client_def exchange_auth_code_from_query_def session_token_def json_falsy_def
      client_from_options_def for_fluxlit_def new_api_client_def py_str_def bearer_headers_from_session_def Let_def)

lemma callback_token_issued:
  assumes "callback_token env config base code v iat = Inr token"
  shows "\<exists>sub. token = jl_encode (oe_lib env) (access_token_payload sub (ob_token_issuer config)
      (AudStr (ob_token_audience config)) (ob_access_token_ttl_seconds config) iat []) (ob_first_party_secret config)"
proof -
  obtain tokens where t: "(case map_of tokens (u ''id_token'') of
         Some (JStr id_token) \<Rightarrow>
           if id_token = [] then Inl (HTTPException 502 (u ''IdP response missing id_token''))
           else bind_exc (resolve_id_token_sub env config id_token) (\<lambda>sub.
             issue_hs256_access_token (oe_lib env) sub (ob_token_issuer config) (AudStr (ob_token_audience config))
               (ob_first_party_secret config) (ob_access_token_ttl_seconds config) iat [])
       | _ \<Rightarrow> Inl (HTTPException 502 (u ''IdP response missing id_token''))) = Inr token"
    using assms unfolding callback_token_def bind_exc_Inr_iff by (elim exE conjE)
  then obtain id_token where "map_of tokens (u ''id_token'') = Some (JStr id_token)"
  proof (cases "map_of tokens (u ''id_token'')")
    case (Some j)
    with t that show ?thesis by (cases j) simp_all
  qed simp
  with t have "bind_exc (resolve_id_token_sub env config id_token) (\<lambda>sub.
        issue_hs256_access_token (oe_lib env) sub (ob_token_issuer config) (AudStr (ob_token_audience config))
          (ob_first_party_secret config) (ob_access_token_ttl_seconds config) iat []) = Inr token"
    by (simp split: if_splits)
  then obtain sub where "issue_hs256_access_token (oe_lib env) sub (ob_token_issuer config)
      (AudStr (ob_token_audience config)) (ob_first_party_secret config) (ob_access_token_ttl_seconds config) iat [] = Inr token"
    unfolding bind_exc_Inr_iff by (elim exE conjE)
  then show ?thesis by (simp add: issue_hs256_access_token_def split: if_splits) blast
qed


definition roundtrip_lib :: "unit jwt_lib" where
  "roundtrip_lib = sample_lib\<lparr>
     jl_decode := (\<lambda>tok _ _ _ _ _. Inr (access_token_payload (butlast (tl tok)) (u ''me'') (AudStr (u ''app'')) 3600 0 [])),
     jl_encode := (\<lambda>p _. 46 # (case map_of p (u ''sub'') of Some (JStr s) \<Rightarrow> s | _ \<Rightarrow> []) @ [46])\<rparr>"

definition issued_here :: "json dict \<Rightarrow> int \<Rightarrow> bool" where
  "issued_here p leeway \<longleftrightarrow> (\<exists>sub. p = access_token_payload sub (u ''me'') (AudStr (u ''app'')) 3600 0 [])"

lemma payload_sub: "map_of (access_token_payload sub iss aud ttl now []) (u ''sub'') = Some (JStr sub)"
  by (simp add: access_token_payload_def)

lemma roundtrip_lib_laws: "jwt_roundtrip roundtrip_lib issued_here"
proof -
  have "\<not> is_space 46" by (simp add: is_space_def)
  then have "strip (46 # s @ [46]) = 46 # s @ [46]" for s unfolding strip_def by (intro strip_by_id) simp_all
  then show ?thesis by (auto simp: jwt_roundtrip_def roundtrip_lib_def issued_here_def payload_sub)
qed

definition otc_page :: st_page where
  "otc_page = \<lparr>sp_query = [(u ''auth_code'', QMany [u ''12345678''])], sp_session = [], sp_pop_works = True\<rparr>"

definition plain_options :: "unit client_options" where
  "plain_options = \<lparr>po_base_url = None, po_timeout = 30, po_default_headers = None, po_factory = None, po_propagate = False\<rparr>"

lemma roundtrip_callback:
  "\<exists>s'. callback_route oidc_memory_ops (sample_oidc_env\<lparr>oe_lib := roundtrip_lib\<rparr>) sample_bff [] (u ''c'') (u ''s'') 1 1 0
     (u ''12345678'') (save_pkce_verifier (u ''s'') (u ''v'') 0 (new_oidc_memory 600 120)) =
   (Redirect (u ''http://h/?auth_code=12345678''), s')"
proof -
  have q: "with_query (u ''http://h'') (u ''/'') [(u ''auth_code'', u ''12345678'')] = Inr (u ''http://h/?auth_code=12345678'')"
    by (simp add: with_query_def url_evals urlencode_def is_surrogate_def quote_plus_def quote_plus_cp_def unreserved_cp_def
      pystr_eval pystr_run)
  have b: "split_chr 46 (u ''h.p.s'') = [u ''h'', u ''p'', u ''s'']" by (simp add: pystr_eval split_chr.simps)
  have r: "rstrip_slash (u ''http://h'') = u ''http://h''" by (simp add: pystr_eval)
  have b4: "u ''c'' \<noteq> []" "u ''s'' \<noteq> []" "u ''ada'' \<noteq> []" "u ''http://h'' \<noteq> []" "u ''h.p.s'' \<noteq> []" by (simp_all add: u_def)
  show ?thesis
    by (simp add: callback_route_def oidc_memory_defs new_oidc_memory_def purge_expired_def callback_token_def
      provider_exchange_code_def sample_bff_def sample_custom_def sample_oidc_env_def resolve_id_token_sub_def subject_parse_only_def b
      subject_of_claims_def issue_hs256_access_token_def roundtrip_lib_def sample_lib_def as_response_def q r or_str_def b4)
qed


subsection \<open>Connection pools and the one attachment\<close>

text \<open>\<open>prepare_streamlit_api_client\<close> leaks no connection pool: when it returns a client exactly one of the
  pools it opened is still open, when it raises none is, whatever the exchange endpoint answered.\<close>

theorem prepare_client_no_leak:
  "(case prepare_streamlit_api_client environ other post key opts sp of
      (Inr c, sp', n_open, n_closed) \<Rightarrow> n_open = n_closed + 1
    | (Inl e, sp', n_open, n_closed) \<Rightarrow> n_open = n_closed \<and> sp_session sp' \<in> {sp_session sp} \<union> range (\<lambda>t. AList.update key (JStr t) (sp_session sp)))"
proof -
  have sess: "sp_session (snd (exchange_auth_code_from_query post q key sp)) \<in> {sp_session sp} \<union> range (\<lambda>t. AList.update key (JStr t) (sp_session sp))" for q
    by (auto simp: exchange_auth_code_from_query_def Let_def split: sum.split json.split option.split)
  show ?thesis
    using sess [of "u ''auth_code''"]
    by (auto simp: prepare_streamlit_api_client_def Let_def split: option.split sum.split prod.split)
qed

text \<open>A page that passes its own header factory works for anonymous visitors and fails for everyone logged in.\<close>

theorem prepare_client_factory_fails_logged_in:
  assumes "session_token other (sp_session sp) key = Some token" and "po_factory opts = Some f"
  shows "fst (prepare_streamlit_api_client environ other post key opts sp) = Inl TypeError"
  using assms by (simp add: prepare_streamlit_api_client_def client_from_options_def for_fluxlit_def)

theorem prepare_client_factory_fails_logged_in_witness:
  "fst (prepare_streamlit_api_client [] (\<lambda>_. []) (\<lambda>_. Inl ValueError) (u ''k'') (plain_options\<lparr>po_factory := Some (CallerFactory ())\<rparr>)
     (otc_page\<lparr>sp_session := [(u ''k'', JStr (u ''tok''))]\<rparr>)) = Inl TypeError"
  by (rule prepare_client_factory_fails_logged_in [where token = "u ''tok''" and f = "CallerFactory ()"])
    (simp_all add: session_token_def json_falsy_def py_str_def plain_options_def)

text \<open>The OIDC routes are attached at most once, and only with a non-blank signing secret.\<close>

theorem attach_oidc_once:
  "(let (r, attached) = attach_oidc_login mk first public fs False in
     case r of Inl e \<Rightarrow> \<not> attached \<and> strip (or_str (opt_str first) (fs_oidc_bff_secret fs)) = []
             | Inr cfg \<Rightarrow> attached \<and> (\<exists>secret. secret \<noteq> [] \<and> cfg = mk secret (attach_oidc_public_base public fs)) \<and>
                 attach_oidc_login mk' first' public' fs' attached = (Inl ValueError, True))"
  by (auto simp: attach_oidc_login_def attach_oidc_secret_def Let_def)

end
