(* ===== verification/Sidecar_Reload.thy ===== *)
theory Sidecar_Reload
  imports Unified_App
begin

section \<open>Running the split stack: supervision and reload of the sidecar\<close>

text \<open>
  Models \<open>runtime/uvicorn_runner.py\<close> and the watcher loop of \<open>runtime/reload_watcher.py\<close>: first
  \<open>run_unified\<close> as the sequence of what it does to the outside world, then the three threads it runs (the
  main thread in \<open>server.run\<close>, the monitor that waits for the sidecar, the watcher that restarts it) as a step
  relation over their shared variables. A step is one access to a shared variable or one call that blocks;
  processes are numbered in the order they are spawned.
\<close>

subsection \<open>\<open>run_unified\<close>\<close>

record run_args =
  ra_target :: pystr
  ra_host :: pystr
  ra_port :: int
  ra_reload :: bool
  ra_reload_scope :: pystr
  ra_log_level :: pystr
  ra_proxy_headers :: bool
  ra_forwarded_allow_ips :: "pystr option"
  ra_write_pidfile :: bool
  ra_workbench_mode :: bool

text \<open>The keyword arguments of \<open>uvicorn.Config\<close>; \<open>uc_app\<close> is \<open>None\<close> for the factory of reload mode, else the
  mount that is injected and the gateway.\<close>

record uvicorn_config =
  uc_app :: "(pystr \<times> gateway_config) option"
  uc_host :: pystr
  uc_port :: int
  uc_log_level :: pystr
  uc_root_path :: pystr
  uc_proxy_headers :: bool
  uc_forwarded_allow_ips :: "pystr option"
  uc_timeout_graceful_shutdown :: "real option"

definition effective_proxy :: "run_args \<Rightarrow> fluxlit_settings \<Rightarrow> bool" where
  "effective_proxy ra fs \<longleftrightarrow> ra_proxy_headers ra \<or> fs_trust_proxy fs \<or> ra_workbench_mode ra"

definition effective_allow_ips :: "run_args \<Rightarrow> fluxlit_settings \<Rightarrow> pystr option" where
  "effective_allow_ips ra fs =
     (if effective_proxy ra fs \<and> ra_forwarded_allow_ips ra = None
      then Some (or_str (opt_str (fs_forwarded_allow_ips fs)) (u ''*'')) else ra_forwarded_allow_ips ra)"

definition reload_scope_of :: "run_args \<Rightarrow> pystr" where
  "reload_scope_of ra = lower (strip (or_str (ra_reload_scope ra) (u ''gateway'')))"

definition server_config :: "build_env \<Rightarrow> run_args \<Rightarrow> fluxlit_settings \<Rightarrow> uvicorn_config" where
  "server_config be ra fs =
     (let mount = normalize_root_mount (public_mount_path fs)
      in \<lparr>uc_app = (if ra_reload ra then None
            else Some (mount, build_gateway (be_prom be) (fs_enable_gateway_access_log fs) (fs_api_mount_path fs) mount (Some fs))),
          uc_host = ra_host ra, uc_port = ra_port ra, uc_log_level = ra_log_level ra, uc_root_path = [],
          uc_proxy_headers = effective_proxy ra fs, uc_forwarded_allow_ips = effective_allow_ips ra fs,
          uc_timeout_graceful_shutdown = fs_uvicorn_graceful_shutdown_timeout_s fs\<rparr>)"

datatype run_event =
    Spawned "pystr list" "pystr dict"
  | SetEnviron pystr pystr
  | WroteUpstream pystr
  | WrotePidfile
  | Banner
  | Served uvicorn_config
  | RemovedUpstream
  | UnsetUpstreamFileEnv
  | RemovedPidfile
  | TerminatedSidecar

text \<open>How the outside world answers: loading the target, spawning, the TCP wait, writing the state file and the
  PID file, how \<open>server.run\<close> ends, and removing the PID file (a missing file is no error).\<close>

record run_world =
  rw_load :: "exc + fluxlit_settings"
  rw_popen :: "exc + unit"
  rw_wait :: "exc + unit"
  rw_write_state :: "exc + unit"
  rw_write_pid :: "exc + unit"
  rw_serve :: "exc option"
  rw_remove_pid :: "exc option"

definition pidfile_wanted :: "build_env \<Rightarrow> run_args \<Rightarrow> bool" where
  "pidfile_wanted be ra \<longleftrightarrow> ra_write_pidfile ra \<and>
     lower (strip (opt_str (map_of (be_environ be) (u ''FLUXLIT_NO_PIDFILE'')))) \<notin> set (map u [''1'', ''true'', ''yes''])"

text \<open>What happens inside the \<open>try\<close>: events, whether the state file and the PID file were written, the exception.\<close>

definition run_body :: "build_env \<Rightarrow> run_world \<Rightarrow> run_args \<Rightarrow> fluxlit_settings \<Rightarrow> run_event list \<times> bool \<times> bool \<times> exc option" where
  "run_body be w ra fs =
     (case rw_wait w of Inl e \<Rightarrow> ([], False, False, Some e)
      | Inr _ \<Rightarrow>
         (let env_events = [SetEnviron (u ''FLUXLIT_APP'') (ra_target ra), SetEnviron (u ''FLUXLIT_API_PREFIX'') (fs_api_mount_path fs)]
          in case rw_write_state w of Inl e \<Rightarrow> (env_events, False, False, Some e)
             | Inr _ \<Rightarrow>
                (let ev1 = env_events @ [WroteUpstream (sidecar_url (be_free_port be))];
                     pid = (if pidfile_wanted be ra then map_sum id (\<lambda>_. True) (rw_write_pid w) else Inr False)
                 in case pid of Inl e \<Rightarrow> (ev1, True, False, Some e)
                    | Inr written \<Rightarrow>
                       (ev1 @ (if written then [WrotePidfile] else []) @ (if ra_workbench_mode ra then [Banner] else []) @
                          [Served (server_config be ra fs)], True, written, rw_serve w))))"

definition run_unified :: "build_env \<Rightarrow> run_world \<Rightarrow> run_args \<Rightarrow> run_event list \<times> exc option" where
  "run_unified be w ra =
     (case rw_load w of Inl e \<Rightarrow> ([], Some e)
      | Inr fs \<Rightarrow>
         if ra_reload ra \<and> reload_scope_of ra \<notin> set (map u [''gateway'', ''full'']) then ([], Some ValueError)
         else
           (let internal = internal_api_base_url (be_ip_address be) (ra_host ra) (ra_port ra) (fs_api_mount_path fs);
                env = build_streamlit_env (be_environ be) (ra_target ra) (fs_api_mount_path fs) internal
            in case build_streamlit_cmd (be_executable be) (be_runner be) (int (be_free_port be)) (public_mount_path fs)
                      (fs_streamlit_run_cli_args fs) of
                 Inl e \<Rightarrow> ([], Some e)
               | Inr cmd \<Rightarrow>
                  (case rw_popen w of Inl e \<Rightarrow> ([], Some e)
                   | Inr _ \<Rightarrow>
                      (let (events, state, pid, raised) = run_body be w ra fs;
                           unset = state \<or> map_of (be_environ be) upstream_file_env \<noteq> None
                       in (Spawned cmd env # events @ (if state then [RemovedUpstream] else []) @
                             (if unset then [UnsetUpstreamFileEnv] else []) @
                             (if pid \<and> rw_remove_pid w \<noteq> None then []
                              else (if pid then [RemovedPidfile] else []) @ [TerminatedSidecar]),
                           if pid \<and> rw_remove_pid w \<noteq> None then rw_remove_pid w else raised)))))"

definition cleanup_events :: "run_event set" where
  "cleanup_events = {RemovedUpstream, UnsetUpstreamFileEnv, RemovedPidfile, TerminatedSidecar}"


subsection \<open>The three threads\<close>

datatype monitor_pc = MonTop | MonWait nat | MonWoken | MonAwaitDone | MonClear | MonReset | MonGone

datatype watcher_pc = Watching | ToTerminate | ToSpawn | ToPublish nat | ToWait nat | ToFinish

datatype main_pc = InServer | ToCleanUp | Leaving | Left

text \<open>\<open>sv_box\<close> is \<open>proc_box[0]\<close>, \<open>sv_upstream\<close> the process the state file points to, \<open>sv_fault\<close> records that
  something other than a reload happened: a crash, a failed or timed out spawn, a signal to the server, or the
  monitor giving up on a reload.\<close>

record supervisor =
  sv_alive :: "nat set"
  sv_next :: nat
  sv_box :: nat
  sv_upstream :: nat
  sv_intentional :: bool
  sv_done :: bool
  sv_should_exit :: bool
  sv_monitor :: monitor_pc
  sv_watcher :: watcher_pc
  sv_main :: main_pc
  sv_fault :: bool

definition supervisor_init :: supervisor where
  "supervisor_init = \<lparr>sv_alive = {0}, sv_next = 1, sv_box = 0, sv_upstream = 0, sv_intentional = False, sv_done = False,
     sv_should_exit = False, sv_monitor = MonTop, sv_watcher = Watching, sv_main = InServer, sv_fault = False\<rparr>"

text \<open>\<open>spaced\<close>: a reload begins only when the monitor already waits for the current sidecar.\<close>

inductive sv_step :: "bool \<Rightarrow> supervisor \<Rightarrow> supervisor \<Rightarrow> bool" for spaced :: bool where
  mon_loop: "sv_main s \<noteq> Left \<Longrightarrow> sv_monitor s = MonTop \<Longrightarrow>
     sv_step spaced s (s\<lparr>sv_monitor := if sv_should_exit s then MonGone else MonWait (sv_box s)\<rparr>)"
| mon_wakes: "sv_main s \<noteq> Left \<Longrightarrow> sv_monitor s = MonWait p \<Longrightarrow> p \<notin> sv_alive s \<Longrightarrow> sv_step spaced s (s\<lparr>sv_monitor := MonWoken\<rparr>)"
| mon_decides: "sv_main s \<noteq> Left \<Longrightarrow> sv_monitor s = MonWoken \<Longrightarrow>
     sv_step spaced s (if sv_intentional s then s\<lparr>sv_monitor := MonAwaitDone\<rparr> else s\<lparr>sv_should_exit := True, sv_monitor := MonGone\<rparr>)"
| mon_sees_done: "sv_main s \<noteq> Left \<Longrightarrow> sv_monitor s = MonAwaitDone \<Longrightarrow> sv_done s \<Longrightarrow> sv_step spaced s (s\<lparr>sv_monitor := MonClear\<rparr>)"
| mon_times_out: "sv_main s \<noteq> Left \<Longrightarrow> sv_monitor s = MonAwaitDone \<Longrightarrow>
     sv_step spaced s (s\<lparr>sv_monitor := MonReset, sv_fault := True\<rparr>)"
| mon_clears: "sv_main s \<noteq> Left \<Longrightarrow> sv_monitor s = MonClear \<Longrightarrow> sv_step spaced s (s\<lparr>sv_monitor := MonReset, sv_done := False\<rparr>)"
| mon_resets: "sv_main s \<noteq> Left \<Longrightarrow> sv_monitor s = MonReset \<Longrightarrow> sv_step spaced s (s\<lparr>sv_monitor := MonTop, sv_intentional := False\<rparr>)"
| reload_begins: "sv_main s \<noteq> Left \<Longrightarrow> sv_watcher s = Watching \<Longrightarrow> \<not> sv_should_exit s \<Longrightarrow>
     (spaced \<Longrightarrow> sv_monitor s = MonWait (sv_box s)) \<Longrightarrow>
     sv_step spaced s (s\<lparr>sv_intentional := True, sv_done := False, sv_watcher := ToTerminate\<rparr>)"
| reload_terminates: "sv_main s \<noteq> Left \<Longrightarrow> sv_watcher s = ToTerminate \<Longrightarrow>
     sv_step spaced s (s\<lparr>sv_alive := sv_alive s - {sv_box s}, sv_watcher := ToSpawn\<rparr>)"
| reload_spawns: "sv_main s \<noteq> Left \<Longrightarrow> sv_watcher s = ToSpawn \<Longrightarrow>
     sv_step spaced s (s\<lparr>sv_alive := insert (sv_next s) (sv_alive s), sv_next := Suc (sv_next s), sv_watcher := ToPublish (sv_next s)\<rparr>)"
| reload_cannot_spawn: "sv_main s \<noteq> Left \<Longrightarrow> sv_watcher s = ToSpawn \<Longrightarrow> sv_step spaced s (s\<lparr>sv_watcher := ToFinish, sv_fault := True\<rparr>)"
| reload_publishes: "sv_main s \<noteq> Left \<Longrightarrow> sv_watcher s = ToPublish p \<Longrightarrow> sv_step spaced s (s\<lparr>sv_box := p, sv_watcher := ToWait p\<rparr>)"
| reload_listens: "sv_main s \<noteq> Left \<Longrightarrow> sv_watcher s = ToWait p \<Longrightarrow> sv_step spaced s (s\<lparr>sv_upstream := p, sv_watcher := ToFinish\<rparr>)"
| reload_times_out: "sv_main s \<noteq> Left \<Longrightarrow> sv_watcher s = ToWait p \<Longrightarrow>
     sv_step spaced s (s\<lparr>sv_alive := sv_alive s - {p}, sv_should_exit := True, sv_watcher := ToFinish, sv_fault := True\<rparr>)"
| reload_finishes: "sv_main s \<noteq> Left \<Longrightarrow> sv_watcher s = ToFinish \<Longrightarrow> sv_step spaced s (s\<lparr>sv_done := True, sv_watcher := Watching\<rparr>)"
| main_signalled: "sv_main s = InServer \<Longrightarrow> sv_step spaced s (s\<lparr>sv_should_exit := True, sv_fault := True\<rparr>)"
| main_stops: "sv_main s = InServer \<Longrightarrow> sv_should_exit s \<Longrightarrow> sv_step spaced s (s\<lparr>sv_main := ToCleanUp\<rparr>)"
| main_cleans_up: "sv_main s = ToCleanUp \<Longrightarrow> sv_step spaced s (s\<lparr>sv_alive := sv_alive s - {sv_box s}, sv_main := Leaving\<rparr>)"
| main_leaves: "sv_main s = Leaving \<Longrightarrow> sv_step spaced s (s\<lparr>sv_main := Left\<rparr>)"
| sidecar_crashes: "p \<in> sv_alive s \<Longrightarrow> sv_step spaced s (s\<lparr>sv_alive := sv_alive s - {p}, sv_fault := True\<rparr>)"

inductive_cases sv_stepE: "sv_step spaced s s'"

definition sv_reachable :: "bool \<Rightarrow> supervisor \<Rightarrow> bool" where
  "sv_reachable spaced s \<longleftrightarrow> (sv_step spaced)\<^sup>*\<^sup>* supervisor_init s"

subsection \<open>The watcher's loop\<close>

text \<open>What the watcher thread does: nothing without the package; else it calls back once per batch of changes until the
  stop flag is set, and reports what the callback or the watch itself raised. A batch is the flag and what the
  callback raises at that point; \<open>ended\<close> is what the watch raises after the last batch.\<close>

datatype watcher_effect = NeedsWatchfiles | WatchStarts int | CallsBack | ReloadFailed exc | WatchExited exc

fun watch_loop :: "(bool \<times> exc option) list \<Rightarrow> exc option \<Rightarrow> watcher_effect list" where
  "watch_loop [] ended = (case ended of None \<Rightarrow> [] | Some e \<Rightarrow> [WatchExited e])"
| "watch_loop ((stop, raised) # batches) ended =
     (if stop then []
      else CallsBack # (case raised of None \<Rightarrow> [] | Some e \<Rightarrow> [ReloadFailed e]) @ watch_loop batches ended)"

definition streamlit_reload_watcher ::
  "bool \<Rightarrow> real \<Rightarrow> (bool \<times> exc option) list \<Rightarrow> exc option \<Rightarrow> watcher_effect list" where
  "streamlit_reload_watcher installed debounce_s batches ended =
     (if \<not> installed then [NeedsWatchfiles]
      else WatchStarts \<lfloor>max 50 (debounce_s * 1000)\<rfloor> # watch_loop batches ended)"

text \<open>A failing reload does not end the watch, and none begins once the server wants to stop.\<close>

lemma watch_loop_calls:
  "filter (\<lambda>e. e = CallsBack) (watch_loop batches ended) = replicate (length (takeWhile (\<lambda>b. \<not> fst b) batches)) CallsBack"
  by (induction batches ended rule: watch_loop.induct) (auto split: option.split)

subsection \<open>At most one sidecar\<close>

text \<open>Who may be alive, by where the watcher stands, and that the state file follows the box.\<close>

definition watcher_inv :: "supervisor \<Rightarrow> bool" where
  "watcher_inv s \<longleftrightarrow>
     (case sv_watcher s of
        Watching \<Rightarrow> sv_alive s \<subseteq> {sv_box s} \<and> (sv_upstream s = sv_box s \<or> sv_should_exit s)
      | ToTerminate \<Rightarrow> sv_alive s \<subseteq> {sv_box s} \<and> sv_upstream s = sv_box s
      | ToSpawn \<Rightarrow> sv_alive s = {} \<and> sv_upstream s = sv_box s
      | ToPublish p \<Rightarrow> sv_alive s \<subseteq> {p} \<and> sv_upstream s = sv_box s \<and> sv_box s < p \<and> p < sv_next s
      | ToWait p \<Rightarrow> sv_alive s \<subseteq> {p} \<and> sv_box s = p
      | ToFinish \<Rightarrow> sv_alive s \<subseteq> {sv_box s} \<and> (sv_upstream s = sv_box s \<or> sv_should_exit s)) \<and>
     sv_box s < sv_next s"

lemma watcher_inv_step: "watcher_inv s \<Longrightarrow> sv_step spaced s s' \<Longrightarrow> watcher_inv s'"
  by (erule sv_stepE) (auto simp: watcher_inv_def split: watcher_pc.splits)

lemma watcher_inv_init: "watcher_inv supervisor_init"
  by (simp add: watcher_inv_def supervisor_init_def)

interpretation threads: invariant_system "sv_step spaced" "\<lambda>s. s = supervisor_init" watcher_inv for spaced
  by unfold_locales (auto intro: watcher_inv_init watcher_inv_step)

lemma watcher_inv_single: "watcher_inv s \<Longrightarrow> \<exists>p. sv_alive s \<subseteq> {p}"
  by (cases "sv_watcher s") (auto simp: watcher_inv_def)



subsection \<open>Reloads that keep their distance\<close>

text \<open>Where monitor, flags and watcher may stand while nothing went wrong and reloads are spaced.\<close>

definition calm_inv :: "supervisor \<Rightarrow> bool" where
  "calm_inv s \<longleftrightarrow> \<not> sv_should_exit s \<and> sv_main s = InServer \<and>
     (case sv_watcher s of
        Watching \<Rightarrow> sv_box s \<in> sv_alive s
      | ToTerminate \<Rightarrow> sv_box s \<in> sv_alive s | ToSpawn \<Rightarrow> True | ToPublish p \<Rightarrow> p \<in> sv_alive s \<and> sv_box s \<notin> sv_alive s
      | ToWait p \<Rightarrow> sv_box s \<in> sv_alive s \<and> p = sv_box s | ToFinish \<Rightarrow> sv_box s \<in> sv_alive s) \<and>
     (case sv_monitor s of
        MonTop \<Rightarrow> \<not> sv_intentional s \<and> \<not> sv_done s \<and> sv_watcher s = Watching
      | MonWait p \<Rightarrow>
          (if sv_watcher s = Watching
           then (if sv_intentional s then sv_done s \<and> p \<notin> sv_alive s else \<not> sv_done s \<and> p = sv_box s)
           else sv_intentional s \<and> \<not> sv_done s)
      | MonWoken \<Rightarrow> sv_intentional s \<and> sv_done s = (sv_watcher s = Watching)
      | MonAwaitDone \<Rightarrow> sv_intentional s \<and> sv_done s = (sv_watcher s = Watching)
      | MonClear \<Rightarrow> sv_intentional s \<and> sv_done s \<and> sv_watcher s = Watching
      | MonReset \<Rightarrow> sv_intentional s \<and> \<not> sv_done s \<and> sv_watcher s = Watching
      | MonGone \<Rightarrow> False) \<and>
     (case sv_monitor s of MonWait p \<Rightarrow> p < sv_next s \<and>
        (case sv_watcher s of ToTerminate \<Rightarrow> p = sv_box s | ToSpawn \<Rightarrow> p = sv_box s | ToPublish q \<Rightarrow> p = sv_box s
         | ToWait q \<Rightarrow> p \<noteq> sv_box s \<and> p \<notin> sv_alive s | ToFinish \<Rightarrow> p \<noteq> sv_box s \<and> p \<notin> sv_alive s
         | Watching \<Rightarrow> True)
      | _ \<Rightarrow> True)"

lemma calm_inv_step:
  assumes "calm_inv s" and "watcher_inv s" and "sv_step True s s'" and "\<not> sv_fault s'"
  shows "calm_inv s'"
  using assms(3)
  by cases
    (use assms(1,2,4) in \<open>
       ((cases "sv_watcher s"; (auto simp: calm_inv_def watcher_inv_def split: if_splits; fail)) |
        (cases "sv_monitor s"; (auto simp: calm_inv_def watcher_inv_def split: if_splits; fail)))+\<close>)

lemma fault_stays: "sv_step spaced s s' \<Longrightarrow> \<not> sv_fault s' \<Longrightarrow> \<not> sv_fault s"
  by (erule sv_stepE) (auto split: if_splits)

lemma calm_inv_init: "calm_inv supervisor_init"
  by (simp add: calm_inv_def supervisor_init_def)

interpretation calm_threads: invariant_system "sv_step True" "\<lambda>s. s = supervisor_init"
    "\<lambda>s. watcher_inv s \<and> (\<not> sv_fault s \<longrightarrow> calm_inv s)"
  by unfold_locales (use watcher_inv_init calm_inv_init watcher_inv_step calm_inv_step fault_stays in blast)+

text \<open>C16: Reloading does not take the service down: as long as nothing crashes, times out or is signalled and a
  reload begins only once the monitor waits for the current sidecar again, the server is never told to exit, the
  monitor stays on duty, and whenever no reload is in progress the held sidecar is alive and is the one the
  gateway proxies to.\<close>

theorem spaced_reloads_keep_service:
  assumes "sv_reachable True s" and "\<not> sv_fault s"
  shows "\<not> sv_should_exit s \<and> sv_main s = InServer \<and> sv_monitor s \<noteq> MonGone \<and>
    (if sv_watcher s = Watching then sv_alive s = {sv_box s} \<and> sv_upstream s = sv_box s else True)"
proof -
  have "calm_inv s" "watcher_inv s"
    using calm_threads.good_reachable [OF assms(1) [unfolded sv_reachable_def] refl] assms(2) by blast+
  then show ?thesis by (auto simp: calm_inv_def watcher_inv_def)
qed

lemma sv_reachable_step: "sv_reachable spaced s \<Longrightarrow> sv_step spaced s s' \<Longrightarrow> s'' = s' \<Longrightarrow> sv_reachable spaced s''"
  by (auto simp: sv_reachable_def)

text \<open>A reload from start to finish, seen by the watcher only.\<close>

definition after_reload :: "supervisor \<Rightarrow> supervisor" where
  "after_reload s = s\<lparr>sv_intentional := True, sv_done := True, sv_alive := insert (sv_next s) (sv_alive s - {sv_box s}),
     sv_next := Suc (sv_next s), sv_box := sv_next s, sv_upstream := sv_next s\<rparr>"

lemma whole_reload:
  assumes "sv_reachable spaced s" and "sv_main s \<noteq> Left" and "sv_watcher s = Watching" and "\<not> sv_should_exit s"
    and "spaced \<Longrightarrow> sv_monitor s = MonWait (sv_box s)"
  shows "sv_reachable spaced (after_reload s)"
proof -
  let ?s1 = "s\<lparr>sv_intentional := True, sv_done := False, sv_watcher := ToTerminate\<rparr>"
  let ?s2 = "?s1\<lparr>sv_alive := sv_alive s - {sv_box s}, sv_watcher := ToSpawn\<rparr>"
  let ?s3 = "?s2\<lparr>sv_alive := insert (sv_next s) (sv_alive s - {sv_box s}), sv_next := Suc (sv_next s), sv_watcher := ToPublish (sv_next s)\<rparr>"
  let ?s4 = "?s3\<lparr>sv_box := sv_next s, sv_watcher := ToWait (sv_next s)\<rparr>"
  let ?s5 = "?s4\<lparr>sv_upstream := sv_next s, sv_watcher := ToFinish\<rparr>"
  have "sv_reachable spaced ?s1" by (rule sv_reachable_step [OF assms(1) reload_begins]) (use assms in auto)
  then have "sv_reachable spaced ?s2" by (rule sv_reachable_step [OF _ reload_terminates]) (use assms in auto)
  then have "sv_reachable spaced ?s3" by (rule sv_reachable_step [OF _ reload_spawns]) (use assms in auto)
  then have "sv_reachable spaced ?s4" by (rule sv_reachable_step [OF _ reload_publishes]) (use assms in auto)
  then have "sv_reachable spaced ?s5" by (rule sv_reachable_step [OF _ reload_listens]) (use assms in auto)
  then show ?thesis by (rule sv_reachable_step [OF _ reload_finishes]) (use assms in \<open>auto simp: after_reload_def\<close>)
qed

definition watched_init :: supervisor where
  "watched_init = supervisor_init\<lparr>sv_monitor := MonWait 0\<rparr>"

lemma watched_reachable: "sv_reachable spaced watched_init"
  by (rule sv_reachable_step [OF _ mon_loop]) (auto simp: sv_reachable_def watched_init_def supervisor_init_def)

theorem spaced_reloads_keep_service_witness:
  "sv_alive (after_reload watched_init) = {1} \<and> sv_upstream (after_reload watched_init) = 1 \<and> \<not> sv_should_exit (after_reload watched_init)"
proof -
  have "sv_reachable True (after_reload watched_init)"
    by (rule whole_reload [OF watched_reachable]) (simp_all add: watched_init_def supervisor_init_def)
  from spaced_reloads_keep_service [OF this] show ?thesis
    by (simp add: after_reload_def watched_init_def supervisor_init_def)
qed

subsection \<open>Two races\<close>

text \<open>The monitor has woken for a first reload and seen it done when a second one begins: it then resets the flag
  the second one has set and takes the terminated sidecar for a crash.\<close>

definition false_alarm :: supervisor where
  "false_alarm = supervisor_init\<lparr>sv_monitor := MonGone, sv_alive := {}, sv_next := 2, sv_box := 1, sv_upstream := 1,
     sv_watcher := ToSpawn, sv_should_exit := True\<rparr>"

lemma false_alarm_reachable: "sv_reachable False false_alarm"
proof -
  let ?r = "after_reload watched_init"
  note d = after_reload_def watched_init_def supervisor_init_def false_alarm_def
  have r: "sv_reachable False ?r"
    by (rule whole_reload [OF watched_reachable]) (simp_all add: watched_init_def supervisor_init_def)
  then have "sv_reachable False (?r\<lparr>sv_monitor := MonWoken\<rparr>)"
    by (rule sv_reachable_step [OF _ mon_wakes]) (auto simp: d)
  then have "sv_reachable False (?r\<lparr>sv_monitor := MonAwaitDone\<rparr>)"
    by (rule sv_reachable_step [OF _ mon_decides]) (auto simp: d)
  then have "sv_reachable False (?r\<lparr>sv_monitor := MonClear\<rparr>)"
    by (rule sv_reachable_step [OF _ mon_sees_done]) (auto simp: d)
  then have "sv_reachable False (?r\<lparr>sv_monitor := MonClear, sv_done := False, sv_watcher := ToTerminate\<rparr>)"
    by (rule sv_reachable_step [OF _ reload_begins]) (auto simp: d)
  then have "sv_reachable False (?r\<lparr>sv_monitor := MonClear, sv_done := False, sv_watcher := ToSpawn, sv_alive := {}\<rparr>)"
    by (rule sv_reachable_step [OF _ reload_terminates]) (auto simp: d)
  then have "sv_reachable False (?r\<lparr>sv_monitor := MonReset, sv_done := False, sv_watcher := ToSpawn, sv_alive := {}\<rparr>)"
    by (rule sv_reachable_step [OF _ mon_clears]) (auto simp: d)
  then have "sv_reachable False (?r\<lparr>sv_monitor := MonTop, sv_done := False, sv_watcher := ToSpawn, sv_alive := {}, sv_intentional := False\<rparr>)"
    by (rule sv_reachable_step [OF _ mon_resets]) (auto simp: d)
  then have "sv_reachable False (?r\<lparr>sv_monitor := MonWait 1, sv_done := False, sv_watcher := ToSpawn, sv_alive := {}, sv_intentional := False\<rparr>)"
    by (rule sv_reachable_step [OF _ mon_loop]) (auto simp: d)
  then have "sv_reachable False (?r\<lparr>sv_monitor := MonWoken, sv_done := False, sv_watcher := ToSpawn, sv_alive := {}, sv_intentional := False\<rparr>)"
    by (rule sv_reachable_step [OF _ mon_wakes]) (auto simp: d)
  then show ?thesis by (rule sv_reachable_step [OF _ mon_decides]) (auto simp: d)
qed

text \<open>The server stops while a reload has terminated the old sidecar and spawned the new one but not stored it.\<close>

definition late_spawn :: supervisor where
  "late_spawn = watched_init\<lparr>sv_intentional := True, sv_alive := {1}, sv_next := 2, sv_watcher := ToPublish 1,
     sv_should_exit := True, sv_fault := True, sv_main := Left\<rparr>"

lemma late_spawn_reachable: "sv_reachable False late_spawn"
proof -
  note d = watched_init_def supervisor_init_def late_spawn_def
  have "sv_reachable False (watched_init\<lparr>sv_intentional := True, sv_watcher := ToTerminate\<rparr>)"
    by (rule sv_reachable_step [OF watched_reachable reload_begins]) (auto simp: d)
  then have "sv_reachable False (watched_init\<lparr>sv_intentional := True, sv_watcher := ToSpawn, sv_alive := {}\<rparr>)"
    by (rule sv_reachable_step [OF _ reload_terminates]) (auto simp: d)
  then have "sv_reachable False (watched_init\<lparr>sv_intentional := True, sv_watcher := ToPublish 1, sv_alive := {1}, sv_next := 2\<rparr>)"
    by (rule sv_reachable_step [OF _ reload_spawns]) (auto simp: d)
  then have "sv_reachable False (late_spawn\<lparr>sv_main := InServer\<rparr>)"
    by (rule sv_reachable_step [OF _ main_signalled]) (auto simp: d)
  then have "sv_reachable False (late_spawn\<lparr>sv_main := ToCleanUp\<rparr>)"
    by (rule sv_reachable_step [OF _ main_stops]) (auto simp: d)
  then have "sv_reachable False (late_spawn\<lparr>sv_main := Leaving\<rparr>)"
    by (rule sv_reachable_step [OF _ main_cleans_up]) (auto simp: d)
  then show ?thesis by (rule sv_reachable_step [OF _ main_leaves]) (auto simp: d)
qed

text \<open>Without the spacing two races are real: two reloads in quick succession can stop the whole server
  although nothing failed, and stopping the server during a reload can leave the freshly spawned Streamlit
  process running after FluxLit has exited.\<close>

theorem reload_races:
  "(\<exists>s. sv_reachable False s \<and> sv_should_exit s \<and> \<not> sv_fault s) \<and>
   (\<exists>s. sv_reachable False s \<and> sv_main s = Left \<and> sv_alive s \<noteq> {})"
proof -
  have "sv_should_exit false_alarm \<and> \<not> sv_fault false_alarm" "sv_main late_spawn = Left \<and> sv_alive late_spawn \<noteq> {}"
    by (simp_all add: false_alarm_def late_spawn_def watched_init_def supervisor_init_def)
  with false_alarm_reachable late_spawn_reachable show ?thesis by blast
qed

end
