(* ===== verification/Config_Diag.thy ===== *)
theory Config_Diag
  imports Process_Control Page_DI
begin

section \<open>Redaction and configuration diagnostics\<close>

text \<open>
  Models \<open>logging/redact.py\<close>, \<open>config/config_print.py\<close>, the checks of \<open>fluxlit doctor\<close> and the exit codes of
  \<open>doctor\<close> and \<open>config\<close> in \<open>cli.py\<close>. The dump of the settings is a JSON object. A warning is its level and
  code, a row of the doctor its name and status; the explanatory texts are in \<open>Report_Output\<close>. What the doctor finds
  in its surroundings (modules, sockets, files) is a record of answers. \<open>parse_qsl\<close> is an argument.
\<close>

subsection \<open>Redaction\<close>

definition redacted :: pystr where
  "redacted = u ''[REDACTED]''"

definition sensitive_fields :: "pystr list" where
  "sensitive_fields = map u [''jwt_hs256_secret'', ''oidc_bff_secret'']"

definition redact_cors :: "json dict \<Rightarrow> json dict" where
  "redact_cors kwargs =
     map (\<lambda>(ck, cv). (ck, if list_ex (\<lambda>s. contains (lower ck) (u s)) [''secret'', ''token'', ''password'', ''authorization'']
                         then JStr redacted else cv)) kwargs"

definition redact_field :: "pystr \<Rightarrow> json \<Rightarrow> json" where
  "redact_field key val =
     (case val of
        JStr s \<Rightarrow> if key \<in> set sensitive_fields \<and> strip s \<noteq> [] then JStr redacted else val
      | JObj d \<Rightarrow> if key = u ''cors_middleware_kwargs'' then JObj (redact_cors d) else val
      | _ \<Rightarrow> val)"

definition redact_fluxlit_settings_dict :: "json dict \<Rightarrow> json dict" where
  "redact_fluxlit_settings_dict raw = map (\<lambda>(k, v). (k, redact_field k v)) raw"

definition redact_authorization :: "pystr \<Rightarrow> pystr" where
  "redact_authorization value =
     (let s = strip value; l = lower s
      in if s = [] then []
         else if startswith l (u ''bearer '') then u ''Bearer <redacted>''
         else if startswith l (u ''basic '') then u ''Basic <redacted>'' else u ''<redacted>'')"

definition sanitize_headers :: "pystr dict \<Rightarrow> pystr dict" where
  "sanitize_headers headers =
     map (\<lambda>(k, v). (k, if lower k = u ''authorization'' then redact_authorization v
                       else if lower k = u ''cookie'' then u ''<redacted>'' else v)) headers"

definition redact_pair :: "pystr set \<Rightarrow> pystr \<times> pystr \<Rightarrow> pystr \<times> pystr" where
  "redact_pair keys_lower = (\<lambda>(k, v). if lower k \<in> keys_lower \<and> v \<noteq> [] then (k, u ''<redacted>'') else (k, v))"

definition redact_query_string :: "(pystr \<Rightarrow> exc + (pystr \<times> pystr) list) \<Rightarrow> pystr \<Rightarrow> pystr set \<Rightarrow> exc + pystr" where
  "redact_query_string parse_qsl query_string sensitive_keys =
     (if query_string = [] then Inr []
      else (let keys = (if sensitive_keys = {} then {u ''fluxlit_sid'', u ''auth_code''} else sensitive_keys)
            in case parse_qsl query_string of
                 Inl _ \<Rightarrow> Inr query_string
               | Inr pairs \<Rightarrow> urlencode (map (redact_pair (lower ` keys)) pairs)))"

subsection \<open>Configuration warnings\<close>

datatype level = Warn | Error

type_synonym warning = "level \<times> pystr"

definition opt_str_json :: "pystr option \<Rightarrow> string \<Rightarrow> json dict" where
  "opt_str_json v k = (case v of None \<Rightarrow> [] | Some s \<Rightarrow> [(u k, JStr s)])"

definition project_file_snapshot :: "project_config option \<Rightarrow> json dict option" where
  "project_file_snapshot pc =
     (case pc of None \<Rightarrow> None
      | Some c \<Rightarrow>
          let data = opt_str_json (pc_target c) ''target'' @ opt_str_json (pc_gateway_host c) ''gateway_host'' @
                (case pc_gateway_port c of None \<Rightarrow> [] | Some p \<Rightarrow> [(u ''gateway_port'', JInt p)]) @
                opt_str_json (pc_log_level c) ''log_level'' @ opt_str_json (pc_api_mount_path c) ''api_mount_path'' @
                opt_str_json (pc_root_path c) ''root_path''
          in if data = [] then None else Some data)"

definition ambient_base :: "pystr dict \<Rightarrow> pystr" where
  "ambient_base env = strip (opt_str (map_of env (u ''FLUXLIT_INTERNAL_API_BASE'')))"

definition warn_if :: "bool \<Rightarrow> level \<Rightarrow> string \<Rightarrow> warning list" where
  "warn_if b l code = (if b then [(l, u code)] else [])"

definition internal_base_warnings :: "fluxlit_settings \<Rightarrow> pystr \<Rightarrow> exc + warning list" where
  "internal_base_warnings fs internal =
     (if internal = [] then Inr []
      else bind_exc (urlparse internal) (\<lambda>p. Inr (
        if u_scheme p = [] \<or> u_netloc p = [] then [(Error, u ''internal_api_base_invalid'')]
        else warn_if (rstrip_slash (or_str (u_path p) [slash]) \<noteq> rstrip_slash (fs_api_mount_path fs)) Warn ''internal_api_base_path'')))"

definition endswith :: "pystr \<Rightarrow> pystr \<Rightarrow> bool" where
  "endswith s t \<longleftrightarrow> startswith (rev s) (rev t)"

definition public_base_warnings :: "fluxlit_settings \<Rightarrow> exc + warning list" where
  "public_base_warnings fs =
     (let pb = strip (fs_public_base_url fs)
      in if pb = [] then Inr []
         else bind_exc (urlparse pb) (\<lambda>p. Inr (
           if u_scheme p = [] \<or> u_netloc p = [] then [(Error, u ''public_base_url_invalid'')]
           else (let root = rstrip_slash (public_mount_path fs); public_path = rstrip_slash (u_path p);
                     ap = normalize_api_mount_path (fs_api_mount_path fs)
                 in warn_if (root \<noteq> [] \<and> public_path \<noteq> [] \<and> public_path \<noteq> root) Warn ''public_base_url_path_mismatch'' @
                    warn_if (public_path \<noteq> [] \<and> ap \<noteq> [slash] \<and> ap \<noteq> rstrip_slash (public_path @ [slash]) \<and> ap \<noteq> public_path \<and>
                             \<not> endswith public_path (rstrip_slash ap)) Warn ''public_base_url_missing_api_prefix''))))"

definition gateway_warnings :: "fluxlit_settings \<Rightarrow> warning list" where
  "gateway_warnings fs =
     warn_if (fs_rejected_forward_headers fs \<noteq> []) Warn ''gateway_forward_blocked_names'' @
     warn_if (fs_trust_proxy fs \<and> fs_gateway_max_proxy_request_body_bytes fs = 0) Warn ''gateway_max_body_unlimited_trust_proxy''"

definition collect_configuration_warnings ::
  "(pystr \<Rightarrow> ip_addr option) \<Rightarrow> pystr dict \<Rightarrow> fluxlit_settings \<Rightarrow> pystr \<Rightarrow> int \<Rightarrow> exc + warning list" where
  "collect_configuration_warnings ip_address env fs bind_host bind_port =
     (let internal = ambient_base env; allow = strip (opt_str (fs_forwarded_allow_ips fs));
          mount = public_mount_path fs; pb = strip (fs_public_base_url fs);
          expected = internal_api_base_url ip_address bind_host bind_port (fs_api_mount_path fs);
          csp = (case map_of (fs_streamlit_page_config fs) (u ''csp'') of None \<Rightarrow> False | Some v \<Rightarrow> \<not> json_falsy v)
      in bind_exc (internal_base_warnings fs internal) (\<lambda>w1. bind_exc (public_base_warnings fs) (\<lambda>w2. Inr (
           w1 @
           warn_if (internal \<noteq> [] \<and> rstrip_slash internal \<noteq> rstrip_slash expected) Warn ''internal_api_base_mismatch'' @
           warn_if (fs_trust_proxy fs \<and> (allow = [] \<or> allow = u ''*'')) Warn ''forwarded_allow_ips_broad'' @
           w2 @
           warn_if (mount \<noteq> [] \<and> pb = []) Warn ''oauth_public_base_url'' @
           warn_if (mount \<noteq> [] \<and> \<not> fs_trust_proxy fs) Warn ''subpath_without_trust_proxy'' @
           warn_if (fs_cors_allow_origins fs \<noteq> [] \<and> \<not> fs_enable_security_headers fs) Warn ''cors_without_security_headers'' @
           warn_if (fs_enable_security_headers fs \<and> csp) Warn ''csp_with_security_headers'' @
           gateway_warnings fs))))"

definition project_file_mount_warnings :: "project_config option \<Rightarrow> warning list" where
  "project_file_mount_warnings pc =
     (case pc of None \<Rightarrow> []
      | Some c \<Rightarrow> warn_if (pc_api_mount_path c \<noteq> None \<or> pc_root_path c \<noteq> None) Warn ''project_file_mount_not_merged'')"

record config_payload =
  cp_target :: pystr
  cp_binding :: "pystr \<times> int \<times> pystr"
  cp_project_file :: "json dict option"
  cp_public_mount_path :: pystr
  cp_derived_internal :: pystr
  cp_ambient_internal :: "pystr option"
  cp_settings :: "json dict"
  cp_warnings :: "warning list"

definition build_config_payload ::
  "(pystr \<Rightarrow> ip_addr option) \<Rightarrow> pystr dict \<Rightarrow> (fluxlit_settings \<Rightarrow> json dict) \<Rightarrow> pystr \<Rightarrow> pystr \<Rightarrow> int \<Rightarrow> pystr \<Rightarrow>
     project_config option \<Rightarrow> fluxlit_settings \<Rightarrow> exc + config_payload" where
  "build_config_payload ip_address env dump target bind_host bind_port log_level pc fs =
     bind_exc (collect_configuration_warnings ip_address env fs bind_host bind_port) (\<lambda>ws. Inr
       \<lparr>cp_target = target, cp_binding = (bind_host, bind_port, log_level), cp_project_file = project_file_snapshot pc,
        cp_public_mount_path = public_mount_path fs,
        cp_derived_internal = internal_api_base_url ip_address bind_host bind_port (fs_api_mount_path fs),
        cp_ambient_internal = (if ambient_base env = [] then None else Some (ambient_base env)),
        cp_settings = redact_fluxlit_settings_dict (dump fs), cp_warnings = project_file_mount_warnings pc @ ws\<rparr>)"

text \<open>The exit code of \<open>fluxlit config\<close>.\<close>

definition config_exit_code :: "bool \<Rightarrow> warning list \<Rightarrow> nat" where
  "config_exit_code strict ws =
     (if list_ex (\<lambda>w. fst w = Error) ws then 1 else if strict \<and> list_ex (\<lambda>w. fst w = Warn) ws then 1 else 0)"

subsection \<open>The doctor\<close>

datatype status = PASS | WARN | FAIL

type_synonym doctor_row = "pystr \<times> status"

definition fluxlit_auth_env_present :: "pystr dict \<Rightarrow> bool" where
  "fluxlit_auth_env_present env \<longleftrightarrow>
     list_ex (\<lambda>(k, v). (startswith k (u ''FLUXLIT_JWT_'') \<or> startswith k (u ''FLUXLIT_OIDC_'')) \<and> strip v \<noteq> []) env"

text \<open>What the doctor finds around it: number of import candidates, the loaded application's settings, whether the
  core dependencies import, Streamlit's version (\<open>None\<close> when it cannot be read as two numbers), whether an
  address can be bound, whether a module is installed, files, whether a TCP connection succeeds, errors of the
  page validation and the environment's flag for generator pages.\<close>

record doctor_world =
  dw_environ :: "pystr dict"
  dw_candidates :: nat
  dw_load :: "exc + fluxlit_settings"
  dw_deps :: bool
  dw_streamlit :: "(int \<times> int) option"
  dw_bindable :: "pystr \<Rightarrow> int \<Rightarrow> bool"
  dw_installed :: "string \<Rightarrow> bool"
  dw_files :: "pystr dict"
  dw_connects :: "pystr \<Rightarrow> nat \<Rightarrow> bool"
  dw_page_errors :: "pystr list"
  dw_yield_env :: bool

definition tcp_url_reachable :: "(pystr \<Rightarrow> nat \<Rightarrow> bool) \<Rightarrow> pystr \<Rightarrow> exc + bool" where
  "tcp_url_reachable connects url =
     bind_exc (urlparse url) (\<lambda>p.
       if u_scheme p \<notin> {u ''http'', u ''https''} \<or> opt_str (url_hostname p) = [] then Inr False
       else bind_exc (url_port p) (\<lambda>port.
         let fallback = (if u_scheme p = u ''https'' then 443 else 80)
         in Inr (connects (opt_str (url_hostname p)) (case port of None \<Rightarrow> fallback | Some n \<Rightarrow> if n = 0 then fallback else n))))"

definition row :: "string \<Rightarrow> status \<Rightarrow> doctor_row list" where
  "row name st = [(u name, st)]"

definition check :: "bool \<Rightarrow> string \<Rightarrow> status \<Rightarrow> doctor_row list" where
  "check bad name st = row name (if bad then st else PASS)"

definition row_if :: "bool \<Rightarrow> string \<Rightarrow> status \<Rightarrow> doctor_row list" where
  "row_if b name st = (if b then row name st else [])"

definition environment_rows :: "doctor_world \<Rightarrow> project_config option \<Rightarrow> doctor_row list" where
  "environment_rows w pc =
     row ''python_version'' PASS @ row ''sys_path_head'' PASS @ check (dw_candidates w > 1) ''import_shadowing'' WARN @
     (case dw_load w of Inl e \<Rightarrow> row ''import_target'' FAIL
      | Inr fs \<Rightarrow> row ''import_target'' PASS @ row ''import_module_file'' PASS) @
     check (\<not> dw_deps w) ''dependencies'' FAIL @
     check (case dw_streamlit w of None \<Rightarrow> True | Some (major, minor) \<Rightarrow> major < 1 \<or> (major = 1 \<and> minor < 33)) ''streamlit_version'' WARN @
     (case dw_load w of Inl e \<Rightarrow> []
      | Inr fs \<Rightarrow>
         (let (host, port, lvl) = resolve_binding None None None pc (fs_gateway_host fs) (fs_gateway_port fs) (fs_log_level fs);
              bind_host = (if host = u ''0.0.0.0'' \<or> host = [] then u ''127.0.0.1'' else if host = u ''::'' then u ''::1'' else host)
          in check (\<not> dw_bindable w bind_host port) ''gateway_bind'' FAIL))"

definition internal_base_rows :: "doctor_world \<Rightarrow> exc + doctor_row list" where
  "internal_base_rows w =
     (let internal = ambient_base (dw_environ w)
      in if internal = [] then Inr (row ''FLUXLIT_INTERNAL_API_BASE'' PASS)
         else bind_exc (urlparse internal) (\<lambda>p. Inr (
           if u_scheme p = [] \<or> u_netloc p = [] then row ''FLUXLIT_INTERNAL_API_BASE'' FAIL
           else (case dw_load w of Inl e \<Rightarrow> row ''FLUXLIT_INTERNAL_API_BASE'' PASS
                 | Inr fs \<Rightarrow> check (rstrip_slash (or_str (u_path p) [slash]) \<noteq> rstrip_slash (fs_api_mount_path fs))
                               ''FLUXLIT_INTERNAL_API_BASE'' WARN))))"

definition extra_rows :: "doctor_world \<Rightarrow> doctor_row list" where
  "extra_rows w =
     check (fluxlit_auth_env_present (dw_environ w)) ''jwt_clock_skew'' WARN @
     (if fluxlit_auth_env_present (dw_environ w) then check (\<not> dw_installed w ''jwt'') ''fluxlit_auth_extra'' FAIL else []) @
     (case dw_load w of Inl e \<Rightarrow> []
      | Inr fs \<Rightarrow> if fs_enable_gateway_prometheus_metrics fs
                  then check (\<not> dw_installed w ''prometheus_client'') ''fluxlit_metrics_extra'' FAIL else [])"

definition precedence_rows :: "bool \<Rightarrow> pystr dict \<Rightarrow> fluxlit_settings \<Rightarrow> doctor_row list" where
  "precedence_rows strict env fs =
     (let legacy = strip (opt_str (map_of env (u ''PUBLIC_BASE_URL'')));
          fluxlit = strip (opt_str (map_of env (u ''FLUXLIT_PUBLIC_BASE_URL'')))
      in if legacy \<noteq> [] \<and> fluxlit \<noteq> [] \<and> legacy \<noteq> fluxlit
         then row ''public_base_url_precedence'' (if fs_strict_public_base_url fs \<or> strict then FAIL else WARN)
         else row_if (fluxlit \<noteq> [] \<or> legacy \<noteq> []) ''public_base_url_precedence'' PASS)"

definition public_url_rows :: "status \<Rightarrow> fluxlit_settings \<Rightarrow> exc + doctor_row list" where
  "public_url_rows severity fs =
     (let pb = strip (fs_public_base_url fs)
      in if pb = [] then Inr []
         else bind_exc (urlparse pb) (\<lambda>p.
           let root = rstrip_slash (public_mount_path fs); public_path = rstrip_slash (u_path p)
           in Inr (if root \<noteq> [] \<and> public_path \<noteq> [] \<and> public_path \<noteq> root then row ''public_base_url'' severity
                   else check (u_scheme p = [] \<or> u_netloc p = []) ''public_base_url'' FAIL)))"

definition settings_row_list :: "bool \<Rightarrow> pystr dict \<Rightarrow> fluxlit_settings \<Rightarrow> doctor_row list \<Rightarrow> doctor_row list" where
  "settings_row_list strict env fs public_rows =
     (let severity = (if strict then FAIL else WARN); allow = strip (opt_str (fs_forwarded_allow_ips fs))
      in row ''config.api_mount_path'' PASS @ row ''config.url_session'' PASS @ row ''config.root_path'' PASS @
         row ''config.trust_proxy'' PASS @ row ''config.public_base_url'' PASS @ precedence_rows strict env fs @
         row_if (public_mount_path fs \<noteq> [] \<and> strip (fs_public_base_url fs) = []) ''oauth_public_base_url'' severity @
         (if public_mount_path fs \<noteq> [] then check (\<not> fs_trust_proxy fs) ''proxy_headers'' severity else []) @
         (if fs_trust_proxy fs then check (allow = [] \<or> allow = u ''*'') ''forwarded_allow_ips'' severity else []) @
         row_if (fs_trust_proxy fs \<and> fs_gateway_max_proxy_request_body_bytes fs = 0) ''gateway_max_proxy_body'' severity @
         public_rows @
         row ''readiness_route'' PASS @ row ''l7_websocket'' PASS @
         check (fs_gateway_upstream_read_timeout_s fs < 5) ''gateway_upstream_timeouts'' severity @
         check (fs_async_page_depends fs) ''async_depends_streamlit'' WARN @
         check (fs_gateway_forward_client_headers_to_streamlit fs \<noteq> []) ''gateway_forward_client_headers'' WARN @
         row_if (fs_rejected_forward_headers fs \<noteq> []) ''gateway_forward_rejected_names'' severity)"

definition settings_rows :: "bool \<Rightarrow> pystr dict \<Rightarrow> fluxlit_settings \<Rightarrow> exc + doctor_row list" where
  "settings_rows strict env fs =
     bind_exc (public_url_rows (if strict then FAIL else WARN) fs) (\<lambda>public_rows. Inr (settings_row_list strict env fs public_rows))"

definition upstream_rows :: "doctor_world \<Rightarrow> exc + doctor_row list" where
  "upstream_rows w =
     (let file = strip (opt_str (map_of (dw_environ w) upstream_file_env)); env = strip (opt_str (map_of (dw_environ w) upstream_env))
      in if file \<noteq> []
         then (case map_of (dw_files w) file of
             None \<Rightarrow> Inr (row ''streamlit_upstream_state'' FAIL)
           | Some content \<Rightarrow>
               if strip content = [] then Inr (row ''streamlit_upstream_state'' WARN)
               else bind_exc (tcp_url_reachable (dw_connects w) (strip content)) (\<lambda>ok. Inr (check (\<not> ok) ''streamlit_upstream_state'' WARN)))
         else if env \<noteq> []
         then bind_exc (tcp_url_reachable (dw_connects w) env) (\<lambda>ok. Inr (check (\<not> ok) ''streamlit_upstream'' WARN))
         else Inr [])"

definition closing_rows :: "bool \<Rightarrow> bool \<Rightarrow> doctor_world \<Rightarrow> fluxlit_settings \<Rightarrow> doctor_row list" where
  "closing_rows strict check_pages w fs =
     row_if (fs_cors_allow_origins fs \<noteq> [] \<and> \<not> fs_enable_security_headers fs) ''security_headers'' (if strict then FAIL else WARN) @
     (if check_pages
      then check (dw_page_errors w \<noteq> []) ''pages_validate'' FAIL @
           row_if (dw_yield_env w \<or> fs_experimental_yield_pages fs) ''experimental_yield_pages'' WARN
      else [])"

text \<open>\<open>check_pages\<close> is also set by \<open>--verbose\<close>.\<close>

definition doctor_collect :: "doctor_world \<Rightarrow> project_config option \<Rightarrow> bool \<Rightarrow> bool \<Rightarrow> exc + doctor_row list" where
  "doctor_collect w pc check_pages strict =
     bind_exc (internal_base_rows w) (\<lambda>r1.
     bind_exc (case dw_load w of Inl e \<Rightarrow> Inr [] | Inr fs \<Rightarrow> settings_rows strict (dw_environ w) fs) (\<lambda>r2.
     bind_exc (upstream_rows w) (\<lambda>r3.
       Inr (environment_rows w pc @ r1 @ extra_rows w @ r2 @ r3 @
            (case dw_load w of Inl e \<Rightarrow> [] | Inr fs \<Rightarrow> closing_rows strict check_pages w fs)))))"

definition has_status :: "status \<Rightarrow> doctor_row list \<Rightarrow> bool" where
  "has_status st rows \<longleftrightarrow> list_ex (\<lambda>r. snd r = st) rows"

definition doctor_status :: "doctor_row list \<Rightarrow> bool \<Rightarrow> pystr" where
  "doctor_status rows warnings_only =
     (if has_status FAIL rows \<and> \<not> warnings_only then u ''fail''
      else if has_status FAIL rows \<or> has_status WARN rows then u ''warn'' else u ''pass'')"

definition doctor_exit_code :: "doctor_row list \<Rightarrow> bool \<Rightarrow> nat" where
  "doctor_exit_code rows warnings_only = (if \<not> warnings_only \<and> has_status FAIL rows then 1 else 0)"

subsection \<open>No secret gets out\<close>

text \<open>Two values a reader of the redacted output must not be able to tell apart.\<close>

definition secret_value :: "json \<Rightarrow> bool" where
  "secret_value v \<longleftrightarrow> (\<exists>s. v = JStr s \<and> strip s \<noteq> [])"

definition secret_cors_key :: "pystr \<Rightarrow> bool" where
  "secret_cors_key ck \<longleftrightarrow> list_ex (\<lambda>s. contains (lower ck) (u s)) [''secret'', ''token'', ''password'', ''authorization'']"

definition same_but_secret :: "pystr \<times> json \<Rightarrow> pystr \<times> json \<Rightarrow> bool" where
  "same_but_secret a b \<longleftrightarrow> fst a = fst b \<and>
     (snd a = snd b \<or> (fst a \<in> set sensitive_fields \<and> secret_value (snd a) \<and> secret_value (snd b)) \<or>
      (fst a = u ''cors_middleware_kwargs'' \<and> (\<exists>c d. snd a = JObj c \<and> snd b = JObj d \<and>
         list_all2 (\<lambda>x y. fst x = fst y \<and> (snd x = snd y \<or> secret_cors_key (fst x))) c d)))"

lemma redact_cors_same:
  "list_all2 (\<lambda>x y. fst x = fst y \<and> (snd x = snd y \<or> secret_cors_key (fst x))) c d \<Longrightarrow> redact_cors c = redact_cors d"
  by (induction rule: list_all2_induct) (auto simp: redact_cors_def secret_cors_key_def)

lemma redact_field_same: "same_but_secret a b \<Longrightarrow> redact_field (fst a) (snd a) = redact_field (fst b) (snd b)"
  by (cases a; cases b) (auto simp: same_but_secret_def secret_value_def redact_field_def redact_cors_same)

text \<open>What \<open>fluxlit config\<close> and \<open>fluxlit doctor --verbose\<close> print of the settings does not depend on the secrets:
  two configurations that differ only in the values of the secret fields, or of CORS options whose name speaks of
  a secret, print the same; and no field that is not secret is changed.\<close>

theorem secrets_not_printed:
  assumes "list_all2 same_but_secret raw raw'"
  shows "redact_fluxlit_settings_dict raw = redact_fluxlit_settings_dict raw' \<and>
    map fst (redact_fluxlit_settings_dict raw) = map fst raw \<and>
    {(k, v) \<in> set raw. k \<notin> set sensitive_fields \<and> k \<noteq> u ''cors_middleware_kwargs''} \<subseteq> set (redact_fluxlit_settings_dict raw)"
proof -
  have "redact_fluxlit_settings_dict raw = redact_fluxlit_settings_dict raw'"
    using assms
  proof (induction rule: list_all2_induct)
    case (Cons a raw b raw')
    have "fst a = fst b" using Cons.hyps(1) by (simp add: same_but_secret_def)
    with Cons redact_field_same [OF Cons.hyps(1)] show ?case
      by (cases a; cases b) (simp add: redact_fluxlit_settings_dict_def)
  qed simp
  moreover have "map fst (redact_fluxlit_settings_dict raw) = map fst raw"
    by (induction raw) (auto simp: redact_fluxlit_settings_dict_def)
  moreover have "(k, v) \<in> set (redact_fluxlit_settings_dict raw)"
    if "(k, v) \<in> set raw" "k \<notin> set sensitive_fields" "k \<noteq> u ''cors_middleware_kwargs''" for k v
  proof -
    have "redact_field k v = v" using that(2,3) by (simp add: redact_field_def split: json.split)
    then have "(k, v) = (\<lambda>(k, v). (k, redact_field k v)) (k, v)" by simp
    with that(1) show ?thesis unfolding redact_fluxlit_settings_dict_def set_map by blast
  qed
  ultimately show ?thesis by blast
qed

theorem secrets_not_printed_witness:
  "redact_fluxlit_settings_dict [(u ''title'', JStr (u ''t'')), (u ''oidc_bff_secret'', JStr (u ''one''))] =
   redact_fluxlit_settings_dict [(u ''title'', JStr (u ''t'')), (u ''oidc_bff_secret'', JStr (u ''two''))]"
proof -
  have "list_all2 same_but_secret [(u ''title'', JStr (u ''t'')), (u ''oidc_bff_secret'', JStr (u ''one''))]
      [(u ''title'', JStr (u ''t'')), (u ''oidc_bff_secret'', JStr (u ''two''))]"
    by (simp add: same_but_secret_def secret_value_def sensitive_fields_def pystr_eval)
  from secrets_not_printed [OF this] show ?thesis by blast
qed

text \<open>Logged headers and query strings hide credentials in the same sense.\<close>

theorem sanitized_headers_hide_cookies:
  "(lower k = u ''cookie'' \<longrightarrow> sanitize_headers (hs @ [(k, v)]) = sanitize_headers (hs @ [(k, v')])) \<and>
   map fst (sanitize_headers hs) = map fst hs"
  by (auto simp: sanitize_headers_def)

theorem sanitized_headers_hide_cookies_witness:
  "sanitize_headers ([] @ [(u ''Cookie'', u ''a'')]) = sanitize_headers ([] @ [(u ''Cookie'', u ''b'')])"
  using sanitized_headers_hide_cookies [of "u ''Cookie''" "[]" "u ''a''" "u ''b''"] by (simp add: pystr_eval)

subsection \<open>What the doctor's verdict means\<close>

lemma has_status_append [simp]: "has_status st (a @ b) \<longleftrightarrow> has_status st a \<or> has_status st b"
  by (simp add: has_status_def)

lemma has_status_rows [simp]:
  "has_status st (row n s) \<longleftrightarrow> s = st" "has_status st (row_if b n s) \<longleftrightarrow> b \<and> s = st" "has_status st [] \<longleftrightarrow> False"
  "has_status st (check b n s) \<longleftrightarrow> (if b then s = st else st = PASS)"
  by (auto simp: has_status_def row_def row_if_def check_def)

lemma fail_row_list:
  "has_status FAIL (settings_row_list strict env fs pr) \<longleftrightarrow>
     has_status FAIL (precedence_rows strict env fs) \<or> has_status FAIL pr \<or>
     (strict \<and> (public_mount_path fs \<noteq> [] \<and> (strip (fs_public_base_url fs) = [] \<or> \<not> fs_trust_proxy fs) \<or>
        fs_trust_proxy fs \<and> (strip (opt_str (fs_forwarded_allow_ips fs)) \<in> {[], u ''*''} \<or> fs_gateway_max_proxy_request_body_bytes fs = 0) \<or>
        fs_gateway_upstream_read_timeout_s fs < 5 \<or> fs_rejected_forward_headers fs \<noteq> []))"
  by (auto simp: settings_row_list_def Let_def)

lemma fail_precedence_mono: "has_status FAIL (precedence_rows False env fs) \<Longrightarrow> has_status FAIL (precedence_rows True env fs)"
  by (auto simp: precedence_rows_def Let_def split: if_splits)

lemma public_url_rows_cases:
  obtains e where "urlparse (strip (fs_public_base_url fs)) = Inl e" "strip (fs_public_base_url fs) \<noteq> []"
      "public_url_rows FAIL fs = Inl e" "public_url_rows WARN fs = Inl e"
    | p q where "public_url_rows FAIL fs = Inr p" "public_url_rows WARN fs = Inr q"
      "has_status FAIL q \<Longrightarrow> has_status FAIL p" "\<not> has_status FAIL p \<Longrightarrow> public_base_violation fs = None"
proof (cases "strip (fs_public_base_url fs) = []")
  case True
  then show ?thesis using that(2) [of "[]" "[]"] by (simp add: public_url_rows_def public_base_violation_def)
next
  case False
  show ?thesis
  proof (cases "urlparse (strip (fs_public_base_url fs))")
    case (Inl e)
    with False that(1) show ?thesis by (simp add: public_url_rows_def bind_exc_def)
  next
    case (Inr u)
    let ?bad = "rstrip_slash (public_mount_path fs) \<noteq> [] \<and> rstrip_slash (u_path u) \<noteq> [] \<and>
      rstrip_slash (u_path u) \<noteq> rstrip_slash (public_mount_path fs)"
    let ?rows = "\<lambda>sev. if ?bad then row ''public_base_url'' sev else check (u_scheme u = [] \<or> u_netloc u = []) ''public_base_url'' FAIL"
    have "public_url_rows sev fs = Inr (?rows sev)" for sev
      using False Inr by (simp add: public_url_rows_def bind_exc_def Let_def)
    moreover have "public_base_violation fs = None" if "\<not> ?bad"
      using False Inr that by (auto simp: public_base_violation_def Let_def)
    ultimately show ?thesis using that(2) [of "?rows FAIL" "?rows WARN"] by (cases ?bad) auto
  qed
qed

lemma strict_flag_frame:
  "public_base_violation (fs\<lparr>fs_strict_startup := True\<rparr>) = public_base_violation fs"
  "public_mount_path (fs\<lparr>fs_strict_startup := True\<rparr>) = public_mount_path fs"
proof -
  show p: "public_mount_path (fs\<lparr>fs_strict_startup := True\<rparr>) = public_mount_path fs"
    by (simp add: public_mount_path_def Let_def)
  show "public_base_violation (fs\<lparr>fs_strict_startup := True\<rparr>) = public_base_violation fs"
    unfolding public_base_violation_def p by simp
qed

lemma settings_rows_no_fail:
  assumes "settings_rows True env fs = Inr rows" and "\<not> has_status FAIL rows"
  shows "strict_startup_violation (fs\<lparr>fs_strict_startup := True\<rparr>) = None"
proof -
  obtain pr where pr: "public_url_rows FAIL fs = Inr pr" "rows = settings_row_list True env fs pr"
    using assms(1) by (auto simp: settings_rows_def bind_exc_Inr_iff)
  then have ok: "\<not> has_status FAIL pr" using assms(2) by (simp add: fail_row_list)
  have "public_base_violation fs = None" by (rule public_url_rows_cases [of fs]) (use pr(1) ok in auto)
  then show ?thesis
    using assms(2) by (simp add: strict_startup_violation_def strict_flag_frame pr(2) fail_row_list Let_def) blast
qed

lemma settings_rows_mono:
  assumes "settings_rows True env fs = Inr rows"
  shows "\<exists>q. settings_rows False env fs = Inr q \<and> (has_status FAIL q \<longrightarrow> has_status FAIL rows)"
proof (rule public_url_rows_cases [of fs])
  fix p q assume "public_url_rows FAIL fs = Inr p" "public_url_rows WARN fs = Inr q" "has_status FAIL q \<Longrightarrow> has_status FAIL p"
  with assms show ?thesis using fail_precedence_mono [of env fs] by (auto simp: settings_rows_def bind_exc_def fail_row_list)
qed (use assms in \<open>simp add: settings_rows_def bind_exc_def\<close>)

text \<open>C21: \<open>fluxlit doctor --strict\<close> covers strict start-up: when it exits with 0 for an application that loads, the
  same settings with \<open>strict_startup\<close> on are accepted; and strictness never hides a failure: without \<open>--strict\<close> the
  checks also run to the end and fail only if they fail with it.\<close>

theorem doctor_strict_covers_startup:
  assumes "dw_load w = Inr fs" and "doctor_collect w pc cp True = Inr rows"
  shows "(if doctor_exit_code rows False = 0 then strict_startup_violation (fs\<lparr>fs_strict_startup := True\<rparr>) = None else True) \<and>
    (case doctor_collect w pc cp False of Inl e \<Rightarrow> False
     | Inr rows' \<Rightarrow> doctor_exit_code rows' wo \<le> doctor_exit_code rows wo)"
proof -
  obtain r1 r2 r3 where r: "internal_base_rows w = Inr r1" "settings_rows True (dw_environ w) fs = Inr r2" "upstream_rows w = Inr r3"
    "rows = environment_rows w pc @ r1 @ extra_rows w @ r2 @ r3 @ closing_rows True cp w fs"
    using assms by (auto simp: doctor_collect_def bind_exc_Inr_iff)
  obtain q where q: "settings_rows False (dw_environ w) fs = Inr q" "has_status FAIL q \<Longrightarrow> has_status FAIL r2"
    using settings_rows_mono [OF r(2)] by blast
  have "strict_startup_violation (fs\<lparr>fs_strict_startup := True\<rparr>) = None" if "doctor_exit_code rows False = 0"
    using settings_rows_no_fail [OF r(2)] that by (simp add: r(4) doctor_exit_code_def split: if_splits)
  moreover have cl: "has_status FAIL (closing_rows False cp w fs) \<Longrightarrow> has_status FAIL (closing_rows True cp w fs)"
    by (simp add: closing_rows_def split: if_splits)
  have "doctor_collect w pc cp False = Inr (environment_rows w pc @ r1 @ extra_rows w @ q @ r3 @ closing_rows False cp w fs)"
    by (simp add: doctor_collect_def r(1,3) q(1) assms(1) bind_exc_def)
  ultimately show ?thesis using q(2) cl by (auto simp: doctor_exit_code_def r(4))
qed

definition clean_world :: doctor_world where
  "clean_world = \<lparr>dw_environ = [], dw_candidates = 1, dw_load = Inr default_settings, dw_deps = True, dw_streamlit = Some (1, 40),
     dw_bindable = (\<lambda>_ _. True), dw_installed = (\<lambda>_. True), dw_files = [], dw_connects = (\<lambda>_ _. True), dw_page_errors = [],
     dw_yield_env = False\<rparr>"

lemma clean_world_rows: "\<exists>rows. doctor_collect clean_world None False True = Inr rows"
proof -
  have "strip (fs_public_base_url default_settings) = []" by (simp add: default_settings_def pystr_eval)
  then have "settings_rows True [] default_settings = Inr (settings_row_list True [] default_settings [])"
    by (simp add: settings_rows_def public_url_rows_def bind_exc_def)
  moreover have "internal_base_rows clean_world = Inr (row ''FLUXLIT_INTERNAL_API_BASE'' PASS)"
    by (simp add: internal_base_rows_def ambient_base_def clean_world_def pystr_eval)
  moreover have "upstream_rows clean_world = Inr []" by (simp add: upstream_rows_def clean_world_def pystr_eval Let_def)
  moreover have "dw_load clean_world = Inr default_settings" "dw_environ clean_world = []" by (simp_all add: clean_world_def)
  ultimately show ?thesis by (simp add: doctor_collect_def bind_exc_def)
qed

theorem doctor_strict_covers_startup_witness:
  "\<exists>rows rows'. doctor_collect clean_world None False True = Inr rows \<and> doctor_collect clean_world None False False = Inr rows' \<and>
     doctor_exit_code rows' False \<le> doctor_exit_code rows False"
proof -
  obtain rows where r: "doctor_collect clean_world None False True = Inr rows" using clean_world_rows by blast
  have "dw_load clean_world = Inr default_settings" by (simp add: clean_world_def)
  from doctor_strict_covers_startup [OF this r, of False] r show ?thesis
    by (cases "doctor_collect clean_world None False False") auto
qed

lemma endswith_refl [simp]: "endswith s s"
  by (simp add: endswith_def)

text \<open>\<open>fluxlit config --strict\<close> refuses the subpath set-up the doctor asks for: whenever \<open>public_base_url\<close> is an
  absolute URL whose path is the public mount, which does not end with the API prefix, it exits with 1 because the
  path ``may omit the API mount'', while the same URL passes the doctor's check.\<close>

theorem recommended_subpath_fails_config_strict:
  assumes "urlparse (strip (fs_public_base_url fs)) = Inr p" and "u_scheme p \<noteq> []" and "u_netloc p \<noteq> []"
    and "strip (fs_public_base_url fs) \<noteq> []"
    and "rstrip_slash (u_path p) = rstrip_slash (public_mount_path fs)" and "rstrip_slash (public_mount_path fs) \<noteq> []"
    and "normalize_api_mount_path (fs_api_mount_path fs) \<noteq> [slash]"
    and "\<not> endswith (rstrip_slash (public_mount_path fs)) (rstrip_slash (normalize_api_mount_path (fs_api_mount_path fs)))"
    and "build_config_payload ip env dump target host port lvl pc fs = Inr payload"
  shows "config_exit_code True (cp_warnings payload) = 1 \<and> public_url_rows FAIL fs = Inr [(u ''public_base_url'', PASS)]"
proof -
  let ?root = "rstrip_slash (public_mount_path fs)" and ?ap = "normalize_api_mount_path (fs_api_mount_path fs)"
  have "mount_shape ?ap" using normalize_api_mount_path_shape [of "fs_api_mount_path fs"] assms(7) by auto
  then have ap: "rstrip_slash ?ap = ?ap" by simp
  have "rstrip_slash (?root @ [slash]) = ?root" by (simp add: rstrip_slash_def rstrip_by_snoc)
  then have ne: "?ap \<noteq> rstrip_slash (?root @ [slash])" "?ap \<noteq> ?root" using assms(8) ap by auto
  have "public_base_warnings fs = Inr [(Warn, u ''public_base_url_missing_api_prefix'')]"
    using assms(1-8) ne by (simp add: public_base_warnings_def bind_exc_def Let_def warn_if_def)
  then obtain ws where ws: "collect_configuration_warnings ip env fs host port = Inr ws"
      "(Warn, u ''public_base_url_missing_api_prefix'') \<in> set ws"
    and "cp_warnings payload = project_file_mount_warnings pc @ ws"
    using assms(9) by (auto simp: build_config_payload_def collect_configuration_warnings_def bind_exc_Inr_iff Let_def)
  then have "list_ex (\<lambda>w. fst w = Warn) (cp_warnings payload)" by (force simp: list_ex_iff)
  then have "config_exit_code True (cp_warnings payload) = 1" by (simp add: config_exit_code_def)
  moreover have "public_url_rows FAIL fs = Inr [(u ''public_base_url'', PASS)]"
    using assms(1-6) by (simp add: public_url_rows_def bind_exc_def Let_def check_def row_def)
  ultimately show ?thesis by blast
qed

definition subpath_settings :: fluxlit_settings where
  "subpath_settings = default_settings\<lparr>fs_root_path := u ''/app'', fs_public_base_url := u ''https://x.org/app'', fs_trust_proxy := True\<rparr>"

theorem recommended_subpath_fails_config_strict_witness:
  "\<exists>payload. build_config_payload (\<lambda>_. None) [] (\<lambda>_. []) (u ''app:app'') (u ''127.0.0.1'') 8000 (u ''info'') None subpath_settings = Inr payload \<and>
     config_exit_code True (cp_warnings payload) = 1"
proof -
  have pb: "strip (fs_public_base_url subpath_settings) = u ''https://x.org/app''"
    by (simp add: subpath_settings_def pystr_eval)
  have p: "urlparse (u ''https://x.org/app'') = Inr \<lparr>u_scheme = u ''https'', u_netloc = u ''x.org'', u_path = u ''/app'', u_params = [],
      u_query = [], u_fragment = []\<rparr>"
    by (simp add: url_evals pystr_eval pystr_run)
  have m: "public_mount_path subpath_settings = u ''/app''"
    by (simp add: subpath_settings_def public_mount_path_def pystr_eval)
  have a: "normalize_api_mount_path (fs_api_mount_path subpath_settings) = u ''/api''"
    by (simp add: subpath_settings_def default_settings_def normalize_api_mount_path_def pystr_eval)
  have r: "rstrip_slash (u ''/app'') = u ''/app''" "rstrip_slash (u ''/api'') = u ''/api''" by (simp_all add: pystr_eval)
  have e: "\<not> endswith (u ''/app'') (u ''/api'')" "u ''/api'' \<noteq> [slash]" "u ''https://x.org/app'' \<noteq> []"
    by (simp_all add: endswith_def pystr_eval)
  have "\<exists>ws. public_base_warnings subpath_settings = Inr ws"
    using e(3) by (simp add: public_base_warnings_def pb p bind_exc_def)
  moreover have "internal_base_warnings subpath_settings (ambient_base []) = Inr []"
    by (simp add: internal_base_warnings_def ambient_base_def pystr_eval)
  ultimately obtain payload where b: "build_config_payload (\<lambda>_. None) [] (\<lambda>_. []) (u ''app:app'') (u ''127.0.0.1'') 8000 (u ''info'') None
      subpath_settings = Inr payload"
    by (auto simp: build_config_payload_def collect_configuration_warnings_def bind_exc_def Let_def)
  have "config_exit_code True (cp_warnings payload) = 1 \<and> public_url_rows FAIL subpath_settings = Inr [(u ''public_base_url'', PASS)]"
    by (rule recommended_subpath_fails_config_strict [OF _ _ _ _ _ _ _ _ b, of "\<lparr>u_scheme = u ''https'', u_netloc = u ''x.org'', u_path = u ''/app'',
        u_params = [], u_query = [], u_fragment = []\<rparr>"]) (simp_all add: pb p m a r e)
  with b show ?thesis by blast
qed

end
