(* ===== verification/Import_Target.thy ===== *)
theory Import_Target
  imports Process_Control
begin

section \<open>Loading the application: targets, files and the module table\<close>

text \<open>
  Models \<open>load_fluxlit\<close>, the import of its module and \<open>import_target_candidates\<close> of
  \<open>runtime/import_target.py\<close>. A path is \<open>pathlib\<close>'s view of a POSIX path: root and parts. Module objects live
  in a heap so that two imports can be compared by identity; \<open>sys.modules\<close> maps names to them. What the file
  system, the loader of a file and \<open>importlib\<close> do is a record of answers; running a file yields the names it has
  bound and, if it raised, the exception.
\<close>

subsection \<open>Paths\<close>

record path =
  pt_root :: pystr
  pt_parts :: "pystr list"

definition plain_parts :: "pystr list \<Rightarrow> pystr list" where
  "plain_parts ws = filter (\<lambda>w. w \<noteq> [] \<and> w \<noteq> [46]) ws"

definition path_of :: "pystr \<Rightarrow> path" where
  "path_of s = \<lparr>pt_root = (if startswith s (u ''//'') \<and> \<not> startswith s (u ''///'') then u ''//''
                           else if startswith s [slash] then [slash] else []),
                pt_parts = plain_parts (split_chr slash s)\<rparr>"

definition path_str :: "path \<Rightarrow> pystr" where
  "path_str p = or_str (pt_root p @ join_with [slash] (pt_parts p)) (u ''.'')"

definition path_join :: "path \<Rightarrow> path \<Rightarrow> path" where
  "path_join a b = (if pt_root b \<noteq> [] then b else a\<lparr>pt_parts := pt_parts a @ pt_parts b\<rparr>)"

definition path_parent :: "path \<Rightarrow> path" where
  "path_parent p = p\<lparr>pt_parts := butlast (pt_parts p)\<rparr>"

definition path_name :: "path \<Rightarrow> pystr" where
  "path_name p = (if pt_parts p = [] then [] else last (pt_parts p))"

text \<open>Stem and suffix of the last part: the suffix starts at the last dot, unless that dot is first or last.\<close>

definition stem_suffix :: "path \<Rightarrow> pystr \<times> pystr" where
  "stem_suffix p =
     (let name = path_name p; tail = rev (takeWhile (\<lambda>c. c \<noteq> 46) (rev name));
          stem = take (length name - length tail - 1) name
      in if 46 \<in> set name \<and> stem \<noteq> [] \<and> tail \<noteq> [] then (stem, 46 # tail) else (name, []))"

subsection \<open>Modules\<close>

record 'v pymodule =
  md_file :: "pystr option"
  md_attrs :: "'v dict"

record 'v import_state =
  is_heap :: "'v pymodule list"
  is_modules :: "nat dict"
  is_sys_path :: "pystr list"
  is_runs :: "path list"

text \<open>\<open>iw_resolve\<close> is \<open>None\<close> where \<open>resolve\<close> raises \<open>OSError\<close>; \<open>iw_import_module\<close> is \<open>importlib.import_module\<close>.\<close>

record 'v import_world =
  iw_cwd :: path
  iw_is_file :: "path \<Rightarrow> bool"
  iw_resolve :: "path \<Rightarrow> path option"
  iw_has_loader :: "path \<Rightarrow> bool"
  iw_exec :: "path \<Rightarrow> 'v dict \<times> exc option"
  iw_import_module :: "pystr \<Rightarrow> 'v import_state \<Rightarrow> (exc + nat) \<times> 'v import_state"
  iw_is_fluxlit :: "'v \<Rightarrow> bool"

definition reuse_loaded :: "'v import_world \<Rightarrow> pystr \<Rightarrow> path \<Rightarrow> 'v import_state \<Rightarrow> nat option" where
  "reuse_loaded w sys_mod_name file_path st =
     (case map_of (is_modules st) sys_mod_name of
        None \<Rightarrow> None
      | Some i \<Rightarrow>
          (case md_file (is_heap st ! i) of
             None \<Rightarrow> None
           | Some ef \<Rightarrow>
               (case (iw_resolve w (path_of ef), iw_resolve w file_path) of
                  (Some a, Some b) \<Rightarrow> if a = b then Some i else None
                | _ \<Rightarrow> None)))"

definition prepend_module_dir :: "'v import_world \<Rightarrow> path \<Rightarrow> 'v import_state \<Rightarrow> exc + 'v import_state" where
  "prepend_module_dir w p st =
     (case iw_resolve w (path_parent p) of
        None \<Rightarrow> Inl OSError
      | Some d \<Rightarrow> Inr (if path_str d \<in> set (is_sys_path st) then st else st\<lparr>is_sys_path := path_str d # is_sys_path st\<rparr>))"

text \<open>Create the module from the file, enter it into \<open>sys.modules\<close>, then run the file.\<close>

definition load_file :: "'v import_world \<Rightarrow> pystr \<Rightarrow> path \<Rightarrow> 'v import_state \<Rightarrow> (exc + nat) \<times> 'v import_state" where
  "load_file w name p st =
     (if \<not> iw_has_loader w p then (Inl ModuleNotFoundError, st)
      else (let i = length (is_heap st);
                st1 = st\<lparr>is_heap := is_heap st @ [\<lparr>md_file = Some (path_str p), md_attrs = []\<rparr>],
                         is_modules := AList.update name i (is_modules st)\<rparr>
            in case prepend_module_dir w p st1 of
                 Inl e \<Rightarrow> (Inl e, st1)
               | Inr st2 \<Rightarrow>
                   (let (attrs, raised) = iw_exec w p;
                        st3 = st2\<lparr>is_heap := (is_heap st2)[i := \<lparr>md_file = Some (path_str p), md_attrs = attrs\<rparr>],
                                  is_runs := is_runs st2 @ [p]\<rparr>
                    in (case raised of None \<Rightarrow> Inr i | Some e \<Rightarrow> Inl e, st3))))"

definition load_or_reuse :: "'v import_world \<Rightarrow> pystr \<Rightarrow> path \<Rightarrow> 'v import_state \<Rightarrow> (exc + nat) \<times> 'v import_state" where
  "load_or_reuse w name p st = (case reuse_loaded w name p st of Some i \<Rightarrow> (Inr i, st) | None \<Rightarrow> load_file w name p st)"

definition import_target_module :: "'v import_world \<Rightarrow> pystr \<Rightarrow> 'v import_state \<Rightarrow> (exc + nat) \<times> 'v import_state" where
  "import_target_module w mod_name st =
     (let p = path_of mod_name; local = path_join (iw_cwd w) (path_of (mod_name @ u ''.py''))
      in if snd (stem_suffix p) = u ''.py'' \<or> slash \<in> set mod_name
         then (let file = path_join (iw_cwd w) p
               in if \<not> iw_is_file w file then (Inl ModuleNotFoundError, st)
                  else load_or_reuse w (fst (stem_suffix p)) file st)
         else if mod_name \<noteq> [] \<and> 46 \<notin> set mod_name \<and> iw_is_file w local then load_or_reuse w mod_name local st
         else iw_import_module w mod_name st)"

text \<open>\<open>getattr\<close> and the type check on what the module has bound.\<close>

definition bound_app :: "'v import_world \<Rightarrow> 'v dict \<Rightarrow> pystr \<Rightarrow> exc + 'v" where
  "bound_app w attrs attr =
     (case map_of attrs attr of None \<Rightarrow> Inl AttributeError | Some v \<Rightarrow> if iw_is_fluxlit w v then Inr v else Inl TypeError)"

definition load_fluxlit :: "'v import_world \<Rightarrow> pystr \<Rightarrow> 'v import_state \<Rightarrow> (exc + 'v) \<times> 'v import_state" where
  "load_fluxlit w target st =
     (let (mod_name, sep, attr) = partition_str target (u '':'')
      in if \<not> sep \<or> attr = [] then (Inl ValueError, st)
         else (case import_target_module w mod_name st of
                 (Inl e, st') \<Rightarrow> (Inl e, st')
               | (Inr i, st') \<Rightarrow> (bound_app w (md_attrs (is_heap st' ! i)) attr, st')))"

text \<open>The candidates the doctor reports: files and packages of that name on the search path, each once.\<close>

fun candidates_in :: "'v import_world \<Rightarrow> path list \<Rightarrow> path list \<Rightarrow> path list" where
  "candidates_in w [] found = found"
| "candidates_in w (c # cs) found =
     (if \<not> iw_is_file w c then candidates_in w cs found
      else case iw_resolve w c of
             None \<Rightarrow> candidates_in w cs found
           | Some r \<Rightarrow> candidates_in w cs (if r \<in> set found then found else found @ [r]))"

definition import_target_candidates :: "'v import_world \<Rightarrow> pystr \<Rightarrow> pystr list \<Rightarrow> path list" where
  "import_target_candidates w mod_name paths =
     (if mod_name = [] \<or> 46 \<in> set mod_name \<or> slash \<in> set mod_name then []
      else candidates_in w (concat (map (\<lambda>raw. let base = path_of (or_str raw (u ''.''))
             in [path_join base (path_of (mod_name @ u ''.py'')), path_join base (path_of (mod_name @ u ''/__init__.py''))]) paths)) [])"

subsection \<open>Paths read back\<close>

lemma split_chr_Cons_sep: "c \<notin> set w \<Longrightarrow> split_chr c (w @ c # s) = w # split_chr c s"
  by (induction w) auto

lemma split_chr_none: "c \<notin> set w \<Longrightarrow> split_chr c w = [w]"
  by (induction w) auto

lemma split_chr_join:
  assumes "ws \<noteq> []" and "\<forall>w \<in> set ws. c \<notin> set w"
  shows "split_chr c (join_with [c] ws) = ws"
  using assms
proof (induction ws rule: list_nonempty_induct)
  case (cons x xs)
  then show ?case by (cases xs) (auto simp: split_chr_Cons_sep)
qed (simp add: split_chr_none)

definition part_ok :: "pystr \<Rightarrow> bool" where
  "part_ok w \<longleftrightarrow> w \<noteq> [] \<and> w \<noteq> [46] \<and> slash \<notin> set w"

lemma path_of_path_str:
  assumes "pt_root p = [slash]" and "pt_parts p \<noteq> []" and "list_all part_ok (pt_parts p)"
  shows "path_of (path_str p) = p"
proof -
  obtain w ws where ws: "pt_parts p = w # ws" using assms(2) by (cases "pt_parts p") auto
  have join: "split_chr slash (join_with [slash] (pt_parts p)) = pt_parts p"
    using assms(2,3) by (intro split_chr_join) (auto simp: list_all_iff part_ok_def)
  have "hd (join_with [slash] (pt_parts p)) \<noteq> slash" "join_with [slash] (pt_parts p) \<noteq> []"
    using assms(3) ws by (cases ws; cases w; auto simp: part_ok_def)+
  then have root: "\<not> startswith (slash # join_with [slash] (pt_parts p)) (u ''//'')"
    by (cases "join_with [slash] (pt_parts p)") (auto simp: pystr_eval)
  have "plain_parts (pt_parts p) = pt_parts p"
    using assms(3) by (auto simp: plain_parts_def list_all_iff part_ok_def intro: filter_True)
  then show ?thesis
    using assms(1) root by (simp add: path_of_def path_str_def or_str_def join plain_parts_def)
qed

lemma path_of_name:
  assumes "slash \<notin> set s" and "s \<noteq> []" and "s \<noteq> [46]"
  shows "path_of s = \<lparr>pt_root = [], pt_parts = [s]\<rparr>"
  using assms by (cases s) (auto simp: path_of_def split_chr_none plain_parts_def pystr_eval)

subsection \<open>One execution per process\<close>

lemma local_target_split:
  assumes "58 \<notin> set m"
  shows "partition_str (m @ u '':'' @ attr) (u '':'') = (m, True, attr)"
proof -
  have "split1 (m @ u '':'' @ attr) (u '':'') = Some (m, attr)"
    using assms by (induction m) (auto simp: pystr_eval split1.simps)
  then show ?thesis by (simp add: partition_str_def)
qed

lemma load_file_effect:
  assumes "iw_has_loader w p" and "iw_resolve w (path_parent p) = Some d" and "iw_exec w p = (attrs, raised)"
  shows "\<exists>st'. load_file w name p st = (case raised of None \<Rightarrow> Inr (length (is_heap st)) | Some e \<Rightarrow> Inl e, st') \<and>
    map_of (is_modules st') name = Some (length (is_heap st)) \<and>
    is_heap st' = is_heap st @ [\<lparr>md_file = Some (path_str p), md_attrs = attrs\<rparr>] \<and> is_runs st' = is_runs st @ [p]"
  using assms by (simp add: load_file_def prepend_module_dir_def Let_def update_conv')

lemma import_local:
  assumes "m \<noteq> []" and "46 \<notin> set m" and "slash \<notin> set m" and "l = path_join (iw_cwd w) (path_of (m @ u ''.py''))" and "iw_is_file w l"
  shows "import_target_module w m st = load_or_reuse w m l st"
proof -
  have "path_of m = \<lparr>pt_root = [], pt_parts = [m]\<rparr>" using assms(1-3) by (intro path_of_name) auto
  with assms show ?thesis by (simp add: import_target_module_def stem_suffix_def path_name_def pystr_eval)
qed


definition broken_world :: "bool import_world" where
  "broken_world = \<lparr>iw_cwd = path_of (u ''/srv''), iw_is_file = (\<lambda>_. True), iw_resolve = Some, iw_has_loader = (\<lambda>_. True),
     iw_exec = (\<lambda>_. ([(u ''app'', True)], Some ValueError)), iw_import_module = (\<lambda>_ st. (Inl ModuleNotFoundError, st)),
     iw_is_fluxlit = id\<rparr>"

definition fresh_process :: "bool import_state" where
  "fresh_process = \<lparr>is_heap = [], is_modules = [], is_sys_path = [], is_runs = []\<rparr>"


end
