(* ===== verification/Page_Tools.thy ===== *)
theory Page_Tools
  imports Nav_Build
begin

section \<open>Manifest, page validation, typed query parameters and session models\<close>

text \<open>
  Models \<open>pages/manifest.py\<close>, \<open>pages/validate.py\<close>, \<open>pages/query.py\<close> and \<open>pages/session_state.py\<close>. What Python
  prints of an annotation, the names of a dependency, \<open>repr\<close>, \<open>json.dumps\<close> and pydantic's validation and dump are
  arguments. An error of the validation is a value; its text is left out.
\<close>

subsection \<open>The page manifest\<close>

definition dotted_name :: "pystr \<times> pystr \<Rightarrow> pystr" where
  "dotted_name nm = (if fst nm \<noteq> [] then fst nm @ u ''.'' @ snd nm else snd nm)"

definition marker_dependencies :: "'d annotation \<Rightarrow> 'd list" where
  "marker_dependencies ann = concat (map (\<lambda>m. case m of DependsOn (Some d) c \<Rightarrow> [d] | _ \<Rightarrow> []) (markers ann))"

definition param_qualnames :: "('d \<Rightarrow> pystr \<times> pystr) \<Rightarrow> 'd param \<Rightarrow> pystr list \<Rightarrow> pystr list" where
  "param_qualnames names p out =
     (let out1 = out @ map (\<lambda>d. dotted_name (names d)) (marker_dependencies (pa_ann p))
      in case pa_default p of
           DefaultDepends (Some d) c \<Rightarrow>
             (let s = dotted_name (names d) in if s \<in> set out1 then out1 else out1 @ [s])
         | _ \<Rightarrow> out1)"

definition depends_qualnames :: "('d \<Rightarrow> pystr \<times> pystr) \<Rightarrow> 'd handler \<Rightarrow> pystr list" where
  "depends_qualnames names h = fold (param_qualnames names) (ph_params h) []"

definition opt_json :: "pystr option \<Rightarrow> json" where
  "opt_json v = (case v of None \<Rightarrow> JNull | Some s \<Rightarrow> JStr s)"

definition manifest_entry :: "('d annotation \<Rightarrow> pystr) \<Rightarrow> ('d \<Rightarrow> pystr \<times> pystr) \<Rightarrow> 'd page_record \<Rightarrow> json dict" where
  "manifest_entry ann_str names r =
     [(u ''path'', JStr (pr_path r)), (u ''title'', JStr (pr_title r)), (u ''tags'', JArr (map JStr (pr_tags r))),
      (u ''description'', JStr (pr_description r)), (u ''icon'', opt_json (pr_icon r)),
      (u ''parameters'', JArr (map (\<lambda>p. JObj [(u ''name'', JStr (pa_name p)), (u ''annotation'', JStr (ann_str (pa_ann p)))])
         (ph_params (pr_fn r)))),
      (u ''dependencies'', JArr (map JStr (depends_qualnames names (pr_fn r))))] @
     (if children_of r \<noteq> [] then [(u ''children'', JArr (children_of r))] else [])"

fun manifest_pages ::
  "('d annotation \<Rightarrow> pystr) \<Rightarrow> ('d \<Rightarrow> pystr \<times> pystr) \<Rightarrow> 'd page_record list \<Rightarrow> exc + json dict list" where
  "manifest_pages ann_str names [] = Inr []"
| "manifest_pages ann_str names (r # rs) =
     (case ph_hints (pr_fn r) of
        Some e \<Rightarrow> Inl e
      | None \<Rightarrow> bind_exc (manifest_pages ann_str names rs) (\<lambda>es. Inr (manifest_entry ann_str names r # es)))"

definition build_page_manifest ::
  "('d annotation \<Rightarrow> pystr) \<Rightarrow> ('d \<Rightarrow> pystr \<times> pystr) \<Rightarrow> 'd fluxlit_app \<Rightarrow> int \<Rightarrow> exc + json dict" where
  "build_page_manifest ann_str names app version =
     bind_exc (manifest_pages ann_str names (fa_pages app)) (\<lambda>es. Inr
       [(u ''manifest_version'', JInt version), (u ''manifest_stability'', JStr (u ''stable'')),
        (u ''title'', JStr (fs_title (fa_settings app))), (u ''pages'', JArr (map JObj es))])"

definition manifest_root_keys :: "pystr list" where
  "manifest_root_keys = map u [''manifest_version'', ''manifest_stability'', ''title'', ''pages'']"

definition manifest_page_keys :: "pystr list" where
  "manifest_page_keys = map u [''path'', ''title'', ''tags'', ''description'', ''icon'', ''parameters'', ''dependencies'', ''children'']"

subsection \<open>Validating the registered pages\<close>

datatype page_error =
    DuplicatePath pystr nat
  | SharedSlug "pystr list" pystr
  | BadSignature pystr exc
  | ManifestError exc

definition duplicate_path_errors :: "'d page_record list \<Rightarrow> page_error list" where
  "duplicate_path_errors recs =
     (let n = (\<lambda>p. length (filter (\<lambda>r. pr_path r = p) recs))
      in map (\<lambda>p. DuplicatePath p (n p)) (filter (\<lambda>p. n p > 1) (sort (remdups (map pr_path recs)))))"

definition slug_errors :: "(pystr \<Rightarrow> pystr) \<Rightarrow> 'd page_record list \<Rightarrow> page_error list" where
  "slug_errors repr recs =
     (let paths = (\<lambda>s. remdups (map pr_path (filter (\<lambda>r. rec_slug r = s) recs)))
      in map (\<lambda>s. SharedSlug (sort (map repr (paths s))) s)
           (filter (\<lambda>s. length (paths s) > 1) (sort (remdups (map rec_slug recs)))))"

text \<open>Only a \<open>TypeError\<close> of the signature check is reported; any other exception leaves the function.\<close>

fun signature_errors :: "'d page_record list \<Rightarrow> exc + page_error list" where
  "signature_errors [] = Inr []"
| "signature_errors (r # rs) =
     (case validate_strict_page_signature (pr_fn r) of
        Inr _ \<Rightarrow> signature_errors rs
      | Inl e \<Rightarrow> if e = TypeError then bind_exc (signature_errors rs) (\<lambda>es. Inr (BadSignature (pr_path r) e # es)) else Inl e)"

definition manifest_errors :: "(json \<Rightarrow> exc option) \<Rightarrow> (exc + json dict) \<Rightarrow> exc + page_error list" where
  "manifest_errors dumps manifest =
     (case (case manifest of Inl e \<Rightarrow> Some e | Inr m \<Rightarrow> dumps (JObj m)) of
        None \<Rightarrow> Inr []
      | Some e \<Rightarrow> if e = TypeError \<or> e = ValueError then Inr [ManifestError e] else Inl e)"

definition validate_fluxlit_pages ::
  "('d annotation \<Rightarrow> pystr) \<Rightarrow> ('d \<Rightarrow> pystr \<times> pystr) \<Rightarrow> (pystr \<Rightarrow> pystr) \<Rightarrow> (json \<Rightarrow> exc option) \<Rightarrow> 'd fluxlit_app \<Rightarrow>
     bool option \<Rightarrow> exc + page_error list" where
  "validate_fluxlit_pages ann_str names repr dumps app strict_signatures =
     (let recs = fa_pages app;
          do_strict = (case strict_signatures of None \<Rightarrow> fs_strict_page_signatures (fa_settings app) | Some b \<Rightarrow> b)
      in bind_exc (if do_strict then signature_errors recs else Inr []) (\<lambda>sig.
         bind_exc (manifest_errors dumps (build_page_manifest ann_str names app 1)) (\<lambda>man.
           Inr (duplicate_path_errors recs @ slug_errors repr recs @ sig @ man))))"

subsection \<open>Query parameters as a model\<close>

text \<open>\<open>st.query_params\<close>: absent, its keys unreadable, or keys with what reading each of them gives.\<close>

datatype st_query = NoQueryParams | KeysFail | QueryParams "(pystr \<times> (exc + query_value)) list"

fun single_element :: "query_value \<Rightarrow> query_value" where
  "single_element (QList [x]) = QStr x"
| "single_element v = v"

fun read_keys :: "(pystr \<times> (exc + query_value)) list \<Rightarrow> query_value dict \<Rightarrow> query_value dict" where
  "read_keys [] out = out"
| "read_keys ((k, Inl e) # ks) out = read_keys ks out"
| "read_keys ((k, Inr v) # ks) out = read_keys ks (AList.update k (single_element v) out)"

definition query_dict_from_st :: "st_query \<Rightarrow> query_value dict" where
  "query_dict_from_st st = (case st of QueryParams ks \<Rightarrow> read_keys ks [] | _ \<Rightarrow> [])"

text \<open>The result and whether an error was shown; \<open>has_error\<close>: \<open>st.error\<close> is callable.\<close>

definition parse_query_params :: "st_query \<Rightarrow> bool \<Rightarrow> (query_value dict \<Rightarrow> exc + 'm) \<Rightarrow> bool \<Rightarrow> (exc + 'm) \<times> bool" where
  "parse_query_params st has_error model_validate strict =
     (case model_validate (query_dict_from_st st) of
        Inr m \<Rightarrow> (Inr m, False)
      | Inl e \<Rightarrow> if e \<noteq> ValidationError \<or> strict then (Inl e, False) else (model_validate [], has_error))"

definition parse_query_params_adapter :: "st_query \<Rightarrow> bool \<Rightarrow> (query_value dict \<Rightarrow> exc + 'm) \<Rightarrow> bool \<Rightarrow> (exc + 'm) \<times> bool" where
  "parse_query_params_adapter st has_error validate_python strict =
     (case validate_python (query_dict_from_st st) of
        Inr m \<Rightarrow> (Inr m, False)
      | Inl e \<Rightarrow> (Inl e, e = ValidationError \<and> \<not> strict \<and> has_error))"

subsection \<open>Session models\<close>

definition read_into :: "pystr list \<Rightarrow> (json dict \<Rightarrow> exc + 'm) \<Rightarrow> json dict \<Rightarrow> exc + 'm" where
  "read_into model_fields model_validate ss =
     model_validate (concat (map (\<lambda>n. case map_of ss n of None \<Rightarrow> [] | Some v \<Rightarrow> [(n, v)]) model_fields))"

definition write_from :: "bool \<Rightarrow> pystr list \<Rightarrow> json dict \<Rightarrow> json dict \<Rightarrow> exc + json dict" where
  "write_from forbid model_fields payload ss =
     (if forbid \<and> \<not> fst ` set payload \<subseteq> set model_fields then Inl ValueError
      else Inr (fold (\<lambda>(k, v). AList.update k v) payload ss))"

subsection \<open>What the manifest promises\<close>

lemma manifest_pages_entries:
  "manifest_pages ann_str names rs = Inr es \<Longrightarrow> es = map (manifest_entry ann_str names) rs \<and> (\<forall>r \<in> set rs. ph_hints (pr_fn r) = None)"
  by (induction rs arbitrary: es) (auto simp: bind_exc_Inr_iff split: option.splits)

text \<open>The manifest keeps to its published schema: exactly the root keys, one entry per registered page in
  registration order, and no entry key outside the published set or twice.\<close>

theorem manifest_keeps_schema:
  assumes "build_page_manifest ann_str names app version = Inr m"
  shows "map fst m = manifest_root_keys \<and>
    map_of m (u ''pages'') = Some (JArr (map (\<lambda>r. JObj (manifest_entry ann_str names r)) (fa_pages app))) \<and>
    (\<forall>r. distinct (map fst (manifest_entry ann_str names r)) \<and> fst ` set (manifest_entry ann_str names r) \<subseteq> set manifest_page_keys \<and>
       map_of (manifest_entry ann_str names r) (u ''path'') = Some (JStr (pr_path r)))"
proof -
  obtain es where m: "m = [(u ''manifest_version'', JInt version), (u ''manifest_stability'', JStr (u ''stable'')),
      (u ''title'', JStr (fs_title (fa_settings app))), (u ''pages'', JArr (map JObj es))]"
    and "manifest_pages ann_str names (fa_pages app) = Inr es"
    using assms by (auto simp: build_page_manifest_def bind_exc_Inr_iff)
  then have es: "es = map (manifest_entry ann_str names) (fa_pages app)" using manifest_pages_entries by blast
  have "distinct (map fst (manifest_entry ann_str names r)) \<and> fst ` set (manifest_entry ann_str names r) \<subseteq> set manifest_page_keys \<and>
      map_of (manifest_entry ann_str names r) (u ''path'') = Some (JStr (pr_path r))" for r
    by (simp add: manifest_entry_def manifest_page_keys_def)
  then show ?thesis by (simp add: m es manifest_root_keys_def)
qed

subsection \<open>What the validation reports\<close>

lemma filter_count: "length (filter (\<lambda>r. f r = y) xs) = count (mset (map f xs)) y"
  by (induction xs) auto

lemma distinct_iff_filter:
  "distinct (map f xs) \<longleftrightarrow> (\<forall>y \<in> f ` set xs. length (filter (\<lambda>r. f r = y) xs) \<le> 1)"
proof -
  have "count (mset (map f xs)) y > 0 \<longleftrightarrow> y \<in> f ` set xs" for y by (simp add: count_greater_zero_iff)
  then show ?thesis
    unfolding filter_count distinct_count_atmost_1 set_map
    by (metis One_nat_def Suc_leI le_antisym less_imp_le_nat not_gr_zero le_numeral_extra(4) zero_neq_one)
qed

lemma duplicate_path_errors_empty:
  fixes recs :: "'d page_record list"
  shows "duplicate_path_errors recs = [] \<longleftrightarrow> distinct (map pr_path recs)"
  by (simp add: duplicate_path_errors_def Let_def filter_empty_conv not_less distinct_iff_filter)

lemma slug_errors_empty:
  fixes recs :: "'d page_record list"
  shows "slug_errors repr recs = [] \<longleftrightarrow> (\<forall>a \<in> set recs. \<forall>b \<in> set recs. rec_slug a = rec_slug b \<longrightarrow> pr_path a = pr_path b)"
proof -
  have "length (remdups (map pr_path (filter (\<lambda>r. rec_slug r = s) recs))) \<le> 1 \<longleftrightarrow>
      (\<forall>a \<in> set recs. \<forall>b \<in> set recs. rec_slug a = s \<and> rec_slug b = s \<longrightarrow> pr_path a = pr_path b)" for s
    by (simp add: length_remdups_card_conv card_le_Suc0_iff_eq) blast
  then show ?thesis by (auto simp: slug_errors_def Let_def filter_empty_conv not_less)
qed

lemma signature_errors_empty:
  "signature_errors rs = Inr [] \<longleftrightarrow> (\<forall>r \<in> set rs. validate_strict_page_signature (pr_fn r) = Inr ())"
  by (induction rs) (auto simp: bind_exc_Inr_iff split: sum.splits if_splits)

lemma manifest_errors_shape: "manifest_errors dumps m = Inr es \<Longrightarrow> set es \<subseteq> range ManifestError"
  by (auto simp: manifest_errors_def split: option.splits if_splits)

text \<open>\<open>fluxlit pages validate\<close> is complete and consistent with registration. It reports nothing exactly when no
  two pages share a URL segment, every signature passes the strict check where strictness is on, and the manifest
  is serializable; for an app whose pages were registered through the decorator or discovery, and checked at the
  app's own strictness, only the manifest can be reported.\<close>

theorem pages_validate_exact:
  assumes "validate_fluxlit_pages ann_str names repr dumps app strict = Inr errs"
  shows "(errs = [] \<longleftrightarrow> distinct (map rec_slug (fa_pages app)) \<and>
      ((case strict of None \<Rightarrow> fs_strict_page_signatures (fa_settings app) | Some b \<Rightarrow> b) \<longrightarrow>
        (\<forall>r \<in> set (fa_pages app). validate_strict_page_signature (pr_fn r) = Inr ())) \<and>
      manifest_errors dumps (build_page_manifest ann_str names app 1) = Inr []) \<and>
    (app = run_setup steps (new_app fs store) \<and> strict = None \<longrightarrow> set errs \<subseteq> range ManifestError)"
proof -
  let ?recs = "fa_pages app" and ?man = "manifest_errors dumps (build_page_manifest ann_str names app 1)"
  let ?strict = "case strict of None \<Rightarrow> fs_strict_page_signatures (fa_settings app) | Some b \<Rightarrow> b"
  obtain sig man where e: "(if ?strict then signature_errors ?recs else Inr []) = Inr sig" "?man = Inr man"
    "errs = duplicate_path_errors ?recs @ slug_errors repr ?recs @ sig @ man"
    using assms by (auto simp: validate_fluxlit_pages_def Let_def bind_exc_Inr_iff)
  have slugs: "duplicate_path_errors ?recs = [] \<and> slug_errors repr ?recs = [] \<longleftrightarrow> distinct (map rec_slug ?recs)"
    unfolding duplicate_path_errors_empty slug_errors_empty
    by (induction ?recs rule: rev_induct) (auto simp: distinct_map inj_on_def)
  have "sig = [] \<longleftrightarrow> (?strict \<longrightarrow> (\<forall>r \<in> set ?recs. validate_strict_page_signature (pr_fn r) = Inr ()))"
    using e(1) signature_errors_empty [of ?recs] by (cases "?strict") auto
  then have "errs = [] \<longleftrightarrow> distinct (map rec_slug ?recs) \<and>
      (?strict \<longrightarrow> (\<forall>r \<in> set ?recs. validate_strict_page_signature (pr_fn r) = Inr ())) \<and> ?man = Inr []"
    using slugs e(2,3) by auto
  moreover have "set errs \<subseteq> range ManifestError" if "app = run_setup steps (new_app fs store)" "strict = None"
  proof -
    have inv: "app_inv app" using run_setup_inv [OF new_app_inv] that(1) by blast
    then have "signature_errors ?recs = Inr []" if "fs_strict_page_signatures (fa_settings app)"
      unfolding signature_errors_empty using that by (simp add: app_inv_def page_checked_def)
    then have "sig = []" using e(1) that(2) by (simp split: if_splits)
    then show ?thesis using slugs inv e(3) manifest_errors_shape [OF e(2)] by (simp add: app_inv_def)
  qed
  ultimately show ?thesis by blast
qed

definition twin_pages :: "nat fluxlit_app" where
  "twin_pages = \<lparr>fa_settings = default_settings, fa_has_store = False, fa_pages =
     map (\<lambda>p. \<lparr>pr_path = u p, pr_title = u ''A'', pr_fn = \<lparr>ph_name = None, ph_doc = None, ph_hints = None, ph_params = []\<rparr>,
        pr_tags = [], pr_description = [], pr_icon = None, pr_page_meta = None\<rparr>) [''/a'', ''a/'']\<rparr>"

theorem pages_validate_exact_witness:
  "\<exists>errs. validate_fluxlit_pages (\<lambda>_. []) (\<lambda>_. ([], [])) id (\<lambda>_. None) twin_pages (Some True) = Inr errs \<and> errs \<noteq> []"
proof -
  have "signature_errors (fa_pages twin_pages) = Inr []"
    by (simp add: signature_errors_empty twin_pages_def validate_strict_page_signature_def)
  moreover have "manifest_errors (\<lambda>_. None) (build_page_manifest (\<lambda>_. []) (\<lambda>_. ([], [])) twin_pages 1) = Inr []"
    by (simp add: manifest_errors_def build_page_manifest_def twin_pages_def bind_exc_def)
  ultimately obtain errs where e: "validate_fluxlit_pages (\<lambda>_. []) (\<lambda>_. ([], [])) id (\<lambda>_. None) twin_pages (Some True) = Inr errs"
    by (simp add: validate_fluxlit_pages_def bind_exc_def Let_def)
  have "\<not> distinct (map rec_slug (fa_pages twin_pages))" by (simp add: twin_pages_def page_slug_def pystr_eval)
  with pages_validate_exact [OF e, of undefined undefined undefined] e show ?thesis by blast
qed

subsection \<open>Query parameters and session models\<close>

text \<open>Lenient parsing answers with the model of the actual parameters, or, telling the user, with the model of no
  parameters; strict parsing never substitutes anything and shows nothing.\<close>

theorem lenient_query_falls_back_visibly:
  "(case parse_query_params st has_error model_validate strict of
      (Inr m, shown) \<Rightarrow> (if shown then \<not> strict \<and> model_validate [] = Inr m \<and> model_validate (query_dict_from_st st) = Inl ValidationError
         else model_validate (query_dict_from_st st) = Inr m \<or> \<not> has_error \<and> \<not> strict \<and> model_validate [] = Inr m)
    | (Inl e, shown) \<Rightarrow> model_validate (query_dict_from_st st) \<noteq> Inr m0 \<and> (strict \<longrightarrow> \<not> shown))"
  by (auto simp: parse_query_params_def split: sum.split)

text \<open>What the session code relies on of pydantic: the dump of a model has the model's fields first, in order and
  each key once, and validating those gives the model back.\<close>

definition model_laws :: "pystr list \<Rightarrow> ('m \<Rightarrow> json dict) \<Rightarrow> (json dict \<Rightarrow> exc + 'm) \<Rightarrow> bool" where
  "model_laws fnames dump validate \<longleftrightarrow>
     (\<forall>m. dict_ok (dump m) \<and> map fst (take (length fnames) (dump m)) = fnames \<and> validate (take (length fnames) (dump m)) = Inr m)"

lemma collect_fields:
  assumes "distinct (map fst xs)" and "\<forall>n \<in> fst ` set xs. g n = map_of xs n"
  shows "concat (map (\<lambda>n. case g n of None \<Rightarrow> [] | Some v \<Rightarrow> [(n, v)]) (map fst xs)) = xs"
  using assms
proof (induction xs)
  case (Cons x xs)
  have "\<forall>n \<in> fst ` set xs. g n = map_of xs n"
    using Cons.prems by (auto simp: image_iff split: if_splits)
  with Cons show ?case by (cases x) auto
qed simp

text \<open>A session model reads back what was written: after \<open>write_from\<close>, \<open>read_into\<close> yields the model, computed
  fields of the dump notwithstanding, and every other key of the session keeps its value; with \<open>extra="forbid"\<close> a
  dump with a key that is no field is refused before anything is written.\<close>

theorem session_model_roundtrip:
  assumes "model_laws fnames dump validate"
  shows "case write_from forbid fnames (dump m) ss of
      Inr ss' \<Rightarrow> read_into fnames validate ss' = Inr m \<and> (\<forall>k. k \<notin> fst ` set (dump m) \<longrightarrow> map_of ss' k = map_of ss k)
    | Inl e \<Rightarrow> e = ValueError \<and> forbid \<and> \<not> fst ` set (dump m) \<subseteq> set fnames"
proof -
  let ?xs = "take (length fnames) (dump m)"
  have laws: "dict_ok (dump m)" "map fst ?xs = fnames" "validate ?xs = Inr m" using assms by (simp_all add: model_laws_def)
  let ?ss = "fold (\<lambda>(k, v). AList.update k v) (dump m) ss"
  have lookup: "map_of ?ss k = (case map_of (dump m) k of Some v \<Rightarrow> Some v | None \<Rightarrow> map_of ss k)" for k
    using laws(1) by (rule map_of_fold_update)
  have d: "distinct (map fst ?xs)" "distinct (map fst (dump m))"
    using laws(1) by (simp_all add: dict_ok_def take_map [symmetric] distinct_take)
  have "map_of ?ss n = map_of ?xs n" if n: "n \<in> fst ` set ?xs" for n
  proof -
    obtain v where v: "(n, v) \<in> set ?xs" using n by auto
    then have "(n, v) \<in> set (dump m)" by (rule in_set_takeD)
    with v d show ?thesis by (simp add: lookup)
  qed
  then have "concat (map (\<lambda>n. case map_of ?ss n of None \<Rightarrow> [] | Some v \<Rightarrow> [(n, v)]) (map fst ?xs)) = ?xs"
    by (intro collect_fields d(1)) blast
  then have "read_into fnames validate ?ss = Inr m" by (simp add: read_into_def laws(2,3))
  moreover have "map_of ?ss k = map_of ss k" if "k \<notin> fst ` set (dump m)" for k
    using that by (simp add: lookup map_of_eq_None_iff [THEN iffD2])
  ultimately show ?thesis by (simp add: write_from_def)
qed

theorem session_model_roundtrip_witness:
  "read_into [u ''name''] (\<lambda>d. case d of [(k, JStr s)] \<Rightarrow> Inr s | _ \<Rightarrow> Inl ValidationError)
     [(u ''other'', JNull), (u ''name'', JStr (u ''ada''))] = Inr (u ''ada'')"
proof -
  let ?dump = "\<lambda>s. [(u ''name'', JStr s)]" and ?validate = "\<lambda>d. case d of [(k, JStr s)] \<Rightarrow> Inr s | _ \<Rightarrow> Inl ValidationError"
  have "model_laws [u ''name''] ?dump ?validate" by (simp add: model_laws_def dict_ok_def)
  from session_model_roundtrip [OF this, of True "u ''ada''" "[(u ''other'', JNull)]"] show ?thesis
    by (simp add: write_from_def)
qed

end
