(* ===== verification/Cli_Testing.thy ===== *)
theory Cli_Testing
  imports Sidecar_Reload Config_Diag Page_Tools
begin

section \<open>Command line entry points and the test harness\<close>

text \<open>
  Models what the commands \<open>dev\<close>, \<open>run\<close>, \<open>workbench\<close>, \<open>shutdown\<close> and \<open>pages validate\<close> of \<open>cli.py\<close> do with
  their options, the banner of \<open>runtime/workbench.py\<close>, the verbose report of \<open>cli_doctor_verbose.py\<close>, and
  \<open>testing.py\<close>: the client that sends requests through a gateway of its own and the context managers that
  patch the environment and the search path. Loading the application is an argument that sees the environment
  at that moment; a patched block is an arbitrary function of the environment.
\<close>

subsection \<open>Starting the stack\<close>

record cli_args =
  ca_target :: "pystr option"
  ca_host :: "pystr option"
  ca_port :: "int option"
  ca_log_level :: "pystr option"
  ca_proxy_headers :: bool
  ca_forwarded_allow_ips :: "pystr option"
  ca_no_pidfile :: bool
  ca_reload :: bool
  ca_reload_scope :: pystr
  ca_workbench :: bool
  ca_debug :: bool

datatype 'a cli_result = CliExit nat | CliRaised exc | CliStarts 'a

definition execute_unified_cli ::
  "(pystr dict \<Rightarrow> pystr \<Rightarrow> exc + fluxlit_settings) \<Rightarrow> project_config option \<Rightarrow> cli_args \<Rightarrow> pystr dict \<Rightarrow>
     run_args cli_result \<times> pystr dict" where
  "execute_unified_cli load pc ca env =
     (if ca_reload ca \<and> ca_reload_scope ca \<notin> {u ''gateway'', u ''full''} then (CliExit 2, env)
      else (let env1 = (if ca_debug ca then AList.update (u ''FLUXLIT_DEBUG'') (u ''1'') env else env);
                target = resolve_target (ca_target ca) pc
            in case load env1 target of
                 Inl e \<Rightarrow> (CliRaised e, env1)
               | Inr fs \<Rightarrow>
                   (let (host, port, log_level) = resolve_binding (ca_host ca) (ca_port ca) (ca_log_level ca) pc
                          (fs_gateway_host fs) (fs_gateway_port fs) (fs_log_level fs)
                    in (CliStarts \<lparr>ra_target = target, ra_host = host, ra_port = port, ra_reload = ca_reload ca,
                          ra_reload_scope = ca_reload_scope ca, ra_log_level = log_level,
                          ra_proxy_headers = (ca_proxy_headers ca \<or> ca_workbench ca),
                          ra_forwarded_allow_ips = ca_forwarded_allow_ips ca, ra_write_pidfile = (\<not> ca_no_pidfile ca),
                          ra_workbench_mode = ca_workbench ca\<rparr>, env1))))"

text \<open>What \<open>fluxlit run\<close> and \<open>fluxlit workbench\<close> fix of the options; \<open>fluxlit dev\<close> passes all of them on.\<close>

definition run_options :: "cli_args \<Rightarrow> cli_args" where
  "run_options ca = ca\<lparr>ca_reload := False, ca_reload_scope := u ''gateway''\<rparr>"

definition workbench_options :: "cli_args \<Rightarrow> cli_args" where
  "workbench_options ca =
     ca\<lparr>ca_proxy_headers := False, ca_reload := False, ca_reload_scope := u ''gateway'', ca_workbench := True\<rparr>"

text \<open>A command up to the end of the server: what happened and how it ended.\<close>

definition start_stack ::
  "build_env \<Rightarrow> run_world \<Rightarrow> (pystr dict \<Rightarrow> pystr \<Rightarrow> exc + fluxlit_settings) \<Rightarrow> project_config option \<Rightarrow> cli_args \<Rightarrow>
     run_event list \<times> (exc option) cli_result" where
  "start_stack be w load pc ca =
     (case execute_unified_cli load pc ca (be_environ be) of
        (CliExit n, env) \<Rightarrow> ([], CliExit n)
      | (CliRaised e, env) \<Rightarrow> ([], CliRaised e)
      | (CliStarts ra, env) \<Rightarrow> (let (events, raised) = run_unified (be\<lparr>be_environ := env\<rparr>) w ra in (events, CliStarts raised)))"

definition shutdown_command :: "stop_world \<Rightarrow> bool \<Rightarrow> exc + nat" where
  "shutdown_command w force = map_sum id sr_code (shutdown_unified_process w force)"

definition pages_validate_command :: "(bool option \<Rightarrow> exc + page_error list) \<Rightarrow> bool \<Rightarrow> exc + nat" where
  "pages_validate_command validate strict =
     bind_exc (validate (if strict then Some True else None)) (\<lambda>errs. Inr (if errs \<noteq> [] then 1 else 0))"

subsection \<open>The workbench banner\<close>

definition loopback_browser_host :: "pystr \<Rightarrow> pystr" where
  "loopback_browser_host bind_host =
     (let h = strip bind_host
      in if h \<in> {u ''0.0.0.0'', u ''::'', u ''[::]''} then u ''127.0.0.1'' else or_str h (u ''127.0.0.1''))"

definition browser_base_url :: "pystr \<Rightarrow> int \<Rightarrow> pystr \<Rightarrow> pystr" where
  "browser_base_url bind_host bind_port scheme =
     or_str (strip (or_str scheme (u ''http''))) (u ''http'') @ u ''://'' @ loopback_browser_host bind_host @ u '':'' @
     str_of_int bind_port"

definition workbench_lines :: "pystr \<Rightarrow> pystr \<Rightarrow> int \<Rightarrow> pystr \<Rightarrow> pystr \<Rightarrow> pystr \<Rightarrow> bool \<Rightarrow> pystr list" where
  "workbench_lines app_title bind_host bind_port root_mount_norm api_mount_path public_base_url proxy_headers_on =
     (let base = browser_base_url bind_host bind_port (u ''http''); mount = strip root_mount_norm;
          api = normalize_api_mount_path api_mount_path; suffix = mount @ api; pb = strip public_base_url
      in [u ''[fluxlit] Workbench/Connect mode: Uvicorn proxy_headers is ON (trust only your edge reverse proxy).'',
          u ''[fluxlit] App title: '' @ or_str app_title (u ''FluxLit'')] @
         (if proxy_headers_on then [u ''[fluxlit] X-Forwarded-* headers will be honored for scheme/host/client IP.''] else []) @
         [u ''[fluxlit] Open in browser (loopback): '' @ base @ mount @ u ''/'',
          u ''[fluxlit] API liveness: '' @ base @ suffix @ u ''/healthz'',
          u ''[fluxlit] API docs: '' @ base @ suffix @ u ''/docs''] @
         (if mount = [] then [u ''[fluxlit] Hint: set FLUXLIT_ROOT_PATH when users reach this app under a '' @
            u ''subpath (Posit Connect content URL, Workbench published path, etc.).''] else []) @
         (if pb \<noteq> [] then [u ''[fluxlit] OAuth / canonical public URL: '' @ pb @
            u '' (see FLUXLIT_PUBLIC_BASE_URL in configuration docs).''] else []) @
         [u ''[fluxlit] Tighten FLUXLIT_FORWARDED_ALLOW_IPS in production when the proxy IP range is known.''])"

definition format_workbench_startup_message :: "pystr \<Rightarrow> pystr \<Rightarrow> int \<Rightarrow> pystr \<Rightarrow> pystr \<Rightarrow> pystr \<Rightarrow> bool \<Rightarrow> pystr" where
  "format_workbench_startup_message app_title bind_host bind_port root_mount_norm api_mount_path public_base_url proxy_headers_on =
     join_with [10] (workbench_lines app_title bind_host bind_port root_mount_norm api_mount_path public_base_url proxy_headers_on) @ [10]"

subsection \<open>The verbose report of the doctor\<close>

record api_routes =
  rt_openapi_url :: "pystr option"
  rt_docs_url :: "pystr option"
  rt_redoc_url :: "pystr option"

text \<open>\<open>bool(os.environ.get(...))\<close>, and the same of the stripped value.\<close>

definition env_nonempty :: "pystr dict \<Rightarrow> string \<Rightarrow> json" where
  "env_nonempty env k = JBool (opt_str (map_of env (u k)) \<noteq> [])"

definition env_nonblank :: "pystr dict \<Rightarrow> string \<Rightarrow> json" where
  "env_nonblank env k = JBool (strip (opt_str (map_of env (u k))) \<noteq> [])"

definition str_or_none :: "pystr \<Rightarrow> json" where
  "str_or_none s = (if s = [] then JNull else JStr s)"

definition verbose_effective :: "(pystr \<Rightarrow> ip_addr option) \<Rightarrow> pystr dict \<Rightarrow> fluxlit_settings \<Rightarrow> pystr \<Rightarrow> int \<Rightarrow> json dict" where
  "verbose_effective ip_address env fs bind_host bind_port =
     [(u ''api_mount_path'', JStr (fs_api_mount_path fs)), (u ''public_mount_path'', JStr (public_mount_path fs)),
      (u ''gateway_bind'', JStr (bind_host @ u '':'' @ str_of_int bind_port)),
      (u ''internal_api_base_derived'', JStr (internal_api_base_url ip_address bind_host bind_port (fs_api_mount_path fs))),
      (u ''internal_api_base_env'', str_or_none (ambient_base env)),
      (u ''public_base_url'', str_or_none (strip (fs_public_base_url fs))),
      (u ''trust_proxy'', JBool (fs_trust_proxy fs)), (u ''forwarded_allow_ips'', opt_json (fs_forwarded_allow_ips fs)),
      (u ''url_session_query_param'', JStr (fs_url_session_query_param fs)),
      (u ''url_session_fluxlit_tests'', env_nonempty env ''FLUXLIT_TESTS''),
      (u ''url_session_force_in_tests'', env_nonempty env ''FLUXLIT_FORCE_URL_SESSION_IN_TESTS''),
      (u ''url_session_disabled'', env_nonempty env ''FLUXLIT_DISABLE_URL_SESSION'')]"

definition verbose_gateway_proxy :: "fluxlit_settings \<Rightarrow> json dict" where
  "verbose_gateway_proxy fs =
     [(u ''upstream_connect_timeout_s'', JFloat (fs_gateway_upstream_connect_timeout_s fs)),
      (u ''upstream_read_timeout_s'', JFloat (fs_gateway_upstream_read_timeout_s fs)),
      (u ''ws_open_timeout_s'', JFloat (fs_gateway_ws_open_timeout_s fs)),
      (u ''max_proxy_request_body_bytes'', JInt (fs_gateway_max_proxy_request_body_bytes fs)),
      (u ''max_concurrent_upstream_http'', JInt (fs_gateway_max_concurrent_upstream_http fs)),
      (u ''forward_client_headers_http'', JArr (map JStr (fs_gateway_forward_client_headers_to_streamlit fs)))]"

definition streamlit_apptest_version_ok :: "(int \<times> int) option \<Rightarrow> bool" where
  "streamlit_apptest_version_ok v = (case v of None \<Rightarrow> False | Some (major, minor) \<Rightarrow> major > 1 \<or> (major = 1 \<and> minor \<ge> 30))"

text \<open>\<open>dump\<close> is \<open>model_dump\<close>, \<open>names\<close> module and qualified name of a handler.\<close>

definition build_doctor_verbose_detail ::
  "doctor_world \<Rightarrow> (pystr \<Rightarrow> ip_addr option) \<Rightarrow> (fluxlit_settings \<Rightarrow> json dict) \<Rightarrow> ('d handler \<Rightarrow> pystr \<times> pystr) \<Rightarrow>
     api_routes \<Rightarrow> 'd fluxlit_app \<Rightarrow> pystr \<Rightarrow> pystr \<Rightarrow> int \<Rightarrow> project_config option \<Rightarrow> json dict" where
  "build_doctor_verbose_detail w ip_address dump names routes app resolved_target bind_host bind_port pc =
     (let fs = fa_settings app; env = dw_environ w
      in [(u ''resolved_target'', JStr resolved_target),
          (u ''pages'', JArr (map (\<lambda>r. JObj [(u ''path'', JStr (pr_path r)), (u ''title'', JStr (pr_title r)),
             (u ''handler'', JStr (dotted_name (names (pr_fn r))))]) (fa_pages app))),
          (u ''settings_redacted'', JObj (redact_fluxlit_settings_dict (dump fs))),
          (u ''effective'', JObj (verbose_effective ip_address env fs bind_host bind_port)),
          (u ''openapi'', JObj [(u ''openapi_url'', opt_json (rt_openapi_url routes)), (u ''docs_url'', opt_json (rt_docs_url routes)),
             (u ''redoc_url'', opt_json (rt_redoc_url routes))]),
          (u ''extras'', JObj [(u ''pyjwt_available'', JBool (dw_installed w ''jwt'')),
             (u ''prometheus_client_available'', JBool (dw_installed w ''prometheus_client'')),
             (u ''streamlit_apptest_version_ok'', JBool (streamlit_apptest_version_ok (dw_streamlit w)))]),
          (u ''streamlit_sidecar'', JObj [(u ''fluxlit_managed_runtime'', JBool True),
             (u ''upstream_file_set'', env_nonblank env ''FLUXLIT_STREAMLIT_UPSTREAM_FILE''),
             (u ''upstream_url_set'', env_nonblank env ''FLUXLIT_STREAMLIT_UPSTREAM'')]),
          (u ''gateway_proxy'', JObj (verbose_gateway_proxy fs)),
          (u ''project_defaults'', (case project_file_snapshot pc of None \<Rightarrow> JNull | Some d \<Rightarrow> JObj d))])"

subsection \<open>The test client\<close>

record test_client =
  tc_settings :: fluxlit_settings
  tc_api_prefix :: pystr
  tc_root_mount :: pystr

definition effective_mount :: "test_client \<Rightarrow> pystr option \<Rightarrow> pystr" where
  "effective_mount c root_path = normalize_root_mount (case root_path of Some p \<Rightarrow> p | None \<Rightarrow> tc_root_mount c)"

definition public_api_url :: "test_client \<Rightarrow> pystr \<Rightarrow> pystr option \<Rightarrow> pystr" where
  "public_api_url c path root_path =
     (let core = normalize_api_mount_path (tc_api_prefix c) @ lead_slash path; mount = effective_mount c root_path
      in if mount \<noteq> [] then mount @ core else core)"

definition gateway_client :: "nat option \<Rightarrow> test_client \<Rightarrow> pystr option \<Rightarrow> gateway_config" where
  "gateway_client prom c root_path =
     build_gateway prom (fs_enable_gateway_access_log (tc_settings c)) (tc_api_prefix c) (effective_mount c root_path)
       (Some (tc_settings c))"

definition with_root_path :: "pystr \<Rightarrow> test_client \<Rightarrow> test_client" where
  "with_root_path root_path c = c\<lparr>tc_root_mount := normalize_root_mount root_path\<rparr>"

text \<open>A request of the test client: method, URL and the gateway that gets it.\<close>

definition tc_get :: "nat option \<Rightarrow> test_client \<Rightarrow> pystr \<Rightarrow> pystr option \<Rightarrow> pystr \<times> pystr \<times> gateway_config" where
  "tc_get prom c path root_path = (u ''GET'', public_api_url c path root_path, gateway_client prom c root_path)"

definition tc_post :: "nat option \<Rightarrow> test_client \<Rightarrow> pystr \<Rightarrow> pystr option \<Rightarrow> pystr \<times> pystr \<times> gateway_config" where
  "tc_post prom c path root_path = (u ''POST'', public_api_url c path root_path, gateway_client prom c root_path)"

definition tc_openapi :: "exc + json \<Rightarrow> exc + json dict" where
  "tc_openapi body = bind_exc body (\<lambda>data. case data of JObj d \<Rightarrow> Inr d | _ \<Rightarrow> Inl TypeError)"

text \<open>Status and parsed body of \<open>GET /openapi.json\<close>, status of \<open>GET /docs\<close>.\<close>

definition assert_docs_available :: "nat \<Rightarrow> exc + json \<Rightarrow> nat \<Rightarrow> exc + unit" where
  "assert_docs_available spec_status spec_body docs_status =
     (if \<not> (200 \<le> spec_status \<and> spec_status < 300) then Inl (OtherError (u ''httpx.HTTPStatusError''))
      else bind_exc spec_body (\<lambda>body.
        if (case body of JObj d \<Rightarrow> map_of d (u ''openapi'') = None | _ \<Rightarrow> True) then Inl AssertionError
        else if docs_status \<notin> {200, 307, 308} then Inl AssertionError else Inr ()))"

text \<open>What an \<open>AppTest\<close> run collected; \<open>None\<close> where the attribute is missing.\<close>

definition apptest_assert_no_errors :: "'x list option \<Rightarrow> 'x list option \<Rightarrow> exc + unit" where
  "apptest_assert_no_errors exceptions errors =
     (if (case exceptions of Some (x # xs) \<Rightarrow> True | _ \<Rightarrow> False) \<or> (case errors of Some (x # xs) \<Rightarrow> True | _ \<Rightarrow> False)
      then Inl AssertionError else Inr ())"

subsection \<open>Patched blocks\<close>

definition streamlit_apptest_env :: "test_client \<Rightarrow> pystr \<Rightarrow> pystr option \<Rightarrow> pystr option \<Rightarrow> pystr dict" where
  "streamlit_apptest_env c target internal_api_base page_overrides =
     [(u ''FLUXLIT_APP'', target),
      (u ''FLUXLIT_INTERNAL_API_BASE'', or_str (opt_str internal_api_base)
         (u ''http://127.0.0.1:1'' @ normalize_api_mount_path (tc_api_prefix c))),
      (u ''FLUXLIT_API_PREFIX'', normalize_api_mount_path (tc_api_prefix c)), (u ''FLUXLIT_TESTS'', u ''1'')] @
     (case page_overrides of None \<Rightarrow> [] | Some text \<Rightarrow> [(u ''FLUXLIT_TEST_PAGE_OVERRIDES'', text)])"

definition restore_one :: "pystr \<times> pystr option \<Rightarrow> pystr dict \<Rightarrow> pystr dict" where
  "restore_one kv env = (case snd kv of None \<Rightarrow> AList.delete (fst kv) env | Some v \<Rightarrow> AList.update (fst kv) v env)"

text \<open>The block returns or raises (\<open>'r\<close>) and may itself change the environment; the restoring part runs in both
  cases.\<close>

definition patched_env :: "pystr dict \<Rightarrow> (pystr dict \<Rightarrow> 'r \<times> pystr dict) \<Rightarrow> pystr dict \<Rightarrow> 'r \<times> pystr dict" where
  "patched_env vals block env =
     (let old = map (\<lambda>(k, _). (k, map_of env k)) vals;
          (r, env') = block (fold (\<lambda>(k, v). AList.update k v) vals env)
      in (r, fold restore_one old env'))"

definition maybe_syspath :: "pystr option \<Rightarrow> (pystr list \<Rightarrow> 'r \<times> pystr list) \<Rightarrow> pystr list \<Rightarrow> 'r \<times> pystr list" where
  "maybe_syspath extra block sys_path =
     (case extra of None \<Rightarrow> block sys_path
      | Some p \<Rightarrow> (let (r, after) = block (p # sys_path) in (r, remove1 p after)))"

text \<open>\<open>FluxLitTestClient.streamlit\<close> and \<open>select_page\<close>: run the script, an arbitrary function of environment and
  search path, under both patches.\<close>

definition run_apptest ::
  "test_client \<Rightarrow> pystr \<Rightarrow> pystr option \<Rightarrow> pystr option \<Rightarrow> pystr option \<Rightarrow>
     (pystr dict \<Rightarrow> pystr list \<Rightarrow> ('r \<times> pystr dict) \<times> pystr list) \<Rightarrow> pystr dict \<Rightarrow> pystr list \<Rightarrow> ('r \<times> pystr list) \<times> pystr dict" where
  "run_apptest c target internal_api_base page_overrides extra script env sys_path =
     patched_env (streamlit_apptest_env c target internal_api_base page_overrides)
       (\<lambda>e. let ((r, e'), p') = maybe_syspath extra (script e) sys_path in ((r, p'), e')) env"

subsection \<open>The commands\<close>

text \<open>The command line starts exactly the stack it was asked for. A command that reaches \<open>run_unified\<close> passes a
  reload scope it accepts; an option given and not empty wins over project file and settings; \<open>--debug\<close> is in
  the environment before the application is loaded; \<open>--no-pidfile\<close> suppresses the file; the workbench mode turns
  proxy headers on; and \<open>fluxlit run\<close> and \<open>fluxlit workbench\<close> never reload.\<close>

theorem unified_cli_honours_options:
  assumes "execute_unified_cli load pc ca env = (CliStarts ra, env')"
  shows "(ra_reload ra \<longrightarrow> reload_scope_of ra \<in> {u ''gateway'', u ''full''}) \<and>
    (\<exists>fs. load env' (ra_target ra) = Inr fs \<and> (ca_workbench ca \<longrightarrow> effective_proxy ra fs)) \<and>
    (ca_target ca \<noteq> None \<longrightarrow> Some (ra_target ra) = ca_target ca) \<and>
    (opt_str (ca_host ca) \<noteq> [] \<longrightarrow> Some (ra_host ra) = ca_host ca) \<and>
    (ca_port ca \<notin> {None, Some 0} \<longrightarrow> Some (ra_port ra) = ca_port ca) \<and>
    (opt_str (ca_log_level ca) \<noteq> [] \<longrightarrow> Some (ra_log_level ra) = ca_log_level ca) \<and>
    (ca_debug ca \<longrightarrow> map_of env' (u ''FLUXLIT_DEBUG'') = Some (u ''1'')) \<and>
    (ca_no_pidfile ca \<longrightarrow> \<not> pidfile_wanted be ra) \<and>
    (ca \<in> range run_options \<union> range workbench_options \<longrightarrow> \<not> ra_reload ra)"
proof -
  have scopes: "lower (strip (u ''gateway'')) = u ''gateway''" "lower (strip (u ''full'')) = u ''full''"
    by (simp_all add: pystr_eval)
  obtain fs where fs: "env' = (if ca_debug ca then AList.update (u ''FLUXLIT_DEBUG'') (u ''1'') env else env)"
    "load env' (resolve_target (ca_target ca) pc) = Inr fs"
    "\<not> (ca_reload ca \<and> ca_reload_scope ca \<notin> {u ''gateway'', u ''full''})"
    "case resolve_binding (ca_host ca) (ca_port ca) (ca_log_level ca) pc (fs_gateway_host fs) (fs_gateway_port fs) (fs_log_level fs) of
       (host, port, log_level) \<Rightarrow> ra = \<lparr>ra_target = resolve_target (ca_target ca) pc, ra_host = host, ra_port = port,
          ra_reload = ca_reload ca, ra_reload_scope = ca_reload_scope ca, ra_log_level = log_level,
          ra_proxy_headers = (ca_proxy_headers ca \<or> ca_workbench ca), ra_forwarded_allow_ips = ca_forwarded_allow_ips ca,
          ra_write_pidfile = (\<not> ca_no_pidfile ca), ra_workbench_mode = ca_workbench ca\<rparr>"
    using assms by (auto simp: execute_unified_cli_def Let_def split: if_splits sum.splits prod.splits)
  have ra: "ra_target ra = resolve_target (ca_target ca) pc" "ra_reload ra = ca_reload ca" "ra_reload_scope ra = ca_reload_scope ca"
    "ra_write_pidfile ra = (\<not> ca_no_pidfile ca)" "ra_workbench_mode ra = ca_workbench ca"
    "(ra_host ra, ra_port ra, ra_log_level ra) =
       resolve_binding (ca_host ca) (ca_port ca) (ca_log_level ca) pc (fs_gateway_host fs) (fs_gateway_port fs) (fs_log_level fs)"
    using fs(4) by (auto split: prod.splits)
  have "ra_reload ra \<longrightarrow> reload_scope_of ra \<in> {u ''gateway'', u ''full''}"
    using fs(3) scopes by (auto simp: ra reload_scope_of_def or_str_def)
  moreover have "ca_workbench ca \<longrightarrow> effective_proxy ra fs" by (simp add: effective_proxy_def ra(5))
  moreover have "(opt_str (ca_host ca) \<noteq> [] \<longrightarrow> Some (ra_host ra) = ca_host ca) \<and>
      (ca_port ca \<notin> {None, Some 0} \<longrightarrow> Some (ra_port ra) = ca_port ca) \<and>
      (opt_str (ca_log_level ca) \<noteq> [] \<longrightarrow> Some (ra_log_level ra) = ca_log_level ca)"
    using ra(6) by (auto simp: resolve_binding_def first_str_def or_str_def Let_def split: option.splits if_splits)
  moreover have "ca \<in> range run_options \<union> range workbench_options \<longrightarrow> \<not> ra_reload ra"
    by (auto simp: ra(2) run_options_def workbench_options_def)
  moreover have "ca_target ca \<noteq> None \<longrightarrow> Some (ra_target ra) = ca_target ca" by (auto simp: ra(1) resolve_target_def)
  moreover have "ca_debug ca \<longrightarrow> map_of env' (u ''FLUXLIT_DEBUG'') = Some (u ''1'')" by (simp add: fs(1) update_conv)
  moreover have "ca_no_pidfile ca \<longrightarrow> \<not> pidfile_wanted be ra" by (simp add: pidfile_wanted_def ra(4))
  ultimately show ?thesis using fs(2) unfolding ra(1) by blast
qed

definition plain_cli :: cli_args where
  "plain_cli = \<lparr>ca_target = Some (u ''main:app''), ca_host = None, ca_port = Some 9000, ca_log_level = None, ca_proxy_headers = False,
     ca_forwarded_allow_ips = None, ca_no_pidfile = False, ca_reload = True, ca_reload_scope = u ''full'', ca_workbench = False,
     ca_debug = True\<rparr>"

theorem unified_cli_honours_options_witness:
  "\<exists>ra env. execute_unified_cli (\<lambda>_ _. Inr default_settings) None plain_cli [] = (CliStarts ra, env) \<and> ra_port ra = 9000 \<and>
     map_of env (u ''FLUXLIT_DEBUG'') = Some (u ''1'')"
proof -
  obtain ra env where x: "execute_unified_cli (\<lambda>_ _. Inr default_settings) None plain_cli [] = (CliStarts ra, env)"
    by (cases "resolve_binding None (Some 9000) None None (fs_gateway_host default_settings) (fs_gateway_port default_settings)
        (fs_log_level default_settings)") (simp add: execute_unified_cli_def plain_cli_def Let_def)
  from unified_cli_honours_options [OF x, of undefined] x show ?thesis by (simp add: plain_cli_def)
qed

subsection \<open>The test harness\<close>

lemma public_api_url_mounted:
  "public_api_url c path root_path = effective_mount c root_path @ normalize_api_mount_path (tc_api_prefix c) @ lead_slash path"
  by (simp add: public_api_url_def Let_def)



lemma fold_restore:
  assumes "distinct (map fst old)"
  shows "map_of (fold restore_one old env) k = (case map_of old k of Some v \<Rightarrow> v | None \<Rightarrow> map_of env k)"
  using assms
proof (induction old arbitrary: env)
  case (Cons kv old)
  have one: "map_of (restore_one kv env) k = (if k = fst kv then snd kv else map_of env k)"
    by (auto simp: restore_one_def update_conv delete_conv' split: option.splits)
  from Cons.prems have "map_of old (fst kv) = None" by (simp add: map_of_eq_None_iff)
  with Cons one show ?case by (cases kv) (auto split: option.splits)
qed simp

lemma map_of_keyed: "map_of (map (\<lambda>(k, _). (k, f k)) xs) k = (if k \<in> fst ` set xs then Some (f k) else None)"
  by (induction xs) auto

lemma run_apptest_trace:
  assumes "run_apptest c target base overrides extra script env sys_path = ((r, sys_path'), env')"
  shows "(k \<in> fst ` set (streamlit_apptest_env c target base overrides) \<longrightarrow> map_of env' k = map_of env k) \<and>
    (\<exists>e p r' e' p'. script e p = ((r', e'), p') \<and> r = r' \<and>
       (\<forall>kv \<in> set (streamlit_apptest_env c target base overrides). map_of e (fst kv) = Some (snd kv)) \<and>
       (k \<notin> fst ` set (streamlit_apptest_env c target base overrides) \<longrightarrow> map_of env' k = map_of e' k) \<and>
       (p' = p \<longrightarrow> sys_path' = sys_path))"
proof -
  let ?vals = "streamlit_apptest_env c target base overrides" and ?old = "map (\<lambda>(k, _). (k, map_of env k))"
  have keys: "dict_ok ?vals"
    by (simp add: dict_ok_def streamlit_apptest_env_def split: option.split)
  define e where "e = fold (\<lambda>(k, v). AList.update k v) ?vals env"
  define p where "p = (case extra of None \<Rightarrow> sys_path | Some d \<Rightarrow> d # sys_path)"
  obtain r' e' p' where s: "script e p = ((r', e'), p')" by (metis prod.exhaust)
  have block: "maybe_syspath extra (script e) sys_path = ((r', e'), case extra of None \<Rightarrow> p' | Some d \<Rightarrow> remove1 d p')"
    using s by (simp add: maybe_syspath_def p_def split: option.split_asm option.split)
  have run: "r = r'" "sys_path' = (case extra of None \<Rightarrow> p' | Some d \<Rightarrow> remove1 d p')" "env' = fold restore_one (?old ?vals) e'"
    using assms block by (auto simp: run_apptest_def patched_env_def e_def Let_def split: prod.splits)
  have "distinct (map fst (?old ?vals))" using keys by (simp add: dict_ok_def o_def split_def)
  then have look: "map_of env' k = (case map_of (?old ?vals) k of Some v \<Rightarrow> v | None \<Rightarrow> map_of e' k)" for k
    unfolding run(3) by (rule fold_restore)
  have old: "map_of (?old ?vals) k = (if k \<in> fst ` set ?vals then Some (map_of env k) else None)" for k
    by (rule map_of_keyed)
  have "\<forall>kv \<in> set ?vals. map_of e (fst kv) = Some (snd kv)"
    using keys by (auto simp: e_def map_of_fold_update dict_ok_def)
  moreover have "p' = p \<longrightarrow> sys_path' = sys_path" by (auto simp: run(2) p_def split: option.split)
  ultimately show ?thesis using s run(1) look [of k] old [of k] by auto
qed

text \<open>Running a page under test leaves no trace. Whatever the script does to the variables the harness set, and
  whether it returns or raises, each of them has its old value afterwards, absent ones are absent again, and all
  other variables are as the script left them; the search path is restored when the script did not touch it.\<close>

theorem apptest_environment_restored:
  assumes "run_apptest c target base overrides extra script env sys_path = ((r, sys_path'), env')"
  shows "(k \<in> fst ` set (streamlit_apptest_env c target base overrides) \<longrightarrow> map_of env' k = map_of env k) \<and>
    (\<exists>e p r' e' p'. script e p = ((r', e'), p') \<and> r = r' \<and>
       (\<forall>kv \<in> set (streamlit_apptest_env c target base overrides). map_of e (fst kv) = Some (snd kv)) \<and>
       (k \<notin> fst ` set (streamlit_apptest_env c target base overrides) \<longrightarrow> map_of env' k = map_of e' k) \<and>
       (p' = p \<longrightarrow> sys_path' = sys_path))"
  using run_apptest_trace [OF assms] .

theorem apptest_environment_restored_witness:
  "map_of (snd (run_apptest \<lparr>tc_settings = default_settings, tc_api_prefix = u ''/api'', tc_root_mount = []\<rparr> (u ''main:app'') None None
      (Some (u ''/srv'')) (\<lambda>e p. ((7::nat, AList.update (u ''FLUXLIT_TESTS'') (u ''0'') e), p)) [(u ''FLUXLIT_APP'', u ''old'')] []))
    (u ''FLUXLIT_APP'') = Some (u ''old'')"
proof -
  let ?c = "\<lparr>tc_settings = default_settings, tc_api_prefix = u ''/api'', tc_root_mount = []\<rparr>"
  let ?run = "run_apptest ?c (u ''main:app'') None None (Some (u ''/srv''))
      (\<lambda>e p. ((7::nat, AList.update (u ''FLUXLIT_TESTS'') (u ''0'') e), p)) [(u ''FLUXLIT_APP'', u ''old'')] []"
  have "?run = ((fst (fst ?run), snd (fst ?run)), snd ?run)" by simp
  note mp [OF conjunct1 [OF apptest_environment_restored [OF this, of "u ''FLUXLIT_APP''"]]]
  then show ?thesis by (simp add: streamlit_apptest_env_def)
qed

subsection \<open>Reports without secrets\<close>

lemma public_mount_path_secrets [simp]:
  "public_mount_path (fs\<lparr>fs_jwt_hs256_secret := a\<rparr>) = public_mount_path fs"
  "public_mount_path (fs\<lparr>fs_oidc_bff_secret := b\<rparr>) = public_mount_path fs"
  "public_mount_path (fs\<lparr>fs_cors_middleware_kwargs := kw\<rparr>) = public_mount_path fs"
  by (simp_all add: public_mount_path_def Let_def)

lemma warnings_ignore_secrets:
  assumes "fs' = fs\<lparr>fs_jwt_hs256_secret := a, fs_oidc_bff_secret := b, fs_cors_middleware_kwargs := kw\<rparr>"
  shows "collect_configuration_warnings ip env fs' host port = collect_configuration_warnings ip env fs host port"
proof -
  have f: "fs_api_mount_path fs' = fs_api_mount_path fs" "fs_public_base_url fs' = fs_public_base_url fs"
    "public_mount_path fs' = public_mount_path fs" by (simp_all add: assms)
  have "internal_base_warnings fs' x = internal_base_warnings fs x" for x by (simp only: internal_base_warnings_def f)
  moreover have "public_base_warnings fs' = public_base_warnings fs" by (simp only: public_base_warnings_def f)
  ultimately show ?thesis by (simp add: collect_configuration_warnings_def f) (simp add: assms gateway_warnings_def)
qed

text \<open>Neither \<open>fluxlit config\<close> nor the verbose report of the doctor depends on a secret: for two applications
  that differ only in the JWT secret, the OIDC secret and the values of CORS options named after secrets, both
  reports are the same, warnings and errors included.\<close>

theorem reports_hide_secrets:
  assumes "list_all2 same_but_secret (dump (fa_settings app)) (dump (fa_settings app'))"
    and "fa_settings app' = (fa_settings app)\<lparr>fs_jwt_hs256_secret := a, fs_oidc_bff_secret := b, fs_cors_middleware_kwargs := kw\<rparr>"
    and "fa_pages app' = fa_pages app"
  shows "build_doctor_verbose_detail w ip dump names routes app' target host port pc =
      build_doctor_verbose_detail w ip dump names routes app target host port pc \<and>
    build_config_payload ip env dump target host port lvl pc (fa_settings app') =
      build_config_payload ip env dump target host port lvl pc (fa_settings app)"
proof -
  let ?fs = "fa_settings app" and ?fs' = "fa_settings app'"
  have red: "redact_fluxlit_settings_dict (dump ?fs') = redact_fluxlit_settings_dict (dump ?fs)"
    using secrets_not_printed [OF assms(1)] by simp
  have mount: "public_mount_path ?fs' = public_mount_path ?fs" by (simp add: assms(2))
  have ws: "collect_configuration_warnings ip env ?fs' host port = collect_configuration_warnings ip env ?fs host port"
    by (rule warnings_ignore_secrets [OF assms(2)])
  have "verbose_effective ip e ?fs' host port = verbose_effective ip e ?fs host port" for e
    unfolding verbose_effective_def mount by (simp add: assms(2))
  moreover have "verbose_gateway_proxy ?fs' = verbose_gateway_proxy ?fs" by (simp add: verbose_gateway_proxy_def assms(2))
  ultimately have "build_doctor_verbose_detail w ip dump names routes app' target host port pc =
      build_doctor_verbose_detail w ip dump names routes app target host port pc"
    by (simp add: build_doctor_verbose_detail_def red assms(3) Let_def)
  moreover have "fs_api_mount_path ?fs' = fs_api_mount_path ?fs" by (simp add: assms(2))
  ultimately show ?thesis by (simp add: build_config_payload_def red ws mount)
qed

definition two_secrets :: "fluxlit_settings \<Rightarrow> json dict" where
  "two_secrets fs = [(u ''title'', JStr (fs_title fs)), (u ''jwt_hs256_secret'', JStr (fs_jwt_hs256_secret fs)),
     (u ''oidc_bff_secret'', JStr (fs_oidc_bff_secret fs))]"

theorem reports_hide_secrets_witness:
  "build_config_payload (\<lambda>_. None) [] two_secrets (u ''main:app'') (u ''127.0.0.1'') 8000 [] None
      (default_settings\<lparr>fs_jwt_hs256_secret := u ''a'', fs_oidc_bff_secret := u ''b''\<rparr>) =
   build_config_payload (\<lambda>_. None) [] two_secrets (u ''main:app'') (u ''127.0.0.1'') 8000 [] None
      (default_settings\<lparr>fs_jwt_hs256_secret := u ''c'', fs_oidc_bff_secret := u ''d''\<rparr>)"
proof -
  let ?app = "\<lambda>a b. (new_app (default_settings\<lparr>fs_jwt_hs256_secret := a, fs_oidc_bff_secret := b\<rparr>) False :: nat fluxlit_app)"
  have l: "list_all2 same_but_secret (two_secrets (fa_settings (?app (u ''c'') (u ''d''))))
      (two_secrets (fa_settings (?app (u ''a'') (u ''b''))))"
    by (simp add: two_secrets_def new_app_def same_but_secret_def secret_value_def sensitive_fields_def pystr_eval)
  have "fa_settings (?app (u ''a'') (u ''b'')) = (fa_settings (?app (u ''c'') (u ''d'')))\<lparr>fs_jwt_hs256_secret := u ''a'',
      fs_oidc_bff_secret := u ''b'', fs_cors_middleware_kwargs := []\<rparr>"
    by (simp add: new_app_def default_settings_def)
  from reports_hide_secrets [OF l this, where env = "[]" and lvl = "[]"] show ?thesis by (simp add: new_app_def)
qed

end
