(* ===== verification/Json_Text.thy ===== *)
theory Json_Text
  imports Fluxlit_Prelude
begin

section \<open>JSON text\<close>

text \<open>
  \<open>json.dumps\<close> as the code calls it: with \<open>ensure_ascii=False\<close> (\<open>logging/json_formatter.py\<close>), with its defaults (the
  doctor, the overrides of a page under test), with \<open>indent=2\<close> (\<open>fluxlit config\<close>), and with compact separators (the
  session stores of the examples); and \<open>json.loads\<close>. A style is how characters are escaped, what separates items and keys,
  and what is written inside brackets; the locale \<open>json_style\<close> states what reading a text back needs of it, and is
  interpreted on the four. \<open>flt\<close> prints a float and \<open>rd\<close> reads one; \<open>float_codec\<close> is what \<open>repr\<close> and \<open>float\<close> owe to each
  other. The literals for infinities and NaN are not read. A text that repeats a key, which no writer produces, keeps all
  its members here; \<open>last_wins\<close> of \<open>Token_Encoding\<close> is what a Python dictionary makes of them.
\<close>

subsection \<open>Writing\<close>

definition hex_cp :: "nat \<Rightarrow> nat" where
  "hex_cp d = (if d < 10 then 48 + d else 87 + d)"

definition json_escape_cp :: "nat \<Rightarrow> pystr" where
  "json_escape_cp c =
     (if c = 34 then [92, 34] else if c = 92 then [92, 92] else if c = 10 then [92, 110] else if c = 13 then [92, 114]
      else if c = 9 then [92, 116] else if c = 8 then [92, 98] else if c = 12 then [92, 102]
      else if c < 32 then [92, 117, 48, 48, hex_cp (c div 16), hex_cp (c mod 16)] else [c])"

text \<open>With \<open>ensure_ascii\<close> what is not ASCII becomes one or, as a surrogate pair, two escapes.\<close>

definition u_escape :: "nat \<Rightarrow> pystr" where
  "u_escape n = [92, 117, hex_cp (n div 4096 mod 16), hex_cp (n div 256 mod 16), hex_cp (n div 16 mod 16), hex_cp (n mod 16)]"

definition json_ascii_cp :: "nat \<Rightarrow> pystr" where
  "json_ascii_cp c =
     (if c < 127 then json_escape_cp c
      else if c < 65536 then u_escape c
      else u_escape (55296 + (c - 65536) div 1024) @ u_escape (56320 + (c - 65536) mod 1024))"

definition json_quote :: "(nat \<Rightarrow> pystr) \<Rightarrow> pystr \<Rightarrow> pystr" where
  "json_quote esc s = 34 # concat (map esc s) @ [34]"

fun json_write :: "(nat \<Rightarrow> pystr) \<Rightarrow> pystr \<Rightarrow> pystr \<Rightarrow> (real \<Rightarrow> pystr) \<Rightarrow> json \<Rightarrow> pystr" where
  "json_write esc isep ksep flt JNull = u ''null''"
| "json_write esc isep ksep flt (JBool b) = (if b then u ''true'' else u ''false'')"
| "json_write esc isep ksep flt (JInt i) = str_of_int i"
| "json_write esc isep ksep flt (JFloat x) = flt x"
| "json_write esc isep ksep flt (JStr s) = json_quote esc s"
| "json_write esc isep ksep flt (JArr xs) = u ''['' @ join_with isep (map (json_write esc isep ksep flt) xs) @ u '']''"
| "json_write esc isep ksep flt (JObj kvs) =
     u ''{'' @ join_with isep (map (\<lambda>kv. json_quote esc (fst kv) @ ksep @ json_write esc isep ksep flt (snd kv)) kvs) @ u ''}''"

abbreviation json_text :: "(real \<Rightarrow> pystr) \<Rightarrow> json \<Rightarrow> pystr" where
  "json_text \<equiv> json_write json_escape_cp (u '', '') (u '': '')"

abbreviation json_dumps :: "(real \<Rightarrow> pystr) \<Rightarrow> json \<Rightarrow> pystr" where
  "json_dumps \<equiv> json_write json_ascii_cp (u '', '') (u '': '')"

abbreviation json_compact :: "(real \<Rightarrow> pystr) \<Rightarrow> json \<Rightarrow> pystr" where
  "json_compact \<equiv> json_write json_ascii_cp (u '','') (u '':'')"

text \<open>The same with \<open>indent\<close>: separators and the blanks inside brackets depend on the level.\<close>

fun json_layout ::
  "(nat \<Rightarrow> pystr) \<Rightarrow> (nat \<Rightarrow> pystr) \<Rightarrow> pystr \<Rightarrow> (nat \<Rightarrow> pystr) \<Rightarrow> (real \<Rightarrow> pystr) \<Rightarrow> nat \<Rightarrow> json \<Rightarrow> pystr" where
  "json_layout esc isep ksep pad flt l (JArr xs) =
     (if xs = [] then u ''[]''
      else u ''['' @ pad (Suc l) @ join_with (isep (Suc l)) (map (json_layout esc isep ksep pad flt (Suc l)) xs) @ pad l @ u '']'')"
| "json_layout esc isep ksep pad flt l (JObj kvs) =
     (if kvs = [] then u ''{}''
      else u ''{'' @ pad (Suc l) @
        join_with (isep (Suc l)) (map (\<lambda>kv. json_quote esc (fst kv) @ ksep @ json_layout esc isep ksep pad flt (Suc l) (snd kv)) kvs) @
        pad l @ u ''}'')"
| "json_layout esc isep ksep pad flt l j = json_write esc (isep l) ksep flt j"

definition line_indent :: "nat \<Rightarrow> pystr" where
  "line_indent l = 10 # replicate (2 * l) 32"

definition json_indented :: "(real \<Rightarrow> pystr) \<Rightarrow> json \<Rightarrow> pystr" where
  "json_indented flt j = json_layout json_ascii_cp (\<lambda>l. 44 # line_indent l) (u '': '') line_indent flt 0 j"

lemma json_layout_flat: "json_layout esc (\<lambda>l. isep) ksep (\<lambda>l. []) flt l j = json_write esc isep ksep flt j"
proof (induction j arbitrary: l)
  case (JArr xs)
  then have "map (json_layout esc (\<lambda>l. isep) ksep (\<lambda>l. []) flt (Suc l)) xs = map (json_write esc isep ksep flt) xs" by simp
  then show ?case by (simp only: json_layout.simps json_write.simps) (simp add: u.simps)
next
  case (JObj kvs)
  have "json_quote esc (fst kv) @ ksep @ json_layout esc (\<lambda>l. isep) ksep (\<lambda>l. []) flt (Suc l) (snd kv) =
      json_quote esc (fst kv) @ ksep @ json_write esc isep ksep flt (snd kv)" if "kv \<in> set kvs" for kv
    using JObj [OF that, of "snd kv"] by (cases kv) simp
  then have "map (\<lambda>kv. json_quote esc (fst kv) @ ksep @ json_layout esc (\<lambda>l. isep) ksep (\<lambda>l. []) flt (Suc l) (snd kv)) kvs =
      map (\<lambda>kv. json_quote esc (fst kv) @ ksep @ json_write esc isep ksep flt (snd kv)) kvs" by simp
  then show ?case by (simp only: json_layout.simps json_write.simps) (simp add: u.simps)
qed simp_all

subsection \<open>Reading\<close>

definition hex_value :: "nat \<Rightarrow> nat option" where
  "hex_value c =
     (if 48 \<le> c \<and> c \<le> 57 then Some (c - 48) else if 97 \<le> c \<and> c \<le> 102 then Some (c - 87)
      else if 65 \<le> c \<and> c \<le> 70 then Some (c - 55) else None)"

definition simple_escape :: "nat \<Rightarrow> nat option" where
  "simple_escape c =
     (if c \<in> {34, 47, 92} then Some c else if c = 98 then Some 8 else if c = 102 then Some 12
      else if c = 110 then Some 10 else if c = 114 then Some 13 else if c = 116 then Some 9 else None)"

definition hex4_value :: "pystr \<Rightarrow> nat option" where
  "hex4_value ds =
     (case map hex_value ds of [Some a, Some b, Some c, Some d] \<Rightarrow> Some (((a * 16 + b) * 16 + c) * 16 + d) | _ \<Rightarrow> None)"

text \<open>The second half of a surrogate pair, if the text goes on with one.\<close>

definition low_surrogate :: "pystr \<Rightarrow> nat option" where
  "low_surrogate t =
     (if take 2 t = [92, 117]
      then (case hex4_value (take 4 (drop 2 t)) of None \<Rightarrow> None | Some m \<Rightarrow> if 56320 \<le> m \<and> m < 57344 then Some m else None)
      else None)"

text \<open>The rest of a string after its opening quote: the characters and what follows the closing quote.\<close>

function read_string :: "pystr \<Rightarrow> (pystr \<times> pystr) option" where
  "read_string s =
     (case s of
        [] \<Rightarrow> None
      | c # t \<Rightarrow>
          if c = 34 then Some ([], t)
          else if c < 32 then None
          else if c = 92 then
            (case t of
               [] \<Rightarrow> None
             | e # t' \<Rightarrow>
                 if e = 117 then
                   (case hex4_value (take 4 t') of None \<Rightarrow> None
                    | Some n \<Rightarrow>
                        (case (if 55296 \<le> n \<and> n < 56320 then low_surrogate (drop 4 t') else None) of
                           Some m \<Rightarrow> map_option (\<lambda>(x, r). ((65536 + (n - 55296) * 1024 + (m - 56320)) # x, r)) (read_string (drop 10 t'))
                         | None \<Rightarrow> map_option (\<lambda>(x, r). (n # x, r)) (read_string (drop 4 t'))))
                 else (case simple_escape e of None \<Rightarrow> None
                    | Some n \<Rightarrow> map_option (\<lambda>(x, r). (n # x, r)) (read_string t')))
          else map_option (\<lambda>(x, r). (c # x, r)) (read_string t))"
  by pat_completeness auto
termination by (relation "measure length") auto

declare read_string.simps [simp del]

definition skip_blanks :: "pystr \<Rightarrow> pystr" where
  "skip_blanks s = dropWhile (\<lambda>c. c \<in> {32, 9, 10, 13}) s"

definition number_cp :: "nat \<Rightarrow> bool" where
  "number_cp c \<longleftrightarrow> 48 \<le> c \<and> c \<le> 57 \<or> c \<in> {43, 45, 46, 69, 101}"

definition read_int :: "pystr \<Rightarrow> int option" where
  "read_int w =
     (let (neg, ds) = (if startswith w [45] then (True, drop 1 w) else (False, w))
      in if isdigit ds \<and> (\<forall>c \<in> set ds. c < 128) \<and> (hd ds = 48 \<longrightarrow> length ds = 1)
         then Some (if neg then - int (digits_value ds) else int (digits_value ds)) else None)"

text \<open>\<open>n\<close> bounds the nesting.\<close>

function read_value :: "(pystr \<Rightarrow> real option) \<Rightarrow> nat \<Rightarrow> pystr \<Rightarrow> (json \<times> pystr) option"
  and read_items :: "(pystr \<Rightarrow> real option) \<Rightarrow> nat \<Rightarrow> pystr \<Rightarrow> (json list \<times> pystr) option"
  and read_members :: "(pystr \<Rightarrow> real option) \<Rightarrow> nat \<Rightarrow> pystr \<Rightarrow> (json dict \<times> pystr) option" where
  "read_value rd 0 s = None"
| "read_value rd (Suc n) s =
     (if startswith s (u ''\"'') then map_option (\<lambda>(x, r). (JStr x, r)) (read_string (drop 1 s))
      else if startswith s (u ''['') then
        (let t = skip_blanks (drop 1 s)
         in if startswith t (u '']'') then Some (JArr [], drop 1 t)
            else map_option (\<lambda>(xs, r). (JArr xs, r)) (read_items rd n t))
      else if startswith s (u ''{'') then
        (let t = skip_blanks (drop 1 s)
         in if startswith t (u ''}'') then Some (JObj [], drop 1 t)
            else map_option (\<lambda>(kvs, r). (JObj kvs, r)) (read_members rd n t))
      else if startswith s (u ''null'') then Some (JNull, drop 4 s)
      else if startswith s (u ''true'') then Some (JBool True, drop 4 s)
      else if startswith s (u ''false'') then Some (JBool False, drop 5 s)
      else (case read_int (takeWhile number_cp s) of Some i \<Rightarrow> Some (JInt i, dropWhile number_cp s)
        | None \<Rightarrow> map_option (\<lambda>x. (JFloat x, dropWhile number_cp s)) (rd (takeWhile number_cp s))))"
| "read_items rd 0 s = None"
| "read_items rd (Suc n) s =
     (case read_value rd n s of None \<Rightarrow> None
      | Some (x, r) \<Rightarrow>
          (let t = skip_blanks r
           in if startswith t (u '']'') then Some ([x], drop 1 t)
              else if startswith t (u '','')
              then map_option (\<lambda>(xs, r'). (x # xs, r')) (read_items rd n (skip_blanks (drop 1 t)))
              else None))"
| "read_members rd 0 s = None"
| "read_members rd (Suc n) s =
     (if \<not> startswith s (u ''\"'') then None
      else (case read_string (drop 1 s) of None \<Rightarrow> None
        | Some (k, r) \<Rightarrow>
            (let t = skip_blanks r
             in if \<not> startswith t (u '':'') then None
                else (case read_value rd n (skip_blanks (drop 1 t)) of None \<Rightarrow> None
                  | Some (x, r') \<Rightarrow>
                      (let t' = skip_blanks r'
                       in if startswith t' (u ''}'') then Some ([(k, x)], drop 1 t')
                          else if startswith t' (u '','')
                          then map_option (\<lambda>(kvs, r''). ((k, x) # kvs, r'')) (read_members rd n (skip_blanks (drop 1 t')))
                          else None)))))"
  by pat_completeness auto
termination
  by (relation "measure (\<lambda>x. case x of Inl (rd, n, s) \<Rightarrow> n | Inr (Inl (rd, n, s)) \<Rightarrow> n | Inr (Inr (rd, n, s)) \<Rightarrow> n)") auto

subsection \<open>Characters read back\<close>

lemma hex_round: "d < 16 \<Longrightarrow> hex_value (hex_cp d) = Some d"
  by (auto simp: hex_value_def hex_cp_def)

lemma hex_value_48: "hex_value 48 = Some 0"
  by (simp add: hex_value_def)

lemma read_escaped: "read_string (json_escape_cp c @ s) = map_option (\<lambda>(x, r). (c # x, r)) (read_string s)"
proof -
  consider "c \<in> {34, 92, 10, 13, 9, 8, 12}" | "c < 32" "c \<notin> {10, 13, 9, 8, 12}" | "32 \<le> c" "c \<noteq> 34" "c \<noteq> 92" by fastforce
  then show ?thesis
  proof cases
    case 1
    then show ?thesis by (subst read_string.simps) (auto simp: json_escape_cp_def simple_escape_def)
  next
    case 2
    have "c div 16 < 16" "c mod 16 < 16" "c div 16 * 16 + c mod 16 = c" using 2(1) by simp_all
    then have "hex4_value [48, 48, hex_cp (c div 16), hex_cp (c mod 16)] = Some c"
      by (simp add: hex4_value_def hex_value_48 hex_round)
    with 2 show ?thesis by (subst read_string.simps) (simp add: json_escape_cp_def)
  next
    case 3
    then show ?thesis by (subst read_string.simps) (simp add: json_escape_cp_def)
  qed
qed

lemma hex4_digits:
  assumes "n < 65536"
  shows "hex4_value [hex_cp (n div 4096 mod 16), hex_cp (n div 256 mod 16), hex_cp (n div 16 mod 16), hex_cp (n mod 16)] = Some n"
proof -
  have q: "n div 256 = n div 16 div 16" "n div 4096 = n div 256 div 16" by (simp_all add: div_mult2_eq [symmetric])
  have "n div 16 * 16 + n mod 16 = n" by (rule div_mult_mod_eq)
  moreover have "n div 256 * 16 + n div 16 mod 16 = n div 16" unfolding q(1) by (rule div_mult_mod_eq)
  moreover have "n div 4096 * 16 + n div 256 mod 16 = n div 256" unfolding q(2) by (rule div_mult_mod_eq)
  moreover have m: "n div 4096 mod 16 = n div 4096" using assms by simp
  ultimately have e: "((n div 4096 mod 16 * 16 + n div 256 mod 16) * 16 + n div 16 mod 16) * 16 + n mod 16 = n" by metis
  have "map hex_value [hex_cp (n div 4096 mod 16), hex_cp (n div 256 mod 16), hex_cp (n div 16 mod 16), hex_cp (n mod 16)] =
      [Some (n div 4096 mod 16), Some (n div 256 mod 16), Some (n div 16 mod 16), Some (n mod 16)]"
    by (simp add: hex_round del: mod_less)
  then show ?thesis by (simp only: hex4_value_def list.case option.case e)
qed

lemma u_escape_parts:
  assumes "n < 65536"
  shows "\<exists>t. u_escape n = 92 # 117 # t \<and> length t = 4 \<and> hex4_value t = Some n"
  using hex4_digits [OF assms] by (simp add: u_escape_def)

definition scalar_cp :: "nat \<Rightarrow> bool" where
  "scalar_cp c \<longleftrightarrow> c < 1114112 \<and> \<not> (55296 \<le> c \<and> c < 57344)"

lemma read_ascii:
  assumes "scalar_cp c"
  shows "read_string (json_ascii_cp c @ s) = map_option (\<lambda>(x, r). (c # x, r)) (read_string s)"
proof -
  consider "c < 127" | "127 \<le> c" "c < 65536" | "65536 \<le> c" by linarith
  then show ?thesis
  proof cases
    case 1
    then show ?thesis by (simp add: json_ascii_cp_def read_escaped)
  next
    case 2
    then obtain t where t: "u_escape c = 92 # 117 # t" "length t = 4" "hex4_value t = Some c" using u_escape_parts by blast
    have "c < 55296 \<or> 56320 \<le> c" using assms by (auto simp: scalar_cp_def)
    with 2 t show ?thesis by (elim disjE; subst read_string.simps) (simp_all add: json_ascii_cp_def)
  next
    case 3
    let ?hi = "55296 + (c - 65536) div 1024" and ?lo = "56320 + (c - 65536) mod 1024"
    have b: "?hi < 56320" "?lo < 57344" using assms 3 by (auto simp: scalar_cp_def)
    then have "?hi < 65536" "?lo < 65536" by simp_all
    then obtain t t' where t: "u_escape ?hi = 92 # 117 # t" "length t = 4" "hex4_value t = Some ?hi"
      and t': "u_escape ?lo = 92 # 117 # t'" "length t' = 4" "hex4_value t' = Some ?lo" using u_escape_parts by metis
    have low: "low_surrogate (92 # 117 # t' @ s) = Some ?lo" using t' b by (simp add: low_surrogate_def)
    have "65536 + (?hi - 55296) * 1024 + (?lo - 56320) = c" using 3 by simp
    with 3 b t t' low show ?thesis by (subst read_string.simps) (simp add: json_ascii_cp_def)
  qed
qed

text \<open>Printed text holds no control character.\<close>

lemma hex_cp_bounds: "d < 16 \<Longrightarrow> 48 \<le> hex_cp d \<and> hex_cp d < 127"
  by (simp add: hex_cp_def)

lemma escape_ascii: "d \<in> set (json_escape_cp c) \<Longrightarrow> 32 \<le> d \<and> (c < 127 \<longrightarrow> d < 127)"
proof -
  have "48 \<le> hex_cp (c div 16) \<and> hex_cp (c div 16) < 127" if "c < 32" by (rule hex_cp_bounds) (use that in simp)
  moreover have "48 \<le> hex_cp (c mod 16) \<and> hex_cp (c mod 16) < 127" by (rule hex_cp_bounds) simp
  ultimately show "d \<in> set (json_escape_cp c) \<Longrightarrow> 32 \<le> d \<and> (c < 127 \<longrightarrow> d < 127)"
    by (auto simp: json_escape_cp_def split: if_splits)
qed

lemma escape_printable: "d \<in> set (json_escape_cp c) \<Longrightarrow> 32 \<le> d"
  using escape_ascii by blast

lemma u_escape_cps: "d \<in> set (u_escape n) \<Longrightarrow> 32 \<le> d \<and> d < 127"
proof -
  assume "d \<in> set (u_escape n)"
  then consider "d = 92 \<or> d = 117" | m where "d = hex_cp (m mod 16)" by (auto simp: u_escape_def)
  then show ?thesis
  proof cases
    case 2
    with hex_cp_bounds [of "m mod 16"] show ?thesis by simp
  qed auto
qed

lemma ascii_printable: "d \<in> set (json_ascii_cp c) \<Longrightarrow> 32 \<le> d \<and> d < 127"
  using u_escape_cps escape_ascii [of d c] by (auto simp: json_ascii_cp_def split: if_splits)

lemma set_join_with: "set (join_with sep ws) \<subseteq> set sep \<union> \<Union> (set ` set ws)"
  by (induction sep ws rule: join_with.induct) auto

lemma str_of_nat_cps: "d \<in> set (str_of_nat n) \<Longrightarrow> 48 \<le> d \<and> d \<le> 57"
  using str_of_nat_digits by blast

lemma str_of_int_cps: "d \<in> set (str_of_int i) \<Longrightarrow> number_cp d"
  by (auto simp: str_of_int_def number_cp_def dest: str_of_nat_cps split: if_splits)

lemma json_write_cps:
  assumes "\<forall>x. \<forall>c \<in> set (flt x). P c" and "\<And>c d. d \<in> set (esc c) \<Longrightarrow> P d" and "\<forall>d \<in> set isep \<union> set ksep. P d"
    and "\<forall>d. 32 \<le> d \<and> d < 127 \<longrightarrow> P d"
  shows "\<forall>d \<in> set (json_write esc isep ksep flt j). P d"
proof -
  have quote: "\<forall>d \<in> set (json_quote esc s). P d" for s using assms(2,4) by (auto simp: json_quote_def)
  have join: "\<forall>d \<in> set (join_with isep ws). P d" if "\<forall>w \<in> set ws. \<forall>d \<in> set w. P d" for ws
    using that assms(3) set_join_with [of isep ws] by blast
  have sym: "P 91" "P 93" "P 123" "P 125" using assms(4) by simp_all
  show ?thesis
  proof (induction j)
    case (JInt i)
    have "32 \<le> d \<and> d < 127" if "number_cp d" for d using that by (auto simp: number_cp_def)
    then show ?case using assms(4) str_of_int_cps by simp
  next
    case (JArr xs)
    have "\<forall>d \<in> set (join_with isep (map (json_write esc isep ksep flt) xs)). P d" by (rule join) (use JArr in auto)
    then show ?case using sym by (auto simp: u.simps)
  next
    case (JObj kvs)
    have "\<forall>d \<in> set (json_quote esc (fst kv) @ ksep @ json_write esc isep ksep flt (snd kv)). P d" if "kv \<in> set kvs" for kv
      using JObj [OF that, of "snd kv"] quote assms(3) by (cases kv) auto
    then have "\<forall>d \<in> set (join_with isep (map (\<lambda>kv. json_quote esc (fst kv) @ ksep @ json_write esc isep ksep flt (snd kv)) kvs)). P d"
      by (intro join) auto
    then show ?case using sym by (auto simp: u.simps)
  qed (use assms(1,4) quote in \<open>auto simp: u.simps\<close>)
qed

lemma json_text_printable:
  assumes "\<forall>x. \<forall>c \<in> set (flt x). 32 \<le> c"
  shows "\<forall>d \<in> set (json_text flt j). 32 \<le> d"
  by (rule json_write_cps [OF assms]) (use escape_printable in \<open>auto simp: u.simps\<close>)

lemma json_dumps_printable:
  assumes "\<forall>x. \<forall>c \<in> set (flt x). 32 \<le> c \<and> c < 127"
  shows "\<forall>d \<in> set (json_dumps flt j). 32 \<le> d \<and> d < 127"
  by (rule json_write_cps [OF assms]) (use ascii_printable in \<open>auto simp: u.simps\<close>)

subsection \<open>Values read back\<close>

fun json_ok :: "(real \<Rightarrow> bool) \<Rightarrow> (nat \<Rightarrow> bool) \<Rightarrow> json \<Rightarrow> bool" where
  "json_ok okf okc (JFloat x) = okf x"
| "json_ok okf okc (JStr s) = list_all okc s"
| "json_ok okf okc (JArr xs) = list_all (json_ok okf okc) xs"
| "json_ok okf okc (JObj kvs) = list_all (\<lambda>kv. list_all okc (fst kv) \<and> json_ok okf okc (snd kv)) kvs"
| "json_ok okf okc _ = True"

text \<open>A float is printed as a number that is no integer and read back as itself.\<close>

definition float_codec :: "(real \<Rightarrow> bool) \<Rightarrow> (real \<Rightarrow> pystr) \<Rightarrow> (pystr \<Rightarrow> real option) \<Rightarrow> bool" where
  "float_codec okf flt rd \<longleftrightarrow>
     (\<forall>x. okf x \<longrightarrow> flt x \<noteq> [] \<and> (\<forall>c \<in> set (flt x). number_cp c) \<and> read_int (flt x) = None \<and> rd (flt x) = Some x)"

lemma float_codec_none: "float_codec (\<lambda>x. False) flt rd"
  by (simp add: float_codec_def)

lemma str_of_nat_lead: "n \<noteq> 0 \<Longrightarrow> hd (str_of_nat n) \<noteq> 48"
proof (induction n rule: str_of_nat.induct)
  case (1 n)
  show ?case
  proof (cases "n < 10")
    case True
    with 1(2) show ?thesis by (simp add: str_of_nat.simps [of n])
  next
    case False
    with 1(1) have "hd (str_of_nat (n div 10)) \<noteq> 48" by simp
    with False str_of_nat_digits [of "n div 10"] show ?thesis by (simp add: str_of_nat.simps [of n])
  qed
qed

lemma read_printed_int: "read_int (str_of_int i) = Some i"
proof -
  have d: "isdigit (str_of_nat n)" "\<forall>c \<in> set (str_of_nat n). c < 128" for n using str_of_nat_latin1 by auto
  have z: "hd (str_of_nat n) = 48 \<longrightarrow> length (str_of_nat n) = 1" for n
    using str_of_nat_lead [of n] by (cases "n = 0") (simp_all add: str_of_nat.simps)
  have s: "\<not> startswith (str_of_nat n) [45]" for n using str_of_nat_cps [of 45 n] by (auto simp: startswith_iff)
  have nat_part: "isdigit (str_of_nat n) \<and> (\<forall>c \<in> set (str_of_nat n). c < 128) \<and>
      (hd (str_of_nat n) = 48 \<longrightarrow> length (str_of_nat n) = 1)" for n using d z by simp
  show ?thesis
  proof (cases "i < 0")
    case True
    then show ?thesis using nat_part [of "nat (- i)"] by (simp add: read_int_def str_of_int_def)
  next
    case False
    then show ?thesis using nat_part [of "nat i"] s [of "nat i"] by (simp add: read_int_def str_of_int_def)
  qed
qed

text \<open>What may follow a printed value: not a character that would continue a number.\<close>

definition stops :: "pystr \<Rightarrow> bool" where
  "stops r \<longleftrightarrow> r = [] \<or> \<not> number_cp (hd r)"

lemma number_ends:
  assumes "stops r" and "\<forall>c \<in> set w. number_cp c"
  shows "takeWhile number_cp (w @ r) = w" "dropWhile number_cp (w @ r) = r"
proof -
  have r: "takeWhile number_cp r = []" "dropWhile number_cp r = r"
    using assms(1) by (cases r; simp add: stops_def)+
  show "takeWhile number_cp (w @ r) = w" using assms(2) r by (simp add: takeWhile_append2)
  show "dropWhile number_cp (w @ r) = r" using assms(2) r by (simp add: dropWhile_append2)
qed

lemma str_of_int_nonempty: "str_of_int i \<noteq> []"
  using str_of_nat_digits by (auto simp: str_of_int_def)

lemma read_value_number:
  assumes "stops r" and "0 < n" and "w \<noteq> []" and "\<forall>c \<in> set w. number_cp c"
  shows "read_value rd n (w @ r) =
    (case read_int w of Some i \<Rightarrow> Some (JInt i, r) | None \<Rightarrow> map_option (\<lambda>x. (JFloat x, r)) (rd w))"
proof -
  have "hd w \<notin> {34, 91, 123, 110, 116, 102}" using hd_in_set [OF assms(3)] assms(4) by (auto simp: number_cp_def)
  then have nots: "\<not> startswith (w @ r) k" if "hd k \<in> {34, 91, 123, 110, 116, 102}" "k \<noteq> []" for k
    using that assms(3) by (cases k; cases w) auto
  obtain m where "n = Suc m" using assms(2) by (cases n) auto
  then show ?thesis
    using nots number_ends [OF assms(1,4)] by (simp add: u.simps split: option.split)
qed

lemma read_value_int: "stops r \<Longrightarrow> 0 < n \<Longrightarrow> read_value rd n (str_of_int i @ r) = Some (JInt i, r)"
  using str_of_int_cps by (subst read_value_number) (auto simp: read_printed_int str_of_int_nonempty)

lemma read_value_float:
  assumes "float_codec okf flt rd" and "okf x" and "stops r" and "0 < n"
  shows "read_value rd n (flt x @ r) = Some (JFloat x, r)"
  using assms by (subst read_value_number) (auto simp: float_codec_def)

definition blank :: "pystr \<Rightarrow> bool" where
  "blank b \<longleftrightarrow> set b \<subseteq> {32, 9, 10, 13}"

lemma skip_blanks_simps [simp]:
  "skip_blanks (32 # s) = skip_blanks s"
  "c \<notin> {32, 9, 10, 13} \<Longrightarrow> skip_blanks (c # s) = c # s"
  "skip_blanks [] = []"
  by (auto simp: skip_blanks_def)

lemma skip_blanks_append: "blank b \<Longrightarrow> skip_blanks (b @ s) = skip_blanks s"
  by (induction b) (auto simp: skip_blanks_def blank_def)

lemma stops_sep: "stops (44 # s)" "stops (93 # s)" "stops (125 # s)"
  by (simp_all add: stops_def number_cp_def)

lemma stops_blank: "blank b \<Longrightarrow> stops s \<Longrightarrow> stops (b @ s)"
  by (cases b) (auto simp: stops_def number_cp_def blank_def)

lemma blank_line_indent: "blank (line_indent l)"
  by (auto simp: blank_def line_indent_def)

text \<open>What reading back needs of a style of writing: an escaped character is read as itself, separators are a comma or a
  colon with blanks around them, and inside brackets there are blanks.\<close>

locale json_style =
  fixes esc :: "nat \<Rightarrow> pystr" and isep :: "nat \<Rightarrow> pystr" and ksep :: pystr and pad :: "nat \<Rightarrow> pystr" and okc :: "nat \<Rightarrow> bool"
  assumes esc_read: "okc c \<Longrightarrow> read_string (esc c @ s) = map_option (\<lambda>(x, r). (c # x, r)) (read_string s)"
    and isep_comma: "\<exists>b. isep l = 44 # b \<and> blank b"
    and ksep_colon: "\<exists>b. ksep = 58 # b \<and> blank b"
    and pad_blank: "blank (pad l)"
begin

abbreviation wr :: "(real \<Rightarrow> pystr) \<Rightarrow> nat \<Rightarrow> json \<Rightarrow> pystr" where
  "wr flt l j \<equiv> json_layout esc isep ksep pad flt l j"

text \<open>The first character of a printed value decides how it is read, and is none that separates values.\<close>

lemma lead:
  assumes "float_codec okf flt rd" and "json_ok okf okc j"
  shows "\<exists>c t. wr flt l j = c # t \<and> c \<notin> {32, 9, 10, 13, 93, 125}"
proof -
  have number: "\<exists>c t. w = c # t \<and> c \<notin> {32, 9, 10, 13, 93, 125}" if "w \<noteq> []" "\<forall>c \<in> set w. number_cp c" for w
    using that by (cases w) (auto simp: number_cp_def)
  show ?thesis
  proof (cases j)
    case (JInt i)
    then show ?thesis using number [OF str_of_int_nonempty [of i]] str_of_int_cps by auto
  next
    case (JFloat x)
    then show ?thesis using number [of "flt x"] assms by (auto simp: float_codec_def)
  qed (auto simp: u.simps json_quote_def)
qed

lemma skip_blanks_write: "float_codec okf flt rd \<Longrightarrow> json_ok okf okc j \<Longrightarrow> skip_blanks (wr flt l j @ r) = wr flt l j @ r"
  using lead [of okf flt rd j l] by (auto simp: skip_blanks_def)

lemma read_string_body: "list_all okc s \<Longrightarrow> read_string (concat (map esc s) @ 34 # r) = Some (s, r)"
proof (induction s)
  case Nil
  show ?case by (simp add: read_string.simps)
qed (simp add: esc_read)

definition reads_back :: "(pystr \<Rightarrow> real option) \<Rightarrow> (real \<Rightarrow> pystr) \<Rightarrow> nat \<Rightarrow> json \<Rightarrow> bool" where
  "reads_back rd flt l j \<longleftrightarrow> (\<forall>n r. length (wr flt l j) \<le> n \<longrightarrow> stops r \<longrightarrow> read_value rd n (wr flt l j @ r) = Some (j, r))"

lemma isep_reads:
  "skip_blanks (isep l @ s) = isep l @ s" "startswith (isep l @ s) [44]" "\<not> startswith (isep l @ s) [93]"
  "\<not> startswith (isep l @ s) [125]" "skip_blanks (drop (Suc 0) (isep l @ s)) = skip_blanks s" "stops (isep l @ s)"
  using isep_comma [of l] by (auto simp: skip_blanks_append stops_sep)

lemma isep_length: "\<exists>k. length (isep l) = Suc k"
  using isep_comma [of l] by auto

lemma ksep_reads:
  "skip_blanks (ksep @ s) = ksep @ s" "startswith (ksep @ s) [58]" "skip_blanks (drop (Suc 0) (ksep @ s)) = skip_blanks s"
  using ksep_colon by (auto simp: skip_blanks_append)

lemma read_items_back:
  assumes "float_codec okf flt rd" and "blank b"
    and "\<forall>x \<in> set xs. reads_back rd flt l x \<and> json_ok okf okc x" and "xs \<noteq> []"
    and "length (join_with (isep l) (map (wr flt l) xs)) < n"
  shows "read_items rd n (join_with (isep l) (map (wr flt l) xs) @ b @ 93 # r) = Some (xs, r)"
  using assms(3-5)
proof (induction xs arbitrary: n)
  case (Cons x xs)
  then obtain m where n: "n = Suc m" by (cases n) auto
  show ?case
  proof (cases xs)
    case Nil
    then have "read_value rd m (wr flt l x @ b @ 93 # r) = Some (x, b @ 93 # r)"
      using Cons.prems n stops_blank [OF assms(2) stops_sep(2)] by (simp add: reads_back_def)
    with Nil n show ?thesis by (simp add: u.simps skip_blanks_append [OF assms(2)])
  next
    case (Cons y ys)
    let ?rest = "join_with (isep l) (map (wr flt l) xs) @ b @ 93 # r"
    have j: "join_with (isep l) (map (wr flt l) (x # xs)) = wr flt l x @ isep l @ join_with (isep l) (map (wr flt l) xs)"
      using Cons by simp
    have "read_value rd m (wr flt l x @ isep l @ ?rest) = Some (x, isep l @ ?rest)"
      using Cons.prems(1,3) n isep_reads(6) j by (simp add: reads_back_def)
    moreover have "json_ok okf okc y" using Cons.prems(1) Cons by simp
    then have "skip_blanks ?rest = ?rest"
      using Cons lead [OF assms(1), of y l] by (cases ys) (auto simp: skip_blanks_def)
    moreover obtain k where k: "length (isep l) = Suc k" using isep_length by blast
    have "read_items rd m ?rest = Some (xs, r)"
      by (rule Cons.IH) (use Cons.prems Cons n j k in auto)
    ultimately show ?thesis using n j by (simp add: u.simps isep_reads del: drop_append)
  qed
qed simp

definition member_text :: "(real \<Rightarrow> pystr) \<Rightarrow> nat \<Rightarrow> pystr \<times> json \<Rightarrow> pystr" where
  "member_text flt l kv = json_quote esc (fst kv) @ ksep @ wr flt l (snd kv)"

lemma wr_obj:
  "wr flt l (JObj kvs) = (if kvs = [] then u ''{}'' else
     u ''{'' @ pad (Suc l) @ join_with (isep (Suc l)) (map (member_text flt (Suc l)) kvs) @ pad l @ u ''}'')"
  by (simp add: member_text_def [abs_def])

lemma read_member:
  assumes "float_codec okf flt rd" and "reads_back rd flt l (snd kv)" and "json_ok okf okc (snd kv)" and "list_all okc (fst kv)"
    and "length (member_text flt l kv) \<le> m" and "stops s"
  shows "read_members rd (Suc m) (member_text flt l kv @ s) =
    (let t' = skip_blanks s
     in if startswith t' [125] then Some ([kv], drop 1 t')
        else if startswith t' [44] then map_option (\<lambda>(kvs, r). (kv # kvs, r)) (read_members rd m (skip_blanks (drop 1 t')))
        else None)"
proof -
  obtain k x where kv: "kv = (k, x)" by (cases kv)
  have "read_value rd m (wr flt l x @ s) = Some (x, s)"
    using assms by (simp add: reads_back_def member_text_def kv)
  moreover have "skip_blanks (wr flt l x @ s) = wr flt l x @ s" using assms(3) by (simp add: skip_blanks_write [OF assms(1)] kv)
  moreover have "list_all okc k" using assms(4) by (simp add: kv)
  ultimately show ?thesis
    by (simp add: member_text_def kv u.simps json_quote_def read_string_body ksep_reads Let_def del: drop_append)
qed

lemma read_members_back:
  assumes "float_codec okf flt rd" and "blank b"
    and "\<forall>kv \<in> set kvs. reads_back rd flt l (snd kv) \<and> json_ok okf okc (snd kv) \<and> list_all okc (fst kv)" and "kvs \<noteq> []"
    and "length (join_with (isep l) (map (member_text flt l) kvs)) < n"
  shows "read_members rd n (join_with (isep l) (map (member_text flt l) kvs) @ b @ 125 # r) = Some (kvs, r)"
  using assms(3-5)
proof (induction kvs arbitrary: n)
  case (Cons kv kvs)
  then obtain m where n: "n = Suc m" by (cases n) auto
  show ?case
  proof (cases kvs)
    case Nil
    then show ?thesis
      using Cons.prems n stops_blank [OF assms(2) stops_sep(3)]
      by (simp add: read_member [OF assms(1)] skip_blanks_append [OF assms(2)] del: read_members.simps)
  next
    case (Cons y ys)
    let ?rest = "join_with (isep l) (map (member_text flt l) kvs) @ b @ 125 # r"
    have j: "join_with (isep l) (map (member_text flt l) (kv # kvs)) =
        member_text flt l kv @ isep l @ join_with (isep l) (map (member_text flt l) kvs)" using Cons by simp
    have "skip_blanks ?rest = ?rest"
      using Cons by (cases ys) (auto simp: skip_blanks_def member_text_def json_quote_def)
    moreover obtain k where k: "length (isep l) = Suc k" using isep_length by blast
    have "read_members rd m ?rest = Some (kvs, r)"
      by (rule Cons.IH) (use Cons.prems Cons n j k in auto)
    ultimately show ?thesis
      using n j Cons.prems by (simp add: read_member [OF assms(1)] isep_reads del: read_members.simps drop_append)
  qed
qed simp

lemma reads_array:
  assumes "float_codec okf flt rd" and "\<forall>x \<in> set xs. reads_back rd flt (Suc l) x \<and> json_ok okf okc x"
  shows "reads_back rd flt l (JArr xs)"
  unfolding reads_back_def
proof (intro allI impI)
  fix n r assume n: "length (wr flt l (JArr xs)) \<le> n"
  then obtain m where m: "n = Suc m" by (cases n) (auto simp: u.simps split: if_splits)
  show "read_value rd n (wr flt l (JArr xs) @ r) = Some (JArr xs, r)"
  proof (cases xs)
    case Nil
    then show ?thesis by (simp add: m u.simps)
  next
    case (Cons x ys)
    let ?items = "join_with (isep (Suc l)) (map (wr flt (Suc l)) xs)"
    have "read_items rd m (?items @ pad l @ 93 # r) = Some (xs, r)"
      by (rule read_items_back [OF assms(1) pad_blank assms(2)]) (use n m Cons in \<open>auto simp: u.simps\<close>)
    moreover have "json_ok okf okc x" using assms(2) Cons by simp
    then obtain c t where c: "wr flt (Suc l) x = c # t" "c \<notin> {32, 9, 10, 13, 93, 125}" using lead [OF assms(1)] by blast
    then have "\<exists>t. ?items = c # t" using Cons by (cases ys) auto
    ultimately show ?thesis using c(2) Cons by (auto simp: m u.simps skip_blanks_append [OF pad_blank])
  qed
qed

lemma reads_object:
  assumes "float_codec okf flt rd"
    and "\<forall>kv \<in> set kvs. reads_back rd flt (Suc l) (snd kv) \<and> json_ok okf okc (snd kv) \<and> list_all okc (fst kv)"
  shows "reads_back rd flt l (JObj kvs)"
  unfolding reads_back_def
proof (intro allI impI)
  fix n r assume n: "length (wr flt l (JObj kvs)) \<le> n"
  then obtain m where m: "n = Suc m" by (cases n) (auto simp: u.simps split: if_splits)
  show "read_value rd n (wr flt l (JObj kvs) @ r) = Some (JObj kvs, r)"
  proof (cases kvs)
    case Nil
    then show ?thesis by (simp add: m u.simps)
  next
    case (Cons y ys)
    let ?members = "join_with (isep (Suc l)) (map (member_text flt (Suc l)) kvs)"
    have "read_members rd m (?members @ pad l @ 125 # r) = Some (kvs, r)"
      by (rule read_members_back [OF assms(1) pad_blank assms(2)]) (use n m Cons in \<open>auto simp: u.simps wr_obj simp del: json_layout.simps\<close>)
    moreover have "\<exists>t. ?members = 34 # t"
      using Cons by (cases ys) (auto simp: member_text_def json_quote_def)
    moreover have "wr flt l (JObj kvs) = u ''{'' @ pad (Suc l) @ ?members @ pad l @ u ''}''" unfolding wr_obj using Cons by simp
    ultimately show ?thesis by (auto simp: m u.simps skip_blanks_append [OF pad_blank] simp del: json_layout.simps)
  qed
qed

lemma reads_back_lit:
  assumes "wr flt l j \<noteq> []" and "\<And>m r. stops r \<Longrightarrow> read_value rd (Suc m) (wr flt l j @ r) = Some (j, r)"
  shows "reads_back rd flt l j"
  unfolding reads_back_def
proof (intro allI impI)
  fix n r assume n: "length (wr flt l j) \<le> n" and r: "stops r"
  then obtain m where "n = Suc m" using assms(1) by (cases n) auto
  then show "read_value rd n (wr flt l j @ r) = Some (j, r)" using assms(2) [OF r] by simp
qed

lemma reads_back_value:
  assumes "float_codec okf flt rd"
  shows "json_ok okf okc j \<Longrightarrow> reads_back rd flt l j"
proof (induction j arbitrary: l)
  case (JInt i)
  show ?case by (rule reads_back_lit) (simp_all add: str_of_int_nonempty read_value_int del: read_value.simps)
next
  case (JFloat x)
  then have "flt x \<noteq> []" using assms by (simp add: float_codec_def)
  with JFloat show ?case by (intro reads_back_lit) (simp_all add: read_value_float [OF assms] del: read_value.simps)
next
  case (JStr s)
  then show ?case by (intro reads_back_lit) (simp_all add: u.simps json_quote_def read_string_body)
next
  case (JArr xs)
  then show ?case by (intro reads_array [OF assms]) (auto simp: list_all_iff)
next
  case (JObj kvs)
  then show ?case by (intro reads_object [OF assms]) (fastforce simp: list_all_iff)
next
  case JNull
  show ?case by (rule reads_back_lit) (simp_all add: u.simps)
next
  case (JBool b)
  show ?case by (rule reads_back_lit) (simp_all add: u.simps)
qed

end

text \<open>\<open>json.loads\<close> of a whole text.\<close>

definition json_read :: "(pystr \<Rightarrow> real option) \<Rightarrow> pystr \<Rightarrow> json option" where
  "json_read rd s =
     (let t = skip_blanks s
      in case read_value rd (length t) t of Some (j, r) \<Rightarrow> (if skip_blanks r = [] then Some j else None) | None \<Rightarrow> None)"

context json_style
begin

lemma reads_whole:
  assumes "float_codec okf flt rd" and "json_ok okf okc j"
  shows "json_read rd (wr flt l j) = Some j"
  using reads_back_value [OF assms, of l] skip_blanks_write [OF assms, of l "[]"]
  by (fastforce simp: json_read_def reads_back_def stops_def)

end

interpretation plain_json: json_style json_escape_cp "\<lambda>l. u '', ''" "u '': ''" "\<lambda>l. []" "\<lambda>c. True"
  by unfold_locales (auto simp: read_escaped u.simps blank_def)

interpretation ascii_json: json_style json_ascii_cp "\<lambda>l. u '', ''" "u '': ''" "\<lambda>l. []" scalar_cp
  by unfold_locales (auto simp: read_ascii u.simps blank_def)

interpretation compact_json: json_style json_ascii_cp "\<lambda>l. u '',''" "u '':''" "\<lambda>l. []" scalar_cp
  by unfold_locales (auto simp: read_ascii u.simps blank_def)

interpretation indented_json: json_style json_ascii_cp "\<lambda>l. 44 # line_indent l" "u '': ''" line_indent scalar_cp
  by unfold_locales (auto simp: read_ascii u.simps blank_def line_indent_def)

abbreviation float_free :: "json \<Rightarrow> bool" where
  "float_free \<equiv> json_ok (\<lambda>x. False) (\<lambda>c. True)"

lemma list_all_True [simp]: "list_all (\<lambda>x. True) xs"
  by (simp add: list_all_iff)

lemma json_read_text: "float_codec okf flt rd \<Longrightarrow> json_ok okf (\<lambda>c. True) j \<Longrightarrow> json_read rd (json_text flt j) = Some j"
  using plain_json.reads_whole unfolding json_layout_flat .

lemma json_read_dumps: "float_codec okf flt rd \<Longrightarrow> json_ok okf scalar_cp j \<Longrightarrow> json_read rd (json_dumps flt j) = Some j"
  using ascii_json.reads_whole unfolding json_layout_flat .

lemma json_read_compact: "float_codec okf flt rd \<Longrightarrow> json_ok okf scalar_cp j \<Longrightarrow> json_read rd (json_compact flt j) = Some j"
  using compact_json.reads_whole unfolding json_layout_flat .

lemma json_read_indented: "float_codec okf flt rd \<Longrightarrow> json_ok okf scalar_cp j \<Longrightarrow> json_read rd (json_indented flt j) = Some j"
  unfolding json_indented_def by (rule indented_json.reads_whole)

text \<open>A text that is no JSON raises \<open>JSONDecodeError\<close>, a \<open>ValueError\<close>.\<close>

definition json_loads :: "(pystr \<Rightarrow> real option) \<Rightarrow> pystr \<Rightarrow> exc + json" where
  "json_loads rd s = (case json_read rd s of None \<Rightarrow> Inl ValueError | Some j \<Rightarrow> Inr j)"

text \<open>A printer and a reader of halves, for examples.\<close>

definition half_text :: "real \<Rightarrow> pystr" where
  "half_text x = u ''0.5''"

definition half_read :: "pystr \<Rightarrow> real option" where
  "half_read s = (if s = u ''0.5'' then Some (1 / 2) else None)"

lemma half_codec: "float_codec (\<lambda>x. x = 1 / 2) half_text half_read"
  by (simp add: float_codec_def half_text_def half_read_def number_cp_def u.simps read_int_def isdigit_def)

end
