(* ===== verification/Request_Logging.thy ===== *)
theory Request_Logging
  imports Json_Text Config_Diag Unified_App
begin

section \<open>Logs, request ids and tracing\<close>

text \<open>
  Models \<open>logging/context.py\<close>, \<open>tracing.py\<close> and the context variables of \<open>pages/di.py\<close> as fields of one process
  context with their set and reset functions; the record that \<open>gateway/dispatch.py\<close> logs for a request and the
  spans it opens; \<open>logging/json_formatter.py\<close>; and the request log middleware of \<open>application/api_bootstrap.py\<close>.
  A reset token is the value the variable had. The standard library's \<open>formatTime\<close>, \<open>formatException\<close> and \<open>repr\<close> are
  arguments or already applied.
\<close>

subsection \<open>Context variables\<close>

record 'h process_context =
  cv_request_id :: "pystr option"
  cv_trace_hook :: "'h option"
  cv_page_headers :: "pystr dict option"
  cv_page_cookies :: "pystr dict option"

definition get_request_id :: "'h process_context \<Rightarrow> pystr option" where
  "get_request_id cv = cv_request_id cv"

definition set_request_id :: "pystr option \<Rightarrow> 'h process_context \<Rightarrow> pystr option \<times> 'h process_context" where
  "set_request_id v cv = (cv_request_id cv, cv\<lparr>cv_request_id := v\<rparr>)"

definition reset_request_id :: "pystr option \<Rightarrow> 'h process_context \<Rightarrow> 'h process_context" where
  "reset_request_id token cv = cv\<lparr>cv_request_id := token\<rparr>"

definition set_trace_hook :: "'h option \<Rightarrow> 'h process_context \<Rightarrow> 'h option \<times> 'h process_context" where
  "set_trace_hook v cv = (cv_trace_hook cv, cv\<lparr>cv_trace_hook := v\<rparr>)"

definition reset_trace_hook :: "'h option \<Rightarrow> 'h process_context \<Rightarrow> 'h process_context" where
  "reset_trace_hook token cv = cv\<lparr>cv_trace_hook := token\<rparr>"

definition set_page_header_context ::
  "pystr dict option \<Rightarrow> 'h process_context \<Rightarrow> pystr dict option \<times> 'h process_context" where
  "set_page_header_context v cv = (cv_page_headers cv, cv\<lparr>cv_page_headers := v\<rparr>)"

definition reset_page_header_context :: "pystr dict option \<Rightarrow> 'h process_context \<Rightarrow> 'h process_context" where
  "reset_page_header_context token cv = cv\<lparr>cv_page_headers := token\<rparr>"

definition set_page_cookie_context ::
  "pystr dict option \<Rightarrow> 'h process_context \<Rightarrow> pystr dict option \<times> 'h process_context" where
  "set_page_cookie_context v cv = (cv_page_cookies cv, cv\<lparr>cv_page_cookies := v\<rparr>)"

definition reset_page_cookie_context :: "pystr dict option \<Rightarrow> 'h process_context \<Rightarrow> 'h process_context" where
  "reset_page_cookie_context token cv = cv\<lparr>cv_page_cookies := token\<rparr>"

text \<open>What a context variable promises to code that sets it, works and resets it in a \<open>finally\<close> clause.\<close>

locale context_var =
  fixes current :: "'s \<Rightarrow> 'v" and bind :: "'v \<Rightarrow> 's \<Rightarrow> 'tok \<times> 's" and unbind :: "'tok \<Rightarrow> 's \<Rightarrow> 's"
  assumes bound: "current (snd (bind v s)) = v"
    and restored: "current (unbind (fst (bind v s)) s') = current s"
    and unbound: "unbind (fst (bind v s)) (snd (bind v s)) = s"
begin

definition scoped :: "'v \<Rightarrow> ('s \<Rightarrow> 'r \<times> 's) \<Rightarrow> 's \<Rightarrow> 'r \<times> 's" where
  "scoped v block s = (let (token, s1) = bind v s; (r, s2) = block s1 in (r, unbind token s2))"

lemma scoped_restores: "current (snd (scoped v block s)) = current s"
  using restored [of v s] by (auto simp: scoped_def split: prod.split)

lemma scoped_sees: "fst (scoped v (\<lambda>s. (current s, s)) s) = v"
  using bound [of v s] by (auto simp: scoped_def split: prod.split)

lemma scoped_reader: "snd (scoped v (\<lambda>s. (f s, s)) s) = s"
  using unbound [of v s] by (auto simp: scoped_def split: prod.split)

lemma scoped_nested:
  "fst (scoped v (scoped w block) s) = fst (block (snd (bind w (snd (bind v s)))))"
  by (simp add: scoped_def split: prod.split)

end

interpretation request_id: context_var get_request_id set_request_id reset_request_id
  by unfold_locales (simp_all add: get_request_id_def set_request_id_def reset_request_id_def)

interpretation trace_hook: context_var cv_trace_hook set_trace_hook reset_trace_hook
  by unfold_locales (simp_all add: set_trace_hook_def reset_trace_hook_def)

interpretation page_headers: context_var cv_page_headers set_page_header_context reset_page_header_context
  by unfold_locales (simp_all add: set_page_header_context_def reset_page_header_context_def)

interpretation page_cookies: context_var cv_page_cookies set_page_cookie_context reset_page_cookie_context
  by unfold_locales (simp_all add: set_page_cookie_context_def reset_page_cookie_context_def)

text \<open>The span of a block: none without a hook, else what the hook makes of name and attributes, exceptions of the
  hook included.\<close>

definition trace_span ::
  "('h \<Rightarrow> pystr \<Rightarrow> json dict \<Rightarrow> exc + 'sp) \<Rightarrow> pystr \<Rightarrow> json dict \<Rightarrow> 'h process_context \<Rightarrow> exc + 'sp option" where
  "trace_span call name attributes cv =
     (case cv_trace_hook cv of None \<Rightarrow> Inr None | Some hook \<Rightarrow> bind_exc (call hook name attributes) (\<lambda>sp. Inr (Some sp)))"

subsection \<open>Log records and the JSON formatter\<close>

text \<open>An attribute of a log record, by the classes \<open>_json_safe\<close> tells apart; dates come as their ISO text, bytes
  decoded, anything else as its \<open>repr\<close>. \<open>LogNumber\<close> is a number \<open>json\<close> cannot serialize.\<close>

datatype log_value =
    LogNone | LogBool bool | LogInt int | LogFloat real | LogNumber
  | LogStr pystr | LogDate pystr | LogBytes pystr | LogRepr pystr

record log_record =
  lr_name :: pystr
  lr_level :: pystr
  lr_time :: pystr
  lr_message :: pystr
  lr_dict :: "(pystr \<times> log_value) list"
  lr_exc :: "pystr option"

definition log_record_reserved :: "pystr list" where
  "log_record_reserved = map u
     [''name'', ''msg'', ''args'', ''levelname'', ''levelno'', ''pathname'', ''filename'', ''module'', ''exc_info'', ''exc_text'',
      ''stack_info'', ''lineno'', ''funcName'', ''created'', ''msecs'', ''relativeCreated'', ''thread'', ''threadName'',
      ''processName'', ''process'', ''message'', ''taskName'']"

definition json_safe :: "log_value \<Rightarrow> exc + json" where
  "json_safe v = (case v of LogNone \<Rightarrow> Inr JNull | LogBool b \<Rightarrow> Inr (JBool b) | LogInt i \<Rightarrow> Inr (JInt i)
     | LogFloat x \<Rightarrow> Inr (JFloat x) | LogNumber \<Rightarrow> Inl TypeError | LogStr s \<Rightarrow> Inr (JStr s)
     | LogDate s \<Rightarrow> Inr (JStr s) | LogBytes s \<Rightarrow> Inr (JStr s) | LogRepr s \<Rightarrow> Inr (JStr s))"

definition log_key_skipped :: "pystr \<Rightarrow> bool" where
  "log_key_skipped k \<longleftrightarrow> k \<in> set log_record_reserved \<or> startswith k (u ''_'')"

fun merge_extras :: "(pystr \<times> log_value) list \<Rightarrow> json dict \<Rightarrow> exc + json dict" where
  "merge_extras [] obj = Inr obj"
| "merge_extras ((k, raw) # kvs) obj =
     (if log_key_skipped k then merge_extras kvs obj
      else bind_exc (json_safe raw) (\<lambda>j. merge_extras kvs (AList.update k j obj)))"

definition json_log_base_fields :: "pystr list" where
  "json_log_base_fields = map u [''time'', ''level'', ''logger'', ''message'']"

text \<open>The number \<open>json\<close> refuses is met when the object is serialized: either way \<open>format\<close> raises \<open>TypeError\<close>.\<close>

definition json_log_payload :: "log_record \<Rightarrow> exc + json dict" where
  "json_log_payload r =
     bind_exc (merge_extras (lr_dict r)
       [(u ''time'', JStr (lr_time r)), (u ''level'', JStr (lr_level r)), (u ''logger'', JStr (lr_name r)),
        (u ''message'', JStr (lr_message r))]) (\<lambda>obj.
       Inr (case lr_exc r of None \<Rightarrow> obj | Some e \<Rightarrow> AList.update (u ''exception'') (JStr e) obj))"

definition json_log_format :: "(real \<Rightarrow> pystr) \<Rightarrow> log_record \<Rightarrow> exc + pystr" where
  "json_log_format flt r = bind_exc (json_log_payload r) (\<lambda>obj. Inr (json_text flt (JObj obj)))"

subsection \<open>What a log line says\<close>

fun attr_ok :: "(real \<Rightarrow> bool) \<Rightarrow> log_value \<Rightarrow> bool" where
  "attr_ok okf (LogFloat x) = okf x"
| "attr_ok okf v = True"

abbreviation log_json_ok :: "(real \<Rightarrow> bool) \<Rightarrow> json \<Rightarrow> bool" where
  "log_json_ok okf \<equiv> json_ok okf (\<lambda>c. True)"

lemma json_safe_ok: "json_safe v = Inr j \<Longrightarrow> attr_ok okf v \<Longrightarrow> log_json_ok okf j"
  by (cases v) (auto simp: json_safe_def)

lemma merge_extras_ok:
  "merge_extras kvs p = Inr obj \<Longrightarrow> \<forall>kv \<in> set kvs. attr_ok okf (snd kv) \<Longrightarrow> \<forall>kv \<in> set p. log_json_ok okf (snd kv) \<Longrightarrow>
     \<forall>kv \<in> set obj. log_json_ok okf (snd kv)"
proof (induction kvs p rule: merge_extras.induct)
  case (2 k raw kvs p)
  show ?case
  proof (cases "log_key_skipped k")
    case False
    with 2 obtain j where j: "json_safe raw = Inr j" "merge_extras kvs (AList.update k j p) = Inr obj"
      by (auto simp: bind_exc_Inr_iff)
    have "log_json_ok okf j" using j(1) 2(4) by (auto intro: json_safe_ok)
    then have "\<forall>kv \<in> set (AList.update k j p). log_json_ok okf (snd kv)"
      using 2(5) by (induction p) auto
    with 2(2) [OF False j(2)] 2(4) show ?thesis by simp
  qed (use 2 in simp)
qed simp

lemma merge_extras_lookup:
  "merge_extras kvs p = Inr obj \<Longrightarrow> dict_ok kvs \<Longrightarrow>
     map_of obj k = (case map_of kvs k of Some v \<Rightarrow> if log_key_skipped k then map_of p k
         else (case json_safe v of Inr j \<Rightarrow> Some j | Inl e \<Rightarrow> None)
       | None \<Rightarrow> map_of p k)"
proof (induction kvs p rule: merge_extras.induct)
  case (2 k' raw kvs p)
  then have d: "dict_ok kvs" "map_of kvs k' = None" by (auto simp: dict_ok_def map_of_eq_None_iff)
  show ?case
  proof (cases "log_key_skipped k'")
    case False
    with 2 obtain j where j: "json_safe raw = Inr j" "merge_extras kvs (AList.update k' j p) = Inr obj"
      by (auto simp: bind_exc_Inr_iff)
    with 2(2) [OF False j(2) d(1)] d False show ?thesis by (auto split: option.split)
  qed (use 2 d in \<open>auto split: option.split\<close>)
qed simp

lemma merge_extras_safe:
  "merge_extras kvs p = Inr obj \<Longrightarrow> map_of kvs k = Some v \<Longrightarrow> \<not> log_key_skipped k \<Longrightarrow> \<exists>j. json_safe v = Inr j"
  by (induction kvs p rule: merge_extras.induct) (auto simp: bind_exc_Inr_iff split: if_splits)

text \<open>C20: A log line can be trusted. Whatever a client put into path, query or headers, the formatted line holds no character
  below the blank and so no newline, and it reads back as one JSON object in which every extra attribute has its value
  and the four base fields have theirs, unless an attribute of the same name was given, which then takes their
  place.\<close>

theorem log_line_reads_back:
  assumes "json_log_format flt r = Inr line" and "dict_ok (lr_dict r)" and "\<forall>kv \<in> set (lr_dict r). attr_ok okf (snd kv)"
    and "float_codec okf flt rd" and "\<forall>x. \<forall>c \<in> set (flt x). 32 \<le> c"
  shows "(\<forall>c \<in> set line. 32 \<le> c) \<and>
    (\<exists>obj. json_read rd line = Some (JObj obj) \<and>
      (\<forall>k v. map_of (lr_dict r) k = Some v \<and> \<not> log_key_skipped k \<and> (lr_exc r \<noteq> None \<longrightarrow> k \<noteq> u ''exception'') \<longrightarrow>
         map_option Inr (map_of obj k) = Some (json_safe v)) \<and>
      (\<forall>k. map_of (lr_dict r) k = None \<and> k \<in> set json_log_base_fields \<longrightarrow>
         map_of obj k = Some (JStr (if k = u ''time'' then lr_time r else if k = u ''level'' then lr_level r
           else if k = u ''logger'' then lr_name r else lr_message r))))"
proof -
  let ?base = "[(u ''time'', JStr (lr_time r)), (u ''level'', JStr (lr_level r)), (u ''logger'', JStr (lr_name r)),
        (u ''message'', JStr (lr_message r))]"
  obtain p obj where m: "merge_extras (lr_dict r) ?base = Inr p"
    and p: "obj = (case lr_exc r of None \<Rightarrow> p | Some e \<Rightarrow> AList.update (u ''exception'') (JStr e) p)"
    and line: "line = json_text flt (JObj obj)"
    using assms(1) by (auto simp: json_log_format_def json_log_payload_def bind_exc_Inr_iff)
  have "\<forall>kv \<in> set p. log_json_ok okf (snd kv)" by (rule merge_extras_ok [OF m assms(3)]) simp
  then have "\<forall>kv \<in> set (AList.update k (JStr e) p). log_json_ok okf (snd kv)" for k e by (induction p) auto
  with \<open>\<forall>kv \<in> set p. _ kv\<close> have "log_json_ok okf (JObj obj)" by (auto simp: p list_all_iff split: option.split)
  then have "json_read rd line = Some (JObj obj)" unfolding line by (rule json_read_text [OF assms(4)])
  moreover have "\<forall>c \<in> set line. 32 \<le> c" unfolding line using assms(5) by (rule json_text_printable)
  moreover have "map_option Inr (map_of obj k) = Some (json_safe v)"
    if "map_of (lr_dict r) k = Some v" "\<not> log_key_skipped k" "lr_exc r \<noteq> None \<longrightarrow> k \<noteq> u ''exception''" for k v
  proof -
    have "\<exists>j. json_safe v = Inr j" using m that(1,2) by (rule merge_extras_safe)
    with merge_extras_lookup [OF m assms(2), of k] that show ?thesis by (auto simp: p split: option.splits)
  qed
  moreover have "map_of obj k = Some (JStr (if k = u ''time'' then lr_time r else if k = u ''level'' then lr_level r
      else if k = u ''logger'' then lr_name r else lr_message r))"
    if "map_of (lr_dict r) k = None" "k \<in> set json_log_base_fields" for k
    using merge_extras_lookup [OF m assms(2), of k] that by (auto simp: p json_log_base_fields_def split: option.splits)
  ultimately show ?thesis by blast
qed

subsection \<open>What the gateway logs\<close>

definition scope_type_str :: "scope_type \<Rightarrow> pystr" where
  "scope_type_str t = (case t of HttpScope \<Rightarrow> u ''http'' | WebsocketScope \<Rightarrow> u ''websocket''
     | LifespanScope \<Rightarrow> u ''lifespan'' | OtherScope s \<Rightarrow> s)"

definition method_or_type :: "scope \<Rightarrow> pystr" where
  "method_or_type sc = or_str (opt_str (sc_method sc)) (scope_type_str (sc_type sc))"

text \<open>The \<open>extra\<close> fields of the access log, its message and the level it is logged at.\<close>

definition gateway_log_extra ::
  "(pystr \<Rightarrow> exc + (pystr \<times> pystr) list) \<Rightarrow> gateway_config \<Rightarrow> pystr \<Rightarrow> scope \<Rightarrow> exc + (pystr \<times> log_value) list" where
  "gateway_log_extra parse_qsl cfg rid sc =
     bind_exc (redact_query_string parse_qsl (scope_query sc) (gc_log_sensitive_query_keys cfg)) (\<lambda>query. Inr
       [(u ''request_id'', LogStr rid),
        (u ''fluxlit_dispatch'', LogStr (dispatch_label cfg (fst (split_gateway_paths (opt_str (sc_path sc)) (gc_mount cfg))))),
        (u ''http_method_or_type'', LogStr (method_or_type sc)), (u ''path'', LogStr (opt_str (sc_path sc))),
        (u ''query'', LogStr query)])"

definition gateway_access_log_fields :: "pystr list" where
  "gateway_access_log_fields = map u [''request_id'', ''fluxlit_dispatch'', ''http_method_or_type'', ''path'', ''query'']"

lemma gateway_log_extra_fields: "gateway_log_extra parse_qsl cfg rid sc = Inr extra \<Longrightarrow> map fst extra = gateway_access_log_fields"
  by (auto simp: gateway_log_extra_def gateway_access_log_fields_def bind_exc_Inr_iff)

definition gateway_log_message :: "pystr \<Rightarrow> scope \<Rightarrow> pystr" where
  "gateway_log_message rid sc =
     u ''gateway '' @ method_or_type sc @ u '' '' @ opt_str (sc_path sc) @ u '' request_id='' @ rid"

definition gateway_log_level :: "gateway_config \<Rightarrow> pystr" where
  "gateway_log_level cfg = (if gc_access_log cfg then u ''INFO'' else u ''DEBUG'')"

text \<open>\<open>standard\<close> are the attributes every record has.\<close>

definition gateway_log_record ::
  "(pystr \<Rightarrow> exc + (pystr \<times> pystr) list) \<Rightarrow> gateway_config \<Rightarrow> pystr \<Rightarrow> (pystr \<times> log_value) list \<Rightarrow> pystr \<Rightarrow> scope \<Rightarrow> exc + log_record" where
  "gateway_log_record parse_qsl cfg now standard rid sc =
     bind_exc (gateway_log_extra parse_qsl cfg rid sc) (\<lambda>extra. Inr
       \<lparr>lr_name = u ''fluxlit.gateway'', lr_level = gateway_log_level cfg, lr_time = now,
        lr_message = gateway_log_message rid sc, lr_dict = standard @ extra, lr_exc = None\<rparr>)"

text \<open>Attributes of the two spans.\<close>

definition gateway_span_attrs :: "gateway_config \<Rightarrow> pystr \<Rightarrow> scope \<Rightarrow> json dict" where
  "gateway_span_attrs cfg rid sc =
     [(u ''fluxlit.dispatch'', JStr (dispatch_label cfg (fst (split_gateway_paths (opt_str (sc_path sc)) (gc_mount cfg))))),
      (u ''http.method_or_type'', JStr (method_or_type sc)), (u ''url.path'', JStr (opt_str (sc_path sc))),
      (u ''request_id'', JStr rid)]"

definition upstream_span_attrs :: "pystr \<Rightarrow> scope \<Rightarrow> pystr \<Rightarrow> pystr option \<Rightarrow> json dict" where
  "upstream_span_attrs rid sc upstream path =
     [(u ''http.request.method'', JStr (request_method sc)), (u ''url.full'', JStr (build_target_url sc upstream path)),
      (u ''fluxlit.request_id'', JStr rid)]"

text \<open>The chartered fields do not meet the attributes the formatter leaves out, nor its base fields.\<close>

lemma access_log_fields_kept:
  "k \<in> set gateway_access_log_fields \<Longrightarrow> \<not> log_key_skipped k \<and> k \<notin> set json_log_base_fields"
  by (auto simp: gateway_access_log_fields_def json_log_base_fields_def log_key_skipped_def log_record_reserved_def u.simps)

text \<open>Two query strings that say the same but for the values of sensitive keys.\<close>

definition same_but_sensitive :: "pystr set \<Rightarrow> pystr \<times> pystr \<Rightarrow> pystr \<times> pystr \<Rightarrow> bool" where
  "same_but_sensitive keys kv kv' \<longleftrightarrow> fst kv = fst kv' \<and>
     (snd kv = snd kv' \<or> lower (fst kv) \<in> lower ` keys \<and> snd kv \<noteq> [] \<and> snd kv' \<noteq> [])"

lemma redact_pairs_eq:
  "list_all2 (same_but_sensitive keys) ps ps' \<Longrightarrow> map (redact_pair (lower ` keys)) ps = map (redact_pair (lower ` keys)) ps'"
  by (induction rule: list_all2_induct) (auto simp: same_but_sensitive_def redact_pair_def split: prod.split)

text \<open>C18: Access logs do not give away session ids or one-time codes. Two requests that differ only in the values of
  \<open>fluxlit_sid\<close>, \<open>auth_code\<close> or the configured session parameter, in whatever case their names are written,
  produce the same message and the same JSON line.\<close>

theorem access_log_hides_tokens:
  assumes "cfg = build_gateway prom al api_prefix m (Some fs)"
    and "keys = {u ''fluxlit_sid'', u ''auth_code''} \<union> {p. p = strip (fs_url_session_query_param fs) \<and> p \<noteq> []}"
    and "parse_qsl (scope_query sc) = Inr ps" and "parse_qsl (scope_query (sc\<lparr>sc_query := q\<rparr>)) = Inr ps'"
    and "scope_query sc \<noteq> []" and "scope_query (sc\<lparr>sc_query := q\<rparr>) \<noteq> []"
    and "list_all2 (same_but_sensitive keys) ps ps'"
  shows "gateway_log_message rid (sc\<lparr>sc_query := q\<rparr>) = gateway_log_message rid sc \<and>
    bind_exc (gateway_log_record parse_qsl cfg now standard rid (sc\<lparr>sc_query := q\<rparr>)) (json_log_format flt) =
    bind_exc (gateway_log_record parse_qsl cfg now standard rid sc) (json_log_format flt)"
proof -
  have keys: "gc_log_sensitive_query_keys cfg = keys"
    by (auto simp: assms(1,2) build_gateway_def default_sensitive_query_keys_def Let_def split: prod.split)
  have "redact_query_string parse_qsl (scope_query (sc\<lparr>sc_query := q\<rparr>)) keys = redact_query_string parse_qsl (scope_query sc) keys"
    using redact_pairs_eq [OF assms(7)] assms(2-6) by (simp add: redact_query_string_def)
  then have "gateway_log_extra parse_qsl cfg rid (sc\<lparr>sc_query := q\<rparr>) = gateway_log_extra parse_qsl cfg rid sc"
    by (simp add: gateway_log_extra_def keys method_or_type_def)
  moreover have "gateway_log_message rid (sc\<lparr>sc_query := q\<rparr>) = gateway_log_message rid sc"
    by (simp add: gateway_log_message_def method_or_type_def)
  ultimately show ?thesis by (simp add: gateway_log_record_def)
qed

text \<open>The span of the upstream call is less careful: its \<open>url.full\<close> ends with the whole query, tokens included.\<close>

theorem upstream_span_shows_query:
  assumes "scope_query sc \<noteq> []"
  shows "\<exists>url. map_of (upstream_span_attrs rid sc upstream path) (u ''url.full'') = Some (JStr (url @ u ''?'' @ scope_query sc))"
  using assms by (simp add: upstream_span_attrs_def build_target_url_def)

theorem upstream_span_shows_query_witness:
  "\<exists>url. map_of (upstream_span_attrs (u ''r1'')
      \<lparr>sc_type = HttpScope, sc_method = Some (u ''GET''), sc_path = Some (u ''/''), sc_raw_path = None, sc_root_path = None,
       sc_query = Some ''fluxlit_sid=s3cret'', sc_headers = [], sc_scheme = None, sc_client = None, sc_subprotocols = []\<rparr>
      (u ''http://127.0.0.1:8501'') None) (u ''url.full'') = Some (JStr (url @ u ''?'' @ u ''fluxlit_sid=s3cret''))"
  using upstream_span_shows_query [of "\<lparr>sc_type = HttpScope, sc_method = Some (u ''GET''), sc_path = Some (u ''/''), sc_raw_path = None,
       sc_root_path = None, sc_query = Some ''fluxlit_sid=s3cret'', sc_headers = [], sc_scheme = None, sc_client = None,
       sc_subprotocols = []\<rparr>" "u ''r1''" "u ''http://127.0.0.1:8501''" None]
  by (simp add: scope_query_def latin1_decode_def u_conv_map)

text \<open>Nor is the plain message: it contains the decoded path as it is, so a line break in the path starts a new line of
  an ordinary log, which may look like another record.\<close>

theorem plain_message_can_be_forged:
  "gateway_log_message rid (sc\<lparr>sc_path := Some (u ''/x request_id=a'' @ [10] @ gateway_log_message rid' sc')\<rparr>) =
     u ''gateway '' @ method_or_type sc @ u '' /x request_id=a'' @ [10] @ gateway_log_message rid' sc' @ u '' request_id='' @ rid"
  by (simp add: gateway_log_message_def method_or_type_def opt_str_def u_append [symmetric] u.simps)

subsection \<open>The request log of the API\<close>

text \<open>The middleware around one request: \<open>call_next\<close> is the rest of the API, given and changing the context; the
  answer's status and the message logged.\<close>

definition middleware_request_id :: "pystr \<Rightarrow> headers \<Rightarrow> pystr" where
  "middleware_request_id fresh hs = (case header_get ''x-request-id'' hs of None \<Rightarrow> fresh | Some v \<Rightarrow> or_str v fresh)"

definition api_request_log ::
  "pystr \<Rightarrow> headers \<Rightarrow> pystr \<Rightarrow> pystr \<Rightarrow> ('h process_context \<Rightarrow> (exc + nat) \<times> 'h process_context) \<Rightarrow> 'h process_context \<Rightarrow>
     ((exc + nat) \<times> pystr option) \<times> 'h process_context" where
  "api_request_log fresh hs method path call_next cv =
     (let (token, cv1) = set_request_id (Some (middleware_request_id fresh hs)) cv;
          (response, cv2) = call_next cv1;
          message = (case response of Inl e \<Rightarrow> None
            | Inr status \<Rightarrow> Some (method @ u '' '' @ path @ u '' -> '' @ str_of_nat status))
      in ((response, message), reset_request_id token cv2))"

lemma request_id_from_headers_get:
  "request_id_from_headers fresh hs = (case header_get ''x-request-id'' hs of None \<Rightarrow> fresh | Some v \<Rightarrow> or_str (strip v) fresh)"
  by (induction fresh hs rule: request_id_from_headers.induct) auto

lemma api_scope_headers: "api_scope cfg sc path = Inr sc' \<Longrightarrow> sc_headers sc' = sc_headers sc"
  by (auto simp: api_scope_def bind_exc_Inr_iff dest!: strip_prefix_scope_fields arg_cong [where f = sc_headers])

text \<open>What correlation between gateway and API amounts to. The middleware restores the gateway's request id whatever
  the API does; but inside the API the id is the gateway's only when the client sent one, without surrounding
  blanks: otherwise the middleware replaces the id the gateway has chosen and logged by one of its own.\<close>

theorem api_request_id_shared:
  assumes "api_scope cfg sc path = Inr sc'" and "strip fresh = fresh" and "fresh \<noteq> []" and "fresh' \<noteq> fresh"
    and "cv_request_id cv = Some (request_id_from_scope fresh sc)"
    and "api_request_log fresh' (sc_headers sc') method url_path call_next cv = ((response, message), cv')"
  shows "get_request_id cv' = Some (request_id_from_scope fresh sc) \<and>
    (\<exists>inner cv2. get_request_id inner = Some (middleware_request_id fresh' (sc_headers sc')) \<and> call_next inner = (response, cv2)) \<and>
    (middleware_request_id fresh' (sc_headers sc') = request_id_from_scope fresh sc \<longleftrightarrow>
       (\<exists>v. header_get ''x-request-id'' (sc_headers sc) = Some v \<and> v \<noteq> [] \<and> strip v = v))"
proof -
  let ?mid = "middleware_request_id fresh' (sc_headers sc')"
  obtain cv2 where c: "call_next (cv\<lparr>cv_request_id := Some ?mid\<rparr>) = (response, cv2)" "cv' = cv2\<lparr>cv_request_id := cv_request_id cv\<rparr>"
    using assms(6) by (auto simp: api_request_log_def set_request_id_def reset_request_id_def Let_def split: prod.splits)
  have "\<exists>inner cv2. get_request_id inner = Some ?mid \<and> call_next inner = (response, cv2)"
    by (rule exI [of _ "cv\<lparr>cv_request_id := Some ?mid\<rparr>"], rule exI [of _ cv2]) (simp add: get_request_id_def c(1))
  moreover have "?mid = request_id_from_scope fresh sc \<longleftrightarrow>
       (\<exists>v. header_get ''x-request-id'' (sc_headers sc) = Some v \<and> v \<noteq> [] \<and> strip v = v)"
    using assms(2-4) api_scope_headers [OF assms(1)]
    by (auto simp: middleware_request_id_def request_id_from_scope_def request_id_from_headers_get or_str_def strip_Nil split: option.splits)
  ultimately show ?thesis using c(2) assms(5) by (simp add: get_request_id_def)
qed

theorem api_request_id_shared_witness:
  "middleware_request_id (u ''b'') [(''X-Request-ID'', ''a1'')] = u ''a1'' \<and>
   get_request_id (snd (api_request_log (u ''b'') [(''X-Request-ID'', ''a1'')] (u ''GET'') (u ''/x'')
     (\<lambda>cv :: unit process_context. (Inr 200, cv\<lparr>cv_request_id := None\<rparr>))
     \<lparr>cv_request_id = Some (u ''a1''), cv_trace_hook = None, cv_page_headers = None, cv_page_cookies = None\<rparr>)) = Some (u ''a1'')"
proof -
  let ?sc = "\<lparr>sc_type = HttpScope, sc_method = Some (u ''GET''), sc_path = Some (u ''/api/x''), sc_raw_path = None, sc_root_path = None,
       sc_query = None, sc_headers = [(''X-Request-ID'', ''a1'')], sc_scheme = None, sc_client = None, sc_subprotocols = []\<rparr>"
  let ?cv = "\<lparr>cv_request_id = Some (u ''a1''), cv_trace_hook = None, cv_page_headers = None, cv_page_cookies = None\<rparr> :: unit process_context"
  have pre: "gc_prefix (build_gateway None False (u ''/api'') [] None) = u ''/api''"
    by (simp add: build_gateway_def normalize_api_mount_path_def Let_def pystr_eval split: prod.split)
  have "\<exists>sc'. api_scope (build_gateway None False (u ''/api'') [] None) ?sc (u ''/api/x'') = Inr sc'"
    unfolding api_scope_def pre by (simp add: strip_prefix_scope_def opt_str_def pystr_eval)
  then obtain sc' where sc': "api_scope (build_gateway None False (u ''/api'') [] None) ?sc (u ''/api/x'') = Inr sc'" by blast
  have h: "header_get ''x-request-id'' [(''X-Request-ID'', ''a1'')] = Some (u ''a1'')" by (simp add: pystr_eval)
  have s: "strip (u ''a1'') = u ''a1''" "strip (u ''f'') = u ''f''" by (simp_all add: pystr_eval is_space_def)
  have rid: "request_id_from_scope (u ''f'') ?sc = u ''a1''"
    by (simp only: request_id_from_scope_def request_id_from_headers_get scope.select_convs h option.case s or_str_def) simp
  have hs: "sc_headers sc' = [(''X-Request-ID'', ''a1'')]" using api_scope_headers [OF sc'] by simp
  obtain r m cv' where run: "api_request_log (u ''b'') (sc_headers sc') (u ''GET'') (u ''/x'')
      (\<lambda>cv. (Inr 200, cv\<lparr>cv_request_id := None\<rparr>)) ?cv = ((r, m), cv')" by (metis prod.exhaust)
  from api_request_id_shared [OF sc' s(2) _ _ _ run] h s rid hs run show ?thesis by (simp add: u.simps)
qed

subsection \<open>Samples\<close>

definition sample_record :: log_record where
  "sample_record = \<lparr>lr_name = u ''fluxlit.gateway'', lr_level = u ''INFO'', lr_time = u ''t'', lr_message = [97, 10, 34],
     lr_dict = [(u ''name'', LogStr (u ''x'')), (u ''path'', LogStr [47, 10]), (u ''duration_ms'', LogFloat (1 / 2)), (u ''level'', LogStr (u ''forged''))], lr_exc = None\<rparr>"

theorem log_line_reads_back_witness:
  "\<exists>line obj. json_log_format half_text sample_record = Inr line \<and> json_read half_read line = Some (JObj obj) \<and> 10 \<notin> set line \<and>
     map_of obj (u ''path'') = Some (JStr [47, 10]) \<and> map_of obj (u ''level'') = Some (JStr (u ''forged'')) \<and>
     map_of obj (u ''duration_ms'') = Some (JFloat (1 / 2)) \<and>
     map_of obj (u ''message'') = Some (JStr [97, 10, 34])"
proof -
  have ks: "\<not> log_key_skipped (u ''path'')" "\<not> log_key_skipped (u ''level'')" "\<not> log_key_skipped (u ''duration_ms'')" "log_key_skipped (u ''name'')"
    by (simp_all add: log_key_skipped_def log_record_reserved_def u.simps)
  then have "\<exists>line. json_log_format half_text sample_record = Inr line"
    by (simp add: json_log_format_def json_log_payload_def sample_record_def json_safe_def)
  then obtain line where line: "json_log_format half_text sample_record = Inr line" by blast
  have d: "dict_ok (lr_dict sample_record)" "\<forall>kv \<in> set (lr_dict sample_record). attr_ok (\<lambda>x. x = 1 / 2) (snd kv)"
    by (simp_all add: sample_record_def dict_ok_def)
  have f: "\<forall>x. \<forall>c \<in> set (half_text x). 32 \<le> c" by (simp add: half_text_def u.simps)
  from log_line_reads_back [OF line d half_codec f] obtain obj where obj: "json_read half_read line = Some (JObj obj)" and p: "\<forall>c \<in> set line. 32 \<le> c"
    and e: "\<forall>k v. map_of (lr_dict sample_record) k = Some v \<and> \<not> log_key_skipped k \<and> (lr_exc sample_record \<noteq> None \<longrightarrow> k \<noteq> u ''exception'') \<longrightarrow>
         map_option Inr (map_of obj k) = Some (json_safe v)"
    and b: "\<forall>k. map_of (lr_dict sample_record) k = None \<and> k \<in> set json_log_base_fields \<longrightarrow>
         map_of obj k = Some (JStr (if k = u ''time'' then lr_time sample_record else if k = u ''level'' then lr_level sample_record
           else if k = u ''logger'' then lr_name sample_record else lr_message sample_record))" by blast
  have "map_of obj (u ''path'') = Some (JStr [47, 10])"
    using e [THEN spec, THEN spec, of "u ''path''" "LogStr [47, 10]"] ks by (simp add: sample_record_def json_safe_def)
  moreover have "map_of obj (u ''level'') = Some (JStr (u ''forged''))"
    using e [THEN spec, THEN spec, of "u ''level''" "LogStr (u ''forged'')"] ks by (simp add: sample_record_def json_safe_def)
  moreover have "map_of obj (u ''duration_ms'') = Some (JFloat (1 / 2))"
    using e [THEN spec, THEN spec, of "u ''duration_ms''" "LogFloat (1 / 2)"] ks by (simp add: sample_record_def json_safe_def)
  moreover have "map_of obj (u ''message'') = Some (JStr [97, 10, 34])"
    using b [THEN spec, of "u ''message''"] by (simp add: sample_record_def json_log_base_fields_def)
  moreover have "10 \<notin> set line" using p by force
  ultimately show ?thesis using line obj by blast
qed

definition sid_scope :: "string \<Rightarrow> scope" where
  "sid_scope q = \<lparr>sc_type = HttpScope, sc_method = Some (u ''GET''), sc_path = Some (u ''/''), sc_raw_path = None, sc_root_path = None,
     sc_query = Some q, sc_headers = [], sc_scheme = None, sc_client = None, sc_subprotocols = []\<rparr>"

theorem access_log_hides_tokens_witness:
  "bind_exc (gateway_log_record (\<lambda>q. Inr [(u ''Fluxlit_SID'', drop 12 q)]) (build_gateway None True (u ''/api'') [] (Some default_settings))
      (u ''t'') [] (u ''r'') (sid_scope ''Fluxlit_SID=b'')) (json_log_format (\<lambda>x. [])) =
   bind_exc (gateway_log_record (\<lambda>q. Inr [(u ''Fluxlit_SID'', drop 12 q)]) (build_gateway None True (u ''/api'') [] (Some default_settings))
      (u ''t'') [] (u ''r'') (sid_scope ''Fluxlit_SID=a'')) (json_log_format (\<lambda>x. []))"
proof -
  have q: "scope_query (sid_scope s) = u s" for s
    by (simp add: scope_query_def sid_scope_def latin1_decode_def u_conv_map)
  have upd: "(sid_scope ''Fluxlit_SID=a'')\<lparr>sc_query := Some ''Fluxlit_SID=b''\<rparr> = sid_scope ''Fluxlit_SID=b''"
    by (simp add: sid_scope_def)
  have "lower (u ''Fluxlit_SID'') = lower (u ''fluxlit_sid'')" by (simp add: pystr_eval)
  then have k: "lower (u ''Fluxlit_SID'') \<in> lower ` ({u ''fluxlit_sid'', u ''auth_code''} \<union> X)" for X by blast
  then have "list_all2 (same_but_sensitive ({u ''fluxlit_sid'', u ''auth_code''} \<union> X))
      [(u ''Fluxlit_SID'', drop 12 (u ''Fluxlit_SID=a''))] [(u ''Fluxlit_SID'', drop 12 (u ''Fluxlit_SID=b''))]" for X
    using k by (simp add: same_but_sensitive_def)
  from access_log_hides_tokens [OF refl refl _ _ _ _ this, of "\<lambda>q. Inr [(u ''Fluxlit_SID'', drop 12 q)]"
      "sid_scope ''Fluxlit_SID=a''" "Some ''Fluxlit_SID=b''"] q upd
  show ?thesis by simp
qed

end
