(* ===== verification/Project_Files.thy ===== *)
theory Project_Files
  imports Cli_Testing Import_Target Json_Text
begin

section \<open>Files the commands write: scaffold, container build, PID file\<close>

text \<open>
  Models \<open>fluxlit new\<close> and \<open>fluxlit build\<close> of \<open>cli.py\<close> with the texts they write, and the PID file and the
  liveness probes of \<open>runtime/process_control.py\<close>. A file system is a partial map from paths to texts with a
  list of directories and a predicate for paths that cannot be written; relative paths are taken as they are. The
  answers of \<open>ps\<close>, of \<open>os.kill(pid, 0)\<close> and of the Windows kernel are arguments.
\<close>

subsection \<open>File system\<close>

record file_system =
  fy_files :: "path \<Rightarrow> pystr option"
  fy_dirs :: "path list"
  fy_denied :: "path \<Rightarrow> bool"

definition ancestors :: "path \<Rightarrow> path list" where
  "ancestors p = map (\<lambda>n. p\<lparr>pt_parts := take n (pt_parts p)\<rparr>) [1 ..< Suc (length (pt_parts p))]"

definition path_exists :: "file_system \<Rightarrow> path \<Rightarrow> bool" where
  "path_exists fs p \<longleftrightarrow> pt_parts p = [] \<or> fy_files fs p \<noteq> None \<or> p \<in> set (fy_dirs fs)"

definition mkdir_parents :: "bool \<Rightarrow> path \<Rightarrow> file_system \<Rightarrow> exc + file_system" where
  "mkdir_parents exist_ok p fs =
     (if list_ex (\<lambda>a. fy_files fs a \<noteq> None \<or> fy_denied fs a) (ancestors p) \<or> (\<not> exist_ok \<and> path_exists fs p) then Inl OSError
      else Inr (fs\<lparr>fy_dirs := fy_dirs fs @ ancestors p\<rparr>))"

definition write_text :: "path \<Rightarrow> pystr \<Rightarrow> file_system \<Rightarrow> exc + file_system" where
  "write_text p s fs =
     (if p \<in> set (fy_dirs fs) \<or> fy_denied fs p \<or> \<not> path_exists fs (path_parent p) then Inl OSError
      else Inr (fs\<lparr>fy_files := (fy_files fs)(p \<mapsto> s)\<rparr>))"

text \<open>Texts are written as lists of lines.\<close>

definition text_lines :: "pystr list \<Rightarrow> pystr" where
  "text_lines ls = concat (map (\<lambda>l. l @ [10]) ls)"

subsection \<open>The container build\<close>

definition docker_exec_form :: "pystr \<Rightarrow> pystr" where
  "docker_exec_form target = u ''[\"fluxlit\", \"run\", \"'' @ target @ u ''\"]''"

definition dockerfile_body :: "pystr \<Rightarrow> pystr" where
  "dockerfile_body target = text_lines
     [u ''# Generated by `fluxlit build` '' @ [8212] @ u '' adjust COPY/RUN for your app layout.'',
      u ''# python:3.12-slim @ sha256:ec948fa5f90f4f8907e89f4800cfd2d2e91e391a4bce4a6afa77ba265bc3a2fe'',
      u ''FROM python@sha256:ec948fa5f90f4f8907e89f4800cfd2d2e91e391a4bce4a6afa77ba265bc3a2fe'',
      u ''WORKDIR /app'',
      u ''RUN pip install --no-cache-dir \"fluxlit>=0.13,<1.0\"'',
      u ''COPY . .'',
      u ''RUN useradd --create-home --uid 1000 appuser '' @ [92],
      u ''    && chown -R appuser:appuser /app'',
      u ''USER appuser'',
      u ''ENV FLUXLIT_GATEWAY_HOST=0.0.0.0'',
      u ''EXPOSE 8000'',
      u ''CMD '' @ docker_exec_form target]"

definition dockerignore_body :: pystr where
  "dockerignore_body = text_lines
     [u ''__pycache__'',
      u ''*.py[cod]'',
      u ''.git'',
      u ''.venv'',
      u ''venv'',
      u ''.pytest_cache'',
      u ''.mypy_cache'',
      u ''.ruff_cache'',
      u ''*.egg-info'',
      u ''dist'',
      u ''build'',
      u ''.env'']"

definition build_command :: "pystr option \<Rightarrow> pystr \<Rightarrow> bool \<Rightarrow> file_system \<Rightarrow> (exc + nat) \<times> file_system" where
  "build_command output target force fs =
     (let out_dir = path_of (case output of None \<Rightarrow> u ''.'' | Some o' \<Rightarrow> o')
      in case mkdir_parents True out_dir fs of
           Inl e \<Rightarrow> (Inl e, fs)
         | Inr fs1 \<Rightarrow>
             (let dockerfile = path_join out_dir (path_of (u ''Dockerfile''));
                  dockerignore = path_join out_dir (path_of (u ''.dockerignore''))
              in if \<not> force \<and> (path_exists fs1 dockerfile \<or> path_exists fs1 dockerignore) then (Inr 1, fs1)
                 else (case write_text dockerfile (dockerfile_body target) fs1 of
                         Inl e \<Rightarrow> (Inl e, fs1)
                       | Inr fs2 \<Rightarrow>
                           (case write_text dockerignore dockerignore_body fs2 of
                              Inl e \<Rightarrow> (Inl e, fs2)
                            | Inr fs3 \<Rightarrow> (Inr 0, fs3)))))"

subsection \<open>The scaffold\<close>

datatype scaffold_profile = Minimal | AuthReady | Deploy

definition scaffold_app_body :: "scaffold_profile \<Rightarrow> pystr" where
  "scaffold_app_body profile = text_lines (case profile of
     AuthReady \<Rightarrow>
     [u ''\"\"\"FluxLit auth-ready demo app.'',
      [],
      u ''Install auth helpers with: pip install \"fluxlit[auth]\"'',
      u ''\"\"\"'',
      [],
      u ''from fluxlit import FluxLit'',
      [],
      u ''app = FluxLit(title=\"FluxLit Auth Demo\")'',
      [],
      [],
      u ''@app.api.get(\"/public\")'',
      u ''def public():'',
      u ''    return {\"message\": \"public\"}'',
      [],
      [],
      u ''@app.page(\"/\")'',
      u ''def home(st, client):'',
      u ''    st.title(\"Auth-ready Dashboard\")'',
      u ''    st.write(client.get(\"/public\").json())'',
      u ''    st.info(\"Add app.make_jwt_bearer() or app.attach_oidc_login(...) when ready.\")'',
      [],
      [],
      u ''if __name__ == \"__main__\":'',
      u ''    import subprocess'',
      u ''    import sys'',
      [],
      u ''    subprocess.run([sys.executable, \"-m\", \"fluxlit\", \"dev\"], check=True)'']
   | Deploy \<Rightarrow>
     [u ''\"\"\"FluxLit deployment-ready starter.\"\"\"'',
      [],
      u ''from fluxlit import FluxLit'',
      [],
      u ''app = FluxLit('',
      u ''    title=\"FluxLit Deploy Demo\",'',
      u ''    streamlit_page_config={\"layout\": \"wide\"},'',
      u '')'',
      [],
      [],
      u ''@app.api.get(\"/items\")'',
      u ''def items():'',
      u ''    return [{\"name\": \"Ada\"}, {\"name\": \"Grace\"}]'',
      [],
      [],
      u ''@app.page(\"/\")'',
      u ''def home(st, client):'',
      u ''    st.title(\"Deployment Dashboard\")'',
      u ''    st.write(client.get(\"/items\").json())'',
      u ''    st.caption(\"Run `fluxlit doctor` before deploying behind a proxy.\")'',
      [],
      [],
      u ''if __name__ == \"__main__\":'',
      u ''    import subprocess'',
      u ''    import sys'',
      [],
      u ''    subprocess.run([sys.executable, \"-m\", \"fluxlit\", \"dev\"], check=True)'']
   | Minimal \<Rightarrow>
     [u ''\"\"\"FluxLit demo app.\"\"\"'',
      [],
      u ''from typing import Any'',
      [],
      u ''from fluxlit import Depends, FluxLit'',
      u ''from fluxlit.client import ApiClient'',
      [],
      u ''app = FluxLit(title=\"FluxLit Demo\")'',
      [],
      [],
      u ''@app.api.get(\"/users\")'',
      u ''def users():'',
      u ''    return [{\"name\": \"Ada\"}]'',
      [],
      [],
      u ''def _demo_user() -> int:'',
      u ''    \"\"\"Example dependency; see docs/streamlit-pages-typing.\"\"\"'',
      u ''    return 1'',
      [],
      [],
      u ''@app.page(\"/\")'',
      u ''def home(st: Any, client: ApiClient, user_id: int = Depends(_demo_user)):  # noqa: B008'',
      u ''    st.title(\"Dashboard\")'',
      u ''    r = client.get(\"/users\")'',
      u ''    st.write(r.json())'',
      [],
      [],
      u ''if __name__ == \"__main__\":'',
      u ''    import subprocess'',
      u ''    import sys'',
      [],
      u ''    subprocess.run([sys.executable, \"-m\", \"fluxlit\", \"dev\"], check=True)''])"

definition scaffold_toml :: pystr where
  "scaffold_toml = text_lines [u ''target = \"app:app\"'',
      u ''gateway_port = 8000'']"

definition new_command :: "pystr \<Rightarrow> scaffold_profile \<Rightarrow> file_system \<Rightarrow> (exc + nat) \<times> file_system" where
  "new_command name profile fs =
     (let dir = path_of name
      in if path_exists fs dir then (Inr 1, fs)
         else (case mkdir_parents False dir fs of
                 Inl e \<Rightarrow> (Inl e, fs)
               | Inr fs1 \<Rightarrow>
                   (case write_text (path_join dir (path_of (u ''fluxlit.toml''))) scaffold_toml fs1 of
                      Inl e \<Rightarrow> (Inl e, fs1)
                    | Inr fs2 \<Rightarrow>
                        (case write_text (path_join dir (path_of (u ''app.py''))) (scaffold_app_body profile) fs2 of
                           Inl e \<Rightarrow> (Inl e, fs2)
                         | Inr fs3 \<Rightarrow> (Inr 0, fs3)))))"

subsection \<open>PID file and liveness\<close>

definition default_pidfile_name :: pystr where
  "default_pidfile_name = u ''.fluxlit-dev.pid''"

definition default_pidfile_path :: "(path \<Rightarrow> path) \<Rightarrow> path \<Rightarrow> path option \<Rightarrow> pystr dict \<Rightarrow> path" where
  "default_pidfile_path expanduser cwd explicit env =
     (case explicit of
        Some p \<Rightarrow> expanduser p
      | None \<Rightarrow> (let v = strip (opt_str (map_of env (u ''FLUXLIT_PIDFILE'')))
                 in if v \<noteq> [] then expanduser (path_of v) else path_join cwd (path_of default_pidfile_name)))"

definition write_pidfile :: "path \<Rightarrow> nat \<Rightarrow> file_system \<Rightarrow> exc + file_system" where
  "write_pidfile p pid fs =
     bind_exc (mkdir_parents True (path_parent p) fs) (\<lambda>fs1. write_text p (str_of_nat pid @ [10]) fs1)"

text \<open>A missing file is no error.\<close>

definition remove_pidfile :: "path \<Rightarrow> file_system \<Rightarrow> file_system" where
  "remove_pidfile p fs = fs\<lparr>fy_files := (fy_files fs)(p := None)\<rparr>"

text \<open>\<open>ps\<close>: \<open>None\<close> where it cannot be run or times out, else return code and output.\<close>

definition pid_is_zombie_unix :: "(int \<times> pystr) option \<Rightarrow> bool" where
  "pid_is_zombie_unix ps =
     (case ps of None \<Rightarrow> False
      | Some (returncode, out) \<Rightarrow> returncode = 0 \<and> strip out \<noteq> [] \<and> hd (strip out) = 90)"

datatype os_probe =
    Posix kill_result "(int \<times> pystr) option"
  | WindowsHandle "int option"
  | WindowsNoHandle int

text \<open>\<open>WindowsHandle\<close>: the exit code, if it could be read; \<open>WindowsNoHandle\<close>: the last error.\<close>

definition pid_running :: "os_probe \<Rightarrow> exc + bool" where
  "pid_running probe =
     (case probe of
        WindowsHandle (Some exit_code) \<Rightarrow> Inr (exit_code = 259)
      | WindowsHandle None \<Rightarrow> Inr True
      | WindowsNoHandle err \<Rightarrow> Inr (err = 5)
      | Posix NoSuchProcess ps \<Rightarrow> Inr False
      | Posix NotPermitted ps \<Rightarrow> Inr True
      | Posix OtherFailure ps \<Rightarrow> Inl OSError
      | Posix Delivered ps \<Rightarrow> Inr (\<not> pid_is_zombie_unix ps))"

definition windows_taskkill_tree :: "int \<Rightarrow> bool \<Rightarrow> pystr list" where
  "windows_taskkill_tree pid force =
     [u ''taskkill'', u ''/PID'', str_of_int pid, u ''/T''] @ (if force then [u ''/F''] else [])"

subsection \<open>Nothing is clobbered\<close>

lemma mkdir_parents_files: "mkdir_parents exist_ok p fs = Inr fs' \<Longrightarrow> fy_files fs' = fy_files fs \<and> fy_denied fs' = fy_denied fs"
  by (auto simp: mkdir_parents_def split: if_splits)

lemma write_text_files: "write_text p s fs = Inr fs' \<Longrightarrow> fy_files fs' = (fy_files fs)(p \<mapsto> s) \<and> fy_dirs fs' = fy_dirs fs"
  by (auto simp: write_text_def split: if_splits)

lemma path_exists_file: "fy_files fs p = Some t \<Longrightarrow> path_exists fs p"
  by (simp add: path_exists_def)

lemma plain_name:
  "path_of (u ''Dockerfile'') = \<lparr>pt_root = [], pt_parts = [u ''Dockerfile'']\<rparr>"
  "path_of (u ''.dockerignore'') = \<lparr>pt_root = [], pt_parts = [u ''.dockerignore'']\<rparr>"
  "path_of (u ''fluxlit.toml'') = \<lparr>pt_root = [], pt_parts = [u ''fluxlit.toml'']\<rparr>"
  "path_of (u ''app.py'') = \<lparr>pt_root = [], pt_parts = [u ''app.py'']\<rparr>"
  by (rule path_of_name; simp add: u.simps)+

text \<open>\<open>fluxlit build\<close> overwrites nothing without \<open>--force\<close> and never any file but the two it is about; when it
  reports success both have exactly the generated text, and when it refuses no file has changed.\<close>

theorem build_never_clobbers:
  assumes "build_command output target force fs = (r, fs')"
    and "d = path_join (path_of (case output of None \<Rightarrow> u ''.'' | Some o' \<Rightarrow> o')) (path_of (u ''Dockerfile''))"
    and "i = path_join (path_of (case output of None \<Rightarrow> u ''.'' | Some o' \<Rightarrow> o')) (path_of (u ''.dockerignore''))"
  shows "(\<forall>p. p \<notin> {d, i} \<or> (\<not> force \<and> fy_files fs p \<noteq> None) \<longrightarrow> fy_files fs' p = fy_files fs p) \<and>
    (r = Inr 0 \<longrightarrow> fy_files fs' d = Some (dockerfile_body target) \<and> fy_files fs' i = Some dockerignore_body) \<and>
    (r = Inr 1 \<longrightarrow> fy_files fs' = fy_files fs) \<and> r \<in> {Inr 0, Inr 1, Inl OSError}"
proof -
  let ?out = "path_of (case output of None \<Rightarrow> u ''.'' | Some o' \<Rightarrow> o')"
  have "pt_parts d \<noteq> pt_parts i" by (simp add: assms(2,3) path_join_def plain_name)
  then have di: "d \<noteq> i" by blast
  have err: "write_text p s g = Inl e \<Longrightarrow> e = OSError" for p s g e by (auto simp: write_text_def split: if_splits)
  show ?thesis
  proof (cases "mkdir_parents True ?out fs")
    case (Inl e)
    then have "e = OSError" by (auto simp: mkdir_parents_def split: if_splits)
    with Inl assms(1) show ?thesis by (auto simp: build_command_def)
  next
    case (Inr fs1)
    note same = mkdir_parents_files [OF Inr]
    have run: "build_command output target force fs =
        (if \<not> force \<and> (path_exists fs1 d \<or> path_exists fs1 i) then (Inr 1, fs1)
         else (case write_text d (dockerfile_body target) fs1 of Inl e \<Rightarrow> (Inl e, fs1)
           | Inr fs2 \<Rightarrow> (case write_text i dockerignore_body fs2 of Inl e \<Rightarrow> (Inl e, fs2) | Inr fs3 \<Rightarrow> (Inr 0, fs3))))"
      unfolding build_command_def Let_def assms(2,3) [symmetric] by (simp add: Inr)
    have free: "fy_files fs d = None \<and> fy_files fs i = None" if "\<not> force" "\<not> path_exists fs1 d" "\<not> path_exists fs1 i"
      using that same by (simp add: path_exists_def)
    show ?thesis
    proof (cases "\<not> force \<and> (path_exists fs1 d \<or> path_exists fs1 i)")
      case True
      with run assms(1) same show ?thesis by auto
    next
      case False
      show ?thesis
      proof (cases "write_text d (dockerfile_body target) fs1")
        case (Inl e)
        with run False assms(1) same err [OF Inl] show ?thesis by simp
      next
        case (Inr fs2)
        note two = write_text_files [OF Inr]
        have w: "fs' = fs2 \<and> r = Inl OSError \<or> fs' = fs3 \<and> r = Inr 0 \<and> write_text i dockerignore_body fs2 = Inr fs3"
          if "case write_text i dockerignore_body fs2 of Inl e \<Rightarrow> fs3 = fs2 | Inr g \<Rightarrow> fs3 = g" for fs3
          using run False assms(1) that err [of i dockerignore_body fs2] by (auto simp: Inr split: sum.splits)
        obtain fs3 where "case write_text i dockerignore_body fs2 of Inl e \<Rightarrow> fs3 = fs2 | Inr g \<Rightarrow> fs3 = g"
          by (cases "write_text i dockerignore_body fs2") auto
        from w [OF this] show ?thesis
        proof
          assume "fs' = fs2 \<and> r = Inl OSError"
          with two same free False show ?thesis by auto
        next
          assume "fs' = fs3 \<and> r = Inr 0 \<and> write_text i dockerignore_body fs2 = Inr fs3"
          with two same free False di write_text_files [of i dockerignore_body fs2 fs3] show ?thesis by auto
        qed
      qed
    qed
  qed
qed

definition empty_dir :: file_system where
  "empty_dir = \<lparr>fy_files = Map.empty, fy_dirs = [], fy_denied = (\<lambda>p. False)\<rparr>"

theorem build_never_clobbers_witness:
  "fst (build_command None (u ''app:app'') False
      (empty_dir\<lparr>fy_files := [path_join (path_of (u ''.'')) (path_of (u ''Dockerfile'')) \<mapsto> u ''mine'']\<rparr>)) = Inr 1 \<and>
   fy_files (snd (build_command None (u ''app:app'') False
      (empty_dir\<lparr>fy_files := [path_join (path_of (u ''.'')) (path_of (u ''Dockerfile'')) \<mapsto> u ''mine'']\<rparr>)))
      (path_join (path_of (u ''.'')) (path_of (u ''Dockerfile''))) = Some (u ''mine'')"
proof -
  let ?d = "path_join (path_of (u ''.'')) (path_of (u ''Dockerfile''))"
  let ?fs = "empty_dir\<lparr>fy_files := [?d \<mapsto> u ''mine'']\<rparr>"
  have dot: "path_of (u ''.'') = \<lparr>pt_root = [], pt_parts = []\<rparr>"
    by (simp add: path_of_def plain_parts_def startswith_def u.simps split_chr_none)
  have "fst (build_command None (u ''app:app'') False ?fs) = Inr 1"
    by (simp add: build_command_def mkdir_parents_def ancestors_def dot path_exists_def Let_def)
  moreover obtain r fs' where run: "build_command None (u ''app:app'') False ?fs = (r, fs')" by (cases "build_command None (u ''app:app'') False ?fs")
  ultimately show ?thesis using build_never_clobbers [OF run refl refl] by (simp add: empty_dir_def)
qed

subsection \<open>What the generated files start\<close>

text \<open>\<open>fluxlit run\<close> with nothing but a target.\<close>

definition target_only :: "pystr \<Rightarrow> cli_args" where
  "target_only t = \<lparr>ca_target = Some t, ca_host = None, ca_port = None, ca_log_level = None, ca_proxy_headers = False,
     ca_forwarded_allow_ips = None, ca_no_pidfile = False, ca_reload = False, ca_reload_scope = u ''gateway'',
     ca_workbench = False, ca_debug = False\<rparr>"

text \<open>The container starts the application it was built for. The exec form of \<open>CMD\<close>, which Docker reads as JSON,
  reads back as the three arguments when the target has no quote, backslash or control character (a Python import path
  has none), and \<open>fluxlit run\<close> given these arguments starts that target, on the address the image puts into the
  environment unless the project file names another.\<close>

theorem container_runs_target:
  assumes "\<forall>c \<in> set target. 32 \<le> c \<and> c \<noteq> 34 \<and> c \<noteq> 92"
    and "load env target = Inr fs" and "fs_gateway_host fs = u ''0.0.0.0''"
  shows "json_read rd (docker_exec_form target) = Some (JArr [JStr (u ''fluxlit''), JStr (u ''run''), JStr target]) \<and>
    (\<exists>ra. execute_unified_cli load pc (run_options (target_only target)) env = (CliStarts ra, env) \<and> ra_target ra = target \<and>
       ra_host ra = or_str (opt_str (case pc of None \<Rightarrow> None | Some c \<Rightarrow> pc_gateway_host c)) (u ''0.0.0.0''))"
proof -
  have plain: "concat (map json_escape_cp target) = target"
    using assms(1) by (induction target) (auto simp: json_escape_cp_def)
  have "docker_exec_form target = json_text (\<lambda>x. []) (JArr [JStr (u ''fluxlit''), JStr (u ''run''), JStr target])"
    by (simp add: docker_exec_form_def json_quote_def plain json_escape_cp_def u.simps)
  then have "json_read rd (docker_exec_form target) = Some (JArr [JStr (u ''fluxlit''), JStr (u ''run''), JStr target])"
    by (simp only:) (rule json_read_text [OF float_codec_none], simp)
  moreover have "\<exists>ra. execute_unified_cli load pc (run_options (target_only target)) env = (CliStarts ra, env) \<and> ra_target ra = target \<and>
       ra_host ra = or_str (opt_str (case pc of None \<Rightarrow> None | Some c \<Rightarrow> pc_gateway_host c)) (u ''0.0.0.0'')"
    using assms(2,3)
    by (simp add: execute_unified_cli_def run_options_def target_only_def resolve_target_def resolve_binding_def
        first_str_def split: option.split)
  ultimately show ?thesis by blast
qed

theorem container_runs_target_witness:
  "json_read (\<lambda>s. None) (docker_exec_form (u ''main:app'')) = Some (JArr [JStr (u ''fluxlit''), JStr (u ''run''), JStr (u ''main:app'')]) \<and>
   (\<exists>ra. execute_unified_cli (\<lambda>_ _. Inr (default_settings\<lparr>fs_gateway_host := u ''0.0.0.0''\<rparr>)) None (run_options (target_only (u ''main:app''))) [] =
      (CliStarts ra, []) \<and> ra_target ra = u ''main:app'' \<and> ra_host ra = u ''0.0.0.0'')"
proof -
  have t: "\<forall>c \<in> set (u ''main:app''). 32 \<le> c \<and> c \<noteq> 34 \<and> c \<noteq> 92" by (simp add: u.simps)
  from container_runs_target [OF t, of "\<lambda>_ _. Inr (default_settings\<lparr>fs_gateway_host := u ''0.0.0.0''\<rparr>)" "[]" _ "\<lambda>s. None" None]
  show ?thesis by (simp add: or_str_def opt_str_def)
qed

text \<open>C28: A new project runs as it is. What \<open>fluxlit new\<close> has created makes the commands started in that directory, without
  any option, load \<open>app:app\<close> from the generated \<open>app.py\<close>, which holds the text of the chosen profile, and bind port
  8000; the command touches no other file, and refuses a name that exists.\<close>

theorem new_project_runs:
  assumes "new_command name profile fs = (r, fs')"
    and "toml scaffold_toml = Some [(u ''target'', JStr (u ''app:app'')), (u ''gateway_port'', JInt 8000)]"
    and "p = path_join (path_of name) (path_of (u ''app.py''))" and "q = path_join (path_of name) (path_of (u ''fluxlit.toml''))"
    and "iw_cwd w = path_of name" and "iw_is_file w = (\<lambda>x. fy_files fs' x \<noteq> None)"
  shows "(r = Inr 0 \<longrightarrow> fy_files fs' p = Some (scaffold_app_body profile) \<and>
      (\<exists>pc. load_project_config toml (fy_files fs' q) other = Some pc \<and> resolve_target None (Some pc) = u ''app:app'' \<and>
         fst (snd (resolve_binding None None None (Some pc) h port l)) = 8000) \<and>
      import_target_module w (u ''app'') st = load_or_reuse w (u ''app'') p st) \<and>
    (\<forall>x. x \<notin> {p, q} \<longrightarrow> fy_files fs' x = fy_files fs x) \<and>
    (path_exists fs (path_of name) \<longrightarrow> r = Inr 1 \<and> fs' = fs)"
proof -
  let ?dir = "path_of name"
  have "pt_parts p \<noteq> pt_parts q" by (simp add: assms(3,4) path_join_def plain_name)
  then have pq: "p \<noteq> q" by blast
  have run: "new_command name profile fs =
      (if path_exists fs ?dir then (Inr 1, fs)
       else (case mkdir_parents False ?dir fs of Inl e \<Rightarrow> (Inl e, fs)
         | Inr fs1 \<Rightarrow> (case write_text q scaffold_toml fs1 of Inl e \<Rightarrow> (Inl e, fs1)
           | Inr fs2 \<Rightarrow> (case write_text p (scaffold_app_body profile) fs2 of Inl e \<Rightarrow> (Inl e, fs2) | Inr fs3 \<Rightarrow> (Inr 0, fs3)))))"
    unfolding new_command_def Let_def assms(3,4) [symmetric] by (rule refl)
  have frame: "\<forall>x. x \<notin> {p, q} \<longrightarrow> fy_files fs' x = fy_files fs x"
    using run assms(1) by (auto split: if_splits sum.splits dest!: mkdir_parents_files write_text_files)
  have ok: "fy_files fs' p = Some (scaffold_app_body profile) \<and> fy_files fs' q = Some scaffold_toml" if "r = Inr 0"
    using run assms(1) that pq by (auto split: if_splits sum.splits dest!: mkdir_parents_files write_text_files)
  have cfg: "\<exists>pc. load_project_config toml (Some scaffold_toml) other = Some pc \<and> resolve_target None (Some pc) = u ''app:app'' \<and>
         fst (snd (resolve_binding None None None (Some pc) h port l)) = 8000"
    by (simp add: load_project_config_def assms(2) parse_table_def str_value_def port_value_def resolve_target_def
        resolve_binding_def or_str_def opt_str_def)
  have imp: "import_target_module w (u ''app'') st = load_or_reuse w (u ''app'') p st" if "r = Inr 0"
    by (rule import_local) (use ok [OF that] in \<open>simp_all add: assms(3,5,6) u.simps\<close>)
  show ?thesis using frame ok cfg imp run assms(1) by auto
qed

text \<open>An import world in a new directory, and a parser that knows the generated file only.\<close>

definition fresh_world :: "file_system \<Rightarrow> unit import_world" where
  "fresh_world fs = \<lparr>iw_cwd = path_of (u ''demo''), iw_is_file = (\<lambda>x. fy_files fs x \<noteq> None), iw_resolve = Some,
     iw_has_loader = (\<lambda>p. True), iw_exec = (\<lambda>p. ([], None)), iw_import_module = (\<lambda>m st. (Inl ModuleNotFoundError, st)),
     iw_is_fluxlit = (\<lambda>v. True)\<rparr>"

definition scaffold_parser :: "pystr \<Rightarrow> json dict option" where
  "scaffold_parser s = (if s = scaffold_toml then Some [(u ''target'', JStr (u ''app:app'')), (u ''gateway_port'', JInt 8000)] else None)"

theorem new_project_runs_witness:
  "\<exists>fs'. new_command (u ''demo'') Minimal empty_dir = (Inr 0, fs') \<and>
     fy_files fs' (path_join (path_of (u ''demo'')) (path_of (u ''app.py''))) = Some (scaffold_app_body Minimal)"
proof -
  have demo: "path_of (u ''demo'') = \<lparr>pt_root = [], pt_parts = [u ''demo'']\<rparr>" by (rule path_of_name) (simp_all add: u.simps)
  have "\<exists>fs'. new_command (u ''demo'') Minimal empty_dir = (Inr 0, fs')"
    by (simp add: new_command_def demo plain_name path_exists_def empty_dir_def mkdir_parents_def ancestors_def write_text_def
        path_join_def path_parent_def Let_def)
  then obtain fs' where run: "new_command (u ''demo'') Minimal empty_dir = (Inr 0, fs')" by blast
  have t: "scaffold_parser scaffold_toml = Some [(u ''target'', JStr (u ''app:app'')), (u ''gateway_port'', JInt 8000)]"
    by (simp add: scaffold_parser_def)
  have w: "iw_cwd (fresh_world fs') = path_of (u ''demo'')" "iw_is_file (fresh_world fs') = (\<lambda>x. fy_files fs' x \<noteq> None)"
    by (simp_all add: fresh_world_def)
  from new_project_runs [where p = "path_join (path_of (u ''demo'')) (path_of (u ''app.py''))"
      and q = "path_join (path_of (u ''demo'')) (path_of (u ''fluxlit.toml''))" and toml = scaffold_parser, OF run t _ _ w] run
  show ?thesis by simp
qed

subsection \<open>Stopping what was started\<close>

lemma strip_by_snoc: "P c \<Longrightarrow> strip_by P (s @ [c]) = strip_by P s"
proof (cases "\<forall>x \<in> set s. P x")
  case True
  moreover assume "P c"
  ultimately have "lstrip_by P (s @ [c]) = []" "lstrip_by P s = []"
    by (simp_all add: lstrip_by_def dropWhile_append)
  then show ?thesis by (simp only: strip_by_def)
qed (auto simp: strip_by_def lstrip_by_def dropWhile_append rstrip_by_snoc)

lemma strip_written_pid: "strip (str_of_nat n @ [10]) = str_of_nat n"
  using strip_by_snoc [of is_space 10 "str_of_nat n"] strip_str_of_nat [of n]
  by (simp add: strip_def is_space_def)

lemma written_pid_reads_back: "py_int (strip (str_of_nat n @ [10])) = Inr (int n)"
  by (simp add: strip_written_pid py_int_str_of_nat)

text \<open>The process an action is about.\<close>

definition action_pid :: "stop_action \<Rightarrow> int" where
  "action_pid a = (case a of SendTerm pid \<Rightarrow> pid | TaskKill pid f \<Rightarrow> pid | SendKill pid \<Rightarrow> pid)"

text \<open>C27: \<open>fluxlit shutdown\<close> stops the server that was started: run in the same directory and environment (or with the same
  option) it finds the PID file \<open>run_unified\<close> wrote, every signal it sends goes to that server's process, and a server
  that dies within the grace period is reported as stopped, with exit code 0 and without a PID file left behind. A
  zombie, which \<open>os.kill\<close> still reaches, counts as gone.\<close>

theorem shutdown_stops_started_server:
  assumes "p = default_pidfile_path expanduser cwd explicit env" and "write_pidfile p pid fs = Inr fs1"
    and "sw_pidfile w = map_option Inr (fy_files fs1 (default_pidfile_path expanduser cwd explicit env))"
    and "shutdown_unified_process w force = Inr r"
    and "fs2 = (if sr_removed r then remove_pidfile p fs1 else fs1)"
  shows "(\<forall>a \<in> set (sr_actions r). action_pid a = int pid) \<and> sr_code r \<noteq> 2 \<and> sr_message r \<noteq> RemovedInvalid \<and>
    (sw_running w \<and> sw_term w = Delivered \<and> stopped_during (sw_polls w) \<longrightarrow>
       r = \<lparr>sr_code = 0, sr_message = Stopped (int pid), sr_removed = True, sr_actions = [SendTerm (int pid)]\<rparr>) \<and>
    (sr_code r = 0 \<longleftrightarrow> fy_files fs2 p = None) \<and>
    (pid_running (Posix Delivered (Some (0, 90 # rest))) = Inr False)"
proof -
  have written: "fy_files fs1 p = Some (str_of_nat pid @ [10])"
    using assms(2) by (auto simp: write_pidfile_def bind_exc_Inr_iff dest!: write_text_files)
  have run: "shutdown_unified_process w force =
      (if \<not> sw_running w then report 0 (RemovedStale (int pid)) True [] else stop_pid w force (int pid))"
    using assms(1,3) written by (simp add: shutdown_unified_process_def written_pid_reads_back)
  have "(\<forall>a \<in> set (sr_actions r). action_pid a = int pid) \<and> sr_code r \<noteq> 2 \<and> sr_message r \<noteq> RemovedInvalid \<and>
      (sr_code r = 0 \<longleftrightarrow> sr_removed r)"
    using assms(4) unfolding run stop_pid_def first_signal_def report_def Let_def
    by (auto simp: action_pid_def split: kill_result.splits if_splits)
  moreover have "r = \<lparr>sr_code = 0, sr_message = Stopped (int pid), sr_removed = True, sr_actions = [SendTerm (int pid)]\<rparr>"
    if "sw_running w" "sw_term w = Delivered" "stopped_during (sw_polls w)"
    using assms(4) that unfolding run by (simp add: stop_pid_def first_signal_def report_def)
  moreover have "strip (90 # rest) \<noteq> [] \<and> hd (strip (90 # rest)) = 90"
  proof -
    have l: "lstrip_by is_space (90 # rest) = 90 # rest" by (simp add: lstrip_by_def is_space_def)
    obtain t where t: "90 # rest = rstrip_by is_space (90 # rest) @ t" "\<forall>c \<in> set t. is_space c" using rstrip_by_decomp by blast
    have "rstrip_by is_space (90 # rest) \<noteq> []"
    proof
      assume "rstrip_by is_space (90 # rest) = []"
      with t have "is_space 90" by (metis append_Nil list.set_intros(1))
      then show False by (simp add: is_space_def)
    qed
    with t(1) show ?thesis by (metis hd_append l list.sel(1) strip_by_def strip_def)
  qed
  ultimately show ?thesis using written by (auto simp: assms(5) remove_pidfile_def pid_running_def pid_is_zombie_unix_def)
qed

theorem shutdown_stops_started_server_witness:
  "\<exists>fs1. write_pidfile (default_pidfile_path id \<lparr>pt_root = [slash], pt_parts = [u ''srv'']\<rparr> None []) 42 empty_dir = Inr fs1 \<and>
     shutdown_unified_process (stubborn\<lparr>sw_polls := [True, False], sw_pidfile := map_option Inr (fy_files fs1
       (default_pidfile_path id \<lparr>pt_root = [slash], pt_parts = [u ''srv'']\<rparr> None []))\<rparr>) False =
     Inr \<lparr>sr_code = 0, sr_message = Stopped 42, sr_removed = True, sr_actions = [SendTerm 42]\<rparr>"
proof -
  let ?cwd = "\<lparr>pt_root = [slash], pt_parts = [u ''srv'']\<rparr>"
  let ?p = "default_pidfile_path id ?cwd None []"
  have "path_of default_pidfile_name = \<lparr>pt_root = [], pt_parts = [default_pidfile_name]\<rparr>"
    by (rule path_of_name) (simp_all add: default_pidfile_name_def u.simps)
  then have p: "?p = \<lparr>pt_root = [slash], pt_parts = [u ''srv'', default_pidfile_name]\<rparr>"
    by (simp add: default_pidfile_path_def path_join_def strip_def strip_by_def lstrip_by_def rstrip_by_def opt_str_def)
  have "\<exists>fs1. write_pidfile ?p 42 empty_dir = Inr fs1"
    by (simp add: write_pidfile_def p empty_dir_def mkdir_parents_def ancestors_def write_text_def path_exists_def path_parent_def)
  then obtain fs1 where f: "write_pidfile ?p 42 empty_dir = Inr fs1" by blast
  let ?w = "stubborn\<lparr>sw_polls := [True, False], sw_pidfile := map_option Inr (fy_files fs1 ?p)\<rparr>"
  have "fy_files fs1 ?p = Some (str_of_nat 42 @ [10])"
    using f by (auto simp: write_pidfile_def bind_exc_Inr_iff dest!: write_text_files)
  then have run: "shutdown_unified_process ?w False = stop_pid ?w False 42"
    using written_pid_reads_back [of 42] by (simp add: shutdown_unified_process_def stubborn_def)
  then obtain r where r: "shutdown_unified_process ?w False = Inr r"
    by (simp add: stop_pid_def first_signal_def stubborn_def report_def stopped_during_def)
  have "sw_pidfile ?w = map_option Inr (fy_files fs1 ?p)" by simp
  from shutdown_stops_started_server [OF refl f this r refl] f r
  show ?thesis by (simp add: stubborn_def stopped_during_def)
qed

end
