(* ===== verification/Streamlit_Entry.thy ===== *)
theory Streamlit_Entry
  imports Cli_Testing Import_Target Api_Client Json_Text
begin

section \<open>The Streamlit entry script and pages under test\<close>

text \<open>
  Models \<open>query_params\<close> of \<open>deep_links.py\<close>, the whole of \<open>streamlit/main.py\<close> with the page it runs through
  \<open>streamlit/page_runner.py\<close>, and the part of \<open>testing.py\<close> that runs the script under \<open>AppTest\<close>. One run of the script
  is a function of environment, query, session and module table; what it shows is a list of effects. Streamlit's
  own answers are the record \<open>streamlit_runtime\<close>: which calls raise, whether \<open>switch_page\<close> ends the run, which page
  \<open>navigation\<close> runs.
\<close>

subsection \<open>Query parameters\<close>

definition scalar_query_value :: "query_value \<Rightarrow> pystr option" where
  "scalar_query_value raw = (case raw of QStr s \<Rightarrow> Some s | QList xs \<Rightarrow> (case xs of [] \<Rightarrow> None | x # ys \<Rightarrow> Some x))"

fun read_scalars :: "(pystr \<times> (exc + query_value)) list \<Rightarrow> pystr dict \<Rightarrow> pystr dict" where
  "read_scalars [] out = out"
| "read_scalars ((k, Inl e) # ks) out = read_scalars ks out"
| "read_scalars ((k, Inr raw) # ks) out =
     read_scalars ks (case scalar_query_value raw of None \<Rightarrow> out | Some v \<Rightarrow> AList.update k v out)"

definition query_params :: "st_query \<Rightarrow> pystr dict" where
  "query_params st = (case st of NoQueryParams \<Rightarrow> [] | KeysFail \<Rightarrow> [] | QueryParams ks \<Rightarrow> read_scalars ks [])"

subsection \<open>The script\<close>

record 'd loaded_app =
  la_app :: "'d fluxlit_app"
  la_nav :: "pystr list option"

record streamlit_runtime =
  sl_config_error :: "json dict \<Rightarrow> exc option"
  sl_page_error :: "nav_page \<Rightarrow> exc option"
  sl_switch_halts :: bool
  sl_navigate :: "nav_page list \<Rightarrow> nat"

text \<open>What the pages need: their environment, pydantic's check of returned metadata, their bodies, \<open>str\<close> of a JSON
  value.\<close>

record ('d, 'v) page_world =
  pw_env :: "('d, 'v) page_env"
  pw_validate :: "json dict \<Rightarrow> page_meta option"
  pw_body :: "'d page_record \<Rightarrow> 'v page_body"
  pw_str :: "json \<Rightarrow> pystr"

datatype 'f entry_effect =
    ShowError pystr | SetPageConfig "json dict" | ShowTitle pystr | ShowInfo pystr | SwitchPage nav_page
  | RunsPage pystr "'f api_client" "st_effect list"

text \<open>The session's entry for the client: \<open>None\<close> where Streamlit offers no session state.\<close>

type_synonym 'f client_session = "'f api_client option option"

definition get_client :: "pystr dict \<Rightarrow> fluxlit_settings \<Rightarrow> 'f api_client" where
  "get_client env fs = new_api_client env None 30 None None (fs_debug fs)"

definition session_client ::
  "pystr dict \<Rightarrow> fluxlit_settings \<Rightarrow> 'f client_session \<Rightarrow> 'f api_client \<times> 'f client_session" where
  "session_client env fs session =
     (case session of
        None \<Rightarrow> (get_client env fs, None)
      | Some None \<Rightarrow> (get_client env fs, Some (Some (get_client env fs)))
      | Some (Some client) \<Rightarrow> (client, session))"

definition stop_exception :: exc where
  "stop_exception = OtherError (u ''StopException'')"

definition rerun_exception :: exc where
  "rerun_exception = OtherError (u ''RerunException'')"

definition page_config :: "fluxlit_settings \<Rightarrow> json dict" where
  "page_config fs = build_set_page_config_kwargs (fs_title fs) (fs_streamlit_page_config fs)"

definition first_page_error :: "streamlit_runtime \<Rightarrow> nav_page list \<Rightarrow> exc option" where
  "first_page_error rt pages =
     (case find (\<lambda>pg. sl_page_error rt pg \<noteq> None) pages of None \<Rightarrow> None | Some pg \<Rightarrow> sl_page_error rt pg)"

definition run_page_record ::
  "('d, 'v) page_world \<Rightarrow> pystr dict \<Rightarrow> 'd fluxlit_app \<Rightarrow> 'd page_record \<Rightarrow> (exc + page_value) \<times> st_effect list \<times> 'd list" where
  "run_page_record pw env app r =
     resolve_and_call_page
       ((pw_env pw)\<lparr>pe_settings := fa_settings app, pe_has_store := fa_has_store app, pe_environ := env\<rparr>)
       (pw_validate pw) [] (pr_fn r) (pw_body pw r)"

text \<open>The pages \<open>switch_page\<close> is called for.\<close>

definition switch_targets :: "pystr dict \<Rightarrow> 'd page_record list \<Rightarrow> nav_page list" where
  "switch_targets params records =
     (case match_nav_page params (map (\<lambda>r. (pr_path r, pr_title r)) records) (u ''page'') of
        None \<Rightarrow> []
      | Some matched \<Rightarrow> filter (\<lambda>pg. np_url_path pg = page_slug (fst matched)) (map nav_page_of records))"

definition show_app ::
  "streamlit_runtime \<Rightarrow> ('d, 'v) page_world \<Rightarrow> pystr dict \<Rightarrow> st_query \<Rightarrow> 'f client_session \<Rightarrow> 'd loaded_app \<Rightarrow>
     (exc + unit) \<times> 'f entry_effect list \<times> 'f client_session" where
  "show_app rt pw env query session la =
     (let app = la_app la; fs = fa_settings app
      in case sl_config_error rt (page_config fs) of
           Some e \<Rightarrow> (Inl e, [], session)
         | None \<Rightarrow>
             (let config = SetPageConfig (page_config fs);
                  (client, session1) = session_client env fs session;
                  records = nav_records (pw_str pw) (la_nav la) (fa_pages app);
                  pages = map nav_page_of records
              in case first_page_error rt pages of
                   Some e \<Rightarrow> (Inl e, [config], session1)
                 | None \<Rightarrow>
                     if pages = []
                     then (Inr (), [config, ShowTitle (fs_title fs),
                             ShowInfo (u ''Register UI with `@app.page(\"/\")` on functions that accept `(st, client)`.'')], session1)
                     else (let targets = switch_targets (query_params query) records
                           in if targets \<noteq> [] \<and> sl_switch_halts rt
                              then (Inl rerun_exception, [config, SwitchPage (hd targets)], session1)
                              else (let r = records ! sl_navigate rt pages;
                                        (result, effects, calls) = run_page_record pw env app r
                                    in (map_sum id (\<lambda>_. ()) result,
                                        config # map SwitchPage targets @ [RunsPage (pr_path r) client effects], session1)))))"

definition run_streamlit_entrypoint ::
  "'d loaded_app import_world \<Rightarrow> streamlit_runtime \<Rightarrow> ('d, 'v) page_world \<Rightarrow> pystr dict \<Rightarrow> st_query \<Rightarrow> 'f client_session \<Rightarrow>
     'd loaded_app import_state \<Rightarrow>
     ((exc + unit) \<times> 'f entry_effect list \<times> 'f client_session) \<times> 'd loaded_app import_state" where
  "run_streamlit_entrypoint w rt pw env query session st =
     (let spec = opt_str (map_of env (u ''FLUXLIT_APP''))
      in if spec = [] then ((Inl stop_exception, [ShowError (u ''FLUXLIT_APP is not set.'')], session), st)
         else (case load_fluxlit w spec st of
                 (Inl e, st') \<Rightarrow> ((Inl e, [], session), st')
               | (Inr la, st') \<Rightarrow> (show_app rt pw env query session la, st')))"

subsection \<open>Under test\<close>

record 'f app_test =
  at_query :: "query_value dict"
  at_session :: "'f client_session"

definition fresh_app_test :: "'f app_test" where
  "fresh_app_test = \<lparr>at_query = [], at_session = Some None\<rparr>"

text \<open>\<open>AppTest.run\<close>: the script sees the test's query and session; the session is kept for the next run.\<close>

definition entry_script ::
  "'d loaded_app import_world \<Rightarrow> streamlit_runtime \<Rightarrow> ('d, 'v) page_world \<Rightarrow> 'd loaded_app import_state \<Rightarrow> 'f app_test \<Rightarrow>
     pystr dict \<Rightarrow> pystr list \<Rightarrow>
     (((exc + unit) \<times> 'f entry_effect list \<times> 'f app_test \<times> 'd loaded_app import_state) \<times> pystr dict) \<times> pystr list" where
  "entry_script w rt pw st apt env sys_path =
     (case run_streamlit_entrypoint w rt pw env (QueryParams (map (\<lambda>(k, v). (k, Inr v)) (at_query apt))) (at_session apt)
             (st\<lparr>is_sys_path := sys_path\<rparr>) of
        ((r, effects, session), st') \<Rightarrow> (((r, effects, apt\<lparr>at_session := session\<rparr>, st'), env), is_sys_path st'))"

text \<open>\<open>version\<close>: Streamlit's version, if it can be imported.\<close>

definition tc_streamlit ::
  "(nat \<times> nat) option \<Rightarrow> test_client \<Rightarrow> pystr \<Rightarrow> pystr option \<Rightarrow> pystr option \<Rightarrow> pystr option \<Rightarrow> pystr dict \<Rightarrow>
     ('f app_test \<Rightarrow> pystr dict \<Rightarrow> pystr list \<Rightarrow> ('r \<times> pystr dict) \<times> pystr list) \<Rightarrow> pystr dict \<Rightarrow> pystr list \<Rightarrow>
     exc + ('r \<times> pystr list) \<times> pystr dict" where
  "tc_streamlit version c target internal_api_base extra page_overrides query run env sys_path =
     (case version of
        None \<Rightarrow> Inl RuntimeError
      | Some (major, minor) \<Rightarrow>
          if major < 1 \<or> (major = 1 \<and> minor < 30) then Inl RuntimeError
          else Inr (run_apptest c target internal_api_base page_overrides extra
                 (run (fresh_app_test\<lparr>at_query := fold (\<lambda>(k, v). AList.update k (QStr v)) query []\<rparr>)) env sys_path))"

definition apptest_select_page ::
  "(nat \<times> nat) option \<Rightarrow> 'f app_test \<Rightarrow> test_client \<Rightarrow> pystr \<Rightarrow> pystr \<Rightarrow> pystr option \<Rightarrow> pystr option \<Rightarrow> pystr \<Rightarrow> pystr option \<Rightarrow>
     ('f app_test \<Rightarrow> pystr dict \<Rightarrow> pystr list \<Rightarrow> ('r \<times> pystr dict) \<times> pystr list) \<Rightarrow> pystr dict \<Rightarrow> pystr list \<Rightarrow>
     exc + ('r \<times> pystr list) \<times> pystr dict" where
  "apptest_select_page version apt c target page internal_api_base extra page_key page_overrides run env sys_path =
     (if version = None then Inl RuntimeError
      else Inr (run_apptest c target internal_api_base page_overrides extra
             (run (apt\<lparr>at_query := AList.update page_key (QStr page) (at_query apt)\<rparr>)) env sys_path))"

subsection \<open>What a deep link shows\<close>

lemma query_params_entries:
  assumes "dict_ok d"
  shows "map_of (query_params (QueryParams (map (\<lambda>(k, v). (k, Inr v)) d))) k =
    (case map_of d k of None \<Rightarrow> None | Some raw \<Rightarrow> scalar_query_value raw)"
proof -
  have "dict_ok d \<Longrightarrow> map_of (read_scalars (map (\<lambda>(k, v). (k, Inr v)) d) out) k =
      (case map_of d k of None \<Rightarrow> map_of out k
       | Some raw \<Rightarrow> (case scalar_query_value raw of None \<Rightarrow> map_of out k | Some v \<Rightarrow> Some v))" for out
  proof (induction d arbitrary: out)
    case (Cons kv d)
    then have "dict_ok d" "map_of d (fst kv) = None" by (auto simp: dict_ok_def map_of_eq_None_iff)
    with Cons.IH show ?case by (cases kv) (auto split: option.split)
  qed simp
  from this [OF assms, of "[]"] show ?thesis by (simp add: query_params_def split: option.split)
qed

lemma np_url_path_nav [simp]: "np_url_path (nav_page_of r) = rec_slug r"
  by (simp add: nav_page_of_def)

lemma filter_slug:
  "distinct (map rec_slug records) \<Longrightarrow> r \<in> set records \<Longrightarrow>
     filter (\<lambda>pg. np_url_path pg = rec_slug r) (map nav_page_of records) = [nav_page_of r]"
proof (induction records)
  case (Cons q records)
  have none: "filter (\<lambda>pg. np_url_path pg = rec_slug q) (map nav_page_of records) = []"
    using Cons.prems(1) by (auto simp: filter_empty_conv) (metis image_eqI)
  show ?case
  proof (cases "r = q")
    case True
    with none show ?thesis by simp
  next
    case False
    then have "r \<in> set records" "rec_slug q \<noteq> rec_slug r" using Cons.prems by auto
    with Cons show ?thesis by simp
  qed
qed simp

lemma switch_targets_selects:
  assumes "distinct (map rec_slug records)" and "r \<in> set records"
    and "wanted = pr_path r \<or> wanted = rec_slug r" and "strip wanted = wanted" and "wanted \<noteq> []"
    and "map_of params (u ''page'') = Some wanted" and "wanted \<notin> pr_title ` (set records - {r})"
  shows "switch_targets params records = [nav_page_of r]"
  using deep_link_opens_page [OF assms] filter_slug [OF assms(1,2)] by (simp add: switch_targets_def)

lemma switch_targets_none: "map_of params (u ''page'') = None \<Longrightarrow> switch_targets params records = []"
  by (simp add: switch_targets_def match_nav_page_def strip_Nil opt_str_def)

text \<open>The view of \<open>Nav_Build\<close> is what the script shows once nothing raises.\<close>

lemma switch_targets_view:
  "distinct (map rec_slug (nav_records str nav (fa_pages app))) \<Longrightarrow>
   streamlit_entry str nav app params =
     (if nav_records str nav (fa_pages app) = [] then NoPages (fs_title (fa_settings app))
      else Navigation (map nav_page_of (nav_records str nav (fa_pages app)))
        (case switch_targets params (nav_records str nav (fa_pages app)) of [] \<Rightarrow> None | pg # pgs \<Rightarrow> Some pg))"
proof -
  have "find P xs = (case filter P xs of [] \<Rightarrow> None | x # ys \<Rightarrow> Some x)" for P and xs :: "nav_page list"
    by (induction xs) auto
  then show ?thesis by (auto simp: streamlit_entry_def switch_targets_def Let_def split: option.splits)
qed

subsection \<open>Selecting a page\<close>

definition apptest_environ :: "test_client \<Rightarrow> pystr \<Rightarrow> pystr option \<Rightarrow> pystr option \<Rightarrow> pystr dict \<Rightarrow> pystr dict" where
  "apptest_environ c target base overrides env =
     fold (\<lambda>(k, v). AList.update k v) (streamlit_apptest_env c target base overrides) env"

definition apptest_path :: "pystr option \<Rightarrow> pystr list \<Rightarrow> pystr list" where
  "apptest_path extra sys_path = (case extra of None \<Rightarrow> sys_path | Some d \<Rightarrow> d # sys_path)"

lemma apptest_env_keys: "dict_ok (streamlit_apptest_env c target base overrides)"
  by (simp add: dict_ok_def streamlit_apptest_env_def split: option.split)

lemma apptest_environ_target: "map_of (apptest_environ c target base overrides env) (u ''FLUXLIT_APP'') = Some target"
  by (simp add: apptest_environ_def map_of_fold_update [OF apptest_env_keys]) (simp add: streamlit_apptest_env_def)

lemma select_page_runs_script:
  assumes "apptest_select_page version apt c target page base extra key overrides (entry_script w rt pw st) env sys_path =
      Inr (((r, effects, apt', st'), sys_path'), env')"
  shows "run_streamlit_entrypoint w rt pw (apptest_environ c target base overrides env)
      (QueryParams (map (\<lambda>(k, v). (k, Inr v)) (AList.update key (QStr page) (at_query apt)))) (at_session apt)
      (st\<lparr>is_sys_path := apptest_path extra sys_path\<rparr>) = ((r, effects, at_session apt'), st') \<and>
    map_of env' k = map_of env k \<and>
    (is_sys_path st' = apptest_path extra sys_path \<longrightarrow> sys_path' = sys_path)"
proof -
  let ?vals = "streamlit_apptest_env c target base overrides" and ?e = "apptest_environ c target base overrides env"
  let ?old = "map (\<lambda>(k, _). (k, map_of env k)) ?vals"
  let ?run = "run_streamlit_entrypoint w rt pw ?e
      (QueryParams (map (\<lambda>(k, v). (k, Inr v)) (AList.update key (QStr page) (at_query apt)))) (at_session apt)
      (st\<lparr>is_sys_path := apptest_path extra sys_path\<rparr>)"
  obtain r1 eff1 s1 st1 where run: "?run = ((r1, eff1, s1), st1)" by (metis prod.exhaust)
  have eq: "r1 = r" "eff1 = effects" "apt\<lparr>at_query := AList.update key (QStr page) (at_query apt), at_session := s1\<rparr> = apt'"
      "st1 = st'" "env' = fold restore_one ?old ?e" "sys_path' = (case extra of None \<Rightarrow> is_sys_path st1 | Some d \<Rightarrow> remove1 d (is_sys_path st1))"
    using assms run
    by (auto simp: apptest_select_page_def run_apptest_def patched_env_def maybe_syspath_def entry_script_def apptest_environ_def
        apptest_path_def Let_def split: if_splits option.splits)
  have "distinct (map fst ?old)" using apptest_env_keys [of c target base overrides] by (simp add: dict_ok_def o_def split_def)
  then have "map_of env' k = (case map_of ?old k of Some v \<Rightarrow> v | None \<Rightarrow> map_of ?e k)" unfolding eq(5) by (rule fold_restore)
  moreover have "map_of ?e k = map_of env k" if "k \<notin> fst ` set ?vals"
  proof -
    have "map_of ?vals k = None" using that by (simp add: map_of_eq_None_iff)
    then show ?thesis by (simp add: apptest_environ_def map_of_fold_update [OF apptest_env_keys])
  qed
  ultimately have "map_of env' k = map_of env k" by (simp add: map_of_keyed)
  moreover have "at_session apt' = s1" using eq(3) by auto
  ultimately show ?thesis using run eq(1,2,4,6) by (auto simp: apptest_path_def split: option.split)
qed

lemma nav_slugs_of_setup:
  "distinct (map rec_slug (nav_records str nav (fa_pages (run_setup steps (new_app fs store)))))"
  by (rule nav_records_slugs) (rule run_setup_slugs)

lemma entry_loads:
  "map_of env (u ''FLUXLIT_APP'') = Some target \<Longrightarrow> target \<noteq> [] \<Longrightarrow> load_fluxlit w target st = (Inr la, st1) \<Longrightarrow>
     run_streamlit_entrypoint w rt pw env query session st = (show_app rt pw env query session la, st1)"
  by (simp add: run_streamlit_entrypoint_def opt_str_def)

lemma show_app_quiet:
  assumes "sl_config_error rt (page_config (fa_settings (la_app la))) = None" and "\<forall>pg. sl_page_error rt pg = None"
    and "records = nav_records (pw_str pw) (la_nav la) (fa_pages (la_app la))" and "records \<noteq> []"
    and "session_client env (fa_settings (la_app la)) session = (client, session1)"
  shows "show_app rt pw env query session la =
    (let targets = switch_targets (query_params query) records; config = SetPageConfig (page_config (fa_settings (la_app la)))
     in if targets \<noteq> [] \<and> sl_switch_halts rt then (Inl rerun_exception, [config, SwitchPage (hd targets)], session1)
        else (let r = records ! sl_navigate rt (map nav_page_of records);
                  (result, effects, calls) = run_page_record pw env (la_app la) r
              in (map_sum id (\<lambda>_. ()) result, config # map SwitchPage targets @ [RunsPage (pr_path r) client effects], session1)))"
  using assms by (simp add: show_app_def first_page_error_def Let_def split: option.split)

lemma nav_page_position:
  assumes "distinct (map rec_slug records)" and "q \<in> set records"
    and "i < length records" and "map nav_page_of records ! i = nav_page_of q"
  shows "records ! i = q"
proof -
  obtain j where j: "j < length records" "records ! j = q" using assms(2) by (auto simp: in_set_conv_nth)
  have "np_url_path (map nav_page_of records ! i) = rec_slug q" by (simp only: assms(4) np_url_path_nav)
  then have "map rec_slug records ! i = map rec_slug records ! j" using assms(3) j by simp
  with assms(1,3) j(1) have "i = j" by (simp only: nth_eq_iff_index_eq length_map)
  with j(2) show ?thesis by simp
qed

text \<open>C34: Selecting a page opens it. \<open>select_page\<close> with a page's path or URL segment makes the script configure the page and
  switch to exactly that page, and leaves the environment as it was; when Streamlit then reruns the script for
  that page, without the query, its handler is called, with the client the session has held since the first run.\<close>

theorem select_page_opens_page:
  assumes "apptest_select_page version apt c target page base extra (u ''page'') overrides (entry_script w rt pw st) env sys_path =
      Inr (((r, effects, apt', st'), sys_path'), env')"
    and "load_fluxlit w target (st\<lparr>is_sys_path := apptest_path extra sys_path\<rparr>) = (Inr la, st1)"
    and "la_app la = run_setup steps (new_app fs store)" and "target \<noteq> []" and "dict_ok (at_query apt)"
    and "records = nav_records (pw_str pw) (la_nav la) (fa_pages (la_app la))" and "q \<in> set records"
    and "page = pr_path q \<or> page = rec_slug q" and "strip page = page" and "page \<noteq> []"
    and "page \<notin> pr_title ` (set records - {q})"
    and "sl_config_error rt (page_config fs) = None" and "\<forall>pg. sl_page_error rt pg = None" and "sl_switch_halts rt"
    and "i < length records" and "map nav_page_of records ! i = nav_page_of q" and "sl_navigate rt (map nav_page_of records) = i"
    and "load_fluxlit w target st2 = (Inr la, st3)" and "map_of env2 (u ''FLUXLIT_APP'') = Some target"
  shows "r = Inl rerun_exception \<and> effects = [SetPageConfig (page_config fs), SwitchPage (nav_page_of q)] \<and>
    map_of env' k = map_of env k \<and>
    (\<exists>client result shown calls.
       (at_session apt' = None \<or> at_session apt' = Some (Some client)) \<and>
       (\<forall>old. at_session apt = Some (Some old) \<longrightarrow> client = old) \<and>
       run_page_record pw env2 (la_app la) q = (result, shown, calls) \<and>
       run_streamlit_entrypoint w rt pw env2 NoQueryParams (at_session apt') st2 =
         ((map_sum id (\<lambda>_. ()) result, [SetPageConfig (page_config fs), RunsPage (pr_path q) client shown], at_session apt'), st3))"
proof -
  let ?env1 = "apptest_environ c target base overrides env"
  let ?query = "QueryParams (map (\<lambda>(k, v). (k, Inr v)) (AList.update (u ''page'') (QStr page) (at_query apt)))"
  have fs: "fa_settings (la_app la) = fs"
    using run_setup_inv [OF new_app_inv, of steps fs store] by (simp add: assms(3) same_app_def new_app_def)
  have slugs: "distinct (map rec_slug records)" unfolding assms(3,6) by (rule nav_slugs_of_setup)
  have ne: "records \<noteq> []" using assms(7) by auto
  have conf: "sl_config_error rt (page_config (fa_settings (la_app la))) = None" by (simp add: fs assms(12))
  obtain client1 session1 where s1: "session_client ?env1 fs (at_session apt) = (client1, session1)" by (metis prod.exhaust)
  have "map_of (query_params ?query) (u ''page'') = Some page"
    by (subst query_params_entries) (use assms(5) in \<open>simp_all add: scalar_query_value_def\<close>)
  then have t: "switch_targets (query_params ?query) records = [nav_page_of q]"
    by (rule switch_targets_selects [OF slugs assms(7-10) _ assms(11)])
  have shown1: "show_app rt pw ?env1 ?query (at_session apt) la =
      (Inl rerun_exception, [SetPageConfig (page_config fs), SwitchPage (nav_page_of q)], session1)"
    by (subst show_app_quiet [OF conf assms(13,6) ne, unfolded fs, OF s1]) (simp only: t Let_def assms(14) list.sel if_True simp_thms list.distinct)
  have "run_streamlit_entrypoint w rt pw ?env1 ?query (at_session apt) (st\<lparr>is_sys_path := apptest_path extra sys_path\<rparr>) =
      ((Inl rerun_exception, [SetPageConfig (page_config fs), SwitchPage (nav_page_of q)], session1), st1)"
    unfolding shown1 [symmetric] by (rule entry_loads [OF apptest_environ_target assms(4,2)])
  from trans [OF sym [OF this] conjunct1 [OF select_page_runs_script [OF assms(1), of k]]]
  have first: "r = Inl rerun_exception" "effects = [SetPageConfig (page_config fs), SwitchPage (nav_page_of q)]"
      "at_session apt' = session1" by simp_all
  have env: "map_of env' k = map_of env k" using select_page_runs_script [OF assms(1), of k] by blast
  obtain client session2 where s2: "session_client env2 fs session1 = (client, session2)" by (metis prod.exhaust)
  have kept: "session2 = session1" "session1 = None \<or> session1 = Some (Some client)"
      "\<forall>old. at_session apt = Some (Some old) \<longrightarrow> client = old"
    using s1 s2 by (auto simp: session_client_def split: option.splits)
  have none: "switch_targets (query_params NoQueryParams) records = []"
    by (rule switch_targets_none) (simp add: query_params_def)
  have pick: "records ! i = q" by (rule nav_page_position [OF slugs assms(7,15,16)])
  obtain result shown calls where run: "run_page_record pw env2 (la_app la) q = (result, shown, calls)" by (metis prod.exhaust)
  have shown2: "show_app rt pw env2 NoQueryParams session1 la =
      (map_sum id (\<lambda>_. ()) result, [SetPageConfig (page_config fs), RunsPage (pr_path q) client shown], session1)"
    by (subst show_app_quiet [OF conf assms(13,6) ne, unfolded fs, OF s2])
      (simp only: none Let_def assms(17) pick run kept(1) list.map append.simps if_False simp_thms prod.case)
  have "run_streamlit_entrypoint w rt pw env2 NoQueryParams session1 st2 =
      ((map_sum id (\<lambda>_. ()) result, [SetPageConfig (page_config fs), RunsPage (pr_path q) client shown], session1), st3)"
    unfolding shown2 [symmetric] by (rule entry_loads [OF assms(19,4,18)])
  then show ?thesis unfolding first using env kept(2,3) run by metis
qed

text \<open>A module that holds one application with one page, and a Streamlit that raises nothing.\<close>

definition demo_loaded :: "nat loaded_app" where
  "demo_loaded = \<lparr>la_app = run_setup [DecoratePage (sample_decl (u ''/a'') [])] (new_app strict_settings False), la_nav = None\<rparr>"

definition demo_world :: "nat loaded_app import_world" where
  "demo_world = \<lparr>iw_cwd = path_of (u ''/srv''), iw_is_file = (\<lambda>p. False), iw_resolve = Some, iw_has_loader = (\<lambda>p. True),
     iw_exec = (\<lambda>p. ([], None)), iw_import_module = (\<lambda>m st. (Inr 0, st)), iw_is_fluxlit = (\<lambda>v. True)\<rparr>"

definition demo_state :: "nat loaded_app import_state" where
  "demo_state = \<lparr>is_heap = [\<lparr>md_file = None, md_attrs = [(u ''app'', demo_loaded)]\<rparr>], is_modules = [(u ''main'', 0)],
     is_sys_path = [], is_runs = []\<rparr>"

definition demo_runtime :: streamlit_runtime where
  "demo_runtime = \<lparr>sl_config_error = (\<lambda>kw. None), sl_page_error = (\<lambda>pg. None), sl_switch_halts = True, sl_navigate = (\<lambda>pgs. 0)\<rparr>"

definition demo_pages :: "(nat, nat) page_world" where
  "demo_pages = \<lparr>pw_env = sample_page_env, pw_validate = (\<lambda>d. None),
     pw_body = (\<lambda>r. \<lparr>bo_is_generator = False, bo_returns = (\<lambda>kw. Inr PNone), bo_yields = (\<lambda>kw. ([], None))\<rparr>), pw_str = sample_str\<rparr>"

definition demo_client :: test_client where
  "demo_client = \<lparr>tc_settings = default_settings, tc_api_prefix = u ''/api'', tc_root_mount = []\<rparr>"

lemma demo_loads: "load_fluxlit demo_world (u ''main:app'') (demo_state\<lparr>is_sys_path := p\<rparr>) = (Inr demo_loaded, demo_state\<lparr>is_sys_path := p\<rparr>)"
proof -
  have t: "u ''main:app'' = u ''main'' @ u '':'' @ u ''app''" by (simp add: u.simps)
  have split: "partition_str (u ''main:app'') (u '':'') = (u ''main'', True, u ''app'')"
    unfolding t by (rule local_target_split) (simp add: u.simps)
  have main: "path_of (u ''main'') = \<lparr>pt_root = [], pt_parts = [u ''main'']\<rparr>" by (rule path_of_name) (simp_all add: u.simps)
  have suffix: "snd (stem_suffix (path_of (u ''main''))) \<noteq> u ''.py''"
    unfolding main by (simp add: stem_suffix_def path_name_def Let_def u.simps)
  have "slash \<notin> set (u ''main'')" by (simp add: u.simps)
  with suffix have "import_target_module demo_world (u ''main'') (demo_state\<lparr>is_sys_path := p\<rparr>) = (Inr 0, demo_state\<lparr>is_sys_path := p\<rparr>)"
    by (simp add: import_target_module_def demo_world_def Let_def)
  then show ?thesis
    unfolding load_fluxlit_def split by (simp add: bound_app_def demo_world_def demo_state_def)
qed

lemma demo_records: "\<exists>q. nav_records sample_str None (fa_pages (la_app demo_loaded)) = [q] \<and> pr_path q = u ''/a''"
proof -
  obtain r where r: "fa_pages (la_app demo_loaded) = [r]" "pr_path r = u ''/a''"
    using sample_registration by (auto simp: demo_loaded_def)
  have m: "mset (map (\<lambda>r. (pr_path r, pr_fn r)) (nav_records sample_str None [r])) = {#(pr_path r, pr_fn r)#}"
    using nav_records_mset [of "[r]"] by simp
  then have "map (\<lambda>r. (pr_path r, pr_fn r)) (nav_records sample_str None [r]) = [(pr_path r, pr_fn r)]"
    by (simp only: mset_single_iff)
  then show ?thesis using r by auto
qed

theorem select_page_opens_page_witness:
  "\<exists>r pg kw (apt' :: unit app_test) st' sys_path' env'.
     apptest_select_page (Some (1, 30)) fresh_app_test demo_client (u ''main:app'') (u ''a'') None None (u ''page'') None
       (entry_script demo_world demo_runtime demo_pages demo_state) [] [] =
       Inr (((r, [SetPageConfig kw, SwitchPage pg], apt', st'), sys_path'), env') \<and> np_url_path pg = u ''a''"
proof -
  let ?call = "apptest_select_page (Some (1, 30)) (fresh_app_test :: unit app_test) demo_client (u ''main:app'') (u ''a'') None None (u ''page'') None
       (entry_script demo_world demo_runtime demo_pages demo_state) [] []"
  have "\<exists>x. ?call = Inr x" by (simp add: apptest_select_page_def)
  then obtain r effects apt' st' sys_path' env' where call: "?call = Inr (((r, effects, apt', st'), sys_path'), env')"
    by (metis prod.exhaust)
  obtain q where q: "nav_records (pw_str demo_pages) (la_nav demo_loaded) (fa_pages (la_app demo_loaded)) = [q]" "pr_path q = u ''/a''"
    using demo_records by (auto simp: demo_pages_def demo_loaded_def)
  have slug: "rec_slug q = u ''a''" by (simp add: q(2) sample_slugs)
  have rt: "sl_config_error demo_runtime kw = None" "\<forall>pg. sl_page_error demo_runtime pg = None" "sl_switch_halts demo_runtime"
      "sl_navigate demo_runtime (map nav_page_of [q]) = 0" for kw by (simp_all add: demo_runtime_def)
  have app: "la_app demo_loaded = run_setup [DecoratePage (sample_decl (u ''/a'') [])] (new_app strict_settings False)"
    by (simp add: demo_loaded_def)
  have s: "strip (u ''a'') = u ''a''" by (simp add: pystr_eval)
  have "effects = [SetPageConfig (page_config strict_settings), SwitchPage (nav_page_of q)]"
    using select_page_opens_page [OF call demo_loads app _ _ q(1) [symmetric], of q 0 demo_state demo_state "[(u ''FLUXLIT_APP'', u ''main:app'')]"]
      rt slug s demo_loads [of "[]"]
    by (simp add: fresh_app_test_def dict_ok_def demo_state_def)
  with call slug show ?thesis by (metis np_url_path_nav)
qed

subsection \<open>Options of the test helpers that do nothing\<close>

lemma switch_targets_cong:
  "map_of a (u ''page'') = map_of b (u ''page'') \<Longrightarrow> switch_targets a records = switch_targets b records"
  by (simp add: switch_targets_def match_nav_page_def)

lemma entry_cong:
  assumes "map_of (query_params a) (u ''page'') = map_of (query_params b) (u ''page'')"
  shows "run_streamlit_entrypoint w rt pw env a session st = run_streamlit_entrypoint w rt pw env b session st"
  unfolding run_streamlit_entrypoint_def show_app_def by (simp only: switch_targets_cong [OF assms])

lemma show_app_session:
  assumes "show_app rt pw env query (Some (Some client)) la = (r, effects, session)"
  shows "session = Some (Some client) \<and> (RunsPage p client' shown \<in> set effects \<longrightarrow> client' = client)"
  using assms by (auto simp: show_app_def session_client_def Let_def split: option.splits if_splits prod.splits)

text \<open>\<open>page_key\<close> is an option of \<open>select_page\<close>, but the script reads the key \<open>page\<close> only: with any other key the run is the
  run without a selected page.\<close>

theorem select_page_key_ignored:
  assumes "apptest_select_page version apt c target page base extra key overrides (entry_script w rt pw st) env sys_path =
      Inr (((r, effects, apt', st'), sys_path'), env')"
    and "key \<noteq> u ''page''" and "dict_ok (at_query apt)"
  shows "run_streamlit_entrypoint w rt pw (apptest_environ c target base overrides env)
      (QueryParams (map (\<lambda>(k, v). (k, Inr v)) (at_query apt))) (at_session apt)
      (st\<lparr>is_sys_path := apptest_path extra sys_path\<rparr>) = ((r, effects, at_session apt'), st')"
proof -
  let ?q = "\<lambda>d. QueryParams (map (\<lambda>(k, v). (k, Inr v)) d)"
  have "map_of (query_params (?q (AList.update key (QStr page) (at_query apt)))) (u ''page'') = map_of (query_params (?q (at_query apt))) (u ''page'')"
    using assms(2,3) by (simp add: query_params_entries)
  from trans [OF sym [OF entry_cong [OF this]] conjunct1 [OF select_page_runs_script [OF assms(1)]]] show ?thesis .
qed

text \<open>\<open>internal_api_base\<close> is an option of \<open>select_page\<close> as well, but the client was made by the first run of the test and is
  kept in its session: the pages of later runs get that client, whatever base they are given.\<close>

theorem select_page_base_ignored:
  assumes "apptest_select_page version apt c target page base extra key overrides (entry_script w rt pw st) env sys_path =
      Inr (((r, effects, apt', st'), sys_path'), env')"
    and "at_session apt = Some (Some client)"
  shows "at_session apt' = Some (Some client) \<and> (\<forall>p client' shown. RunsPage p client' shown \<in> set effects \<longrightarrow> client' = client)"
proof -
  let ?run = "run_streamlit_entrypoint w rt pw (apptest_environ c target base overrides env)
      (QueryParams (map (\<lambda>(k, v). (k, Inr v)) (AList.update key (QStr page) (at_query apt)))) (Some (Some client))
      (st\<lparr>is_sys_path := apptest_path extra sys_path\<rparr>)"
  have run: "?run = ((r, effects, at_session apt'), st')"
    using conjunct1 [OF select_page_runs_script [OF assms(1)]] unfolding assms(2) .
  let ?load = "load_fluxlit w target (st\<lparr>is_sys_path := apptest_path extra sys_path\<rparr>)"
  show ?thesis
  proof (cases "target = []")
    case True
    then have "opt_str (map_of (apptest_environ c target base overrides env) (u ''FLUXLIT_APP'')) = []"
      by (simp add: apptest_environ_target opt_str_def)
    with run show ?thesis by (auto simp: run_streamlit_entrypoint_def)
  next
    case False
    then have spec: "opt_str (map_of (apptest_environ c target base overrides env) (u ''FLUXLIT_APP'')) = target" "target \<noteq> []"
      by (simp_all add: apptest_environ_target opt_str_def)
    obtain loaded st1 where load: "?load = (loaded, st1)" by (metis prod.exhaust)
    show ?thesis
    proof (cases loaded)
      case (Inl e)
      with run spec load show ?thesis by (auto simp: run_streamlit_entrypoint_def)
    next
      case (Inr la)
      with run spec load have "show_app rt pw (apptest_environ c target base overrides env)
          (QueryParams (map (\<lambda>(k, v). (k, Inr v)) (AList.update key (QStr page) (at_query apt)))) (Some (Some client)) la =
          (r, effects, at_session apt')" by (simp add: run_streamlit_entrypoint_def)
      from show_app_session [OF this] show ?thesis by blast
    qed
  qed
qed

subsection \<open>Overrides reach the handlers\<close>

lemma dumped_object_stripped: "strip (json_dumps flt (JObj d)) = json_dumps flt (JObj d)"
proof -
  obtain b where b: "json_dumps flt (JObj d) = 123 # b @ [125]" by (auto simp: u.simps)
  show ?thesis unfolding b strip_def by (rule strip_by_id) (simp_all add: is_space_def)
qed

text \<open>The overrides a test passes as \<open>page_overrides\<close> arrive: printed by \<open>json.dumps\<close> into the environment and read back by
  the page's injection they are the same mapping, and a parameter that takes a header or a cookie and is named there
  gets its value instead of what the request sent.\<close>

theorem overrides_reach_handlers:
  assumes "float_codec okf flt rd" and "json_ok okf scalar_cp (JObj d)" and "dict_ok d"
    and "env_of = apptest_environ c target base (Some (json_dumps flt (JObj d))) env"
    and "merged = dict_union (env_page_overrides (json_loads rd) env_of) (dict_union (env_page_overrides (json_loads rd) env_of) [])"
  shows "env_page_overrides (json_loads rd) env_of = d \<and>
    (map_of d (pa_name p) = Some v \<and> (unwrap_header p \<noteq> None \<or> unwrap_cookie p \<noteq> None) \<longrightarrow>
       plain_injection E merged p = Some (Override v))"
proof -
  have "map_of env_of (u ''FLUXLIT_TEST_PAGE_OVERRIDES'') = Some (json_dumps flt (JObj d))"
    by (simp add: assms(4) apptest_environ_def map_of_fold_update [OF apptest_env_keys]) (simp add: streamlit_apptest_env_def)
  moreover have "json_loads rd (json_dumps flt (JObj d)) = Inr (JObj d)"
    unfolding json_loads_def json_read_dumps [OF assms(1,2)] by simp
  moreover have "json_dumps flt (JObj d) \<noteq> []" by (simp add: u.simps)
  ultimately have o: "env_page_overrides (json_loads rd) env_of = d"
    by (simp add: env_page_overrides_def opt_str_def dumped_object_stripped Let_def del: json_write.simps)
  have "map_of merged k = map_of d k" for k
    by (simp add: assms(5) o dict_union_def map_of_fold_update [OF assms(3)] split: option.split)
  with o show ?thesis by (auto simp: plain_injection_def split: option.split)
qed

theorem overrides_reach_handlers_witness:
  "env_page_overrides (json_loads half_read)
     (apptest_environ demo_client (u ''main:app'') None
       (Some (json_dumps half_text (JObj [(u ''user'', JStr [229]), (u ''rate'', JFloat (1 / 2))]))) []) =
     [(u ''user'', JStr [229]), (u ''rate'', JFloat (1 / 2))]"
  by (rule conjunct1 [OF overrides_reach_handlers [OF half_codec _ _ refl refl]])
    (simp_all add: scalar_cp_def dict_ok_def u.simps)

end
