(* ===== verification/Verbose_Report.thy ===== *)
theory Verbose_Report
  imports Cli_Testing Json_Text
begin

section \<open>The verbose report of the doctor as text\<close>

text \<open>
  Models \<open>format_doctor_verbose_human\<close> of \<open>cli_doctor_verbose.py\<close> on the report that \<open>build_doctor_verbose_detail\<close>
  builds, with Python's \<open>str\<close> and \<open>repr\<close> of JSON values. \<open>printable\<close> is Unicode's \<open>str.isprintable\<close> outside ASCII,
  \<open>flt\<close> prints a float. A line is a list of pieces, as an f-string is; a key that is missing raises \<open>KeyError\<close>.
\<close>

subsection \<open>\<open>repr\<close>\<close>

fun hex_text :: "nat \<Rightarrow> nat \<Rightarrow> pystr" where
  "hex_text 0 n = []"
| "hex_text (Suc w) n = hex_text w (n div 16) @ [hex_cp (n mod 16)]"

definition repr_cp :: "(nat \<Rightarrow> bool) \<Rightarrow> nat \<Rightarrow> nat \<Rightarrow> pystr" where
  "repr_cp printable quote c =
     (if c = quote \<or> c = 92 then [92, c]
      else if c = 9 then [92, 116] else if c = 10 then [92, 110] else if c = 13 then [92, 114]
      else if c < 32 \<or> c = 127 then [92, 120] @ hex_text 2 c
      else if c < 127 \<or> printable c then [c]
      else if c < 256 then [92, 120] @ hex_text 2 c
      else if c < 65536 then [92, 117] @ hex_text 4 c
      else [92, 85] @ hex_text 8 c)"

definition repr_str :: "(nat \<Rightarrow> bool) \<Rightarrow> pystr \<Rightarrow> pystr" where
  "repr_str printable s =
     (let quote = (if 39 \<in> set s \<and> 34 \<notin> set s then 34 else 39)
      in [quote] @ concat (map (repr_cp printable quote) s) @ [quote])"

fun py_repr :: "(nat \<Rightarrow> bool) \<Rightarrow> (real \<Rightarrow> pystr) \<Rightarrow> json \<Rightarrow> pystr" where
  "py_repr printable flt JNull = u ''None''"
| "py_repr printable flt (JBool b) = (if b then u ''True'' else u ''False'')"
| "py_repr printable flt (JInt i) = str_of_int i"
| "py_repr printable flt (JFloat x) = flt x"
| "py_repr printable flt (JStr s) = repr_str printable s"
| "py_repr printable flt (JArr xs) = u ''['' @ join_with (u '', '') (map (py_repr printable flt) xs) @ u '']''"
| "py_repr printable flt (JObj kvs) =
     u ''{'' @ join_with (u '', '') (map (\<lambda>kv. repr_str printable (fst kv) @ u '': '' @ py_repr printable flt (snd kv)) kvs) @ u ''}''"

definition py_str :: "(nat \<Rightarrow> bool) \<Rightarrow> (real \<Rightarrow> pystr) \<Rightarrow> json \<Rightarrow> pystr" where
  "py_str printable flt j = (case j of JStr s \<Rightarrow> s | _ \<Rightarrow> py_repr printable flt j)"

subsection \<open>Lines\<close>

datatype piece = Lit string | Shown "exc + json" | Quoted "exc + json"

definition piece_text :: "(nat \<Rightarrow> bool) \<Rightarrow> (real \<Rightarrow> pystr) \<Rightarrow> piece \<Rightarrow> exc + pystr" where
  "piece_text printable flt p =
     (case p of Lit s \<Rightarrow> Inr (u s)
      | Shown v \<Rightarrow> bind_exc v (\<lambda>j. Inr (py_str printable flt j))
      | Quoted v \<Rightarrow> bind_exc v (\<lambda>j. Inr (py_repr printable flt j)))"

fun collect_texts :: "(exc + 'a) list \<Rightarrow> exc + 'a list" where
  "collect_texts [] = Inr []"
| "collect_texts (x # xs) = bind_exc x (\<lambda>a. bind_exc (collect_texts xs) (\<lambda>rest. Inr (a # rest)))"

definition line_text :: "(nat \<Rightarrow> bool) \<Rightarrow> (real \<Rightarrow> pystr) \<Rightarrow> piece list \<Rightarrow> exc + pystr" where
  "line_text printable flt ps = bind_exc (collect_texts (map (piece_text printable flt) ps)) (\<lambda>ts. Inr (concat ts))"

text \<open>\<open>d[k]\<close> and \<open>d.get(k)\<close>.\<close>

definition item :: "exc + json \<Rightarrow> string \<Rightarrow> exc + json" where
  "item d k = bind_exc d (\<lambda>j. case j of
     JObj m \<Rightarrow> (case map_of m (u k) of None \<Rightarrow> Inl KeyError | Some v \<Rightarrow> Inr v)
   | _ \<Rightarrow> Inl TypeError)"

definition item_get :: "exc + json \<Rightarrow> string \<Rightarrow> exc + json" where
  "item_get d k = bind_exc d (\<lambda>j. case j of
     JObj m \<Rightarrow> (case map_of m (u k) of None \<Rightarrow> Inr JNull | Some v \<Rightarrow> Inr v)
   | _ \<Rightarrow> Inl AttributeError)"

definition elements :: "exc + json \<Rightarrow> exc + json list" where
  "elements d = bind_exc d (\<lambda>j. case j of JArr xs \<Rightarrow> Inr xs | _ \<Rightarrow> Inl TypeError)"

subsection \<open>The report\<close>

definition url_session_line :: "exc + json \<Rightarrow> piece list" where
  "url_session_line eff =
     [Lit ''url_session: param='', Quoted (item eff ''url_session_query_param''),
      Lit ''; FLUXLIT_TESTS='', Shown (item eff ''url_session_fluxlit_tests''),
      Lit ''; FLUXLIT_FORCE_URL_SESSION_IN_TESTS='', Shown (item eff ''url_session_force_in_tests''),
      Lit ''; FLUXLIT_DISABLE_URL_SESSION='', Shown (item eff ''url_session_disabled'')]"

definition gateway_proxy_line :: "exc + json \<Rightarrow> piece list" where
  "gateway_proxy_line gp =
     [Lit ''gateway_proxy: connect_timeout_s='', Shown (item gp ''upstream_connect_timeout_s''),
      Lit ''; read_timeout_s='', Shown (item gp ''upstream_read_timeout_s''),
      Lit ''; ws_open_timeout_s='', Shown (item gp ''ws_open_timeout_s''),
      Lit ''; max_proxy_body_bytes='', Shown (item gp ''max_proxy_request_body_bytes''),
      Lit ''; max_concurrent_upstream_http='', Shown (item gp ''max_concurrent_upstream_http''),
      Lit ''; forward_client_headers_http='', Quoted (item gp ''forward_client_headers_http'')]"

definition sidecar_line :: "exc + json \<Rightarrow> piece list" where
  "sidecar_line sc =
     [Lit ''streamlit_sidecar: managed_by_fluxlit_cli='', Shown (item sc ''fluxlit_managed_runtime''),
      Lit ''; FLUXLIT_STREAMLIT_UPSTREAM_FILE set='', Shown (item sc ''upstream_file_set''),
      Lit ''; FLUXLIT_STREAMLIT_UPSTREAM set='', Shown (item sc ''upstream_url_set'')]"

definition page_line :: "json \<Rightarrow> piece list" where
  "page_line p =
     [Lit ''  - path='', Quoted (item (Inr p) ''path''), Lit '' title='', Quoted (item (Inr p) ''title''),
      Lit '' handler='', Shown (item (Inr p) ''handler'')]"

text \<open>The lines before and after the pages.\<close>

definition verbose_head :: "json \<Rightarrow> piece list list" where
  "verbose_head detail =
     (let d = Inr detail; eff = item d ''effective''; oa = item d ''openapi''; ex = item d ''extras''
      in [[Lit ''resolved_target: '', Shown (item d ''resolved_target'')],
          [Lit ''gateway_bind (resolved): '', Shown (item eff ''gateway_bind'')],
          [Lit ''api_mount_path: '', Quoted (item eff ''api_mount_path'')],
          [Lit ''public_mount_path: '', Quoted (item eff ''public_mount_path'')],
          [Lit ''internal_api_base (derived for Streamlit): '', Quoted (item eff ''internal_api_base_derived'')]] @
         (if (case item_get eff ''internal_api_base_env'' of Inl e \<Rightarrow> False | Inr v \<Rightarrow> \<not> json_falsy v)
          then [[Lit ''internal_api_base (env override): '', Quoted (item eff ''internal_api_base_env'')]] else []) @
         [[Lit ''public_base_url: '', Quoted (item eff ''public_base_url'')],
          [Lit ''trust_proxy: '', Shown (item eff ''trust_proxy'')],
          [Lit ''forwarded_allow_ips: '', Quoted (item eff ''forwarded_allow_ips'')],
          url_session_line eff,
          [Lit ''openapi: openapi_url='', Quoted (item_get oa ''openapi_url''), Lit '' docs_url='', Quoted (item_get oa ''docs_url''),
           Lit '' redoc_url='', Quoted (item_get oa ''redoc_url'')],
          [Lit ''extras: pyjwt='', Shown (item ex ''pyjwt_available''),
           Lit '' prometheus_client='', Shown (item ex ''prometheus_client_available''),
           Lit '' streamlit_apptest_ok='', Shown (item ex ''streamlit_apptest_version_ok'')],
          sidecar_line (item d ''streamlit_sidecar''),
          gateway_proxy_line (item d ''gateway_proxy''),
          [Lit ''project_defaults (fluxlit.toml/pyproject): '', Quoted (item_get d ''project_defaults'')],
          [Lit ''pages:'']])"

definition verbose_tail :: "piece list list" where
  "verbose_tail = map (\<lambda>s. [Lit s])
     [''settings_redacted: see JSON mode for full object; jwt/oidc secrets are [REDACTED].'',
      '''',
      ''Hints:'',
      ''  - If Streamlit cannot reach the API: align FLUXLIT_INTERNAL_API_BASE with '' @
      ''internal_api_base_derived (or unset it and let fluxlit run set it).'',
      ''  - Behind a subpath proxy: set FLUXLIT_ROOT_PATH and usually FLUXLIT_TRUST_PROXY=1; '' @
      ''see docs/configuration.html and docs/platforms.html.'',
      ''  - For OAuth redirects: set FLUXLIT_PUBLIC_BASE_URL to the browser-visible URL '' @
      ''(path should match public_mount_path when you use a subpath).'']"

definition import_failed_lines :: "pystr list" where
  "import_failed_lines =
     [u ''import_failed: true (see FAIL import_target row above).'',
      u ''Tip: export PYTHONPATH=$(pwd) or pip install -e . from the package root.'']"

definition format_doctor_verbose_human :: "(nat \<Rightarrow> bool) \<Rightarrow> (real \<Rightarrow> pystr) \<Rightarrow> json \<Rightarrow> exc + pystr list" where
  "format_doctor_verbose_human printable flt detail =
     bind_exc (item_get (Inr detail) ''import_failed'') (\<lambda>failed.
       if \<not> json_falsy failed then Inr import_failed_lines
       else bind_exc (collect_texts (map (line_text printable flt) (verbose_head detail))) (\<lambda>head.
            bind_exc (elements (item (Inr detail) ''pages'')) (\<lambda>pages.
            bind_exc (collect_texts (map (\<lambda>p. line_text printable flt (page_line p)) pages)) (\<lambda>body.
            bind_exc (collect_texts (map (line_text printable flt) verbose_tail)) (\<lambda>tail. Inr (head @ body @ tail))))))"

subsection \<open>One line per entry\<close>

lemma hex_text_digits: "d \<in> set (hex_text w n) \<Longrightarrow> 48 \<le> d"
  by (induction w arbitrary: n) (auto simp: hex_cp_def)

lemma repr_cp_line: "q \<in> {34, 39} \<Longrightarrow> 10 \<notin> set (repr_cp printable q c)"
  using hex_text_digits [of 10] by (auto simp: repr_cp_def)

lemma repr_str_line: "10 \<notin> set (repr_str printable s)"
  using repr_cp_line by (auto simp: repr_str_def Let_def)

lemma py_repr_line:
  assumes "\<forall>x. 10 \<notin> set (flt x)"
  shows "10 \<notin> set (py_repr printable flt j)"
proof (induction j)
  case (JInt i)
  then show ?case using str_of_int_cps [of 10 i] by (auto simp: number_cp_def)
next
  case (JArr xs)
  then show ?case using set_join_with [of "u '', ''" "map (py_repr printable flt) xs"] by (auto simp: u.simps)
next
  case (JObj kvs)
  have "10 \<notin> set (repr_str printable (fst kv) @ u '': '' @ py_repr printable flt (snd kv))" if "kv \<in> set kvs" for kv
    using JObj [OF that, of "snd kv"] repr_str_line by (cases kv) (auto simp: u.simps)
  then show ?case
    using set_join_with [of "u '', ''" "map (\<lambda>kv. repr_str printable (fst kv) @ u '': '' @ py_repr printable flt (snd kv)) kvs"]
    by (fastforce simp: u.simps)
qed (use assms repr_str_line in \<open>auto simp: u.simps\<close>)

definition one_line :: "pystr \<Rightarrow> bool" where
  "one_line s \<longleftrightarrow> 10 \<notin> set s"

text \<open>A piece that yields text without a newline: only a string shown without quotes could hold one.\<close>

definition piece_safe :: "piece \<Rightarrow> bool" where
  "piece_safe p =
     (case p of Lit s \<Rightarrow> one_line (u s)
      | Shown v \<Rightarrow> (case v of Inr (JStr s) \<Rightarrow> one_line s | Inr j \<Rightarrow> True | Inl e \<Rightarrow> False)
      | Quoted v \<Rightarrow> (case v of Inr j \<Rightarrow> True | Inl e \<Rightarrow> False))"

lemma piece_text_safe:
  assumes "\<forall>x. 10 \<notin> set (flt x)" and "piece_safe p"
  shows "\<exists>t. piece_text printable flt p = Inr t \<and> one_line t"
proof -
  have line: "one_line (py_repr printable flt j)" for j using py_repr_line [OF assms(1)] by (simp add: one_line_def)
  then have str: "one_line (py_str printable flt j)" if "\<forall>s. j = JStr s \<longrightarrow> one_line s" for j
    using that by (simp add: py_str_def del: py_repr.simps split: json.split)
  show ?thesis
  proof (cases p)
    case (Shown v)
    with assms(2) obtain j where "v = Inr j" "\<forall>s. j = JStr s \<longrightarrow> one_line s"
      by (cases v) (auto simp: piece_safe_def split: json.splits)
    with Shown str show ?thesis by (simp add: piece_text_def)
  next
    case (Quoted v)
    with assms(2) obtain j where "v = Inr j" by (cases v) (auto simp: piece_safe_def)
    with Quoted line show ?thesis by (simp add: piece_text_def)
  qed (use assms(2) in \<open>simp add: piece_safe_def piece_text_def\<close>)
qed

lemma collect_texts_map:
  "\<forall>x \<in> set xs. \<exists>t. f x = Inr t \<and> P t \<Longrightarrow> \<exists>ts. collect_texts (map f xs) = Inr ts \<and> list_all P ts \<and> length ts = length xs"
  by (induction xs) (auto)

lemma line_text_safe:
  assumes "\<forall>x. 10 \<notin> set (flt x)" and "list_all piece_safe ps"
  shows "\<exists>t. line_text printable flt ps = Inr t \<and> one_line t"
proof -
  have "\<forall>p \<in> set ps. \<exists>t. piece_text printable flt p = Inr t \<and> one_line t"
    using assms piece_text_safe by (auto simp: list_all_iff)
  from collect_texts_map [OF this] obtain ts where "collect_texts (map (piece_text printable flt) ps) = Inr ts" "list_all one_line ts"
    by blast
  then show ?thesis by (auto simp: line_text_def one_line_def list_all_iff)
qed

lemma lines_safe:
  assumes "\<forall>x. 10 \<notin> set (flt x)" and "list_all (list_all piece_safe) lines"
  shows "\<exists>ts. collect_texts (map (line_text printable flt) lines) = Inr ts \<and> list_all one_line ts \<and> length ts = length lines"
  by (rule collect_texts_map) (use assms line_text_safe in \<open>auto simp: list_all_iff\<close>)

lemma verbose_tail_safe: "list_all (list_all piece_safe) verbose_tail"
  by (simp add: verbose_tail_def piece_safe_def one_line_def u.simps)

text \<open>The report as \<open>build_doctor_verbose_detail\<close> builds it has every entry the text asks for.\<close>

lemma verbose_head_safe:
  assumes "one_line target" and "one_line host"
  shows "list_all (list_all piece_safe) (verbose_head (JObj (build_doctor_verbose_detail w ip dump names routes app target host port pc)))"
proof -
  have b: "10 \<notin> set (str_of_int port)" using str_of_int_cps [of 10 port] by (auto simp: number_cp_def)
  show ?thesis
    by (simp add: verbose_head_def url_session_line_def gateway_proxy_line_def sidecar_line_def item_def item_get_def
        build_doctor_verbose_detail_def verbose_effective_def verbose_gateway_proxy_def piece_safe_def one_line_def u.simps
        env_nonempty_def env_nonblank_def b assms [unfolded one_line_def] Let_def)
qed

lemma page_line_text:
  "line_text printable flt (page_line (JObj [(u ''path'', JStr p), (u ''title'', JStr t), (u ''handler'', JStr h)])) =
     Inr (u ''  - path='' @ repr_str printable p @ u '' title='' @ repr_str printable t @ u '' handler='' @ h)"
  by (simp add: line_text_def page_line_def piece_text_def item_def py_str_def bind_exc_def)

lemma collect_texts_total: "collect_texts (map (\<lambda>x. Inr (g x)) xs) = Inr (map g xs)"
  by (induction xs) simp_all

text \<open>The report can be read line by line: whatever characters the paths and titles of pages hold, every entry and every
  page takes exactly one line, in the order of registration, so a title cannot pass for another entry. Only the target,
  the bind host and the handlers' names are printed as they are.\<close>

theorem verbose_report_one_line_each:
  assumes "\<forall>x. 10 \<notin> set (flt x)" and "one_line target" and "one_line host"
    and "\<forall>r \<in> set (fa_pages app). one_line (dotted_name (names (pr_fn r)))"
  shows "\<exists>head tail. length head \<in> {15, 16} \<and> length tail = length verbose_tail \<and>
    (let page_text = (\<lambda>r. u ''  - path='' @ repr_str printable (pr_path r) @ u '' title='' @ repr_str printable (pr_title r) @
           u '' handler='' @ dotted_name (names (pr_fn r)))
     in format_doctor_verbose_human printable flt (JObj (build_doctor_verbose_detail w ip dump names routes app target host port pc)) =
          Inr (head @ map page_text (fa_pages app) @ tail) \<and>
        list_all one_line (head @ map page_text (fa_pages app) @ tail))"
proof -
  let ?d = "JObj (build_doctor_verbose_detail w ip dump names routes app target host port pc)"
  let ?page = "\<lambda>r. JObj [(u ''path'', JStr (pr_path r)), (u ''title'', JStr (pr_title r)), (u ''handler'', JStr (dotted_name (names (pr_fn r))))]"
  let ?text = "\<lambda>r. u ''  - path='' @ repr_str printable (pr_path r) @ u '' title='' @ repr_str printable (pr_title r) @
           u '' handler='' @ dotted_name (names (pr_fn r))"
  obtain hd where hd: "collect_texts (map (line_text printable flt) (verbose_head ?d)) = Inr hd" "list_all one_line hd"
      "length hd = length (verbose_head ?d)"
    using lines_safe [OF assms(1) verbose_head_safe [OF assms(2,3)]] by blast
  obtain tl where tl: "collect_texts (map (line_text printable flt) verbose_tail) = Inr tl" "list_all one_line tl"
      "length tl = length verbose_tail"
    using lines_safe [OF assms(1) verbose_tail_safe] by blast
  have "item_get (Inr ?d) ''import_failed'' = Inr JNull" by (simp add: item_get_def build_doctor_verbose_detail_def Let_def)
  moreover have "elements (item (Inr ?d) ''pages'') = Inr (map ?page (fa_pages app))"
    by (simp add: elements_def item_def build_doctor_verbose_detail_def Let_def)
  moreover have "collect_texts (map (\<lambda>p. line_text printable flt (page_line p)) (map ?page (fa_pages app))) = Inr (map ?text (fa_pages app))"
    by (simp add: o_def page_line_text collect_texts_total)
  ultimately have "format_doctor_verbose_human printable flt ?d = Inr (hd @ map ?text (fa_pages app) @ tl)"
    by (simp add: format_doctor_verbose_human_def hd(1) tl(1) json_falsy_def)
  moreover have "one_line (?text r)" if "r \<in> set (fa_pages app)" for r
    using that assms(4) repr_str_line by (auto simp: one_line_def u.simps)
  moreover have "length hd \<in> {15, 16}" unfolding hd(3) by (simp add: verbose_head_def Let_def)
  ultimately show ?thesis
    using hd(2) tl(2,3) by - (rule exI [of _ hd], rule exI [of _ tl], auto simp: Let_def list_all_iff)
qed

definition two_line_title :: "nat fluxlit_app" where
  "two_line_title = \<lparr>fa_settings = default_settings, fa_has_store = False,
     fa_pages = [(sample_records ! 0)\<lparr>pr_title := [84, 10, 104]\<rparr>]\<rparr>"

theorem verbose_report_one_line_each_witness:
  "\<exists>lines. format_doctor_verbose_human (\<lambda>c. False) (\<lambda>x. u ''0.5'')
      (JObj (build_doctor_verbose_detail clean_world (\<lambda>a. None) (\<lambda>fs. []) (\<lambda>h. (u ''m'', u ''f''))
        \<lparr>rt_openapi_url = None, rt_docs_url = None, rt_redoc_url = None\<rparr> two_line_title (u ''m:app'') (u ''localhost'') 8000 None)) = Inr lines \<and>
    (u ''  - path='' @ [39, 47, 97, 39] @ u '' title='' @ [39, 84, 92, 110, 104, 39] @ u '' handler=m.f'') \<in> set lines"
proof -
  have f: "\<forall>x :: real. 10 \<notin> set (u ''0.5'')" by (simp add: u.simps)
  have t: "one_line (u ''m:app'')" "one_line (u ''localhost'')"
      "\<forall>r \<in> set (fa_pages two_line_title). one_line (dotted_name (u ''m'', u ''f''))"
    by (simp_all add: one_line_def u.simps two_line_title_def dotted_name_def)
  have p: "repr_str (\<lambda>c. False) (u ''/a'') = [39, 47, 97, 39]" "repr_str (\<lambda>c. False) [84, 10, 104] = [39, 84, 92, 110, 104, 39]"
    by (simp_all add: repr_str_def repr_cp_def u.simps)
  have d: "dotted_name (u ''m'', u ''f'') = u ''m.f''" by (simp add: dotted_name_def u.simps)
  from verbose_report_one_line_each [OF f t(1,2), of two_line_title "\<lambda>h. (u ''m'', u ''f'')" "\<lambda>c. False" clean_world "\<lambda>a. None" "\<lambda>fs. []"
      "\<lparr>rt_openapi_url = None, rt_docs_url = None, rt_redoc_url = None\<rparr>" 8000 None] t(3)
  show ?thesis by (auto simp: Let_def two_line_title_def sample_records_def p d u_append [symmetric])
qed

end
