(* ===== verification/Session_Text.thy ===== *)
theory Session_Text
  imports Url_Session Json_Text
begin

section \<open>Sessions stored as text\<close>

text \<open>
  The two stores of \<open>examples/session_stores\<close> as they write: a payload is JSON text with sorted keys and compact
  separators. For \<open>sqlite_store.py\<close> the table of texts refines the table of values of \<open>Url_Session\<close>. For
  \<open>redis_store.py\<close> the client is a record of operations, with Redis' documented behaviour of expiring keys as
  the predicate \<open>redis_laws\<close>; it answers with text or, as clients do by default, with its UTF-8 bytes. Times are seconds.
\<close>

subsection \<open>Payloads as text\<close>

definition payload_text :: "(real \<Rightarrow> pystr) \<Rightarrow> payload \<Rightarrow> pystr" where
  "payload_text flt data = json_compact flt (canon_json (JObj data))"

lemma canon_json_obj: "canon_json (JObj p) = JObj (canon p)"
  by (simp add: canon_def)

lemma json_ok_canon: "json_ok okf okc (canon_json j) = json_ok okf okc j"
proof (induction j)
  case (JObj m)
  have "json_ok okf okc (canon_json v) = json_ok okf okc v" if "(k, v) \<in> set m" for k v
    using JObj [OF that, of v] by simp
  then show ?case by (fastforce simp: list_all_iff)
qed (auto simp: list_all_iff)

lemma payload_text_reads:
  "float_codec okf flt rd \<Longrightarrow> json_ok okf scalar_cp (JObj p) \<Longrightarrow> json_read rd (payload_text flt p) = Some (JObj (canon p))"
  using json_read_compact [of okf flt rd "canon_json (JObj p)"] json_ok_canon [of okf scalar_cp "JObj p"]
  by (simp only: payload_text_def canon_json_obj simp_thms)

lemma payload_text_ascii:
  assumes "float_codec okf flt rd" and "json_ok okf okc (JObj p)"
  shows "\<forall>d \<in> set (payload_text flt p). 32 \<le> d \<and> d < 127"
proof -
  let ?flt = "\<lambda>x. if okf x then flt x else []"
  have same: "json_write esc isep ksep flt j = json_write esc isep ksep ?flt j" if "json_ok okf okc j" for esc isep ksep j
    using that
  proof (induction j)
    case (JArr xs)
    then have "map (json_write esc isep ksep flt) xs = map (json_write esc isep ksep ?flt) xs" by (auto simp: list_all_iff)
    then show ?case by (simp only: json_write.simps)
  next
    case (JObj m)
    have "json_write esc isep ksep flt v = json_write esc isep ksep ?flt v" if "(k, v) \<in> set m" for k v
      using JObj.IH [OF that, of v] JObj.prems that by (auto simp: list_all_iff)
    then have "map (\<lambda>kv. json_quote esc (fst kv) @ ksep @ json_write esc isep ksep flt (snd kv)) m =
        map (\<lambda>kv. json_quote esc (fst kv) @ ksep @ json_write esc isep ksep ?flt (snd kv)) m" by auto
    then show ?case by (simp only: json_write.simps)
  qed auto
  have "json_ok okf okc (canon_json (JObj p))" using assms(2) by (simp only: json_ok_canon)
  note same [OF this, of json_ascii_cp "u '',''" "u '':''"]
  moreover have "\<forall>x. \<forall>c \<in> set (?flt x). 32 \<le> c \<and> c < 127"
    using assms(1) by (force simp: float_codec_def number_cp_def)
  then have "\<forall>d \<in> set (json_compact ?flt (canon_json (JObj p))). 32 \<le> d \<and> d < 127"
    by (rule json_write_cps) (use ascii_printable in \<open>auto simp: u.simps\<close>)
  ultimately show ?thesis by (simp only: payload_text_def)
qed

subsection \<open>The SQLite store\<close>

type_synonym text_table = "(pystr \<times> real option) dict"

definition sqlite_text_get ::
  "(pystr \<Rightarrow> real option) \<Rightarrow> clock \<Rightarrow> pystr \<Rightarrow> text_table \<Rightarrow> (exc + json option) \<times> text_table" where
  "sqlite_text_get rd clk session_id t =
     (case map_of t session_id of
        None \<Rightarrow> (Inr None, t)
      | Some (text, expires_at) \<Rightarrow>
          if \<not> live_at (fst clk) expires_at then (Inr None, AList.delete session_id t)
          else (bind_exc (json_loads rd text) (\<lambda>j. Inr (Some j)), t))"

definition sqlite_text_set ::
  "(real \<Rightarrow> pystr) \<Rightarrow> clock \<Rightarrow> pystr \<Rightarrow> payload \<Rightarrow> real option \<Rightarrow> text_table \<Rightarrow> text_table" where
  "sqlite_text_set flt clk session_id data ttl_seconds t =
     (let expires_at = (case ttl_seconds of None \<Rightarrow> None | Some s \<Rightarrow> Some (fst clk + s))
      in AList.update session_id (payload_text flt data, expires_at) t)"

definition sqlite_text_delete :: "pystr \<Rightarrow> text_table \<Rightarrow> text_table" where
  "sqlite_text_delete session_id t = AList.delete session_id t"

text \<open>The table of values a table of texts stands for, and the tables whose texts are JSON objects.\<close>

definition row_payload :: "(pystr \<Rightarrow> real option) \<Rightarrow> pystr \<Rightarrow> payload" where
  "row_payload rd text = (case json_read rd text of Some (JObj d) \<Rightarrow> d | _ \<Rightarrow> [])"

definition row_values :: "(pystr \<Rightarrow> real option) \<Rightarrow> text_table \<Rightarrow> sqlite_table" where
  "row_values rd t = map (\<lambda>(k, (text, e)). (k, (row_payload rd text, e))) t"

definition text_inv :: "(pystr \<Rightarrow> real option) \<Rightarrow> text_table \<Rightarrow> bool" where
  "text_inv rd t \<longleftrightarrow> (\<forall>r \<in> set t. \<exists>d. json_read rd (fst (snd r)) = Some (JObj d))"

lemma map_of_row_values: "map_of (row_values rd t) k = map_option (\<lambda>(text, e). (row_payload rd text, e)) (map_of t k)"
  by (induction t) (auto simp: row_values_def)

lemma row_values_update:
  "row_values rd (AList.update k (text, e) t) = AList.update k (row_payload rd text, e) (row_values rd t)"
  by (induction t) (auto simp: row_values_def)

lemma row_values_delete: "row_values rd (AList.delete k t) = AList.delete k (row_values rd t)"
  by (induction t) (auto simp: row_values_def)

lemma text_inv_delete: "text_inv rd t \<Longrightarrow> text_inv rd (AList.delete k t)"
  by (auto simp: text_inv_def AList.delete_eq)

text \<open>C35: What the SQLite store writes is what the page helpers are proved against. On a table whose rows are JSON objects, reading,
  writing and deleting through text is reading, writing and deleting of values with sorted members, for every
  payload whose floats read back as printed and whose strings have no lone surrogates, and such a table stays one.\<close>

theorem sqlite_text_refines:
  assumes "text_inv rd t" and "float_codec okf flt rd" and "json_ok okf scalar_cp (JObj data)"
  shows "text_inv rd (sqlite_text_set flt clk sid data ttl t) \<and> text_inv rd (snd (sqlite_text_get rd clk sid t)) \<and>
    text_inv rd (sqlite_text_delete sid t) \<and>
    row_values rd (sqlite_text_set flt clk sid data ttl t) = sqlite_set clk sid data ttl (row_values rd t) \<and>
    (case sqlite_get clk sid (row_values rd t) of (found, t') \<Rightarrow>
       fst (sqlite_text_get rd clk sid t) = Inr (map_option JObj found) \<and> row_values rd (snd (sqlite_text_get rd clk sid t)) = t') \<and>
    row_values rd (sqlite_text_delete sid t) = sqlite_delete sid (row_values rd t)"
proof -
  note reads = payload_text_reads [OF assms(2,3)]
  have "text_inv rd (sqlite_text_set flt clk sid data ttl t)"
    using assms(1) reads set_update_subset [of sid _ t] by (fastforce simp: text_inv_def sqlite_text_set_def Let_def)
  moreover have "text_inv rd (snd (sqlite_text_get rd clk sid t))"
    using assms(1) text_inv_delete by (auto simp: sqlite_text_get_def split: option.split)
  moreover have "row_values rd (sqlite_text_set flt clk sid data ttl t) = sqlite_set clk sid data ttl (row_values rd t)"
    using reads by (simp add: sqlite_text_set_def sqlite_set_def row_values_update row_payload_def Let_def)
  moreover have "json_loads rd (fst r) = Inr (JObj (row_payload rd (fst r)))" if row: "map_of t sid = Some r" for r
  proof -
    obtain d where "json_read rd (fst r) = Some (JObj d)" using assms(1) map_of_SomeD [OF row] by (force simp: text_inv_def)
    then show ?thesis by (simp add: json_loads_def row_payload_def)
  qed
  then have "case sqlite_get clk sid (row_values rd t) of (found, t') \<Rightarrow>
       fst (sqlite_text_get rd clk sid t) = Inr (map_option JObj found) \<and> row_values rd (snd (sqlite_text_get rd clk sid t)) = t'"
    by (auto simp: sqlite_text_get_def sqlite_get_def map_of_row_values row_values_delete split: option.split)
  ultimately show ?thesis
    using text_inv_delete [OF assms(1)] by (simp add: sqlite_text_delete_def sqlite_delete_def row_values_delete)
qed

definition accented :: payload where
  "accented = [(u ''n'', JStr [233, 128512]), (u ''a'', JFloat (1 / 2))]"

lemma accented_ok: "json_ok (\<lambda>x. x = 1 / 2) scalar_cp (JObj accented)"
  by (simp add: accented_def scalar_cp_def u.simps)

theorem sqlite_text_refines_witness:
  "fst (sqlite_text_get half_read (1, 1) (u ''s'') (sqlite_text_set half_text (0, 0) (u ''s'') accented (Some 5) [])) =
     Inr (Some (JObj [(u ''a'', JFloat (1 / 2)), (u ''n'', JStr [233, 128512])]))"
proof -
  have inv: "text_inv half_read []" by (simp add: text_inv_def)
  let ?t = "sqlite_text_set half_text (0, 0) (u ''s'') accented (Some 5) []"
  have "text_inv half_read ?t" "row_values half_read ?t = sqlite_set (0, 0) (u ''s'') accented (Some 5) []"
    using sqlite_text_refines [OF inv half_codec accented_ok, of "(0, 0)" "u ''s''" "Some 5"] by (simp_all add: row_values_def)
  moreover have "canon accented = [(u ''a'', JFloat (1 / 2)), (u ''n'', JStr [233, 128512])]"
    by (simp add: canon_def accented_def u.simps)
  ultimately show ?thesis
    using sqlite_text_refines [OF _ half_codec accented_ok, of ?t "(1, 1)" "u ''s''" None]
    by (simp add: sqlite_set_def sqlite_get_def live_at_def)
qed

subsection \<open>UTF-8 read back\<close>

text \<open>\<open>bytes.decode("utf-8")\<close>: overlong forms, surrogates and what is beyond the last code point are errors.\<close>

definition utf8_cont :: "nat \<Rightarrow> bool" where
  "utf8_cont b \<longleftrightarrow> 128 \<le> b \<and> b < 192"

definition utf8_head :: "nat list \<Rightarrow> (nat \<times> nat list) option" where
  "utf8_head bs =
     (case bs of
        [] \<Rightarrow> None
      | a # as \<Rightarrow>
          if a < 128 then Some (a, as)
          else (case as of
             [] \<Rightarrow> None
           | b # bs \<Rightarrow>
               if \<not> utf8_cont b then None
               else if 194 \<le> a \<and> a < 224 then Some ((a - 192) * 64 + (b - 128), bs)
               else (case bs of
                  [] \<Rightarrow> None
                | c # cs \<Rightarrow>
                    if \<not> utf8_cont c then None
                    else if 224 \<le> a \<and> a < 240
                    then (let cp = (a - 224) * 4096 + (b - 128) * 64 + (c - 128)
                          in if 2048 \<le> cp \<and> scalar_cp cp then Some (cp, cs) else None)
                    else (case cs of
                       [] \<Rightarrow> None
                     | d # ds \<Rightarrow>
                         let cp = (a - 240) * 262144 + (b - 128) * 4096 + (c - 128) * 64 + (d - 128)
                         in if utf8_cont d \<and> 240 \<le> a \<and> 65536 \<le> cp \<and> scalar_cp cp then Some (cp, ds) else None))))"

lemma utf8_head_shorter: "utf8_head bs = Some (c, r) \<Longrightarrow> length r < length bs"
  by (auto simp: utf8_head_def Let_def split: list.splits if_splits)

function utf8_read :: "nat list \<Rightarrow> pystr option" where
  "utf8_read bs =
     (if bs = [] then Some []
      else (case utf8_head bs of None \<Rightarrow> None | Some (c, r) \<Rightarrow> map_option ((#) c) (utf8_read r)))"
  by pat_completeness auto
termination by (relation "measure length") (auto dest: utf8_head_shorter)

declare utf8_read.simps [simp del]

definition utf8_encode :: "pystr \<Rightarrow> nat list" where
  "utf8_encode s = concat (map utf8_cp s)"

definition utf8_decode :: "nat list \<Rightarrow> exc + pystr" where
  "utf8_decode bs = (case utf8_read bs of None \<Rightarrow> Inl (OtherError (u ''UnicodeDecodeError'')) | Some s \<Rightarrow> Inr s)"

lemma base64_digits: "(c div 64) * 64 + c mod 64 = (c :: nat)" "(c div 4096) * 4096 + (c div 64 mod 64) * 64 + c mod 64 = (c :: nat)"
  "(c div 262144) * 262144 + (c div 4096 mod 64) * 4096 + (c div 64 mod 64) * 64 + c mod 64 = (c :: nat)"
proof -
  have d: "c div 4096 = c div 64 div 64" "c div 262144 = c div 64 div 64 div 64" by (simp_all add: div_mult2_eq [symmetric])
  have split: "n = n div 64 * 64 + n mod 64" for n :: nat by simp
  show "(c div 64) * 64 + c mod 64 = c" by simp
  show "(c div 4096) * 4096 + (c div 64 mod 64) * 64 + c mod 64 = c" unfolding d using split [of c] split [of "c div 64"] by linarith
  show "(c div 262144) * 262144 + (c div 4096 mod 64) * 4096 + (c div 64 mod 64) * 64 + c mod 64 = c"
    unfolding d using split [of c] split [of "c div 64"] split [of "c div 64 div 64"] by linarith
qed

lemma utf8_head_long:
  assumes "x < 64" and "y < 64" and "z < 64"
  shows "2 \<le> n \<Longrightarrow> n < 32 \<Longrightarrow> utf8_head ((192 + n) # (128 + x) # r) = Some (n * 64 + x, r)"
    and "n < 16 \<Longrightarrow> cp = n * 4096 + x * 64 + y \<Longrightarrow> 2048 \<le> cp \<Longrightarrow> scalar_cp cp \<Longrightarrow>
      utf8_head ((224 + n) # (128 + x) # (128 + y) # r) = Some (cp, r)"
    and "cp = n * 262144 + x * 4096 + y * 64 + z \<Longrightarrow> 65536 \<le> cp \<Longrightarrow> scalar_cp cp \<Longrightarrow>
      utf8_head ((240 + n) # (128 + x) # (128 + y) # (128 + z) # r) = Some (cp, r)"
  using assms by (simp_all add: utf8_head_def utf8_cont_def Let_def)

lemma utf8_head_cp:
  assumes "scalar_cp c"
  shows "utf8_head (utf8_cp c @ r) = Some (c, r)"
proof -
  have m: "n mod 64 < 64" for n :: nat by simp
  consider "c < 128" | "128 \<le> c" "c < 2048" | "2048 \<le> c" "c < 65536" | "65536 \<le> c" by linarith
  then show ?thesis
  proof cases
    case 1
    then show ?thesis by (simp add: utf8_head_def utf8_cp_def)
  next
    case 2
    then have "2 \<le> c div 64" "c div 64 < 32" by (simp_all add: less_eq_div_iff_mult_less_eq div_less_iff_less_mult)
    with utf8_head_long(1) [OF m m m this] 2 show ?thesis by (simp add: utf8_cp_def)
  next
    case 3
    then have "c div 4096 < 16" by (simp add: div_less_iff_less_mult)
    from utf8_head_long(2) [OF m m m this base64_digits(2) [symmetric] 3(1) assms] 3 show ?thesis by (simp add: utf8_cp_def)
  next
    case 4
    from utf8_head_long(3) [OF m m m base64_digits(3) [symmetric] 4 assms] 4 show ?thesis by (simp add: utf8_cp_def)
  qed
qed

lemma utf8_read_encode: "list_all scalar_cp s \<Longrightarrow> utf8_read (utf8_encode s) = Some s"
proof (induction s)
  case (Cons c s)
  have "utf8_cp c \<noteq> []" by (simp add: utf8_cp_def)
  with Cons show ?case
    by (subst utf8_read.simps) (simp add: utf8_encode_def utf8_head_cp)
qed (simp add: utf8_encode_def utf8_read.simps)

subsection \<open>The Redis store\<close>

datatype redis_raw = RawText pystr | RawBytes "nat list"

record 'r redis_client =
  rd_get :: "real \<Rightarrow> pystr \<Rightarrow> 'r \<Rightarrow> redis_raw option"
  rd_set :: "real \<Rightarrow> pystr \<Rightarrow> pystr \<Rightarrow> 'r \<Rightarrow> 'r"
  rd_setex :: "real \<Rightarrow> pystr \<Rightarrow> int \<Rightarrow> pystr \<Rightarrow> 'r \<Rightarrow> exc + 'r"
  rd_delete :: "pystr \<Rightarrow> 'r \<Rightarrow> 'r"

record 'r redis_store =
  rs_client :: "'r redis_client"
  rs_prefix :: pystr

definition redis_key :: "'r redis_store \<Rightarrow> pystr \<Rightarrow> pystr" where
  "redis_key store session_id = rs_prefix store @ session_id"

definition raw_text :: "redis_raw \<Rightarrow> exc + pystr" where
  "raw_text raw = (case raw of RawBytes b \<Rightarrow> utf8_decode b | RawText s \<Rightarrow> Inr s)"

definition redis_get :: "'r redis_store \<Rightarrow> (pystr \<Rightarrow> real option) \<Rightarrow> real \<Rightarrow> pystr \<Rightarrow> 'r \<Rightarrow> exc + json option" where
  "redis_get store rd now session_id s =
     (case rd_get (rs_client store) now (redis_key store session_id) s of
        None \<Rightarrow> Inr None
      | Some raw \<Rightarrow> bind_exc (raw_text raw) (\<lambda>s. bind_exc (json_loads rd s) (\<lambda>j. Inr (Some j))))"

text \<open>\<open>int\<close> of a float.\<close>

definition int_of_float :: "real \<Rightarrow> int" where
  "int_of_float x = (if 0 \<le> x then \<lfloor>x\<rfloor> else \<lceil>x\<rceil>)"

definition redis_set ::
  "'r redis_store \<Rightarrow> (real \<Rightarrow> pystr) \<Rightarrow> real \<Rightarrow> pystr \<Rightarrow> payload \<Rightarrow> real option \<Rightarrow> 'r \<Rightarrow> exc + 'r" where
  "redis_set store flt now session_id data ttl_seconds s =
     (case ttl_seconds of
        None \<Rightarrow> Inr (rd_set (rs_client store) now (redis_key store session_id) (payload_text flt data) s)
      | Some t \<Rightarrow> rd_setex (rs_client store) now (redis_key store session_id) (int_of_float t) (payload_text flt data) s)"

definition redis_delete :: "'r redis_store \<Rightarrow> pystr \<Rightarrow> 'r \<Rightarrow> 'r" where
  "redis_delete store session_id s = rd_delete (rs_client store) (redis_key store session_id) s"

text \<open>What a Redis server documents of \<open>SET\<close>, \<open>SETEX\<close> and \<open>DEL\<close>: a key written with \<open>SETEX\<close> lives the given number of
  seconds, which must be positive, and no command touches another key. A stored text comes back as text or as bytes.\<close>

definition raw_of :: "pystr \<Rightarrow> redis_raw option \<Rightarrow> bool" where
  "raw_of v answer \<longleftrightarrow> answer = Some (RawText v) \<or> answer = Some (RawBytes (utf8_encode v))"

definition redis_laws :: "'r redis_client \<Rightarrow> bool" where
  "redis_laws c \<longleftrightarrow>
     (\<forall>now now' k k' v s. now \<le> now' \<longrightarrow>
        (if k' = k then raw_of v (rd_get c now' k' (rd_set c now k v s))
         else rd_get c now' k' (rd_set c now k v s) = rd_get c now' k' s)) \<and>
     (\<forall>now k n v s. n \<le> 0 \<longrightarrow> (\<exists>e. rd_setex c now k n v s = Inl e)) \<and>
     (\<forall>now k n v s. 0 < n \<longrightarrow> (\<exists>s'. rd_setex c now k n v s = Inr s' \<and>
        (\<forall>now' k'. now \<le> now' \<longrightarrow>
           (if k' \<noteq> k then rd_get c now' k' s' = rd_get c now' k' s
            else if now' < now + of_int n then raw_of v (rd_get c now' k' s') else rd_get c now' k' s' = None)))) \<and>
     (\<forall>now k k' s. rd_get c now k' (rd_delete c k s) = (if k' = k then None else rd_get c now k' s))"

lemma redis_setex_law:
  assumes "redis_laws c" and "0 < n"
  shows "\<exists>s'. rd_setex c now k n v s = Inr s' \<and> (\<forall>now' k'. now \<le> now' \<longrightarrow>
     (if k' \<noteq> k then rd_get c now' k' s' = rd_get c now' k' s
      else if now' < now + of_int n then raw_of v (rd_get c now' k' s') else rd_get c now' k' s' = None))"
  using assms(2) conjunct1 [OF conjunct2 [OF conjunct2 [OF assms(1) [unfolded redis_laws_def]]]] by presburger

lemma redis_set_law: "redis_laws c \<Longrightarrow> now \<le> now' \<Longrightarrow> raw_of v (rd_get c now' k (rd_set c now k v s))"
  unfolding redis_laws_def by presburger

lemma redis_get_payload:
  assumes "float_codec okf flt rd" and "json_ok okf scalar_cp (JObj data)"
    and "raw_of (payload_text flt data) (rd_get (rs_client store) now (redis_key store sid) s)"
  shows "redis_get store rd now sid s = Inr (Some (JObj (canon data)))"
proof -
  have "list_all scalar_cp (payload_text flt data)"
    using payload_text_ascii [OF assms(1,2)] unfolding list_all_iff by (force simp only: scalar_cp_def)
  then have "utf8_decode (utf8_encode (payload_text flt data)) = Inr (payload_text flt data)"
    by (simp add: utf8_decode_def utf8_read_encode)
  then show ?thesis
    using assms(3) payload_text_reads [OF assms(1,2)]
    by (auto simp: raw_of_def redis_get_def raw_text_def json_loads_def)
qed

text \<open>The Redis store keeps a session for the whole seconds of its time to live only: up to a second less than it was given,
  and with less than one second writing it raises, as it does with a time to live of 0, which the in-memory store
  takes for none. What is stored reads back with sorted members, other sessions are not touched.\<close>

theorem redis_store_whole_seconds:
  assumes "redis_laws (rs_client store)" and "now \<le> now'" and "float_codec okf flt rd" and "json_ok okf scalar_cp (JObj data)"
  shows "(t < 1 \<longrightarrow> (\<exists>e. redis_set store flt now sid data (Some t) s = Inl e)) \<and>
    (1 \<le> t \<longrightarrow> (\<exists>s'. redis_set store flt now sid data (Some t) s = Inr s' \<and>
       redis_get store rd now' sid' s' =
         (if sid' = sid then Inr (if now' < now + of_int \<lfloor>t\<rfloor> then Some (JObj (canon data)) else None)
          else redis_get store rd now' sid' s) \<and>
       redis_get store rd now' sid (redis_delete store sid s') = Inr None)) \<and>
    (\<exists>s'. redis_set store flt now sid data None s = Inr s' \<and> redis_get store rd now' sid s' = Inr (Some (JObj (canon data))))"
proof -
  let ?c = "rs_client store" and ?k = "redis_key store"
  have key: "?k a = ?k b \<longleftrightarrow> a = b" for a b by (simp add: redis_key_def)
  have small: "int_of_float t \<le> 0" if "t < 1"
    using that by (auto simp: int_of_float_def floor_le_iff ceiling_le_iff)
  have big: "int_of_float t = \<lfloor>t\<rfloor>" "0 < \<lfloor>t\<rfloor>" if "1 \<le> t" using that by (auto simp: int_of_float_def)
  have "\<exists>e. redis_set store flt now sid data (Some t) s = Inl e" if "t < 1"
    using assms(1) small [OF that] by (simp add: redis_laws_def redis_set_def)
  moreover have "\<exists>s'. redis_set store flt now sid data (Some t) s = Inr s' \<and>
       redis_get store rd now' sid' s' =
         (if sid' = sid then Inr (if now' < now + of_int \<lfloor>t\<rfloor> then Some (JObj (canon data)) else None)
          else redis_get store rd now' sid' s) \<and>
       redis_get store rd now' sid (redis_delete store sid s') = Inr None" if one: "1 \<le> t"
  proof -
    obtain s' where s': "rd_setex ?c now (?k sid) \<lfloor>t\<rfloor> (payload_text flt data) s = Inr s'"
      "\<forall>now' k'. now \<le> now' \<longrightarrow>
         (if k' \<noteq> ?k sid then rd_get ?c now' k' s' = rd_get ?c now' k' s
          else if now' < now + of_int \<lfloor>t\<rfloor> then raw_of (payload_text flt data) (rd_get ?c now' k' s') else rd_get ?c now' k' s' = None)"
      using redis_setex_law [OF assms(1) big(2) [OF one]] by blast
    have "redis_get store rd now' sid s' = Inr (if now' < now + of_int \<lfloor>t\<rfloor> then Some (JObj (canon data)) else None)"
    proof (cases "now' < now + of_int \<lfloor>t\<rfloor>")
      case True
      with s'(2) assms(2) have "raw_of (payload_text flt data) (rd_get ?c now' (?k sid) s')" by presburger
      from redis_get_payload [OF assms(3,4) this] True show ?thesis by simp
    next
      case False
      with s'(2) assms(2) have "rd_get ?c now' (?k sid) s' = None" by presburger
      with False show ?thesis by (simp add: redis_get_def)
    qed
    moreover have "redis_get store rd now' sid' s' = redis_get store rd now' sid' s" if "sid' \<noteq> sid"
    proof -
      have "rd_get ?c now' (?k sid') s' = rd_get ?c now' (?k sid') s" using s'(2) assms(2) key [of sid' sid] that by presburger
      then show ?thesis by (simp add: redis_get_def)
    qed
    moreover have "rd_get ?c now' (?k sid) (rd_delete ?c (?k sid) s') = None" using assms(1) by (simp add: redis_laws_def)
    then have "redis_get store rd now' sid (redis_delete store sid s') = Inr None" by (simp add: redis_get_def redis_delete_def)
    ultimately show ?thesis using s'(1) by (simp add: redis_set_def big(1) [OF one])
  qed
  moreover have "\<exists>s'. redis_set store flt now sid data None s = Inr s' \<and> redis_get store rd now' sid s' = Inr (Some (JObj (canon data)))"
    using redis_get_payload [OF assms(3,4) redis_set_law [OF assms(1,2)]] by (simp add: redis_set_def)
  ultimately show ?thesis by blast
qed

text \<open>A server that keeps keys with their deadlines and a client that answers with bytes.\<close>

definition redis_server :: "(pystr \<Rightarrow> (pystr \<times> real option) option) redis_client" where
  "redis_server = \<lparr>rd_get = (\<lambda>now k s. case s k of None \<Rightarrow> None | Some (v, d) \<Rightarrow> if live_at now d then Some (RawBytes (utf8_encode v)) else None),
     rd_set = (\<lambda>now k v s. s(k \<mapsto> (v, None))),
     rd_setex = (\<lambda>now k n v s. if n \<le> 0 then Inl (OtherError (u ''ResponseError'')) else Inr (s(k \<mapsto> (v, Some (now + of_int n))))),
     rd_delete = (\<lambda>k s. s(k := None))\<rparr>"

lemma redis_server_laws: "redis_laws redis_server"
  by (auto simp: redis_laws_def redis_server_def live_at_def raw_of_def)

theorem redis_store_whole_seconds_witness:
  "\<exists>s' e. redis_set \<lparr>rs_client = redis_server, rs_prefix = u ''fluxlit:sid:''\<rparr> half_text 0 (u ''s'') accented (Some (3 / 2)) Map.empty = Inr s' \<and>
     redis_get \<lparr>rs_client = redis_server, rs_prefix = u ''fluxlit:sid:''\<rparr> half_read 1 (u ''s'') s' = Inr None \<and>
     redis_set \<lparr>rs_client = redis_server, rs_prefix = u ''fluxlit:sid:''\<rparr> half_text 0 (u ''s'') accented (Some (1 / 2)) Map.empty = Inl e"
proof -
  let ?st = "\<lparr>rs_client = redis_server, rs_prefix = u ''fluxlit:sid:''\<rparr>"
  have l: "redis_laws (rs_client ?st)" by (simp add: redis_server_laws)
  have f: "\<lfloor>3 / 2 :: real\<rfloor> = 1" by (simp add: floor_eq_iff)
  show ?thesis
    using redis_store_whole_seconds [OF l _ half_codec accented_ok, of 0 1 "3 / 2" "u ''s''" Map.empty "u ''s''"]
      redis_store_whole_seconds [OF l _ half_codec accented_ok, of 0 1 "1 / 2" "u ''s''" Map.empty "u ''s''"]
    by (auto simp: f)
qed

end
