(* ===== verification/Report_Output.thy ===== *)
theory Report_Output
  imports Verbose_Report Import_Target Page_Tools
begin

section \<open>What doctor and config print\<close>

text \<open>
  Models the commands \<open>doctor\<close>, \<open>config\<close> and \<open>pages manifest\<close> of \<open>cli.py\<close> from the loaded application to the printed
  lines and the exit code: the explanation of every row of \<open>_doctor_collect\<close>, the messages and documentation links of the warnings of
  \<open>config/config_print.py\<close>, the JSON form and the form for humans. A list of lines is what \<open>typer.echo\<close> was called with;
  texts that come from outside (versions, exception messages, file names) are the record \<open>doctor_texts\<close>. An exception
  on the way is \<open>Inl\<close>, whatever was printed before it.
\<close>

subsection \<open>Explanations of the doctor\<close>

record doctor_texts =
  dt_python :: pystr
  dt_sys_path :: "pystr list"
  dt_candidates :: "pystr list"
  dt_module_file :: pystr
  dt_import_error :: pystr
  dt_deps_error :: pystr
  dt_streamlit :: pystr
  dt_bind_error :: pystr
  dt_connect_error :: "pystr \<Rightarrow> nat \<Rightarrow> pystr"

definition bool_text :: "bool \<Rightarrow> pystr" where
  "bool_text b = (if b then u ''True'' else u ''False'')"

definition or_empty :: "pystr \<Rightarrow> pystr" where
  "or_empty s = or_str s (u ''(empty)'')"

definition shadowing_message :: "(nat \<Rightarrow> bool) \<Rightarrow> pystr \<Rightarrow> pystr list \<Rightarrow> pystr" where
  "shadowing_message printable target candidates =
     (let name = repr_str printable (fst (partition_str target (u '':'')))
      in case candidates of
           [] \<Rightarrow> u ''no top-level file/package candidates for '' @ name
         | [c] \<Rightarrow> name @ u '' resolves from '' @ c
         | _ \<Rightarrow> u ''multiple import candidates for '' @ name @ u '': '' @ join_with (u '', '') (take 4 candidates) @
                (if length candidates > 4 then u '' (+'' @ str_of_nat (length candidates - 4) @ u '' more)'' else []) @
                u ''; run from the intended project root or trim PYTHONPATH'')"

definition environment_messages ::
  "(nat \<Rightarrow> bool) \<Rightarrow> doctor_world \<Rightarrow> doctor_texts \<Rightarrow> pystr \<Rightarrow> status \<Rightarrow> pystr dict" where
  "environment_messages printable w tx target st =
     [(u ''python_version'', dt_python tx),
      (u ''sys_path_head'', or_empty (join_with (u '', '') (map (\<lambda>p. or_str p (u ''.'')) (take 3 (dt_sys_path tx))))),
      (u ''import_shadowing'', shadowing_message printable target (dt_candidates tx)),
      (u ''import_target'', if st = PASS then target else dt_import_error tx),
      (u ''import_module_file'', or_str (dt_module_file tx) (u ''(not available)'')),
      (u ''dependencies'', if st = PASS then u ''fastapi, streamlit, uvicorn, httpx importable'' else dt_deps_error tx),
      (u ''streamlit_version'', if st = PASS \<or> dw_streamlit w = None then dt_streamlit tx
         else dt_streamlit tx @ u '' (fluxlit declares streamlit>=1.36; upgrade recommended)''),
      (u ''jwt_clock_skew'', if st = PASS then u ''no JWT/OIDC FLUXLIT_* env vars detected''
         else u ''JWT/OIDC env detected '' @ [8212] @ u '' synchronize clocks (NTP); validation uses exp/nbf.''),
      (u ''fluxlit_auth_extra'', if st = PASS then u ''PyJWT importable (fluxlit[auth])''
         else u ''JWT/OIDC env vars set but PyJWT is missing; pip install '' @ [39] @ u ''fluxlit[auth]'' @ [39]),
      (u ''fluxlit_metrics_extra'', if st = PASS then u ''prometheus-client importable''
         else u ''Prometheus metrics enabled but prometheus-client is missing; pip install '' @ [39] @ u ''fluxlit[metrics]'' @ [39])]"

definition url_path_of :: "pystr \<Rightarrow> pystr \<Rightarrow> pystr" where
  "url_path_of url fallback = (case urlparse url of Inl e \<Rightarrow> [] | Inr p \<Rightarrow> rstrip_slash (or_str (u_path p) fallback))"

definition internal_base_message :: "(nat \<Rightarrow> bool) \<Rightarrow> doctor_world \<Rightarrow> status \<Rightarrow> pystr" where
  "internal_base_message printable w st =
     (let internal = ambient_base (dw_environ w)
      in if internal = [] then u ''unset (normal when not inside Streamlit subprocess)''
         else if st = FAIL then u ''not a valid absolute URL''
         else (case dw_load w of
             Inl e \<Rightarrow> u ''set (import failed; path not compared to api_mount_path)''
           | Inr fs \<Rightarrow>
               if st = PASS then u ''set and matches api_mount_path''
               else u ''path '' @ repr_str printable (url_path_of internal [slash]) @ u '' should match api_mount_path '' @
                    repr_str printable (rstrip_slash (fs_api_mount_path fs))))"

text \<open>\<open>_tcp_url_reachable\<close>'s second result.\<close>

definition reachable_message :: "doctor_world \<Rightarrow> doctor_texts \<Rightarrow> pystr \<Rightarrow> pystr" where
  "reachable_message w tx url =
     (case urlparse url of
        Inl e \<Rightarrow> []
      | Inr p \<Rightarrow>
          if u_scheme p \<notin> {u ''http'', u ''https''} \<or> opt_str (url_hostname p) = [] then u ''not a valid http(s) URL''
          else (case url_port p of
              Inl e \<Rightarrow> []
            | Inr port \<Rightarrow>
                (let host = opt_str (url_hostname p); fallback = (if u_scheme p = u ''https'' then 443 else 80);
                     n = (case port of None \<Rightarrow> fallback | Some n \<Rightarrow> if n = 0 then fallback else n);
                     address = host @ u '':'' @ str_of_nat n
                 in if dw_connects w host n then address @ u '' reachable''
                    else address @ u '' unreachable ('' @ dt_connect_error tx host n @ u '')'')))"

definition upstream_message :: "doctor_world \<Rightarrow> doctor_texts \<Rightarrow> pystr" where
  "upstream_message w tx =
     (let file = strip (opt_str (map_of (dw_environ w) upstream_file_env)); shown = path_str (path_of file)
      in if file = [] then reachable_message w tx (strip (opt_str (map_of (dw_environ w) upstream_env)))
         else (case map_of (dw_files w) file of
             None \<Rightarrow> u ''state file missing: '' @ shown
           | Some content \<Rightarrow>
               if strip content = [] then u ''state file is empty: '' @ shown else reachable_message w tx (strip content)))"

definition public_url_message :: "(nat \<Rightarrow> bool) \<Rightarrow> fluxlit_settings \<Rightarrow> status \<Rightarrow> pystr" where
  "public_url_message printable fs st =
     (let pb = strip (fs_public_base_url fs); root = rstrip_slash (public_mount_path fs); public_path = url_path_of pb []
      in if root \<noteq> [] \<and> public_path \<noteq> [] \<and> public_path \<noteq> root
         then u ''path '' @ repr_str printable public_path @ u '' does not match public mount '' @ repr_str printable root
         else if st = PASS then pb else u ''not a valid absolute URL'')"

definition names_repr :: "(nat \<Rightarrow> bool) \<Rightarrow> pystr list \<Rightarrow> pystr" where
  "names_repr printable names = u ''['' @ join_with (u '', '') (map (repr_str printable) names) @ u '']''"

definition settings_messages ::
  "(nat \<Rightarrow> bool) \<Rightarrow> (real \<Rightarrow> pystr) \<Rightarrow> doctor_world \<Rightarrow> doctor_texts \<Rightarrow> project_config option \<Rightarrow> fluxlit_settings \<Rightarrow> status \<Rightarrow>
     pystr dict" where
  "settings_messages printable flt w tx pc fs st =
     (let env = dw_environ w; (host, port, lvl) = resolve_binding None None None pc (fs_gateway_host fs) (fs_gateway_port fs) (fs_log_level fs);
          fluxlit_public = strip (opt_str (map_of env (u ''FLUXLIT_PUBLIC_BASE_URL'')))
      in [(u ''gateway_bind'', if st = PASS then host @ u '':'' @ str_of_int port @ u '' is available'' else dt_bind_error tx),
          (u ''config.api_mount_path'', fs_api_mount_path fs),
          (u ''config.url_session'', u ''param='' @ repr_str printable (fs_url_session_query_param fs) @
             u ''; tests='' @ bool_text (opt_str (map_of env (u ''FLUXLIT_TESTS'')) \<noteq> []) @
             u ''; disabled='' @ bool_text (opt_str (map_of env (u ''FLUXLIT_DISABLE_URL_SESSION'')) \<noteq> [])),
          (u ''config.root_path'', or_empty (fs_root_path fs)),
          (u ''config.trust_proxy'', bool_text (fs_trust_proxy fs)),
          (u ''config.public_base_url'', or_empty (strip (fs_public_base_url fs))),
          (u ''public_base_url_precedence'',
             if st \<noteq> PASS then u ''PUBLIC_BASE_URL and FLUXLIT_PUBLIC_BASE_URL differ; FluxLit uses FLUXLIT_PUBLIC_BASE_URL''
             else if fluxlit_public \<noteq> [] then u ''using FLUXLIT_PUBLIC_BASE_URL'' else u ''using PUBLIC_BASE_URL fallback''),
          (u ''oauth_public_base_url'', u ''subpath set but public_base_url empty '' @ [8212] @
             u '' set FLUXLIT_PUBLIC_BASE_URL for correct OAuth redirect_uri behind a reverse proxy (see docs/configuration.html)''),
          (u ''proxy_headers'', if st = PASS then u ''trust_proxy enabled for subpath deployment''
             else u ''subpath/root_path set but trust_proxy false '' @ [8212] @
               u '' behind Posit Connect/nginx set FLUXLIT_TRUST_PROXY=1 or pass --proxy-headers''),
          (u ''forwarded_allow_ips'', if st = PASS then strip (opt_str (fs_forwarded_allow_ips fs))
             else u ''trust_proxy enabled but forwarded_allow_ips is broad; set FLUXLIT_FORWARDED_ALLOW_IPS to your proxy IP/CIDR in production''),
          (u ''gateway_max_proxy_body'', u ''trust_proxy enabled but gateway_max_proxy_request_body_bytes is 0 (unlimited); '' @
             u ''set FLUXLIT_GATEWAY_MAX_PROXY_REQUEST_BODY_BYTES for production''),
          (u ''public_base_url'', public_url_message printable fs st),
          (u ''readiness_route'', u ''Streamlit readiness probe: GET '' @ rstrip_slash (fs_api_mount_path fs) @ u ''/readyz (hidden from OpenAPI)''),
          (u ''l7_websocket'', u ''Ensure L7 proxies allow Upgrade/WebSocket for /_stcore/* (see docs/runbooks.md)''),
          (u ''gateway_upstream_timeouts'',
             if st = PASS then u ''HTTP read timeout='' @ flt (fs_gateway_upstream_read_timeout_s fs) @ u ''s; ws_open='' @
               flt (fs_gateway_ws_open_timeout_s fs) @ u ''s''
             else u ''gateway_upstream_read_timeout_s is very low; long Streamlit responses may fail''),
          (u ''async_depends_streamlit'',
             if st = PASS then u ''async page Depends disabled (FLUXLIT_ASYNC_PAGE_DEPENDS unset)''
             else u ''Async Depends enabled '' @ [8212] @ u '' deps may run on an isolated thread loop; '' @
               u ''avoid thread-unsafe globals (docs/streamlit-pages-typing.html)''),
          (u ''gateway_forward_client_headers'',
             if st = PASS then u ''no browser'' @ [8594] @ u ''Streamlit HTTP header forwarding (default); '' @
               u ''set_page_header_context / set_page_cookie_context for explicit injection''
             else str_of_nat (length (fs_gateway_forward_client_headers_to_streamlit fs)) @
               u '' header name(s) forwarded to Streamlit HTTP '' @ [8212] @ u '' allowlist only non-secrets; see docs/configuration.html''),
          (u ''gateway_forward_rejected_names'', u ''allowlist contained rejected names '' @
             names_repr printable (fs_rejected_forward_headers fs) @ u '' '' @ [8212] @ u '' never forwarded; see docs/security.html''),
          (u ''security_headers'', u ''CORS on, security headers off '' @ [8212] @ u '' consider FLUXLIT_ENABLE_SECURITY_HEADERS=1''),
          (u ''pages_validate'', if st = PASS then u ''manifest JSON-serializable and page signature checks passed''
             else join_with (u ''; '') (dw_page_errors w)),
          (u ''experimental_yield_pages'', u ''FLUXLIT_EXPERIMENTAL_YIELD_PAGES is on '' @ [8212] @ u '' generator pages are experimental'')])"

definition doctor_message ::
  "(nat \<Rightarrow> bool) \<Rightarrow> (real \<Rightarrow> pystr) \<Rightarrow> doctor_world \<Rightarrow> doctor_texts \<Rightarrow> project_config option \<Rightarrow> pystr \<Rightarrow> doctor_row \<Rightarrow> pystr" where
  "doctor_message printable flt w tx pc target r =
     (case r of (name, st) \<Rightarrow>
        opt_str (map_of (environment_messages printable w tx target st @
            [(u ''FLUXLIT_INTERNAL_API_BASE'', internal_base_message printable w st),
             (u ''streamlit_upstream_state'', upstream_message w tx), (u ''streamlit_upstream'', upstream_message w tx)] @
            (case dw_load w of Inl e \<Rightarrow> [] | Inr fs \<Rightarrow> settings_messages printable flt w tx pc fs st)) name))"

subsection \<open>Warnings of config\<close>

definition docs_url_of :: "pystr \<Rightarrow> pystr" where
  "docs_url_of code =
     u ''https://fluxlit.readthedocs.io/en/stable/'' @
     (if code \<in> {u ''forwarded_allow_ips_broad'', u ''subpath_without_trust_proxy''} then u ''production-tls.html''
      else if code \<in> {u ''cors_without_security_headers'', u ''csp_with_security_headers'', u ''gateway_forward_blocked_names''}
      then u ''security.html'' else u ''configuration.html'')"

definition warning_messages ::
  "(nat \<Rightarrow> bool) \<Rightarrow> (pystr \<Rightarrow> ip_addr option) \<Rightarrow> pystr dict \<Rightarrow> fluxlit_settings \<Rightarrow> pystr \<Rightarrow> int \<Rightarrow> pystr dict" where
  "warning_messages printable ip_address env fs bind_host bind_port =
     [(u ''internal_api_base_invalid'', u ''FLUXLIT_INTERNAL_API_BASE is set but is not a valid absolute URL.''),
      (u ''internal_api_base_path'', u ''FLUXLIT_INTERNAL_API_BASE path '' @ repr_str printable (url_path_of (ambient_base env) [slash]) @
         u '' should match api_mount_path '' @ repr_str printable (rstrip_slash (fs_api_mount_path fs)) @
         u '' for Streamlit '' @ [8594] @ u '' API calls.''),
      (u ''internal_api_base_mismatch'', u ''FLUXLIT_INTERNAL_API_BASE differs from the URL FluxLit would derive from the resolved gateway bind ('' @
         repr_str printable (internal_api_base_url ip_address bind_host bind_port (fs_api_mount_path fs)) @
         u ''). Mismatch often breaks the injected API client in Streamlit.''),
      (u ''forwarded_allow_ips_broad'', u ''trust_proxy is enabled but forwarded_allow_ips is unset or '' @ [39, 42, 39, 32, 8212] @
         u '' restrict FLUXLIT_FORWARDED_ALLOW_IPS to your reverse proxy in production.''),
      (u ''public_base_url_invalid'', u ''public_base_url is set but is not a valid absolute URL.''),
      (u ''public_base_url_path_mismatch'', u ''public_base_url path '' @ repr_str printable (url_path_of (strip (fs_public_base_url fs)) []) @
         u '' does not match public mount '' @ repr_str printable (rstrip_slash (public_mount_path fs)) @ [32, 8212] @
         u '' OAuth redirects and absolute links may be wrong.''),
      (u ''public_base_url_missing_api_prefix'', u ''public_base_url path may omit the API mount '' @ [8212] @
         u '' browser-visible OpenAPI/docs URLs are usually under api_mount_path.''),
      (u ''oauth_public_base_url'', u ''A subpath is configured but public_base_url is empty '' @ [8212] @
         u '' set FLUXLIT_PUBLIC_BASE_URL for correct OAuth redirect_uri behind a reverse proxy.''),
      (u ''subpath_without_trust_proxy'', u ''subpath/root_path is set but trust_proxy is false '' @ [8212] @
         u '' behind Posit Connect or nginx set FLUXLIT_TRUST_PROXY=1 (or pass --proxy-headers) so forwarded host/proto are visible to the app.''),
      (u ''cors_without_security_headers'', u ''CORS is enabled but security headers are off '' @ [8212] @
         u '' consider FLUXLIT_ENABLE_SECURITY_HEADERS=1 (review CSP/HSTS vs Streamlit/WebSockets).''),
      (u ''csp_with_security_headers'', u ''Both enable_security_headers and streamlit_page_config CSP hints are set '' @ [8212] @
         u '' verify they do not break Streamlit websockets or embedded assets.''),
      (u ''gateway_forward_blocked_names'', u ''gateway_forward_client_headers_to_streamlit included names that are rejected and never forwarded: '' @
         join_with (u '', '') (fs_rejected_forward_headers fs) @ [32, 8212] @ u '' remove them; see security docs.''),
      (u ''gateway_max_body_unlimited_trust_proxy'', u ''trust_proxy is enabled but gateway_max_proxy_request_body_bytes is 0 (unlimited). '' @
         u ''Large uploads to Streamlit-proxied paths buffer in the gateway; set FLUXLIT_GATEWAY_MAX_PROXY_REQUEST_BODY_BYTES for production.''),
      (u ''project_file_mount_not_merged'', u ''fluxlit.toml / pyproject [tool.fluxlit] includes api_mount_path or root_path. '' @
         u ''These keys are parsed for tooling but are not applied to FluxLit.settings '' @ [8212] @
         u '' set FLUXLIT_API_MOUNT_PATH / FLUXLIT_ROOT_PATH (or pass FluxlitSettings(...)) so the running app matches the project file.'')]"

definition warning_entry :: "pystr dict \<Rightarrow> warning \<Rightarrow> json dict" where
  "warning_entry messages w =
     [(u ''level'', JStr (if fst w = Error then u ''error'' else u ''warn'')), (u ''code'', JStr (snd w)),
       (u ''message'', JStr (opt_str (map_of messages (snd w)))), (u ''doc'', JStr (docs_url_of (snd w)))]"

definition warning_json :: "pystr dict \<Rightarrow> warning \<Rightarrow> json" where
  "warning_json messages w = JObj (warning_entry messages w)"

definition config_payload_json :: "pystr dict \<Rightarrow> config_payload \<Rightarrow> json dict" where
  "config_payload_json messages cp =
     (case cp_binding cp of (host, port, lvl) \<Rightarrow>
        [(u ''target'', JStr (cp_target cp)),
         (u ''binding'', JObj [(u ''host'', JStr host), (u ''port'', JInt port), (u ''log_level'', JStr lvl)]),
         (u ''project_file'', (case cp_project_file cp of None \<Rightarrow> JNull | Some d \<Rightarrow> JObj d)),
         (u ''computed'', JObj [(u ''public_mount_path'', JStr (cp_public_mount_path cp)),
            (u ''derived_internal_api_base'', JStr (cp_derived_internal cp)),
            (u ''ambient_internal_api_base'', opt_json (cp_ambient_internal cp))]),
         (u ''settings'', JObj (cp_settings cp)), (u ''warnings'', JArr (map (warning_json messages) (cp_warnings cp)))])"

text \<open>The form for humans.\<close>

definition warning_lines :: "pystr dict \<Rightarrow> warning \<Rightarrow> pystr list" where
  "warning_lines messages w =
     [u ''  ['' @ (if fst w = Error then u ''ERROR'' else u ''WARN'') @ u ''] '' @ snd w @ u '': '' @ opt_str (map_of messages (snd w)),
      u ''         Docs: '' @ docs_url_of (snd w)]"

definition config_lines :: "(real \<Rightarrow> pystr) \<Rightarrow> pystr dict \<Rightarrow> config_payload \<Rightarrow> pystr list" where
  "config_lines flt messages cp =
     (case cp_binding cp of (host, port, lvl) \<Rightarrow>
        [u ''FluxLit effective configuration'', [], u ''  target: '' @ cp_target cp,
         u ''  binding (resolved): host='' @ host @ u '' port='' @ str_of_int port @ u '' log_level='' @ lvl,
         u ''  public_mount_path: '' @ or_empty (cp_public_mount_path cp),
         u ''  derived_internal_api_base: '' @ cp_derived_internal cp] @
        (case cp_ambient_internal cp of None \<Rightarrow> [] | Some s \<Rightarrow> if s = [] then [] else [u ''  FLUXLIT_INTERNAL_API_BASE: '' @ s]) @
        (case cp_project_file cp of None \<Rightarrow> []
         | Some d \<Rightarrow> if d = [] then [] else [u ''  project_file: '' @ json_dumps flt (JObj d)]) @
        (if cp_warnings cp = [] then [] else [[], u ''Warnings:''] @ concat (map (warning_lines messages) (cp_warnings cp))) @
        [[], u ''Settings (redacted, JSON):'', json_indented flt (JObj (cp_settings cp)), []])"

definition config_command ::
  "(nat \<Rightarrow> bool) \<Rightarrow> (real \<Rightarrow> pystr) \<Rightarrow> (pystr \<Rightarrow> ip_addr option) \<Rightarrow> pystr dict \<Rightarrow> (fluxlit_settings \<Rightarrow> json dict) \<Rightarrow>
     (pystr \<Rightarrow> exc + fluxlit_settings) \<Rightarrow> project_config option \<Rightarrow> pystr option \<Rightarrow> bool \<Rightarrow> bool \<Rightarrow> exc + pystr list \<times> nat" where
  "config_command printable flt ip_address env dump load pc target json_output strict =
     (let resolved = resolve_target target pc
      in bind_exc (load resolved) (\<lambda>fs.
           let (host, port, lvl) = resolve_binding None None None pc (fs_gateway_host fs) (fs_gateway_port fs) (fs_log_level fs);
               messages = warning_messages printable ip_address env fs host port
           in bind_exc (build_config_payload ip_address env dump resolved host port lvl pc fs) (\<lambda>cp.
                Inr (if json_output then [json_indented flt (JObj (config_payload_json messages cp))] else config_lines flt messages cp,
                     config_exit_code strict (cp_warnings cp)))))"

subsection \<open>The doctor's output\<close>

definition status_text :: "status \<Rightarrow> pystr" where
  "status_text st = (case st of PASS \<Rightarrow> u ''PASS'' | WARN \<Rightarrow> u ''WARN'' | FAIL \<Rightarrow> u ''FAIL'')"

definition doctor_check :: "(doctor_row \<Rightarrow> pystr) \<Rightarrow> doctor_row \<Rightarrow> json" where
  "doctor_check message r =
     JObj [(u ''name'', JStr (fst r)), (u ''status'', JStr (status_text (snd r))), (u ''detail'', JStr (message r))]"

definition doctor_payload ::
  "(doctor_row \<Rightarrow> pystr) \<Rightarrow> doctor_row list \<Rightarrow> pystr \<Rightarrow> bool \<Rightarrow> json option \<Rightarrow> json dict" where
  "doctor_payload message rows target warnings_only verbose_detail =
     [(u ''status'', JStr (doctor_status rows warnings_only)), (u ''target'', JStr target), (u ''warnings_only'', JBool warnings_only),
      (u ''checks'', JArr (map (doctor_check message) rows))] @
     (case verbose_detail of None \<Rightarrow> [] | Some d \<Rightarrow> [(u ''verbose'', d)])"

definition doctor_lines ::
  "(nat \<Rightarrow> bool) \<Rightarrow> (real \<Rightarrow> pystr) \<Rightarrow> (doctor_row \<Rightarrow> pystr) \<Rightarrow> doctor_row list \<Rightarrow> json option \<Rightarrow> exc + pystr list" where
  "doctor_lines printable flt message rows verbose_detail =
     (let report = [u ''FluxLit doctor'', []] @ map (\<lambda>r. status_text (snd r) @ u ''  '' @ fst r @ u '': '' @ message r) rows @ [[]]
      in case verbose_detail of
           None \<Rightarrow> Inr report
         | Some d \<Rightarrow> bind_exc (format_doctor_verbose_human printable flt d) (\<lambda>ls.
             Inr (report @ [u ''--- Verbose (effective configuration; secrets redacted) ---''] @ ls @ [[]])))"

record doctor_options =
  do_warnings_only :: bool
  do_json :: bool
  do_verbose :: bool
  do_check_pages :: bool
  do_strict :: bool

text \<open>The detail of \<open>--verbose\<close>.\<close>

definition verbose_detail ::
  "doctor_world \<Rightarrow> (pystr \<Rightarrow> ip_addr option) \<Rightarrow> (fluxlit_settings \<Rightarrow> json dict) \<Rightarrow> ('d handler \<Rightarrow> pystr \<times> pystr) \<Rightarrow>
     api_routes \<Rightarrow> exc + 'd fluxlit_app \<Rightarrow> pystr \<Rightarrow> project_config option \<Rightarrow> json" where
  "verbose_detail w ip_address dump names routes loaded target pc =
     (case loaded of
        Inl e \<Rightarrow> JObj [(u ''resolved_target'', JStr target), (u ''import_failed'', JBool True)]
      | Inr app \<Rightarrow>
          (let fs = fa_settings app;
               (host, port, lvl) = resolve_binding None None None pc (fs_gateway_host fs) (fs_gateway_port fs) (fs_log_level fs)
           in JObj (build_doctor_verbose_detail w ip_address dump names routes app target host port pc)))"

definition doctor_command ::
  "(nat \<Rightarrow> bool) \<Rightarrow> (real \<Rightarrow> pystr) \<Rightarrow> doctor_world \<Rightarrow> doctor_texts \<Rightarrow> (pystr \<Rightarrow> ip_addr option) \<Rightarrow> (fluxlit_settings \<Rightarrow> json dict) \<Rightarrow>
     ('d handler \<Rightarrow> pystr \<times> pystr) \<Rightarrow> api_routes \<Rightarrow> exc + 'd fluxlit_app \<Rightarrow> project_config option \<Rightarrow> pystr option \<Rightarrow>
     doctor_options \<Rightarrow> exc + pystr list \<times> nat" where
  "doctor_command printable flt w tx ip_address dump names routes loaded pc target opts =
     (let resolved = resolve_target target pc;
          w' = w\<lparr>dw_load := map_sum id fa_settings loaded, dw_candidates := length (dt_candidates tx)\<rparr>;
          message = doctor_message printable flt w' tx pc resolved;
          detail = (if do_verbose opts then Some (verbose_detail w' ip_address dump names routes loaded resolved pc) else None)
      in bind_exc (doctor_collect w' pc (do_check_pages opts \<or> do_verbose opts) (do_strict opts)) (\<lambda>rows.
         bind_exc (if do_json opts
                   then Inr [json_dumps flt (JObj (doctor_payload message rows resolved (do_warnings_only opts) detail))]
                   else doctor_lines printable flt message rows detail) (\<lambda>out.
           Inr (out, doctor_exit_code rows (do_warnings_only opts)))))"

subsection \<open>What the output is worth\<close>

text \<open>No row and no warning is printed without its explanation.\<close>

definition warning_codes :: "pystr set" where
  "warning_codes = u ` {''internal_api_base_invalid'', ''internal_api_base_path'', ''internal_api_base_mismatch'',
     ''forwarded_allow_ips_broad'', ''public_base_url_invalid'', ''public_base_url_path_mismatch'',
     ''public_base_url_missing_api_prefix'', ''oauth_public_base_url'', ''subpath_without_trust_proxy'',
     ''cors_without_security_headers'', ''csp_with_security_headers'', ''gateway_forward_blocked_names'',
     ''gateway_max_body_unlimited_trust_proxy'', ''project_file_mount_not_merged''}"

definition coded :: "warning list \<Rightarrow> bool" where
  "coded ws \<longleftrightarrow> list_all (\<lambda>w. snd w \<in> warning_codes) ws"

lemma warning_code_mem:
  "u ''internal_api_base_invalid'' \<in> warning_codes" "u ''internal_api_base_path'' \<in> warning_codes"
  "u ''internal_api_base_mismatch'' \<in> warning_codes" "u ''forwarded_allow_ips_broad'' \<in> warning_codes"
  "u ''public_base_url_invalid'' \<in> warning_codes" "u ''public_base_url_path_mismatch'' \<in> warning_codes"
  "u ''public_base_url_missing_api_prefix'' \<in> warning_codes" "u ''oauth_public_base_url'' \<in> warning_codes"
  "u ''subpath_without_trust_proxy'' \<in> warning_codes" "u ''cors_without_security_headers'' \<in> warning_codes"
  "u ''csp_with_security_headers'' \<in> warning_codes" "u ''gateway_forward_blocked_names'' \<in> warning_codes"
  "u ''gateway_max_body_unlimited_trust_proxy'' \<in> warning_codes" "u ''project_file_mount_not_merged'' \<in> warning_codes"
  unfolding warning_codes_def by (rule imageI, simp)+

lemma coded_simps:
  "coded []" "coded (a @ b) \<longleftrightarrow> coded a \<and> coded b" "coded [(l, u c)] \<longleftrightarrow> u c \<in> warning_codes"
  "u c \<in> warning_codes \<Longrightarrow> coded (warn_if p l c)"
  by (simp_all add: coded_def warn_if_def)

lemma messages_keys: "fst ` set (warning_messages printable ip env fs host port) = warning_codes"
  by (simp only: warning_messages_def warning_codes_def list.set image_insert image_empty fst_conv)

lemma warnings_coded:
  "internal_base_warnings fs i = Inr ws \<Longrightarrow> coded ws" "public_base_warnings fs = Inr ws \<Longrightarrow> coded ws"
  "coded (gateway_warnings fs)" "coded (project_file_mount_warnings pc)"
  by (auto simp: internal_base_warnings_def public_base_warnings_def gateway_warnings_def project_file_mount_warnings_def
      bind_exc_Inr_iff Let_def coded_simps warning_code_mem split: if_splits option.splits)

lemma collected_coded: "collect_configuration_warnings ip env fs host port = Inr ws \<Longrightarrow> coded ws"
  unfolding collect_configuration_warnings_def Let_def bind_exc_Inr_iff
  by (elim exE conjE Inr_inject [elim_format], hypsubst) (simp only: coded_simps warning_code_mem warnings_coded simp_thms)

lemma warnings_explained:
  assumes "build_config_payload ip env dump target host port lvl pc fs = Inr cp" and "w \<in> set (cp_warnings cp)"
  shows "map_of (warning_messages printable ip env fs host port) (snd w) \<noteq> None"
proof -
  obtain ws where ws: "collect_configuration_warnings ip env fs host port = Inr ws"
    "cp_warnings cp = project_file_mount_warnings pc @ ws"
    using assms(1) by (auto simp: build_config_payload_def bind_exc_Inr_iff)
  from collected_coded [OF ws(1)] warnings_coded(4) [of pc] have "coded (cp_warnings cp)"
    by (simp add: ws(2) coded_simps)
  then have "snd w \<in> fst ` set (warning_messages printable ip env fs host port)"
    using assms(2) unfolding messages_keys by (simp add: coded_def list_all_iff)
  then show ?thesis by (simp add: map_of_eq_None_iff)
qed

lemma warning_level:
  "map_of (warning_entry messages w) (u ''level'') = Some (JStr l) \<longleftrightarrow> l = (if fst w = Error then u ''error'' else u ''warn'')"
  by (auto simp: warning_entry_def)

lemma config_exit_from_json:
  "config_exit_code strict ws = 1 \<longleftrightarrow>
     (\<exists>d. JObj d \<in> set (map (warning_json messages) ws) \<and>
        (map_of d (u ''level'') = Some (JStr (u ''error'')) \<or> strict \<and> map_of d (u ''level'') = Some (JStr (u ''warn''))))"
proof -
  have obj: "(\<exists>d. JObj d \<in> set (map (warning_json messages) ws) \<and> P d) \<longleftrightarrow> (\<exists>w \<in> set ws. P (warning_entry messages w))" for P
    by (auto simp: warning_json_def)
  have "u ''error'' \<noteq> u ''warn''" by (simp add: u.simps)
  then have levels: "(u ''error'' = (if l = Error then u ''error'' else u ''warn'')) = (l = Error)"
      "(u ''warn'' = (if l = Error then u ''error'' else u ''warn'')) = (l = Warn)" for l
    by (cases l; simp)+
  show ?thesis
    unfolding obj warning_level levels by (auto simp: config_exit_code_def list_ex_iff)
qed

text \<open>A script can rely on \<open>fluxlit config --json\<close>. The one text it prints reads back as the payload, settings redacted; and the
  exit code, with and without \<open>--strict\<close>, is what the levels of the warnings in that text say, and the one the
  command has without \<open>--json\<close>.\<close>

theorem config_json_reads_back:
  assumes "config_command printable flt ip env dump load pc target True strict = Inr (out, code)" and "float_codec okf flt rd"
  shows "\<exists>payload ws. out = [json_indented flt (JObj payload)] \<and>
    (json_ok okf scalar_cp (JObj payload) \<longrightarrow> json_read rd (hd out) = Some (JObj payload)) \<and>
    map_of payload (u ''target'') = Some (JStr (resolve_target target pc)) \<and>
    (\<exists>fs. load (resolve_target target pc) = Inr fs \<and>
       map_of payload (u ''settings'') = Some (JObj (redact_fluxlit_settings_dict (dump fs)))) \<and>
    map_of payload (u ''warnings'') = Some (JArr ws) \<and>
    (code = 1 \<longleftrightarrow> (\<exists>d. JObj d \<in> set ws \<and> (map_of d (u ''level'') = Some (JStr (u ''error'')) \<or>
       strict \<and> map_of d (u ''level'') = Some (JStr (u ''warn''))))) \<and>
    (\<exists>lines. config_command printable flt ip env dump load pc target False strict = Inr (lines, code))"
proof -
  let ?t = "resolve_target target pc"
  obtain fs where fs: "load ?t = Inr fs" using assms(1) by (auto simp: config_command_def bind_exc_Inr_iff Let_def)
  obtain host port lvl where b: "resolve_binding None None None pc (fs_gateway_host fs) (fs_gateway_port fs) (fs_log_level fs) =
      (host, port, lvl)" by (metis prod.exhaust)
  obtain cp where cp: "build_config_payload ip env dump ?t host port lvl pc fs = Inr cp"
    and out: "out = [json_indented flt (JObj (config_payload_json (warning_messages printable ip env fs host port) cp))]"
    and code: "code = config_exit_code strict (cp_warnings cp)"
    using assms(1) by (auto simp: config_command_def bind_exc_Inr_iff Let_def fs b)
  let ?ms = "warning_messages printable ip env fs host port"
  let ?p = "config_payload_json ?ms cp"
  have "json_ok okf scalar_cp (JObj ?p) \<Longrightarrow> json_read rd (hd out) = Some (JObj ?p)"
    unfolding out list.sel by (rule json_read_indented [OF assms(2)])
  moreover have "cp_target cp = ?t" "cp_settings cp = redact_fluxlit_settings_dict (dump fs)"
    using cp by (auto simp: build_config_payload_def bind_exc_Inr_iff)
  then have "map_of ?p (u ''target'') = Some (JStr ?t)"
      "map_of ?p (u ''settings'') = Some (JObj (redact_fluxlit_settings_dict (dump fs)))"
      "map_of ?p (u ''warnings'') = Some (JArr (map (warning_json ?ms) (cp_warnings cp)))"
    by (cases "cp_binding cp"; simp add: config_payload_json_def)+
  moreover have "\<exists>lines. config_command printable flt ip env dump load pc target False strict = Inr (lines, code)"
    by (simp add: config_command_def Let_def fs b cp code)
  ultimately show ?thesis using out fs config_exit_from_json [of strict "cp_warnings cp" ?ms] unfolding code by blast
qed

definition outside_names :: "pystr set" where
  "outside_names = u ` {''python_version'', ''sys_path_head'', ''import_shadowing'', ''import_target'', ''import_module_file'',
     ''dependencies'', ''streamlit_version'', ''jwt_clock_skew'', ''fluxlit_auth_extra'', ''fluxlit_metrics_extra'',
     ''FLUXLIT_INTERNAL_API_BASE'', ''streamlit_upstream_state'', ''streamlit_upstream''}"

definition settings_names :: "pystr set" where
  "settings_names = u ` {''gateway_bind'', ''config.api_mount_path'', ''config.url_session'', ''config.root_path'', ''config.trust_proxy'',
     ''config.public_base_url'', ''public_base_url_precedence'', ''oauth_public_base_url'', ''proxy_headers'', ''forwarded_allow_ips'',
     ''gateway_max_proxy_body'', ''public_base_url'', ''readiness_route'', ''l7_websocket'', ''gateway_upstream_timeouts'',
     ''async_depends_streamlit'', ''gateway_forward_client_headers'', ''gateway_forward_rejected_names'', ''security_headers'',
     ''pages_validate'', ''experimental_yield_pages''}"

lemma outside_keys:
  "fst ` set (environment_messages printable w tx target st @ [(u ''FLUXLIT_INTERNAL_API_BASE'', a),
     (u ''streamlit_upstream_state'', b), (u ''streamlit_upstream'', c)]) = outside_names"
  by (simp only: environment_messages_def outside_names_def append.simps list.set image_insert image_empty fst_conv)

lemma settings_keys: "fst ` set (settings_messages printable flt w tx pc fs st) = settings_names"
  by (cases "resolve_binding None None None pc (fs_gateway_host fs) (fs_gateway_port fs) (fs_log_level fs)")
    (simp only: settings_messages_def settings_names_def Let_def prod.case list.set image_insert image_empty fst_conv)

definition named :: "pystr set \<Rightarrow> doctor_row list \<Rightarrow> bool" where
  "named K rows \<longleftrightarrow> list_all (\<lambda>r. fst r \<in> K) rows"

lemma named_simps:
  "named K []" "named K (a @ b) \<longleftrightarrow> named K a \<and> named K b" "named K (row n s) \<longleftrightarrow> u n \<in> K" "named K (check q n s) \<longleftrightarrow> u n \<in> K"
  "u n \<in> K \<Longrightarrow> named K (row_if q n s)" "named K (if q then xs else ys) \<longleftrightarrow> (if q then named K xs else named K ys)"
  by (simp_all add: named_def row_def check_def row_if_def)

lemma settings_name_mem:
  "u ''gateway_bind'' \<in> settings_names" "u ''config.api_mount_path'' \<in> settings_names" "u ''config.url_session'' \<in> settings_names"
  "u ''config.root_path'' \<in> settings_names" "u ''config.trust_proxy'' \<in> settings_names" "u ''config.public_base_url'' \<in> settings_names"
  "u ''public_base_url_precedence'' \<in> settings_names" "u ''oauth_public_base_url'' \<in> settings_names" "u ''proxy_headers'' \<in> settings_names"
  "u ''forwarded_allow_ips'' \<in> settings_names" "u ''gateway_max_proxy_body'' \<in> settings_names" "u ''public_base_url'' \<in> settings_names"
  "u ''readiness_route'' \<in> settings_names" "u ''l7_websocket'' \<in> settings_names" "u ''gateway_upstream_timeouts'' \<in> settings_names"
  "u ''async_depends_streamlit'' \<in> settings_names" "u ''gateway_forward_client_headers'' \<in> settings_names"
  "u ''gateway_forward_rejected_names'' \<in> settings_names" "u ''security_headers'' \<in> settings_names"
  "u ''pages_validate'' \<in> settings_names" "u ''experimental_yield_pages'' \<in> settings_names"
  unfolding settings_names_def by (rule imageI, simp)+

lemma outside_name_mem:
  "u ''python_version'' \<in> outside_names" "u ''sys_path_head'' \<in> outside_names" "u ''import_shadowing'' \<in> outside_names"
  "u ''import_target'' \<in> outside_names" "u ''import_module_file'' \<in> outside_names" "u ''dependencies'' \<in> outside_names"
  "u ''streamlit_version'' \<in> outside_names" "u ''jwt_clock_skew'' \<in> outside_names" "u ''fluxlit_auth_extra'' \<in> outside_names"
  "u ''fluxlit_metrics_extra'' \<in> outside_names" "u ''FLUXLIT_INTERNAL_API_BASE'' \<in> outside_names"
  "u ''streamlit_upstream_state'' \<in> outside_names" "u ''streamlit_upstream'' \<in> outside_names"
  unfolding outside_names_def by (rule imageI, simp)+

text \<open>The keys of a run: those of the settings only where the application was loaded.\<close>

definition known_names :: "doctor_world \<Rightarrow> pystr set" where
  "known_names w = outside_names \<union> (case dw_load w of Inl e \<Rightarrow> {} | Inr fs \<Rightarrow> settings_names)"

lemma group_names:
  "named (known_names w) (environment_rows w pc)" "named (known_names w) (extra_rows w)"
  "internal_base_rows w = Inr r1 \<Longrightarrow> named (known_names w) r1" "upstream_rows w = Inr r3 \<Longrightarrow> named (known_names w) r3"
  by (auto simp: environment_rows_def extra_rows_def internal_base_rows_def upstream_rows_def bind_exc_Inr_iff Let_def known_names_def
      named_simps outside_name_mem settings_name_mem split: sum.splits prod.splits if_splits option.splits)

lemma settings_group_names:
  "public_url_rows sv fs = Inr p \<Longrightarrow> named settings_names p" "named settings_names (precedence_rows strict env fs)"
  "named settings_names (closing_rows strict cp w fs)"
  by (auto simp: public_url_rows_def precedence_rows_def closing_rows_def bind_exc_Inr_iff Let_def named_simps settings_name_mem
      split: if_splits)

lemma settings_rows_named: "settings_rows strict env fs = Inr rows \<Longrightarrow> named settings_names rows"
  using settings_group_names(1,2)
  by (auto simp: settings_rows_def settings_row_list_def bind_exc_Inr_iff Let_def named_simps settings_name_mem)

lemma named_mono: "named A rows \<Longrightarrow> A \<subseteq> B \<Longrightarrow> named B rows"
  by (auto simp: named_def list_all_iff)

lemma rows_explained:
  assumes "doctor_collect w pc cp strict = Inr rows"
  shows "named (known_names w) rows"
proof -
  have sub: "settings_names \<subseteq> known_names w" if "dw_load w = Inr fs" for fs using that by (simp add: known_names_def)
  obtain r1 r2 r3 where r: "internal_base_rows w = Inr r1" "upstream_rows w = Inr r3"
    "(case dw_load w of Inl e \<Rightarrow> Inr [] | Inr fs \<Rightarrow> settings_rows strict (dw_environ w) fs) = Inr r2"
    "rows = environment_rows w pc @ r1 @ extra_rows w @ r2 @ r3 @ (case dw_load w of Inl e \<Rightarrow> [] | Inr fs \<Rightarrow> closing_rows strict cp w fs)"
    using assms by (auto simp: doctor_collect_def bind_exc_Inr_iff)
  have "named (known_names w) r2 \<and> named (known_names w) (case dw_load w of Inl e \<Rightarrow> [] | Inr fs \<Rightarrow> closing_rows strict cp w fs)"
  proof (cases "dw_load w")
    case (Inr fs)
    with r(3) show ?thesis
      using named_mono [OF settings_rows_named sub] named_mono [OF settings_group_names(3) sub] by simp
  qed (use r(3) in \<open>simp add: named_simps\<close>)
  then show ?thesis using group_names(1,2) group_names(3) [OF r(1)] group_names(4) [OF r(2)] by (simp add: r(4) named_simps)
qed

text \<open>C23: So does \<open>fluxlit doctor --json\<close>: its one text reads back as the payload with every row and its explanation in order, and
  the command exits with 1 exactly when the status in it is \<open>fail\<close>, which is so with and without \<open>--json\<close>.\<close>

theorem doctor_json_agrees:
  assumes "doctor_command printable flt w tx ip dump names routes loaded pc target opts = Inr (out, code)"
    and "do_json opts" and "float_codec okf flt rd"
    and "w' = w\<lparr>dw_load := map_sum id fa_settings loaded, dw_candidates := length (dt_candidates tx)\<rparr>"
  shows "\<exists>payload status rows. out = [json_dumps flt (JObj payload)] \<and>
    (json_ok okf scalar_cp (JObj payload) \<longrightarrow> json_read rd (hd out) = Some (JObj payload)) \<and>
    map_of payload (u ''status'') = Some (JStr status) \<and> (if status = u ''fail'' then code = 1 else code = 0) \<and>
    doctor_collect w' pc (do_check_pages opts \<or> do_verbose opts) (do_strict opts) = Inr rows \<and>
    map_of payload (u ''checks'') = Some (JArr (map (doctor_check (doctor_message printable flt w' tx pc (resolve_target target pc))) rows)) \<and>
    named (known_names w') rows \<and>
    (\<forall>lines n. doctor_command printable flt w tx ip dump names routes loaded pc target (opts\<lparr>do_json := False\<rparr>) = Inr (lines, n) \<longrightarrow> n = code)"
proof -
  let ?t = "resolve_target target pc"
  let ?m = "doctor_message printable flt w' tx pc ?t"
  let ?d = "if do_verbose opts then Some (verbose_detail w' ip dump names routes loaded ?t pc) else None"
  obtain rows where rows: "doctor_collect w' pc (do_check_pages opts \<or> do_verbose opts) (do_strict opts) = Inr rows"
    and out: "out = [json_dumps flt (JObj (doctor_payload ?m rows ?t (do_warnings_only opts) ?d))]"
    and code: "code = doctor_exit_code rows (do_warnings_only opts)"
    using assms(1,2) by (auto simp: doctor_command_def bind_exc_Inr_iff Let_def assms(4) [symmetric] simp del: json_write.simps)
  let ?p = "doctor_payload ?m rows ?t (do_warnings_only opts) ?d"
  have "json_ok okf scalar_cp (JObj ?p) \<Longrightarrow> json_read rd (hd out) = Some (JObj ?p)"
    unfolding out list.sel by (rule json_read_dumps [OF assms(3)])
  moreover have "map_of ?p (u ''status'') = Some (JStr (doctor_status rows (do_warnings_only opts)))"
      "map_of ?p (u ''checks'') = Some (JArr (map (doctor_check ?m) rows))"
    by (simp_all add: doctor_payload_def)
  moreover have "if doctor_status rows (do_warnings_only opts) = u ''fail'' then code = 1 else code = 0"
    by (simp add: code doctor_status_def doctor_exit_code_def u.simps)
  moreover have "n = code"
    if "doctor_command printable flt w tx ip dump names routes loaded pc target (opts\<lparr>do_json := False\<rparr>) = Inr (lines, n)" for lines n
    using that rows by (auto simp: doctor_command_def bind_exc_Inr_iff Let_def assms(4) [symmetric] code)
  ultimately show ?thesis using out rows rows_explained [OF rows] by blast
qed

subsection \<open>No secret is printed\<close>

abbreviation with_secrets :: "fluxlit_settings \<Rightarrow> pystr \<Rightarrow> pystr \<Rightarrow> json dict \<Rightarrow> fluxlit_settings" where
  "with_secrets fs a b kw \<equiv> fs\<lparr>fs_jwt_hs256_secret := a, fs_oidc_bff_secret := b, fs_cors_middleware_kwargs := kw\<rparr>"

lemma detail_ignores_load:
  "build_doctor_verbose_detail (w\<lparr>dw_load := x, dw_candidates := n\<rparr>) ip dump names routes app target host port pc =
     build_doctor_verbose_detail w ip dump names routes app target host port pc"
  by (simp add: build_doctor_verbose_detail_def)

lemma messages_ignore_secrets:
  "warning_messages printable ip env (with_secrets fs a b kw) host port = warning_messages printable ip env fs host port"
  "settings_messages printable flt w tx pc (with_secrets fs a b kw) st = settings_messages printable flt w tx pc fs st"
  by (simp_all add: warning_messages_def settings_messages_def public_url_message_def)

lemma rows_ignore_secrets:
  "settings_rows strict env (with_secrets fs a b kw) = settings_rows strict env fs"
  "closing_rows strict cp w (with_secrets fs a b kw) = closing_rows strict cp w fs"
  "environment_rows (w\<lparr>dw_load := Inr (with_secrets fs a b kw), dw_candidates := n\<rparr>) pc =
     environment_rows (w\<lparr>dw_load := Inr fs, dw_candidates := n\<rparr>) pc"
  "extra_rows (w\<lparr>dw_load := Inr (with_secrets fs a b kw), dw_candidates := n\<rparr>) = extra_rows (w\<lparr>dw_load := Inr fs, dw_candidates := n\<rparr>)"
  "internal_base_rows (w\<lparr>dw_load := Inr (with_secrets fs a b kw), dw_candidates := n\<rparr>) =
     internal_base_rows (w\<lparr>dw_load := Inr fs, dw_candidates := n\<rparr>)"
  by (simp_all add: settings_rows_def settings_row_list_def public_url_rows_def precedence_rows_def closing_rows_def
      environment_rows_def extra_rows_def internal_base_rows_def Let_def cong: if_cong)

lemma outside_ignores_load:
  "upstream_rows (w\<lparr>dw_load := x, dw_candidates := n\<rparr>) = upstream_rows w"
  "closing_rows strict cp (w\<lparr>dw_load := x, dw_candidates := n\<rparr>) fs = closing_rows strict cp w fs"
  "environment_messages printable (w\<lparr>dw_load := x, dw_candidates := n\<rparr>) tx target st = environment_messages printable w tx target st"
  "upstream_message (w\<lparr>dw_load := x, dw_candidates := n\<rparr>) tx = upstream_message w tx"
  "settings_messages printable flt (w\<lparr>dw_load := x, dw_candidates := n\<rparr>) tx pc fs st = settings_messages printable flt w tx pc fs st"
  by (simp_all add: upstream_rows_def closing_rows_def environment_messages_def upstream_message_def reachable_message_def
      settings_messages_def Let_def cong: if_cong option.case_cong sum.case_cong)

lemma doctor_ignores_secrets:
  fixes w :: doctor_world
  defines "with \<equiv> \<lambda>fs n. w\<lparr>dw_load := Inr fs, dw_candidates := n\<rparr>"
  shows "doctor_collect (with (with_secrets fs a b kw) n) pc cp strict = doctor_collect (with fs n) pc cp strict"
    and "doctor_message printable flt (with (with_secrets fs a b kw) n) tx pc target = doctor_message printable flt (with fs n) tx pc target"
proof -
  have "internal_base_message printable (with (with_secrets fs a b kw) n) st = internal_base_message printable (with fs n) st" for st
    by (simp add: internal_base_message_def with_def Let_def cong: if_cong)
  then show "doctor_message printable flt (with (with_secrets fs a b kw) n) tx pc target = doctor_message printable flt (with fs n) tx pc target"
    by (intro ext) (simp add: doctor_message_def with_def outside_ignores_load messages_ignore_secrets split: prod.split)
  show "doctor_collect (with (with_secrets fs a b kw) n) pc cp strict = doctor_collect (with fs n) pc cp strict"
    by (simp add: doctor_collect_def with_def rows_ignore_secrets outside_ignores_load)
qed


subsection \<open>Examples\<close>

definition sample_texts :: doctor_texts where
  "sample_texts = \<lparr>dt_python = u ''3.12.1'', dt_sys_path = [[]], dt_candidates = [], dt_module_file = [], dt_import_error = [],
     dt_deps_error = [], dt_streamlit = u ''1.40'', dt_bind_error = [], dt_connect_error = (\<lambda>h p. [])\<rparr>"

definition json_mode :: doctor_options where
  "json_mode = \<lparr>do_warnings_only = False, do_json = True, do_verbose = False, do_check_pages = False, do_strict = True\<rparr>"

definition no_routes :: api_routes where
  "no_routes = \<lparr>rt_openapi_url = None, rt_docs_url = None, rt_redoc_url = None\<rparr>"

abbreviation demo_doctor :: "exc + nat fluxlit_app \<Rightarrow> doctor_options \<Rightarrow> exc + pystr list \<times> nat" where
  "demo_doctor loaded opts \<equiv> doctor_command (\<lambda>c. False) half_text clean_world sample_texts (\<lambda>a. None) two_secrets
     (\<lambda>h. (u ''m'', u ''f'')) no_routes loaded None (Some (u ''m:app'')) opts"

abbreviation demo_config :: "(pystr \<Rightarrow> exc + fluxlit_settings) \<Rightarrow> bool \<Rightarrow> exc + pystr list \<times> nat" where
  "demo_config load json_output \<equiv> config_command (\<lambda>c. False) half_text (\<lambda>a. None) [] two_secrets load None (Some (u ''m:app'')) json_output True"

lemma demo_doctor_fails:
  "\<exists>out. demo_doctor (Inl ValueError) json_mode = Inr (out, 1)"
proof -
  let ?w = "clean_world\<lparr>dw_load := Inl ValueError, dw_candidates := 0\<rparr>"
  have i: "internal_base_rows ?w = Inr (row ''FLUXLIT_INTERNAL_API_BASE'' PASS)"
    by (simp add: internal_base_rows_def ambient_base_def clean_world_def pystr_eval)
  have up: "upstream_rows ?w = Inr []" by (simp add: upstream_rows_def clean_world_def pystr_eval Let_def)
  have env: "has_status FAIL (environment_rows ?w None)" by (simp add: environment_rows_def)
  have "dt_candidates sample_texts = []" by (simp add: sample_texts_def)
  then show ?thesis
    using env by (simp add: doctor_command_def doctor_collect_def i up json_mode_def Let_def bind_exc_def doctor_exit_code_def)
qed

theorem doctor_json_agrees_witness:
  "\<exists>text payload rows. demo_doctor (Inl ValueError) json_mode = Inr ([text], 1) \<and> text = json_dumps half_text (JObj payload) \<and>
     map_of payload (u ''status'') = Some (JStr (u ''fail'')) \<and>
     doctor_collect (clean_world\<lparr>dw_load := Inl ValueError, dw_candidates := 0\<rparr>) None False True = Inr rows"
proof -
  obtain out where out: "demo_doctor (Inl ValueError) json_mode = Inr (out, 1)" using demo_doctor_fails by blast
  have j: "do_json json_mode" and n: "dt_candidates sample_texts = []" by (simp_all add: json_mode_def sample_texts_def)
  from doctor_json_agrees [OF out j half_codec refl] show ?thesis
    using out by (auto simp: n json_mode_def split: if_splits)
qed

lemma demo_config_runs: "\<exists>out. demo_config (\<lambda>t. Inr default_settings) True = Inr (out, 0)"
proof -
  have pb: "strip (fs_public_base_url default_settings) = []" by (simp add: default_settings_def pystr_eval)
  have mount: "public_mount_path default_settings = []"
    by (simp add: public_mount_path_def default_settings_def normalize_root_mount_def pystr_eval)
  have env: "ambient_base [] = []" by (simp add: ambient_base_def pystr_eval)
  have quiet: "\<not> fs_trust_proxy default_settings" "fs_cors_allow_origins default_settings = []"
      "\<not> fs_enable_security_headers default_settings" "fs_rejected_forward_headers default_settings = []"
    by (simp_all add: default_settings_def)
  have "\<exists>cp. build_config_payload (\<lambda>a. None) [] two_secrets t h p l None default_settings = Inr cp \<and> cp_warnings cp = []" for t h p l
    by (simp add: build_config_payload_def collect_configuration_warnings_def internal_base_warnings_def public_base_warnings_def
        gateway_warnings_def project_file_mount_warnings_def env pb mount quiet warn_if_def bind_exc_def Let_def)
  moreover obtain h p l where "resolve_binding None None None None (fs_gateway_host default_settings)
      (fs_gateway_port default_settings) (fs_log_level default_settings) = (h, p, l)" by (metis prod.exhaust)
  moreover obtain cp where "build_config_payload (\<lambda>a. None) [] two_secrets (resolve_target (Some (u ''m:app'')) None) h p l None
      default_settings = Inr cp" "cp_warnings cp = []" using calculation(1) by blast
  ultimately show ?thesis by (simp add: config_command_def bind_exc_def config_exit_code_def Let_def)
qed

theorem config_json_reads_back_witness:
  "\<exists>payload lines. demo_config (\<lambda>t. Inr default_settings) True = Inr ([json_indented half_text (JObj payload)], 0) \<and>
     map_of payload (u ''target'') = Some (JStr (u ''m:app'')) \<and> demo_config (\<lambda>t. Inr default_settings) False = Inr (lines, 0)"
proof -
  obtain out where out: "demo_config (\<lambda>t. Inr default_settings) True = Inr (out, 0)" using demo_config_runs by blast
  from config_json_reads_back [OF out half_codec] show ?thesis using out by (auto simp: resolve_target_def)
qed


subsection \<open>The printed page manifest\<close>

definition pages_manifest_command ::
  "(real \<Rightarrow> pystr) \<Rightarrow> ('d annotation \<Rightarrow> pystr) \<Rightarrow> ('d \<Rightarrow> pystr \<times> pystr) \<Rightarrow> (pystr \<Rightarrow> exc + 'd fluxlit_app) \<Rightarrow> project_config option \<Rightarrow>
     pystr option \<Rightarrow> exc + pystr list" where
  "pages_manifest_command flt ann_str names load pc target =
     bind_exc (load (resolve_target target pc)) (\<lambda>app.
     bind_exc (build_page_manifest ann_str names app 1) (\<lambda>m. Inr [json_indented flt (JObj m)]))"

lemma pages_manifest_reads_back:
  assumes "pages_manifest_command flt ann_str names load pc target = Inr out" and "float_codec okf flt rd"
  shows "\<exists>app m. load (resolve_target target pc) = Inr app \<and> build_page_manifest ann_str names app 1 = Inr m \<and>
    (json_ok okf scalar_cp (JObj m) \<longrightarrow> map (json_read rd) out = [Some (JObj m)])"
  using assms(1) json_read_indented [OF assms(2)] by (auto simp: pages_manifest_command_def bind_exc_Inr_iff)

end
