(* ===== verification/Session_Counter.thy ===== *)
theory Session_Counter
  imports Url_Session
begin

section \<open>The visit counter of the session store example\<close>

text \<open>
  Models \<open>examples/session_stores/app.py\<close>: its page seeds the URL session, hydrates it with a typed payload, adds
  one to the number of visits and persists the session state, all over the SQLite store. How pydantic coerces a
  JSON value to an integer is the argument \<open>to_int\<close>, of which only that it keeps zero is used. A run of the page
  has its own environment, settings, clock readings, fresh id and page state, so a history mixes reloads, new
  tabs and hand-written links; the table is handed from one run to the next.
\<close>

definition session_sqlite_path :: "pystr dict \<Rightarrow> pystr" where
  "session_sqlite_path environ =
     (case map_of environ (u ''FLUXLIT_SESSION_SQLITE_PATH'') of
        Some p \<Rightarrow> p | None \<Rightarrow> u ''fluxlit-sessions.sqlite3'')"

text \<open>\<open>UrlSessionPayload\<close>: one field, an integer not below zero that defaults to zero; other keys are ignored.\<close>

abbreviation visits_key :: pystr where
  "visits_key \<equiv> u ''visits''"

definition visits_validate :: "(json \<Rightarrow> int option) \<Rightarrow> payload \<Rightarrow> exc + int" where
  "visits_validate to_int p =
     (case map_of p visits_key of
        None \<Rightarrow> Inr 0
      | Some v \<Rightarrow> (case to_int v of
            None \<Rightarrow> Inl ValidationError
          | Some n \<Rightarrow> if n < 0 then Inl ValidationError else Inr n))"

definition visits_dump :: "int \<Rightarrow> payload" where
  "visits_dump n = [(visits_key, JInt n)]"

definition set_state :: "pystr \<Rightarrow> json \<Rightarrow> facade \<Rightarrow> facade" where
  "set_state k v st = st\<lparr>fc_state := AList.update k v (fc_state st),
     fc_filtered := map_option (AList.update k v) (fc_filtered st)\<rparr>"

text \<open>One run of the page; the clock is read by the two store calls of \<open>ensure_url_session\<close>, by the hydration
  and by the final write. It shows the session id and the number of visits.\<close>

record visit =
  vt_env :: "pystr dict"
  vt_settings :: fluxlit_settings
  vt_clocks :: "clock \<times> clock \<times> clock \<times> clock"
  vt_new_id :: pystr
  vt_page :: facade

definition session_home ::
  "(json \<Rightarrow> int option) \<Rightarrow> visit \<Rightarrow> sqlite_table \<Rightarrow> (exc + pystr \<times> int) \<times> facade \<times> sqlite_table" where
  "session_home to_int v t =
     (case vt_clocks v of (c1, c2, c3, c4) \<Rightarrow>
       (let env = vt_env v; fs = vt_settings v;
            (sid, st1, t1) = ensure_url_session sqlite_ops env fs c1 c2 (vt_new_id v) None (visits_dump 0) None (vt_page v) t;
            (r, st2, t2) = hydrate_url_session_typed sqlite_ops (visits_validate to_int) visits_dump env fs c3 None True False st1 t1
        in case r of
             Inl e \<Rightarrow> (Inl e, st2, t2)
           | Inr (_, snap) \<Rightarrow>
               (let visits = (case snap of Some n \<Rightarrow> n | None \<Rightarrow> 0) + 1;
                    st3 = set_state visits_key (JInt visits) st2;
                    (_, t3) = persist_url_session sqlite_ops env fs c4 None None st3 t2
                in (Inr (sid, visits), st3, t3))))"

text \<open>The counts a history of runs shows.\<close>

fun shown_visits :: "(json \<Rightarrow> int option) \<Rightarrow> visit list \<Rightarrow> sqlite_table \<Rightarrow> (exc + int) list" where
  "shown_visits to_int [] t = []"
| "shown_visits to_int (v # vs) t =
     (case session_home to_int v t of (r, _, t') \<Rightarrow> map_sum id snd r # shown_visits to_int vs t')"

subsection \<open>What one run does\<close>

lemma sqlite_get_stored:
  "so_get sqlite_ops c k (so_set sqlite_ops c' k p None t) = (Some (canon p), so_set sqlite_ops c' k p None t)"
  by (simp add: sqlite_ops_def sqlite_get_def sqlite_set_def live_at_def)

lemma canon_visits_zero:
  "dict_ok p \<Longrightarrow> map_of p visits_key = Some (JInt 0) \<Longrightarrow> map_of (canon p) visits_key = Some (JInt 0)"
  by (simp add: map_of_canon)

text \<open>After \<open>ensure_url_session\<close> the session the page will read holds a zero count, whether it is new or not.\<close>

lemma ensure_resets_count:
  assumes inv: "sqlite_inv t" and on: "\<not> url_session_disabled env"
    and e: "ensure_url_session sqlite_ops env fs c1 c2 new_id None (visits_dump 0) None st t = (sid, st1, t1)"
    and q: "query_param_get st1 (resolve_url_session_param fs None) = Some k" and k: "k \<noteq> []"
  shows "\<exists>p. so_get sqlite_ops c k t1 = (Some (canon p), t1) \<and> dict_ok p \<and> map_of p visits_key = Some (JInt 0)"
proof -
  let ?r = "resolve_url_session_param fs None"
  show ?thesis
  proof (cases "opt_str (query_param_get st ?r) = []")
    case True
    then have t1: "t1 = so_set sqlite_ops c2 new_id (visits_dump 0) None t" and st1: "st1 = snd (query_param_set st ?r new_id)"
      using e on by (auto simp: ensure_url_session_def Let_def)
    have "k = new_id"
      using q k True st1 by (auto simp: query_param_set_def query_param_get_def split: option.splits if_splits query_value.splits list.splits)
    then show ?thesis
      unfolding t1 by (intro exI [of _ "visits_dump 0"]) (simp add: sqlite_get_stored visits_dump_def dict_ok_def)
  next
    case False
    let ?old = "case fst (so_get sqlite_ops c1 sid t) of None \<Rightarrow> [] | Some p \<Rightarrow> p"
    let ?p = "fold (\<lambda>(k, v). AList.update k v) (visits_dump 0) ?old"
    have sid: "sid = opt_str (query_param_get st ?r)" and st1: "st1 = st"
      and t1: "t1 = so_set sqlite_ops c2 sid ?p None (snd (so_get sqlite_ops c1 sid t))"
      using e on False by (auto simp: ensure_url_session_def visits_dump_def Let_def split: prod.splits)
    have "dict_ok ?old" using sqlite.get_dict [OF inv] by (auto split: option.split simp: dict_ok_def)
    then have "dict_ok ?p" "map_of ?p visits_key = Some (JInt 0)" by (simp_all add: visits_dump_def)
    moreover have "k = sid" using q st1 sid by simp
    ultimately show ?thesis unfolding t1 by (intro exI [of _ ?p]) (simp add: sqlite_get_stored)
  qed
qed

lemma sqlite_get_parts:
  "sqlite_inv t \<Longrightarrow> so_get sqlite_ops c k t = (r, t') \<Longrightarrow> sqlite_inv t' \<and> (\<forall>p. r = Some p \<longrightarrow> dict_ok p)"
  using sqlite.get_inv [of t c k] sqlite.get_dict [of t c k] by simp

lemma ensure_inv:
  assumes "sqlite_inv t" and "ensure_url_session sqlite_ops env fs c1 c2 new_id None (visits_dump 0) None st t = (sid, st1, t1)"
  shows "sqlite_inv t1 \<and> fc_state st1 = fc_state st \<and> fc_filtered st1 = fc_filtered st"
proof -
  have z: "dict_ok (visits_dump 0)" "dict_ok []" by (simp_all add: visits_dump_def dict_ok_def)
  show ?thesis
    using assms(2) assms(1) z
    by (auto simp: ensure_url_session_def query_param_set_def Let_def intro!: sqlite.set_inv dest: sqlite_get_parts
        split: prod.splits if_splits option.splits)
qed

lemma session_home_counts_one:
  assumes inv: "sqlite_inv t" and zero: "to_int (JInt 0) = Some 0"
    and page: "dict_ok (fc_state (vt_page v))" "\<forall>f. fc_filtered (vt_page v) = Some f \<longrightarrow> dict_ok f"
  shows "\<exists>sid st' t'. session_home to_int v t = (Inr (sid, 1), st', t') \<and> sqlite_inv t'"
proof -
  obtain c1 c2 c3 c4 where c: "vt_clocks v = (c1, c2, c3, c4)" by (cases "vt_clocks v") auto
  let ?env = "vt_env v" and ?fs = "vt_settings v"
  obtain sid st1 t1 where e: "ensure_url_session sqlite_ops ?env ?fs c1 c2 (vt_new_id v) None (visits_dump 0) None (vt_page v) t = (sid, st1, t1)"
    by (metis prod_cases3)
  have i1: "sqlite_inv t1" "fc_state st1 = fc_state (vt_page v)" "fc_filtered st1 = fc_filtered (vt_page v)"
    using ensure_inv [OF inv e] by simp_all
  have h: "\<exists>k snap st2. hydrate_url_session_typed sqlite_ops (visits_validate to_int) visits_dump ?env ?fs c3 None True False st1 t1 =
      (Inr (k, snap), st2, t1) \<and> snap \<in> {None, Some 0} \<and> (st2 = st1 \<or> st2 = st1\<lparr>fc_state := merge_payload True (visits_dump 0) (fc_state st1)\<rparr>)"
  proof (cases "url_session_disabled ?env \<or> opt_str (query_param_get st1 (resolve_url_session_param ?fs None)) = []")
    case True
    then show ?thesis by (auto simp: hydrate_url_session_typed_def Let_def split: option.split)
  next
    case False
    then obtain k where k: "query_param_get st1 (resolve_url_session_param ?fs None) = Some k" "k \<noteq> []"
      by (cases "query_param_get st1 (resolve_url_session_param ?fs None)") simp_all
    obtain p where p: "so_get sqlite_ops c3 k t1 = (Some (canon p), t1)" "dict_ok p" "map_of p visits_key = Some (JInt 0)"
      using ensure_resets_count [OF inv _ e k] False by blast
    have "visits_validate to_int (canon p) = Inr 0"
      using canon_visits_zero [OF p(2,3)] zero by (simp add: visits_validate_def)
    then show ?thesis
      using False k p(1) by (simp add: hydrate_url_session_typed_def hydrate_url_session_def resolve_url_session_param_def)
  qed
  then obtain k snap st2 where h: "hydrate_url_session_typed sqlite_ops (visits_validate to_int) visits_dump ?env ?fs c3 None True False st1 t1 =
      (Inr (k, snap), st2, t1)" "(case snap of Some n \<Rightarrow> n | None \<Rightarrow> 0) = 0"
    "st2 = st1 \<or> st2 = st1\<lparr>fc_state := merge_payload True (visits_dump 0) (fc_state st1)\<rparr>"
    by auto
  obtain r3 t3 where p: "persist_url_session sqlite_ops ?env ?fs c4 None None (set_state visits_key (JInt 1) st2) t1 = (r3, t3)"
    by (metis surj_pair)
  have m: "dict_ok (merge_payload True (visits_dump 0) (fc_state st1))"
    using page(1) i1(2) by (auto simp: merge_payload_def visits_dump_def setdefault_def dict_ok_def map_of_eq_None_iff)
  have "dict_ok snp" if "session_snapshot (set_state visits_key (JInt 1) st2) = Some snp" for snp
    using that h(3) page i1 m by (auto simp: session_snapshot_def set_state_def split: if_splits option.splits)
  then have "sqlite_inv t3"
    using p i1(1) by (auto simp: persist_url_session_def intro!: sqlite.set_inv split: if_splits option.splits)
  moreover have "session_home to_int v t = (Inr (sid, 1), set_state visits_key (JInt 1) st2, t3)"
    using c e h p by (simp add: session_home_def Let_def)
  ultimately show ?thesis by blast
qed

subsection \<open>Any history of runs\<close>

text \<open>The count never leaves one: whatever the history of runs, whichever links, tabs, settings and times they had,
  and whatever the table held before, every run shows one visit.\<close>

theorem visit_counter_stuck:
  assumes "sqlite_inv t" and "to_int (JInt 0) = Some 0"
    and "\<forall>v \<in> set vs. dict_ok (fc_state (vt_page v)) \<and> (\<forall>f. fc_filtered (vt_page v) = Some f \<longrightarrow> dict_ok f)"
  shows "shown_visits to_int vs t = replicate (length vs) (Inr 1)"
  using assms(1,3)
proof (induction vs arbitrary: t)
  case (Cons v vs)
  then obtain sid st' t' where "session_home to_int v t = (Inr (sid, 1), st', t')" "sqlite_inv t'"
    using session_home_counts_one [of t to_int v, OF Cons.prems(1) assms(2)] by (metis list.set_intros(1))
  with Cons show ?case by simp
qed simp

definition sample_visit :: visit where
  "sample_visit = \<lparr>vt_env = [], vt_settings = default_settings, vt_clocks = ((0, 0), (1, 1), (2, 2), (3, 3)),
     vt_new_id = u ''new'', vt_page = sample_page\<lparr>fc_state := []\<rparr>\<rparr>"

text \<open>The link is opened twice more after a run that had stored forty visits under it.\<close>

theorem visit_counter_stuck_witness:
  "shown_visits (\<lambda>j. case j of JInt n \<Rightarrow> Some n | _ \<Rightarrow> None) [sample_visit, sample_visit]
     [(u ''abc'', [(u ''visits'', JInt 40)], None)] = [Inr 1, Inr 1]"
  using visit_counter_stuck [of "[(u ''abc'', [(u ''visits'', JInt 40)], None)]" "\<lambda>j. case j of JInt n \<Rightarrow> Some n | _ \<Rightarrow> None"
      "[sample_visit, sample_visit]"]
  by (simp add: sqlite_inv_def dict_ok_def sample_visit_def sample_page_def numeral_2_eq_2)

end
