(* ===== verification/Api_Stack.thy ===== *)
theory Api_Stack
  imports Request_Logging
begin

section \<open>The middleware of the API, composed\<close>

text \<open>
  Models \<open>wire_fluxlit_api\<close> of \<open>application/api_bootstrap.py\<close> as a whole: which middleware it adds and in which
  order, and the two built-in routes in front of the application's. A handler maps a request and the context
  variables to an answer or an exception and the context. \<open>add_middleware\<close> of Starlette inserts at the front of a
  list whose head is the outermost layer. The log lines are collected in the context. Starlette's \<open>CORSMiddleware\<close>
  is an argument; \<open>cors_laws\<close> states what its documentation promises.
\<close>

record api_req =
  aq_method :: pystr
  aq_path :: pystr
  aq_headers :: headers
  aq_scheme :: pystr

record api_answer =
  aa_status :: nat
  aa_headers :: headers
  aa_body :: "json dict"

record 'h api_context =
  ax_vars :: "'h process_context"
  ax_log :: "pystr list"

type_synonym 'h api_handler = "api_req \<Rightarrow> 'h api_context \<Rightarrow> (exc + api_answer) \<times> 'h api_context"

type_synonym 'h api_middleware = "'h api_handler \<Rightarrow> 'h api_handler"

definition add_middleware :: "'h api_middleware \<Rightarrow> 'h api_middleware list \<Rightarrow> 'h api_middleware list" where
  "add_middleware m ms = m # ms"

definition build_middleware_stack :: "'h api_middleware list \<Rightarrow> 'h api_handler \<Rightarrow> 'h api_handler" where
  "build_middleware_stack ms routes = foldr (\<lambda>m h. m h) ms routes"

definition security_layer :: "'h api_middleware" where
  "security_layer call_next rq cx =
     (case call_next rq cx of
        (Inl e, cx') \<Rightarrow> (Inl e, cx')
      | (Inr a, cx') \<Rightarrow> (Inr (a\<lparr>aa_headers := security_headers_dispatch (aq_headers rq) (aq_scheme rq) (aa_headers a)\<rparr>), cx'))"

text \<open>\<open>_fluxlit_request_log\<close>; \<open>fresh\<close> is the id it makes for a request without one.\<close>

definition request_log_layer :: "pystr \<Rightarrow> 'h api_middleware" where
  "request_log_layer fresh call_next rq cx =
     (let (token, cv) = set_request_id (Some (middleware_request_id fresh (aq_headers rq))) (ax_vars cx);
          (response, cx') = call_next rq (cx\<lparr>ax_vars := cv\<rparr>);
          lines = (case response of Inl e \<Rightarrow> []
            | Inr a \<Rightarrow> [aq_method rq @ u '' '' @ aq_path rq @ u '' -> '' @ str_of_nat (aa_status a)])
      in (response, \<lparr>ax_vars = reset_request_id token (ax_vars cx'), ax_log = ax_log cx' @ lines\<rparr>))"

text \<open>It is the middleware of \<open>Request_Logging\<close>, with the whole answer in place of its status.\<close>

lemma request_log_layer_agrees:
  assumes "call_next rq (cx\<lparr>ax_vars := snd (set_request_id (Some (middleware_request_id fresh (aq_headers rq))) (ax_vars cx))\<rparr>) = (r, cx1)"
    and "request_log_layer fresh call_next rq cx = (r', cx')"
  shows "r' = r \<and> (\<exists>message. api_request_log fresh (aq_headers rq) (aq_method rq) (aq_path rq)
      (\<lambda>cv. (map_sum id aa_status r, ax_vars cx1)) (ax_vars cx) = ((map_sum id aa_status r', message), ax_vars cx') \<and>
    ax_log cx' = ax_log cx1 @ (case message of None \<Rightarrow> [] | Some m \<Rightarrow> [m]))"
  using assms by (auto simp: request_log_layer_def api_request_log_def set_request_id_def Let_def split: sum.split)

text \<open>\<open>/healthz\<close> and \<open>/readyz\<close> are registered when the application is created, so a later route of the application
  for the same path is never reached.\<close>

definition builtin_routes :: "(exc + nat \<times> json dict) \<Rightarrow> 'h api_handler \<Rightarrow> 'h api_handler" where
  "builtin_routes ready routes rq cx =
     (if aq_method rq = u ''GET'' \<and> aq_path rq = u ''/healthz''
      then (Inr \<lparr>aa_status = fst healthz, aa_headers = [], aa_body = snd healthz\<rparr>, cx)
      else if aq_method rq = u ''GET'' \<and> aq_path rq = u ''/readyz''
      then (map_sum id (\<lambda>(status, body). \<lparr>aa_status = status, aa_headers = [], aa_body = body\<rparr>) ready, cx)
      else routes rq cx)"

definition wired_middleware :: "(json dict \<Rightarrow> 'h api_middleware) \<Rightarrow> pystr \<Rightarrow> fluxlit_settings \<Rightarrow> 'h api_middleware list" where
  "wired_middleware cors fresh fs =
     (let m0 = [];
          m1 = (if fs_enable_security_headers fs then add_middleware security_layer m0 else m0);
          m2 = (case cors_arguments fs of None \<Rightarrow> m1 | Some args \<Rightarrow> add_middleware (cors args) m1)
      in if fs_enable_request_logging fs then add_middleware (request_log_layer fresh) m2 else m2)"

definition wire_fluxlit_api ::
  "(json dict \<Rightarrow> 'h api_middleware) \<Rightarrow> pystr \<Rightarrow> fluxlit_settings \<Rightarrow> (exc + nat \<times> json dict) \<Rightarrow> 'h api_handler \<Rightarrow> 'h api_handler" where
  "wire_fluxlit_api cors fresh fs ready routes =
     build_middleware_stack (wired_middleware cors fresh fs) (builtin_routes ready routes)"

subsection \<open>What the layers keep\<close>

text \<open>Starlette's CORS middleware: a preflight request is answered without the application, a request without an
  origin passes unchanged, and any other answer of the application gets headers for CORS and caching only.\<close>

definition has_header :: "bytes \<Rightarrow> headers \<Rightarrow> bool" where
  "has_header k hs \<longleftrightarrow> list_ex (\<lambda>p. bytes_lower (fst p) = k) hs"

definition is_preflight :: "api_req \<Rightarrow> bool" where
  "is_preflight rq \<longleftrightarrow> aq_method rq = u ''OPTIONS'' \<and> has_header ''origin'' (aq_headers rq) \<and>
     has_header ''access-control-request-method'' (aq_headers rq)"

definition cors_laws :: "(json dict \<Rightarrow> 'h api_middleware) \<Rightarrow> bool" where
  "cors_laws cors \<longleftrightarrow>
     (\<forall>args rq. is_preflight rq \<longrightarrow> (\<exists>a. \<forall>call_next cx. cors args call_next rq cx = (Inr a, cx))) \<and>
     (\<forall>args rq call_next cx. \<not> has_header ''origin'' (aq_headers rq) \<longrightarrow> cors args call_next rq cx = call_next rq cx) \<and>
     (\<forall>args rq call_next cx r cx'. \<not> is_preflight rq \<longrightarrow> call_next rq cx = (r, cx') \<longrightarrow>
        (\<exists>r'. cors args call_next rq cx = (r', cx') \<and>
           (case r of Inl e \<Rightarrow> r' = Inl e
            | Inr a \<Rightarrow> (\<exists>a'. r' = Inr a' \<and> aa_status a' = aa_status a \<and> aa_body a' = aa_body a \<and>
                (\<forall>k. k \<notin> {''vary''} \<and> \<not> startswith (latin1_decode k) (u ''access-control-'') \<longrightarrow>
                   has_header k (aa_headers a') = has_header k (aa_headers a))))))"

lemma cors_lawsD:
  assumes "cors_laws cors"
  shows "is_preflight rq \<Longrightarrow> \<exists>a. \<forall>call_next cx. cors args call_next rq cx = (Inr a, cx)"
    and "\<not> has_header ''origin'' (aq_headers rq) \<Longrightarrow> cors args call_next rq cx = call_next rq cx"
    and "\<not> is_preflight rq \<Longrightarrow> call_next rq cx = (r, cx') \<Longrightarrow> \<exists>r'. cors args call_next rq cx = (r', cx') \<and>
           (case r of Inl e \<Rightarrow> r' = Inl e
            | Inr a \<Rightarrow> (\<exists>a'. r' = Inr a' \<and> aa_status a' = aa_status a \<and> aa_body a' = aa_body a \<and>
                (\<forall>k. k \<notin> {''vary''} \<and> \<not> startswith (latin1_decode k) (u ''access-control-'') \<longrightarrow>
                   has_header k (aa_headers a') = has_header k (aa_headers a))))"
  using assms unfolding cors_laws_def by blast+

definition security_names :: "bytes list" where
  "security_names = [''x-content-type-options'', ''x-frame-options'', ''referrer-policy'']"

definition secured :: "headers \<Rightarrow> bool" where
  "secured hs \<longleftrightarrow> (\<forall>k \<in> set security_names. has_header k hs)"

lemma has_header_setdefault:
  "has_header k hs \<Longrightarrow> has_header k (header_setdefault k' v hs)"
  "bytes_lower k = k \<Longrightarrow> has_header k (header_setdefault k v hs)"
  by (simp_all add: has_header_def header_setdefault_def)

lemma security_dispatch_secured: "secured (security_headers_dispatch hs' scheme hs)"
proof -
  have "bytes_lower k = k" if "k \<in> set security_names" for k
    using that by (auto simp: security_names_def pystr_eval)
  then show ?thesis
    by (auto simp: secured_def security_headers_dispatch_def Let_def security_names_def intro!: has_header_setdefault)
qed

lemma wired_stack:
  "wire_fluxlit_api cors fresh fs ready routes =
     (let h0 = builtin_routes ready routes;
          h1 = (if fs_enable_security_headers fs then security_layer h0 else h0);
          h2 = (case cors_arguments fs of None \<Rightarrow> h1 | Some args \<Rightarrow> cors args h1)
      in if fs_enable_request_logging fs then request_log_layer fresh h2 else h2)"
  by (simp add: wire_fluxlit_api_def wired_middleware_def build_middleware_stack_def add_middleware_def Let_def split: option.split)

lemma request_log_layer_answer:
  "request_log_layer fresh h rq cx = (r, cx') \<Longrightarrow>
     \<exists>cv cx1. h rq (cx\<lparr>ax_vars := cv\<rparr>) = (r, cx1) \<and> get_request_id cv = Some (middleware_request_id fresh (aq_headers rq)) \<and>
       ax_vars cx' = (ax_vars cx1)\<lparr>cv_request_id := cv_request_id (ax_vars cx)\<rparr> \<and>
       ax_log cx' = ax_log cx1 @ (case r of Inl e \<Rightarrow> []
         | Inr a \<Rightarrow> [aq_method rq @ u '' '' @ aq_path rq @ u '' -> '' @ str_of_nat (aa_status a)])"
  by (rule exI [of _ "(ax_vars cx)\<lparr>cv_request_id := Some (middleware_request_id fresh (aq_headers rq))\<rparr>"])
    (auto simp: request_log_layer_def set_request_id_def reset_request_id_def get_request_id_def Let_def split: prod.splits)

subsection \<open>What every request gets\<close>

lemma security_layer_answer:
  "security_layer h rq cx = (r, cx') \<Longrightarrow>
     \<exists>r0. h rq cx = (r0, cx') \<and>
       (case r0 of Inl e \<Rightarrow> r = Inl e
        | Inr a0 \<Rightarrow> \<exists>a. r = Inr a \<and> aa_status a = aa_status a0 \<and> aa_body a = aa_body a0 \<and> secured (aa_headers a))"
  by (cases "h rq cx") (auto simp: security_layer_def security_dispatch_secured split: sum.splits)

lemma cors_layer_answer:
  assumes "cors_laws cors" and "\<not> is_preflight rq" and "cors args h rq cx = (r, cx')"
  shows "\<exists>r0. h rq cx = (r0, cx') \<and>
    (case r0 of Inl e \<Rightarrow> r = Inl e
     | Inr a0 \<Rightarrow> \<exists>a. r = Inr a \<and> aa_status a = aa_status a0 \<and> aa_body a = aa_body a0 \<and>
         (secured (aa_headers a0) \<longrightarrow> secured (aa_headers a)))"
proof -
  obtain r0 cx0 where h: "h rq cx = (r0, cx0)" by (metis surj_pair)
  have n: "k \<notin> {''vary''} \<and> \<not> startswith (latin1_decode k) (u ''access-control-'')" if "k \<in> set security_names" for k
    using that by (auto simp: security_names_def latin1_decode_def pystr_eval)
  from cors_lawsD(3) [where call_next = h and args = args, OF assms(1,2) h] assms(3) obtain "cx' = cx0"
    and *: "case r0 of Inl e \<Rightarrow> r = Inl e
      | Inr a \<Rightarrow> (\<exists>a'. r = Inr a' \<and> aa_status a' = aa_status a \<and> aa_body a' = aa_body a \<and>
          (\<forall>k. k \<notin> {''vary''} \<and> \<not> startswith (latin1_decode k) (u ''access-control-'') \<longrightarrow>
             has_header k (aa_headers a') = has_header k (aa_headers a)))" by auto
  with h n show ?thesis
    by (intro exI [of _ r0]) (auto simp: secured_def split: sum.splits)
qed

text \<open>C19: Whatever the settings install, a request that is not a preflight reaches the routes, with its request id in the
  context when requests are logged; the answer keeps the status and the body the routes gave it, carries the
  security headers when they are enabled, and is logged in one line after everything the routes logged. An
  exception of the routes passes every layer: it gets no log line. Either way the request id of the caller's
  context is restored.\<close>

theorem api_stack_serves:
  assumes "cors_laws cors" and "\<not> is_preflight rq" and "wire_fluxlit_api cors fresh fs ready routes rq cx = (r, cx')"
  shows "\<exists>cx0 r0 cx1. builtin_routes ready routes rq cx0 = (r0, cx1) \<and> ax_log cx0 = ax_log cx \<and>
    (case r0 of
       Inl e \<Rightarrow> r = Inl e \<and> ax_log cx' = ax_log cx1
     | Inr a0 \<Rightarrow> \<exists>a. r = Inr a \<and> aa_status a = aa_status a0 \<and> aa_body a = aa_body a0 \<and>
         (fs_enable_security_headers fs \<longrightarrow> secured (aa_headers a)) \<and>
         ax_log cx' = ax_log cx1 @ (if fs_enable_request_logging fs
           then [aq_method rq @ u '' '' @ aq_path rq @ u '' -> '' @ str_of_nat (aa_status a0)] else [])) \<and>
    (if fs_enable_request_logging fs
     then get_request_id (ax_vars cx0) = Some (middleware_request_id fresh (aq_headers rq)) \<and>
       get_request_id (ax_vars cx') = get_request_id (ax_vars cx)
     else cx0 = cx \<and> cx' = cx1)"
proof -
  let ?h0 = "builtin_routes ready routes"
  let ?h1 = "if fs_enable_security_headers fs then security_layer ?h0 else ?h0"
  let ?h2 = "case cors_arguments fs of None \<Rightarrow> ?h1 | Some args \<Rightarrow> cors args ?h1"
  have l2: "\<exists>r0. ?h0 rq c = (r0, c') \<and>
      (case r0 of Inl e \<Rightarrow> q = Inl e
       | Inr a0 \<Rightarrow> \<exists>a. q = Inr a \<and> aa_status a = aa_status a0 \<and> aa_body a = aa_body a0 \<and>
           (fs_enable_security_headers fs \<longrightarrow> secured (aa_headers a)))" if q: "?h2 rq c = (q, c')" for c q c'
  proof -
    have "\<exists>r1. ?h1 rq c = (r1, c') \<and>
        (case r1 of Inl e \<Rightarrow> q = Inl e
         | Inr a0 \<Rightarrow> \<exists>a. q = Inr a \<and> aa_status a = aa_status a0 \<and> aa_body a = aa_body a0 \<and>
             (secured (aa_headers a0) \<longrightarrow> secured (aa_headers a)))"
      using q cors_layer_answer [OF assms(1,2)] by (cases "cors_arguments fs") (auto split: sum.split)
    then obtain r1 where r1: "?h1 rq c = (r1, c')" "case r1 of Inl e \<Rightarrow> q = Inl e
         | Inr a0 \<Rightarrow> \<exists>a. q = Inr a \<and> aa_status a = aa_status a0 \<and> aa_body a = aa_body a0 \<and>
             (secured (aa_headers a0) \<longrightarrow> secured (aa_headers a))" by blast
    show ?thesis
    proof (cases "fs_enable_security_headers fs")
      case True
      then obtain r0 where "?h0 rq c = (r0, c')" "case r0 of Inl e \<Rightarrow> r1 = Inl e
        | Inr a0 \<Rightarrow> \<exists>a. r1 = Inr a \<and> aa_status a = aa_status a0 \<and> aa_body a = aa_body a0 \<and> secured (aa_headers a)"
        using security_layer_answer [of ?h0 rq c r1 c'] r1(1) by auto
      with r1(2) True show ?thesis by (intro exI [of _ r0]) (auto split: sum.splits)
    next
      case False
      with r1 show ?thesis by (intro exI [of _ r1]) (auto split: sum.splits)
    qed
  qed
  show ?thesis
  proof (cases "fs_enable_request_logging fs")
    case False
    then have "?h2 rq cx = (r, cx')" using assms(3) by (simp add: wired_stack Let_def)
    from l2 [OF this] False show ?thesis by (auto split: sum.splits)
  next
    case True
    then have "request_log_layer fresh ?h2 rq cx = (r, cx')" using assms(3) by (simp add: wired_stack Let_def)
    then obtain cv cx1 where log: "?h2 rq (cx\<lparr>ax_vars := cv\<rparr>) = (r, cx1)"
      "get_request_id cv = Some (middleware_request_id fresh (aq_headers rq))"
      "ax_vars cx' = (ax_vars cx1)\<lparr>cv_request_id := cv_request_id (ax_vars cx)\<rparr>"
      "ax_log cx' = ax_log cx1 @ (case r of Inl e \<Rightarrow> []
         | Inr a \<Rightarrow> [aq_method rq @ u '' '' @ aq_path rq @ u '' -> '' @ str_of_nat (aa_status a)])"
      using request_log_layer_answer by blast
    from l2 [OF log(1)] obtain r0 where r0: "?h0 rq (cx\<lparr>ax_vars := cv\<rparr>) = (r0, cx1)"
      "case r0 of Inl e \<Rightarrow> r = Inl e | Inr a0 \<Rightarrow> \<exists>a. r = Inr a \<and> aa_status a = aa_status a0 \<and> aa_body a = aa_body a0 \<and>
           (fs_enable_security_headers fs \<longrightarrow> secured (aa_headers a))" by blast
    show ?thesis
      by (rule exI [of _ "cx\<lparr>ax_vars := cv\<rparr>"], rule exI [of _ r0], rule exI [of _ cx1])
        (use r0 log True in \<open>auto simp: get_request_id_def split: sum.splits\<close>)
  qed
qed

text \<open>A preflight request is answered by the CORS layer, outside the security headers: the answer does not depend on
  whether they are enabled, nor on the routes, and the routes are not called.\<close>

theorem preflight_unsecured:
  assumes "cors_laws cors" and "is_preflight rq" and "fs_cors_allow_origins fs \<noteq> []"
  shows "\<exists>a. \<forall>sec ready routes. fst (wire_fluxlit_api cors fresh (fs\<lparr>fs_enable_security_headers := sec\<rparr>) ready routes rq cx) = Inr a"
proof -
  obtain args where args: "cors_arguments (fs\<lparr>fs_enable_security_headers := sec\<rparr>) = Some args" for sec
    using assms(3) by (simp add: cors_arguments_def)
  obtain a where a: "\<forall>call_next cx. cors args call_next rq cx = (Inr a, cx)" using cors_lawsD(1) [OF assms(1,2)] by blast
  have "fst (wire_fluxlit_api cors fresh (fs\<lparr>fs_enable_security_headers := sec\<rparr>) ready routes rq cx) = Inr a" for sec ready routes
    by (simp add: wired_stack args a request_log_layer_def set_request_id_def Let_def)
  then show ?thesis by blast
qed

subsection \<open>Samples\<close>

text \<open>A CORS middleware that obeys the laws.\<close>

definition sample_cors :: "json dict \<Rightarrow> unit api_middleware" where
  "sample_cors args call_next rq cx =
     (if is_preflight rq then (Inr \<lparr>aa_status = 200, aa_headers = [], aa_body = []\<rparr>, cx)
      else if \<not> has_header ''origin'' (aq_headers rq) then call_next rq cx
      else (case call_next rq cx of (r, cx') \<Rightarrow>
        (map_sum id (\<lambda>a. a\<lparr>aa_headers := aa_headers a @ [(''vary'', ''Origin'')]\<rparr>) r, cx')))"

lemma sample_cors_laws: "cors_laws sample_cors"
proof -
  have "has_header k (hs @ [(''vary'', v)]) = has_header k hs" if "k \<noteq> ''vary''" for k hs and v :: bytes
  proof -
    have "bytes_lower ''vary'' = ''vary''" by (simp add: pystr_eval)
    with that show ?thesis by (simp add: has_header_def)
  qed
  then show ?thesis by (auto simp: cors_laws_def sample_cors_def is_preflight_def split: sum.split)
qed

definition sample_vars :: "unit api_context" where
  "sample_vars = \<lparr>ax_vars = \<lparr>cv_request_id = None, cv_trace_hook = None, cv_page_headers = None, cv_page_cookies = None\<rparr>, ax_log = []\<rparr>"

definition guarded_settings :: fluxlit_settings where
  "guarded_settings = default_settings\<lparr>fs_enable_security_headers := True, fs_enable_request_logging := True,
     fs_cors_allow_origins := [u ''https://x.org'']\<rparr>"

theorem api_stack_serves_witness:
  "\<exists>a cx'. wire_fluxlit_api sample_cors (u ''f'') guarded_settings (Inl OSError) (\<lambda>rq cx. (Inl ValueError, cx))
     \<lparr>aq_method = u ''GET'', aq_path = u ''/healthz'', aq_headers = [(''origin'', ''https://x.org'')], aq_scheme = u ''http''\<rparr> sample_vars
     = (Inr a, cx') \<and> secured (aa_headers a) \<and> aa_status a = 200"
proof -
  let ?rq = "\<lparr>aq_method = u ''GET'', aq_path = u ''/healthz'', aq_headers = [(''origin'', ''https://x.org'')], aq_scheme = u ''http''\<rparr>"
  obtain r cx' where w: "wire_fluxlit_api sample_cors (u ''f'') guarded_settings (Inl OSError) (\<lambda>rq cx. (Inl ValueError, cx)) ?rq sample_vars = (r, cx')"
    by (metis surj_pair)
  have "\<not> is_preflight ?rq" by (simp add: is_preflight_def)
  from api_stack_serves [OF sample_cors_laws this w] w show ?thesis
    by (auto simp: builtin_routes_def healthz_def guarded_settings_def)
qed

theorem preflight_unsecured_witness:
  "\<exists>a. fst (wire_fluxlit_api sample_cors (u ''f'') guarded_settings (Inl OSError) (\<lambda>rq cx. (Inl ValueError, cx))
     \<lparr>aq_method = u ''OPTIONS'', aq_path = u ''/x'', aq_headers = [(''origin'', ''https://x.org''), (''access-control-request-method'', ''GET'')],
        aq_scheme = u ''http''\<rparr> sample_vars) = Inr a"
proof -
  let ?rq = "\<lparr>aq_method = u ''OPTIONS'', aq_path = u ''/x'',
     aq_headers = [(''origin'', ''https://x.org''), (''access-control-request-method'', ''GET'')], aq_scheme = u ''http''\<rparr>"
  have p: "is_preflight ?rq" by (simp add: is_preflight_def has_header_def pystr_eval)
  have f: "guarded_settings\<lparr>fs_enable_security_headers := True\<rparr> = guarded_settings" "fs_cors_allow_origins guarded_settings \<noteq> []"
    by (simp_all add: guarded_settings_def)
  obtain a where "\<forall>sec ready routes. fst (wire_fluxlit_api sample_cors (u ''f'') (guarded_settings\<lparr>fs_enable_security_headers := sec\<rparr>) ready routes ?rq sample_vars) = Inr a"
    using preflight_unsecured [OF sample_cors_laws p f(2)] by blast
  then have "fst (wire_fluxlit_api sample_cors (u ''f'') (guarded_settings\<lparr>fs_enable_security_headers := True\<rparr>) (Inl OSError)
      (\<lambda>rq cx. (Inl ValueError, cx)) ?rq sample_vars) = Inr a" by blast
  then show ?thesis unfolding f(1) by (rule exI)
qed

end
