(* ===== verification/Account_Demo.thy ===== *)
theory Account_Demo
  imports Api_Client Step_Systems "HOL-Library.Multiset"
begin

section \<open>The account API of the full-stack example\<close>

text \<open>
  Models the API of \<open>examples/fullstack_demo\<close>: \<open>database.py\<close>, \<open>models.py\<close>, \<open>schemas.py\<close>, \<open>security.py\<close>, the
  table of the Alembic migration and the routes of \<open>main.py\<close>. The table of users is a list in the order of the
  inserts. Passlib's context, the validation of e-mail addresses and PyJWT are arguments. Registering awaits the
  database twice, so overlapping registrations are the step relation \<open>demo_step\<close>: one step reads the table and
  makes the account, a later one inserts it. The routes are functions of the request and the table.
\<close>

subsection \<open>Configuration read at import\<close>

definition database_url :: "pystr dict \<Rightarrow> pystr \<Rightarrow> pystr" where
  "database_url environ default_sqlite =
     (case map_of environ (u ''DATABASE_URL'') of Some url \<Rightarrow> url | None \<Rightarrow> u ''sqlite:///'' @ default_sqlite)"

text \<open>\<open>s.replace(old, new, 1)\<close>.\<close>

definition replace_first :: "pystr \<Rightarrow> pystr \<Rightarrow> pystr \<Rightarrow> pystr" where
  "replace_first s old new = (case split1 s old of None \<Rightarrow> s | Some (a, b) \<Rightarrow> a @ new @ b)"

definition async_database_url :: "pystr dict \<Rightarrow> pystr \<Rightarrow> exc + pystr" where
  "async_database_url environ default_sqlite =
     (let url = database_url environ default_sqlite
      in if \<not> startswith url (u ''sqlite:'') then Inl ValueError
         else Inr (replace_first url (u ''sqlite:'') (u ''sqlite+rapsqlite:'')))"

record account_config =
  dc_issuer :: pystr
  dc_audience :: pystr
  dc_secret :: pystr
  dc_ttl_seconds :: int

definition account_config_of :: "pystr dict \<Rightarrow> exc + account_config" where
  "account_config_of environ =
     (let get = (\<lambda>k d. case map_of environ (u k) of Some v \<Rightarrow> v | None \<Rightarrow> u d)
      in bind_exc (py_int (get ''JWT_TTL_SECONDS'' ''3600'')) (\<lambda>ttl.
           Inr \<lparr>dc_issuer = get ''JWT_ISSUER'' ''fullstack-demo'', dc_audience = get ''JWT_AUDIENCE'' ''fullstack-demo-api'',
                dc_secret = get ''JWT_SECRET'' ''fullstack-demo-jwt-secret-min-32-chars-for-hs256!!'', dc_ttl_seconds = ttl\<rparr>))"

definition demo_bearer :: "'k jwt_lib \<Rightarrow> account_config \<Rightarrow> exc + jwt_bearer" where
  "demo_bearer L c =
     make_jwt_bearer L \<lparr>jc_issuer = dc_issuer c, jc_audience = AudStr (dc_audience c), jc_algorithms = [u ''HS256''],
       jc_jwks_url = None, jc_hs256_secret = Some (dc_secret c), jc_leeway_seconds = 0\<rparr>"

definition mint_access_token :: "'k jwt_lib \<Rightarrow> account_config \<Rightarrow> int \<Rightarrow> int \<Rightarrow> pystr \<Rightarrow> pystr \<Rightarrow> exc + pystr" where
  "mint_access_token L c now user_id email full_name =
     issue_hs256_access_token L (str_of_int user_id) (dc_issuer c) (AudStr (dc_audience c)) (dc_secret c) (dc_ttl_seconds c) now
       [(u ''email'', JStr email), (u ''name'', JStr full_name), (u ''scope'', JStr (u ''read write''))]"

subsection \<open>Request bodies\<close>

definition sized_str :: "json dict \<Rightarrow> string \<Rightarrow> nat \<Rightarrow> nat \<Rightarrow> pystr option" where
  "sized_str d k min_length max_length =
     (case map_of d (u k) of
        Some (JStr s) \<Rightarrow> if min_length \<le> length s \<and> length s \<le> max_length then Some s else None
      | _ \<Rightarrow> None)"

text \<open>\<open>email_str\<close>: validation of an \<open>EmailStr\<close>, the normalised address if it is one.\<close>

definition email_field :: "(pystr \<Rightarrow> pystr option) \<Rightarrow> json dict \<Rightarrow> pystr option" where
  "email_field email_str d = (case map_of d (u ''email'') of Some (JStr s) \<Rightarrow> email_str s | _ \<Rightarrow> None)"

record register_request =
  rr_email :: pystr
  rr_password :: pystr
  rr_full_name :: pystr

definition validate_register :: "(pystr \<Rightarrow> pystr option) \<Rightarrow> json \<Rightarrow> register_request option" where
  "validate_register email_str body =
     (case body of
        JObj d \<Rightarrow>
          (case (email_field email_str d, sized_str d ''password'' 8 128, sized_str d ''full_name'' 1 255) of
             (Some e, Some p, Some n) \<Rightarrow> Some \<lparr>rr_email = e, rr_password = p, rr_full_name = n\<rparr>
           | _ \<Rightarrow> None)
      | _ \<Rightarrow> None)"

record login_request =
  lr_email :: pystr
  lr_password :: pystr

definition validate_login :: "(pystr \<Rightarrow> pystr option) \<Rightarrow> json \<Rightarrow> login_request option" where
  "validate_login email_str body =
     (case body of
        JObj d \<Rightarrow>
          (case (email_field email_str d, sized_str d ''password'' 1 128) of
             (Some e, Some p) \<Rightarrow> Some \<lparr>lr_email = e, lr_password = p\<rparr>
           | _ \<Rightarrow> None)
      | _ \<Rightarrow> None)"

text \<open>FastAPI answers 422 to a body that does not validate, and 500 where a route raises anything but an
  \<open>HTTPException\<close>.\<close>

definition unprocessable :: exc where
  "unprocessable = OtherError (u ''RequestValidationError'')"

definition answer_status :: "nat \<Rightarrow> exc + 'a \<Rightarrow> nat" where
  "answer_status status_code r =
     (case r of Inr _ \<Rightarrow> status_code | Inl (HTTPException n _) \<Rightarrow> n | Inl e \<Rightarrow> if e = unprocessable then 422 else 500)"

lemma answer_status_simps:
  "answer_status k (Inr x) = k" "answer_status k (Inl (HTTPException n d)) = n" "answer_status k (Inl unprocessable) = 422"
  by (simp_all add: answer_status_def unprocessable_def)

subsection \<open>The table of users\<close>

record user =
  us_id :: "int option"
  us_email :: pystr
  us_password_hash :: pystr
  us_full_name :: pystr
  us_created_at :: real

text \<open>\<open>select(User).where(User.email == e)\<close> with \<open>scalar_one_or_none\<close>, which raises if several rows match.\<close>

definition select_by_email :: "pystr \<Rightarrow> user list \<Rightarrow> exc + user option" where
  "select_by_email e users =
     (case filter (\<lambda>x. us_email x = e) users of
        [] \<Rightarrow> Inr None
      | [x] \<Rightarrow> Inr (Some x)
      | _ \<Rightarrow> Inl (OtherError (u ''sqlalchemy.exc.MultipleResultsFound'')))"

definition get_user :: "int \<Rightarrow> user list \<Rightarrow> user option" where
  "get_user uid users = find (\<lambda>x. us_id x = Some uid) users"

text \<open>A new row gets the id after the largest one; the unique index on \<open>email\<close> refuses a second row.\<close>

definition next_user_id :: "user list \<Rightarrow> int" where
  "next_user_id users = fold max (map (\<lambda>x. case us_id x of Some n \<Rightarrow> n | None \<Rightarrow> 0) users) 0 + 1"

definition integrity_error :: exc where
  "integrity_error = OtherError (u ''sqlalchemy.exc.IntegrityError'')"

lemma integrity_error_status: "answer_status k (Inl integrity_error) = 500"
  by (simp add: answer_status_def integrity_error_def unprocessable_def)

definition insert_user :: "user \<Rightarrow> user list \<Rightarrow> (exc + user) \<times> user list" where
  "insert_user x users =
     (if us_email x \<in> us_email ` set users then (Inl integrity_error, users)
      else (let x' = x\<lparr>us_id := Some (next_user_id users)\<rparr> in (Inr x', users @ [x'])))"

subsection \<open>The routes\<close>

record password_context =
  pw_hash :: "nat \<Rightarrow> pystr \<Rightarrow> exc + pystr"
  pw_verify :: "pystr \<Rightarrow> pystr \<Rightarrow> exc + bool"

text \<open>\<open>register\<close> up to its commit: the query and the new object; \<open>salt\<close> is the salt of the hash.\<close>

definition register_select :: "password_context \<Rightarrow> nat \<Rightarrow> real \<Rightarrow> register_request \<Rightarrow> user list \<Rightarrow> exc + user" where
  "register_select C salt now body users =
     bind_exc (select_by_email (lower (rr_email body)) users) (\<lambda>found.
       case found of
         Some _ \<Rightarrow> Inl (HTTPException 409 (u ''Email already registered''))
       | None \<Rightarrow>
           bind_exc (pw_hash C salt (rr_password body)) (\<lambda>h.
             Inr \<lparr>us_id = None, us_email = lower (rr_email body), us_password_hash = h,
                  us_full_name = strip (rr_full_name body), us_created_at = now\<rparr>))"

definition register_route ::
  "(pystr \<Rightarrow> pystr option) \<Rightarrow> password_context \<Rightarrow> nat \<Rightarrow> real \<Rightarrow> json \<Rightarrow> user list \<Rightarrow> (exc + user) \<times> user list" where
  "register_route email_str C salt now body users =
     (case validate_register email_str body of
        None \<Rightarrow> (Inl unprocessable, users)
      | Some rq \<Rightarrow>
          (case register_select C salt now rq users of
             Inl e \<Rightarrow> (Inl e, users)
           | Inr x \<Rightarrow> insert_user x users))"

text \<open>The answer has the fields of \<open>UserPublic\<close> only.\<close>

record user_public =
  up_id :: int
  up_email :: pystr
  up_full_name :: pystr
  up_created_at :: real

definition public_user :: "user \<Rightarrow> exc + user_public" where
  "public_user x =
     (case us_id x of
        None \<Rightarrow> Inl (OtherError (u ''ResponseValidationError''))
      | Some n \<Rightarrow> Inr \<lparr>up_id = n, up_email = us_email x, up_full_name = us_full_name x, up_created_at = us_created_at x\<rparr>)"

definition register_response ::
  "(pystr \<Rightarrow> pystr option) \<Rightarrow> password_context \<Rightarrow> nat \<Rightarrow> real \<Rightarrow> json \<Rightarrow> user list \<Rightarrow> (exc + user_public) \<times> user list" where
  "register_response email_str C salt now body users =
     (case register_route email_str C salt now body users of (r, users') \<Rightarrow> (bind_exc r public_user, users'))"

record token_response =
  tr_access_token :: pystr
  tr_token_type :: pystr
  tr_expires_in :: int

definition account_login_route ::
  "'k jwt_lib \<Rightarrow> account_config \<Rightarrow> (pystr \<Rightarrow> pystr option) \<Rightarrow> password_context \<Rightarrow> int \<Rightarrow> json \<Rightarrow> user list \<Rightarrow>
     exc + token_response" where
  "account_login_route L c email_str C now body users =
     (case validate_login email_str body of
        None \<Rightarrow> Inl unprocessable
      | Some rq \<Rightarrow>
          bind_exc (select_by_email (lower (lr_email rq)) users) (\<lambda>found.
          bind_exc (case found of None \<Rightarrow> Inr None
                    | Some x \<Rightarrow> bind_exc (pw_verify C (lr_password rq) (us_password_hash x)) (\<lambda>ok. Inr (if ok then Some x else None)))
            (\<lambda>known. case known of
                 None \<Rightarrow> Inl (HTTPException 401 (u ''Invalid email or password''))
               | Some x \<Rightarrow>
                   bind_exc (mint_access_token L c now (case us_id x of Some n \<Rightarrow> n | None \<Rightarrow> 0) (us_email x) (us_full_name x)) (\<lambda>token.
                     Inr \<lparr>tr_access_token = token, tr_token_type = u ''bearer'', tr_expires_in = dc_ttl_seconds c\<rparr>))))"

record me_response =
  me_sub :: "pystr option"
  me_email :: "pystr option"
  me_full_name :: "pystr option"

definition str_claim :: "json dict \<Rightarrow> string \<Rightarrow> pystr option" where
  "str_claim claims k = (case map_of claims (u k) of Some (JStr s) \<Rightarrow> Some s | _ \<Rightarrow> None)"

definition users_me :: "json dict \<Rightarrow> user list \<Rightarrow> exc + me_response" where
  "users_me claims users =
     bind_exc (py_int (or_str (opt_str (str_claim claims ''sub'')) (u ''0''))) (\<lambda>uid.
       case get_user uid users of
         None \<Rightarrow> Inl (HTTPException 404 (u ''User not found''))
       | Some x \<Rightarrow> Inr \<lparr>me_sub = str_claim claims ''sub'',
             me_email = Some (case str_claim claims ''email'' of Some e \<Rightarrow> e | None \<Rightarrow> us_email x),
             me_full_name = Some (case str_claim claims ''name'' of Some n \<Rightarrow> n | None \<Rightarrow> us_full_name x)\<rparr>)"

definition users_me_route :: "'k jwt_lib \<Rightarrow> jwt_bearer \<Rightarrow> http_req \<Rightarrow> user list \<Rightarrow> exc + me_response" where
  "users_me_route L b req users = bind_exc (bearer_call L b req) (\<lambda>claims. users_me claims users)"

subsection \<open>Overlapping registrations\<close>

record demo =
  dm_users :: "user list"
  dm_pending :: "(nat \<times> user) list"
  dm_answers :: "(nat \<times> (exc + user)) list"

definition demo_start :: demo where
  "demo_start = \<lparr>dm_users = [], dm_pending = [], dm_answers = []\<rparr>"

inductive demo_step :: "(pystr \<Rightarrow> pystr option) \<Rightarrow> password_context \<Rightarrow> demo \<Rightarrow> demo \<Rightarrow> bool"
  for email_str :: "pystr \<Rightarrow> pystr option" and C :: password_context where
  invalid: "validate_register email_str body = None \<Longrightarrow>
    demo_step email_str C s (s\<lparr>dm_answers := (r, Inl unprocessable) # dm_answers s\<rparr>)"
| refuse: "validate_register email_str body = Some rq \<Longrightarrow> register_select C salt now rq (dm_users s) = Inl e \<Longrightarrow>
    demo_step email_str C s (s\<lparr>dm_answers := (r, Inl e) # dm_answers s\<rparr>)"
| prepare: "validate_register email_str body = Some rq \<Longrightarrow> register_select C salt now rq (dm_users s) = Inr x \<Longrightarrow>
    demo_step email_str C s (s\<lparr>dm_pending := (r, x) # dm_pending s\<rparr>)"
| commit: "dm_pending s = xs @ (r, x) # ys \<Longrightarrow> insert_user x (dm_users s) = (a, users') \<Longrightarrow>
    demo_step email_str C s (s\<lparr>dm_users := users', dm_pending := xs @ ys, dm_answers := (r, a) # dm_answers s\<rparr>)"

subsection \<open>The table\<close>

definition users_ok :: "user list \<Rightarrow> bool" where
  "users_ok users \<longleftrightarrow> distinct (map us_email users) \<and> distinct (map us_id users) \<and>
     (\<forall>x \<in> set users. lower (us_email x) = us_email x \<and> (\<exists>n > 0. us_id x = Some n))"

lemma fold_max_ge: "n \<in> set ns \<or> n = a \<Longrightarrow> n \<le> fold max ns (a :: int)"
proof (induction ns arbitrary: a n)
  case (Cons m ns)
  have "max m a \<le> fold max ns (max m a)" using Cons.IH [of "max m a" "max m a"] by simp
  with Cons.IH [of n "max m a"] Cons.prems show ?case by auto
qed simp

lemma next_user_id_fresh:
  "0 < next_user_id users" "x \<in> set users \<Longrightarrow> us_id x \<noteq> Some (next_user_id users)"
proof -
  let ?ids = "map (\<lambda>x. case us_id x of Some n \<Rightarrow> n | None \<Rightarrow> 0) users"
  show "0 < next_user_id users" using fold_max_ge [of 0 ?ids 0] by (simp add: next_user_id_def)
  show "us_id x \<noteq> Some (next_user_id users)" if "x \<in> set users"
  proof
    assume i: "us_id x = Some (next_user_id users)"
    then have "next_user_id users \<in> set ?ids" using that by force
    then show False using fold_max_ge [of "next_user_id users" ?ids 0] by (simp add: next_user_id_def)
  qed
qed

lemma insert_user_ok:
  assumes "users_ok users" and "lower (us_email x) = us_email x" and "insert_user x users = (a, users')"
  shows "users_ok users'" and "\<forall>y. a = Inr y \<longrightarrow> users' = users @ [y] \<and> us_email y = us_email x"
    and "\<forall>e. a = Inl e \<longrightarrow> e = integrity_error \<and> users' = users \<and> us_email x \<in> us_email ` set users"
proof -
  have ids: "Some (next_user_id users) \<notin> us_id ` set users" using next_user_id_fresh(2) by (metis imageE)
  show "users_ok users'" using assms ids next_user_id_fresh(1) [of users]
    by (auto simp: users_ok_def insert_user_def Let_def split: if_splits)
  show "\<forall>y. a = Inr y \<longrightarrow> users' = users @ [y] \<and> us_email y = us_email x"
    "\<forall>e. a = Inl e \<longrightarrow> e = integrity_error \<and> users' = users \<and> us_email x \<in> us_email ` set users"
    using assms(3) by (auto simp: insert_user_def Let_def split: if_splits)
qed

text \<open>On a good table a query by e-mail finds the account or nothing, and a query by id the account.\<close>

lemma filter_unique:
  "distinct (map f xs) \<Longrightarrow> x \<in> set xs \<Longrightarrow> filter (\<lambda>y. f y = f x) xs = [x]"
proof (induction xs)
  case (Cons z xs)
  show ?case
  proof (cases "x = z")
    case True
    with Cons.prems have "filter (\<lambda>y. f y = f x) xs = []" by (auto simp: filter_empty_conv) (metis image_eqI)
    with True show ?thesis by simp
  next
    case False
    with Cons show ?thesis by auto
  qed
qed simp

lemma find_unique: "distinct (map f xs) \<Longrightarrow> x \<in> set xs \<Longrightarrow> f x = k \<Longrightarrow> find (\<lambda>y. f y = k) xs = Some x"
  by (induction xs) auto

lemma select_by_email_ok:
  assumes "users_ok users"
  shows "select_by_email e users = Inr (find (\<lambda>x. us_email x = e) users)"
proof (cases "find (\<lambda>x. us_email x = e) users")
  case None
  then have "filter (\<lambda>x. us_email x = e) users = []" by (simp add: find_None_iff filter_empty_conv)
  then show ?thesis by (simp add: select_by_email_def None)
next
  case (Some x)
  then have x: "x \<in> set users" "us_email x = e" by (auto simp: find_Some_iff)
  then have "filter (\<lambda>y. us_email y = e) users = [x]"
    using assms filter_unique [of us_email users x] by (simp add: users_ok_def)
  then show ?thesis by (simp add: select_by_email_def Some)
qed

lemma account_found:
  assumes "users_ok users" and "x \<in> set users" and "us_id x = Some n"
  shows "select_by_email (us_email x) users = Inr (Some x)" and "get_user n users = Some x"
  using assms find_unique [of us_email users x "us_email x"] find_unique [of us_id users x "Some n"]
  by (simp_all add: select_by_email_ok users_ok_def get_user_def)

subsection \<open>Reachable states\<close>

text \<open>The accounts that were answered with 201.\<close>

definition granted :: "demo \<Rightarrow> user list" where
  "granted s = [x. (r, Inr x) \<leftarrow> dm_answers s]"

definition demo_good :: "demo \<Rightarrow> bool" where
  "demo_good s \<longleftrightarrow> users_ok (dm_users s) \<and> (\<forall>(r, x) \<in> set (dm_pending s). lower (us_email x) = us_email x) \<and>
     mset (granted s) = mset (dm_users s)"

lemma granted_simps [simp]:
  "granted (s\<lparr>dm_answers := (r, Inl e) # as\<rparr>) = granted (s\<lparr>dm_answers := as\<rparr>)"
  "granted (s\<lparr>dm_answers := (r, Inr x) # as\<rparr>) = x # granted (s\<lparr>dm_answers := as\<rparr>)"
  "granted (s\<lparr>dm_users := us, dm_pending := ps, dm_answers := as\<rparr>) = granted (s\<lparr>dm_answers := as\<rparr>)"
  "granted (s\<lparr>dm_pending := ps\<rparr>) = granted s"
  "granted (s\<lparr>dm_users := us\<rparr>) = granted s"
  by (simp_all add: granted_def)

lemma register_select_Inr:
  "register_select C salt now rq users = Inr x \<Longrightarrow> lower (us_email x) = us_email x"
  by (auto simp: register_select_def bind_exc_Inr_iff split: option.splits)

lemma demo_good_step:
  assumes "demo_good s" and "demo_step email_str C s s'"
  shows "demo_good s'"
  using assms(2)
proof (cases rule: demo_step.cases)
  case (prepare body rq salt now x r)
  with assms(1) register_select_Inr show ?thesis by (auto simp: demo_good_def)
next
  case (commit xs r x ys a users')
  have low: "lower (us_email x) = us_email x" using assms(1) commit(2) by (auto simp: demo_good_def)
  have ok: "users_ok (dm_users s)" using assms(1) by (simp add: demo_good_def)
  have "mset (granted s') = mset users'"
    using insert_user_ok [OF ok low commit(3)] assms(1) commit(1)
    by (cases a) (simp_all add: demo_good_def)
  with insert_user_ok(1) [OF ok low commit(3)] assms(1) commit(1,2) show ?thesis by (auto simp: demo_good_def)
qed (use assms(1) in \<open>auto simp: demo_good_def\<close>)

interpretation demo: invariant_system "demo_step email_str C" "\<lambda>s. s = demo_start" demo_good
proof unfold_locales
  show "s = demo_start \<Longrightarrow> demo_good s" for s by (simp add: demo_good_def demo_start_def users_ok_def granted_def)
qed (rule demo_good_step)

text \<open>An account stays in the table.\<close>

lemma account_kept:
  assumes "(demo_step email_str C)\<^sup>*\<^sup>* s s'" and "demo_good s" and "x \<in> set (dm_users s)"
  shows "x \<in> set (dm_users s')"
proof (rule demo.kept_on_run [of _ _ s s' "\<lambda>s. x \<in> set (dm_users s)", OF assms])
  fix a b assume a: "demo_good a" "x \<in> set (dm_users a)" "demo_step email_str C a b"
  from a(3) show "x \<in> set (dm_users b)"
  proof (cases rule: demo_step.cases)
    case (commit xs r y ys ans users')
    have "lower (us_email y) = us_email y" "users_ok (dm_users a)" using a(1) commit(2) by (auto simp: demo_good_def)
    with insert_user_ok(2,3) [OF _ _ commit(3)] a(2) commit(1) show ?thesis by (cases ans) auto
  qed (use a(2) in auto)
qed

text \<open>C39: However registrations overlap, the e-mail addresses and the ids of the accounts stay distinct, and every
  account was answered with 201 exactly once: two requests are never granted the same e-mail address.\<close>

theorem registrations_exclusive:
  assumes "(demo_step email_str C)\<^sup>*\<^sup>* demo_start s"
  shows "users_ok (dm_users s) \<and> mset (granted s) = mset (dm_users s) \<and> distinct (map us_email (granted s))"
proof -
  have g: "users_ok (dm_users s)" "mset (granted s) = mset (dm_users s)"
    using demo.good_reachable [OF assms refl] by (simp_all add: demo_good_def)
  then have "mset (map us_email (granted s)) = mset (map us_email (dm_users s))" by simp
  with g show ?thesis using mset_eq_imp_distinct_iff by (fastforce simp: users_ok_def)
qed

subsection \<open>From registration to the signed-in account\<close>

text \<open>The whole handler, when nothing runs between its two visits to the database, is a run of the relation.\<close>

lemma register_route_runs:
  assumes "register_route email_str C salt now body (dm_users s) = (a, users')"
  shows "(demo_step email_str C)\<^sup>*\<^sup>* s (s\<lparr>dm_users := users', dm_answers := (r, a) # dm_answers s\<rparr>)"
proof (cases "validate_register email_str body")
  case None
  then show ?thesis using assms demo_step.invalid [OF None] by (auto simp: register_route_def)
next
  case (Some rq)
  show ?thesis
  proof (cases "register_select C salt now rq (dm_users s)")
    case (Inl e)
    then show ?thesis using assms Some demo_step.refuse [OF Some Inl] by (auto simp: register_route_def)
  next
    case (Inr x)
    let ?s1 = "s\<lparr>dm_pending := (r, x) # dm_pending s\<rparr>"
    have "insert_user x (dm_users ?s1) = (a, users')" using assms Some Inr by (simp add: register_route_def)
    from demo_step.commit [of ?s1 "[]" r x "dm_pending s", OF _ this, of email_str C] demo_step.prepare [OF Some Inr, of r]
    show ?thesis by (simp add: converse_rtranclp_into_rtranclp)
  qed
qed

definition account_payload :: "account_config \<Rightarrow> int \<Rightarrow> int \<Rightarrow> pystr \<Rightarrow> pystr \<Rightarrow> json dict" where
  "account_payload c now n email full_name =
     access_token_payload (str_of_int n) (dc_issuer c) (AudStr (dc_audience c)) (dc_ttl_seconds c) now
       [(u ''email'', JStr email), (u ''name'', JStr full_name), (u ''scope'', JStr (u ''read write''))]"

lemma account_payload_get:
  "map_of (account_payload c now n email full_name) (u ''iss'') = Some (JStr (dc_issuer c))"
  "map_of (account_payload c now n email full_name) (u ''aud'') = Some (JStr (dc_audience c))"
  "map_of (account_payload c now n email full_name) (u ''sub'') = Some (JStr (str_of_int n))"
  "map_of (account_payload c now n email full_name) (u ''email'') = Some (JStr email)"
  "map_of (account_payload c now n email full_name) (u ''name'') = Some (JStr full_name)"
  by (simp_all add: account_payload_def access_token_payload_def)

text \<open>What is relied on of \<open>StandardClaims\<close>: a payload minted here validates, with the subject and the extra
  claims as they are.\<close>

definition keeps_claims :: "'k jwt_lib \<Rightarrow> account_config \<Rightarrow> bool" where
  "keeps_claims L c \<longleftrightarrow>
     (\<forall>now n email full_name. \<exists>claims. jl_claims L (account_payload c now n email full_name) = Inr claims \<and>
        (\<forall>k \<in> {u ''sub'', u ''email'', u ''name''}. map_of claims k = map_of (account_payload c now n email full_name) k))"

definition hash_verifies :: "password_context \<Rightarrow> bool" where
  "hash_verifies C \<longleftrightarrow> (\<forall>salt p h. pw_hash C salt p = Inr h \<longrightarrow> pw_verify C p h = Inr True)"

lemma minted_token_accepted:
  assumes "jwt_roundtrip L valid" and "jl_installed L" and "demo_bearer L c = Inr b"
    and "valid (account_payload c now n email full_name) 0"
    and "mint_access_token L c now n email full_name = Inr token"
    and "hr_header req (u ''authorization'') = Some (bearer_value token)"
  shows "bearer_call L b req = jl_claims L (account_payload c now n email full_name)"
proof -
  let ?p = "account_payload c now n email full_name"
  have t: "token = jl_encode L ?p (dc_secret c)"
    using assms(2,5) by (simp add: mint_access_token_def issue_hs256_access_token_def account_payload_def)
  have b: "jb_config b = \<lparr>jc_issuer = dc_issuer c, jc_audience = AudStr (dc_audience c), jc_algorithms = [u ''HS256''],
       jc_jwks_url = None, jc_hs256_secret = Some (dc_secret c), jc_leeway_seconds = 0\<rparr>"
    using assms(3) by (auto simp: demo_bearer_def make_jwt_bearer_def split: if_splits)
  have tok: "token \<noteq> []" "strip token = token" using assms(1) unfolding t jwt_roundtrip_def by blast+
  have "audience_ok ?p (AudStr (dc_audience c))" by (simp add: audience_ok_def account_payload_get)
  then have "jl_decode L token (SecretKey (dc_secret c)) [u ''HS256''] (AudStr (dc_audience c)) (dc_issuer c) 0 = Inr ?p"
    using assms(1,4) unfolding jwt_roundtrip_def t by (simp add: account_payload_get)
  then have "decode_token_json L b token = Inr ?p"
    by (simp add: decode_token_json_def decode_with_def b assms(2))
  moreover have "bearer_token req = Inr token" by (rule bearer_token_reads_back [OF tok(2,1) assms(6)])
  ultimately show ?thesis by (simp add: bearer_call_def assms(2))
qed

lemma users_me_minted:
  assumes "keeps_claims L c" and "users_ok users" and "x \<in> set users" and "us_id x = Some n"
    and "jl_claims L (account_payload c now n (us_email x) (us_full_name x)) = Inr claims"
  shows "users_me claims users =
    Inr \<lparr>me_sub = Some (str_of_int n), me_email = Some (us_email x), me_full_name = Some (us_full_name x)\<rparr>"
proof -
  let ?p = "account_payload c now n (us_email x) (us_full_name x)"
  have k: "map_of claims (u k) = map_of ?p (u k)" if "k \<in> {''sub'', ''email'', ''name''}" for k
  proof -
    obtain cl where "jl_claims L ?p = Inr cl" "\<forall>k \<in> {u ''sub'', u ''email'', u ''name''}. map_of cl k = map_of ?p k"
      using assms(1) unfolding keeps_claims_def by blast
    with assms(5) that show ?thesis by auto
  qed
  have c: "str_claim claims ''sub'' = Some (str_of_int n)" "str_claim claims ''email'' = Some (us_email x)"
    "str_claim claims ''name'' = Some (us_full_name x)"
    by (simp_all add: str_claim_def k account_payload_get)
  have n: "0 < n" using assms(2-4) by (auto simp: users_ok_def)
  then have "str_of_int n = str_of_nat (nat n)" by (simp add: str_of_int_def)
  then have "py_int (or_str (str_of_int n) (u ''0'')) = Inr n"
    using str_of_nat_digits [of "nat n"] n by (simp add: or_str_def py_int_str_of_nat)
  with c account_found(2) [OF assms(2,3,4)] show ?thesis by (simp add: users_me_def)
qed

text \<open>C38: Whoever registers can sign in with the same password, in any letter case of the e-mail address, at any later
  time and whatever other registrations happen; the token of that sign-in then opens the account that was
  registered, again at any later time while the token is valid.\<close>

theorem registered_account_signs_in:
  assumes "jwt_roundtrip L valid" and "jl_installed L" and "demo_bearer L c = Inr b" and "keeps_claims L c" and "hash_verifies C"
    and "(demo_step email_str C)\<^sup>*\<^sup>* demo_start s"
    and "register_route email_str C salt now body (dm_users s) = (Inr x, users')"
    and "validate_register email_str body = Some rq"
    and "(demo_step email_str C)\<^sup>*\<^sup>* (s\<lparr>dm_users := users', dm_answers := (r, Inr x) # dm_answers s\<rparr>) s2"
    and "validate_login email_str body2 = Some lq" and "lower (lr_email lq) = lower (rr_email rq)"
    and "lr_password lq = rr_password rq"
    and "\<forall>n. valid (account_payload c t n (us_email x) (us_full_name x)) 0"
  shows "\<exists>n token. us_id x = Some n \<and>
    account_login_route L c email_str C t body2 (dm_users s2) =
      Inr \<lparr>tr_access_token = token, tr_token_type = u ''bearer'', tr_expires_in = dc_ttl_seconds c\<rparr> \<and>
    (\<forall>s3 req. (demo_step email_str C)\<^sup>*\<^sup>* s2 s3 \<longrightarrow> hr_header req (u ''authorization'') = Some (bearer_value token) \<longrightarrow>
       users_me_route L b req (dm_users s3) =
         Inr \<lparr>me_sub = Some (str_of_int n), me_email = Some (lower (rr_email rq)), me_full_name = Some (strip (rr_full_name rq))\<rparr>)"
proof -
  let ?s1 = "s\<lparr>dm_users := users', dm_answers := (r, Inr x) # dm_answers s\<rparr>"
  have good: "demo_good s" "demo_good ?s1" "demo_good s2"
    using demo.good_reachable [OF assms(6) refl] demo.good_run [OF register_route_runs [OF assms(7)]] demo.good_run [OF assms(9)]
    by blast+
  obtain d where d: "register_select C salt now rq (dm_users s) = Inr d" "insert_user d (dm_users s) = (Inr x, users')"
    using assms(7,8) by (auto simp: register_route_def split: sum.splits)
  then have in1: "x \<in> set (dm_users ?s1)" and same: "us_email x = us_email d" "us_full_name x = us_full_name d"
    "us_password_hash x = us_password_hash d"
    by (auto simp: insert_user_def Let_def split: if_splits)
  have dx: "us_email d = lower (rr_email rq)" "us_full_name d = strip (rr_full_name rq)"
    "pw_hash C salt (rr_password rq) = Inr (us_password_hash d)"
    using d(1) by (auto simp: register_select_def bind_exc_Inr_iff split: option.splits)
  have in2: "x \<in> set (dm_users s2)" using account_kept [OF assms(9) good(2) in1] .
  have ok2: "users_ok (dm_users s2)" using good(3) by (simp add: demo_good_def)
  then obtain n where n: "us_id x = Some n" using in2 by (auto simp: users_ok_def)
  obtain token where mint: "mint_access_token L c t n (us_email x) (us_full_name x) = Inr token"
    using assms(2) by (simp add: mint_access_token_def issue_hs256_access_token_def)
  have "pw_verify C (lr_password lq) (us_password_hash x) = Inr True"
    using assms(5,12) dx(3) same(3) by (simp add: hash_verifies_def)
  then have login: "account_login_route L c email_str C t body2 (dm_users s2) =
      Inr \<lparr>tr_access_token = token, tr_token_type = u ''bearer'', tr_expires_in = dc_ttl_seconds c\<rparr>"
    using account_found(1) [OF ok2 in2 n] same(1) dx(1) assms(10,11) n mint by (simp add: account_login_route_def)
  have "users_me_route L b req (dm_users s3) =
      Inr \<lparr>me_sub = Some (str_of_int n), me_email = Some (lower (rr_email rq)), me_full_name = Some (strip (rr_full_name rq))\<rparr>"
    if run: "(demo_step email_str C)\<^sup>*\<^sup>* s2 s3" and req: "hr_header req (u ''authorization'') = Some (bearer_value token)" for s3 req
  proof -
    have in3: "x \<in> set (dm_users s3)" using account_kept [OF run good(3) in2] .
    have ok3: "users_ok (dm_users s3)" using demo.good_run [OF run good(3)] by (simp add: demo_good_def)
    obtain claims where cl: "jl_claims L (account_payload c t n (us_email x) (us_full_name x)) = Inr claims"
      using assms(4) unfolding keeps_claims_def by blast
    have "bearer_call L b req = Inr claims"
      using minted_token_accepted [OF assms(1-3) spec [OF assms(13)] mint req] cl by simp
    with users_me_minted [OF assms(4) ok3 in3 n cl] show ?thesis
      by (simp add: users_me_route_def same dx)
  qed
  with n login show ?thesis by blast
qed

subsection \<open>A run with concrete requests\<close>

definition ada_body :: json where
  "ada_body = JObj [(u ''email'', JStr (u ''Ada@example.com'')), (u ''password'', JStr (u ''correct horse'')),
     (u ''full_name'', JStr (u '' Ada ''))]"

definition ada_login :: json where
  "ada_login = JObj [(u ''email'', JStr (u ''ADA@example.com'')), (u ''password'', JStr (u ''correct horse''))]"

definition ada :: user where
  "ada = \<lparr>us_id = Some 1, us_email = u ''ada@example.com'', us_password_hash = u ''correct horse'', us_full_name = u ''Ada'',
     us_created_at = 5\<rparr>"

definition plain_context :: password_context where
  "plain_context = \<lparr>pw_hash = (\<lambda>_ p. Inr p), pw_verify = (\<lambda>p h. Inr (p = h))\<rparr>"

definition demo_defaults :: account_config where
  "demo_defaults = \<lparr>dc_issuer = u ''fullstack-demo'', dc_audience = u ''fullstack-demo-api'',
     dc_secret = u ''fullstack-demo-jwt-secret-min-32-chars-for-hs256!!'', dc_ttl_seconds = 3600\<rparr>"

definition ada_payload :: "pystr \<Rightarrow> json dict" where
  "ada_payload sub = access_token_payload sub (u ''fullstack-demo'') (AudStr (u ''fullstack-demo-api'')) 3600 9
     [(u ''email'', JStr (u ''ada@example.com'')), (u ''name'', JStr (u ''Ada'')), (u ''scope'', JStr (u ''read write''))]"

definition demo_lib :: "unit jwt_lib" where
  "demo_lib = roundtrip_lib\<lparr>jl_decode := (\<lambda>tok _ _ _ _ _. Inr (ada_payload (butlast (tl tok))))\<rparr>"

lemma demo_defaults_read: "account_config_of [] = Inr demo_defaults"
proof -
  have "str_of_nat 3600 = u ''3600''" by (simp add: pystr_eval pystr_run)
  then have "py_int (u ''3600'') = Inr 3600" using py_int_str_of_nat [of 3600] by simp
  then show ?thesis by (simp add: account_config_of_def demo_defaults_def)
qed

lemma demo_lib_laws:
  "jwt_roundtrip demo_lib (\<lambda>p _. \<exists>sub. p = ada_payload sub)" "jl_installed demo_lib" "keeps_claims demo_lib demo_defaults"
proof -
  have e: "strip (jl_encode demo_lib p secret) = jl_encode demo_lib p secret \<and> jl_encode demo_lib p secret \<noteq> []" for p secret
    using roundtrip_lib_laws by (simp add: jwt_roundtrip_def demo_lib_def)
  have s: "map_of (ada_payload sub) (u ''sub'') = Some (JStr sub)" for sub
    by (simp add: ada_payload_def access_token_payload_def)
  show "jwt_roundtrip demo_lib (\<lambda>p _. \<exists>sub. p = ada_payload sub)"
    unfolding jwt_roundtrip_def using e by (auto simp: demo_lib_def roundtrip_lib_def s)
  show "jl_installed demo_lib" by (simp add: demo_lib_def roundtrip_lib_def sample_lib_def)
  show "keeps_claims demo_lib demo_defaults" by (simp add: keeps_claims_def demo_lib_def roundtrip_lib_def sample_lib_def)
qed

lemma ada_valid:
  "validate_register Some ada_body = Some \<lparr>rr_email = u ''Ada@example.com'', rr_password = u ''correct horse'', rr_full_name = u '' Ada ''\<rparr>"
  "validate_login Some ada_login = Some \<lparr>lr_email = u ''ADA@example.com'', lr_password = u ''correct horse''\<rparr>"
  by (simp_all add: validate_register_def validate_login_def ada_body_def ada_login_def email_field_def sized_str_def)

lemma ada_texts:
  "lower (u ''Ada@example.com'') = u ''ada@example.com''" "lower (u ''ADA@example.com'') = u ''ada@example.com''"
  "strip (u '' Ada '') = u ''Ada''"
  by (simp_all add: pystr_eval)

lemma ada_registered: "register_route Some plain_context 0 5 ada_body [] = (Inr ada, [ada])"
  by (simp add: register_route_def ada_valid register_select_def select_by_email_def plain_context_def ada_texts
      insert_user_def next_user_id_def ada_def Let_def)

theorem registered_account_signs_in_witness:
  "\<exists>b token. demo_bearer demo_lib demo_defaults = Inr b \<and>
     account_login_route demo_lib demo_defaults Some plain_context 9 ada_login [ada] =
       Inr \<lparr>tr_access_token = token, tr_token_type = u ''bearer'', tr_expires_in = 3600\<rparr> \<and>
     users_me_route demo_lib b \<lparr>hr_header = (\<lambda>k. if k = u ''authorization'' then Some (bearer_value token) else None),
         hr_client_host = None, hr_scheme = u ''http''\<rparr> [ada] =
       Inr \<lparr>me_sub = Some (str_of_int 1), me_email = Some (u ''ada@example.com''), me_full_name = Some (u ''Ada'')\<rparr>"
proof -
  obtain b where b: "demo_bearer demo_lib demo_defaults = Inr b"
    by (simp add: demo_bearer_def make_jwt_bearer_def demo_defaults_def)
  let ?s = "demo_start\<lparr>dm_users := [ada], dm_answers := [(7, Inr ada)]\<rparr>"
  have v: "\<forall>n. \<exists>sub. account_payload demo_defaults 9 n (us_email ada) (us_full_name ada) = ada_payload sub"
    by (simp add: account_payload_def ada_payload_def demo_defaults_def ada_def) blast
  have h: "hash_verifies plain_context" by (simp add: hash_verifies_def plain_context_def)
  have reg: "register_route Some plain_context 0 5 ada_body (dm_users demo_start) = (Inr ada, [ada])"
    by (simp add: demo_start_def ada_registered)
  have run: "(demo_step Some plain_context)\<^sup>*\<^sup>* (demo_start\<lparr>dm_users := [ada], dm_answers := (7, Inr ada) # dm_answers demo_start\<rparr>) ?s"
    by (simp add: demo_start_def)
  from registered_account_signs_in [OF demo_lib_laws(1,2) b demo_lib_laws(3) h rtranclp.rtrancl_refl reg ada_valid(1) run ada_valid(2)
      _ _ v]
  show ?thesis using b by (auto simp: ada_texts ada_def demo_defaults_def)
qed

subsection \<open>Two registrations of one address\<close>

text \<open>Two requests for one e-mail address: handled one after the other the second is answered with 409, but when both
  read the table before either writes it, the second one's insert violates the unique index, which no code
  handles, and its answer is 500.\<close>

theorem overlapping_registrations:
  assumes "validate_register email_str body1 = Some rq1" and "validate_register email_str body2 = Some rq2"
    and "lower (rr_email rq1) = lower (rr_email rq2)"
    and "pw_hash C salt1 (rr_password rq1) = Inr h1" and "pw_hash C salt2 (rr_password rq2) = Inr h2"
  shows "(\<exists>s x a. (demo_step email_str C)\<^sup>*\<^sup>* demo_start s \<and> dm_answers s = [(2, a), (1, Inr x)] \<and> answer_status 201 a = 409) \<and>
    (\<exists>s x a. (demo_step email_str C)\<^sup>*\<^sup>* demo_start s \<and> dm_answers s = [(2, a), (1, Inr x)] \<and> answer_status 201 a = 500)"
proof
  define d1 where "d1 = \<lparr>us_id = None, us_email = lower (rr_email rq1), us_password_hash = h1,
    us_full_name = strip (rr_full_name rq1), us_created_at = 0\<rparr>"
  define d2 where "d2 = \<lparr>us_id = None, us_email = lower (rr_email rq2), us_password_hash = h2,
    us_full_name = strip (rr_full_name rq2), us_created_at = 0\<rparr>"
  define x where "x = d1\<lparr>us_id := Some 1\<rparr>"
  have sel: "register_select C salt1 0 rq1 [] = Inr d1" "register_select C salt2 0 rq2 [] = Inr d2"
    using assms(4,5) by (simp_all add: register_select_def select_by_email_def d1_def d2_def)
  have ins: "insert_user d1 [] = (Inr x, [x])" "insert_user d2 [x] = (Inl integrity_error, [x])"
    using assms(3) by (simp_all add: insert_user_def next_user_id_def x_def d1_def d2_def Let_def)
  have r1: "register_route email_str C salt1 0 body1 (dm_users demo_start) = (Inr x, [x])"
    by (simp add: register_route_def assms(1) sel(1) ins(1) demo_start_def)
  let ?s1 = "demo_start\<lparr>dm_users := [x], dm_answers := (1, Inr x) # dm_answers demo_start\<rparr>"
  have "register_route email_str C salt2 0 body2 (dm_users ?s1) = (Inl (HTTPException 409 (u ''Email already registered'')), [x])"
    using assms(3) by (simp add: register_route_def assms(2) register_select_def select_by_email_def x_def d1_def)
  note rtranclp_trans [OF register_route_runs [OF r1, of 1] register_route_runs [OF this, of 2]]
  moreover have "answer_status 201 (Inl (HTTPException 409 (u ''Email already registered'')) :: exc + user) = 409"
    by (rule answer_status_simps)
  moreover have "dm_answers (?s1\<lparr>dm_users := [x], dm_answers := (2, a) # dm_answers ?s1\<rparr>) = [(2, a), (1, Inr x)]" for a
    by (simp add: demo_start_def)
  ultimately show "\<exists>s x a. (demo_step email_str C)\<^sup>*\<^sup>* demo_start s \<and> dm_answers s = [(2, a), (1, Inr x)] \<and> answer_status 201 a = 409"
    by blast
  let ?p1 = "demo_start\<lparr>dm_pending := [(1, d1)]\<rparr>" and ?p2 = "demo_start\<lparr>dm_pending := [(2, d2), (1, d1)]\<rparr>"
  let ?c1 = "demo_start\<lparr>dm_users := [x], dm_pending := [(2, d2)], dm_answers := [(1, Inr x)]\<rparr>"
  let ?c2 = "demo_start\<lparr>dm_users := [x], dm_pending := [], dm_answers := [(2, Inl integrity_error), (1, Inr x)]\<rparr>"
  have "demo_step email_str C demo_start ?p1"
    using demo_step.prepare [OF assms(1), of C salt1 0 demo_start d1 1] sel(1) by (simp add: demo_start_def)
  moreover have "demo_step email_str C ?p1 ?p2"
    using demo_step.prepare [OF assms(2), of C salt2 0 ?p1 d2 2] sel(2) by (simp add: demo_start_def)
  moreover have "demo_step email_str C ?p2 ?c1"
    using demo_step.commit [of ?p2 "[(2, d2)]" 1 d1 "[]" "Inr x" "[x]" email_str C] ins(1) by (simp add: demo_start_def)
  moreover have "demo_step email_str C ?c1 ?c2"
    using demo_step.commit [of ?c1 "[]" 2 d2 "[]" "Inl integrity_error" "[x]" email_str C] ins(2) by (simp add: demo_start_def)
  ultimately have "(demo_step email_str C)\<^sup>*\<^sup>* demo_start ?c2" by (meson converse_rtranclp_into_rtranclp rtranclp.rtrancl_refl)
  then show "\<exists>s x a. (demo_step email_str C)\<^sup>*\<^sup>* demo_start s \<and> dm_answers s = [(2, a), (1, Inr x)] \<and> answer_status 201 a = 500"
    by (intro exI [of _ ?c2] exI [of _ x] exI [of _ "Inl integrity_error"] conjI) (simp_all add: integrity_error_status)
qed

theorem overlapping_registrations_witness:
  "\<exists>s x a. (demo_step Some plain_context)\<^sup>*\<^sup>* demo_start s \<and> dm_answers s = [(2, a), (1, Inr x)] \<and> answer_status 201 a = 500"
  using overlapping_registrations [OF ada_valid(1) ada_valid(1) refl, of plain_context 0 "u ''correct horse''" 0 "u ''correct horse''"]
  by (simp add: plain_context_def)

theorem registrations_exclusive_witness:
  "users_ok (dm_users (demo_start\<lparr>dm_users := [ada], dm_answers := [(1, Inr ada)]\<rparr>))"
proof -
  have "register_route Some plain_context 0 5 ada_body (dm_users demo_start) = (Inr ada, [ada])"
    by (simp add: demo_start_def ada_registered)
  from registrations_exclusive [OF register_route_runs [OF this, of 1]] show ?thesis by (simp add: demo_start_def)
qed

subsection \<open>Answers that tell nothing, names that are empty\<close>

text \<open>An unknown e-mail address and a wrong password get the same answer, and no sign-in fails in another way while
  hashes can be verified.\<close>

theorem login_failures_alike:
  assumes "users_ok users" and "validate_login email_str body = Some lq" and "jl_installed L"
    and "\<forall>p x. x \<in> set users \<longrightarrow> (\<exists>ok. pw_verify C p (us_password_hash x) = Inr ok)"
  shows "if \<exists>x. x \<in> set users \<and> us_email x = lower (lr_email lq) \<and> pw_verify C (lr_password lq) (us_password_hash x) = Inr True
    then \<exists>token. account_login_route L c email_str C now body users =
      Inr \<lparr>tr_access_token = token, tr_token_type = u ''bearer'', tr_expires_in = dc_ttl_seconds c\<rparr>
    else account_login_route L c email_str C now body users = Inl (HTTPException 401 (u ''Invalid email or password''))"
proof (cases "find (\<lambda>x. us_email x = lower (lr_email lq)) users")
  case None
  then have "x \<in> set users \<Longrightarrow> us_email x \<noteq> lower (lr_email lq)" for x by (auto simp: find_None_iff)
  moreover have "account_login_route L c email_str C now body users = Inl (HTTPException 401 (u ''Invalid email or password''))"
    using None assms(2) by (simp add: account_login_route_def select_by_email_ok [OF assms(1)])
  ultimately show ?thesis by auto
next
  case (Some x)
  then have x: "x \<in> set users" "us_email x = lower (lr_email lq)" by (auto simp: find_Some_iff)
  have only: "y = x" if "y \<in> set users" "us_email y = lower (lr_email lq)" for y
    using that x assms(1) by (auto simp: users_ok_def distinct_map inj_on_def)
  obtain ok where ok: "pw_verify C (lr_password lq) (us_password_hash x) = Inr ok" using assms(4) x(1) by blast
  obtain t where t: "mint_access_token L c now (case us_id x of Some n \<Rightarrow> n | None \<Rightarrow> 0) (us_email x) (us_full_name x) = Inr t"
    using assms(3) by (simp add: mint_access_token_def issue_hs256_access_token_def)
  have "account_login_route L c email_str C now body users =
      (if ok then Inr \<lparr>tr_access_token = t, tr_token_type = u ''bearer'', tr_expires_in = dc_ttl_seconds c\<rparr>
       else Inl (HTTPException 401 (u ''Invalid email or password'')))"
    using Some assms(2) ok t by (simp add: account_login_route_def select_by_email_ok [OF assms(1)])
  moreover have "(\<exists>y. y \<in> set users \<and> us_email y = lower (lr_email lq) \<and>
      pw_verify C (lr_password lq) (us_password_hash y) = Inr True) \<longleftrightarrow> ok"
    using only x ok by (metis sum.inject(2))
  ultimately show ?thesis by simp
qed

theorem login_failures_alike_witness:
  "account_login_route demo_lib demo_defaults Some plain_context 9 ada_login [] = Inl (HTTPException 401 (u ''Invalid email or password''))"
  using login_failures_alike [OF _ ada_valid(2) demo_lib_laws(2), of "[]" plain_context demo_defaults 9]
  by (simp add: users_ok_def)

text \<open>The name must have a character, but blanks are removed after that check: an account of blanks is stored, and
  answered, without a name.\<close>

theorem blank_name_registers:
  assumes "validate_register email_str body = Some rq" and "\<forall>ch \<in> set (rr_full_name rq). is_space ch"
    and "users_ok users" and "lower (rr_email rq) \<notin> us_email ` set users" and "pw_hash C salt (rr_password rq) = Inr h"
  shows "\<exists>x users'. register_route email_str C salt now body users = (Inr x, users') \<and> x \<in> set users' \<and> us_full_name x = [] \<and>
    rr_full_name rq \<noteq> []"
proof -
  have "strip (rr_full_name rq) = []"
  proof -
    have "lstrip_by is_space (rr_full_name rq) = []" using assms(2) by (simp add: lstrip_by_def dropWhile_eq_Nil_conv)
    then show ?thesis by (simp add: strip_def strip_by_def rstrip_by_def)
  qed
  moreover have "find (\<lambda>x. us_email x = lower (rr_email rq)) users = None"
    using assms(4) by (auto simp: find_None_iff) (metis image_eqI)
  moreover have "rr_full_name rq \<noteq> []"
    using assms(1) by (auto simp: validate_register_def sized_str_def split: json.splits option.splits if_splits)
  ultimately show ?thesis
    using assms(1,4,5) by (simp add: register_route_def register_select_def select_by_email_ok [OF assms(3)] insert_user_def Let_def)
qed

theorem blank_name_registers_witness:
  "\<exists>x. register_route Some plain_context 0 0 (JObj [(u ''email'', JStr (u ''a@b.c'')), (u ''password'', JStr (u ''12345678'')),
     (u ''full_name'', JStr (u '' ''))]) [] = (Inr x, [x]) \<and> us_full_name x = []"
proof -
  let ?b = "JObj [(u ''email'', JStr (u ''a@b.c'')), (u ''password'', JStr (u ''12345678'')), (u ''full_name'', JStr (u '' ''))]"
  have v: "validate_register Some ?b = Some \<lparr>rr_email = u ''a@b.c'', rr_password = u ''12345678'', rr_full_name = u '' ''\<rparr>"
    by (simp add: validate_register_def email_field_def sized_str_def)
  have "\<forall>ch \<in> set (u '' ''). is_space ch" by (simp add: pystr_eval)
  with blank_name_registers [OF v, of "[]" plain_context 0 "u ''12345678''" 0] show ?thesis
    by (auto simp: users_ok_def plain_context_def register_route_def insert_user_def Let_def split: option.splits sum.splits if_splits)
qed

end
