(* ===== verification/Account_Page.thy ===== *)
theory Account_Page
  imports Account_Demo
begin

section \<open>The signed-in pages of two examples\<close>

text \<open>
  Models the page of \<open>examples/fullstack_demo/main.py\<close> and the application \<open>examples/reference_auth/app.py\<close>. A page is
  a function of what the visitor typed and pressed, of the session state and of the network; it returns what it
  shows, the new session state and how the run ended: \<open>st.rerun()\<close> raises, so it is an end of its own. The client
  of the page is that of \<open>Api_Client\<close>; the transport, reading a body as text or JSON and pydantic's validation of an
  answer are arguments. Style sheet and layout are left out.
\<close>

subsection \<open>Pages, network, results\<close>

record 'h page_net =
  pn_headers :: "'h header_map"
  pn_environ :: "pystr dict"
  pn_request_id :: "pystr option"
  pn_send :: "('h, unit) api_call \<Rightarrow> exc + api_response"
  pn_text :: "bytes \<Rightarrow> pystr"
  pn_json :: "bytes \<Rightarrow> exc + json"

datatype shown =
    Title pystr
  | Captioned pystr
  | Markdown pystr
  | Metric pystr pystr
  | Success pystr
  | Warning pystr
  | Error json
  | Written json

datatype page_end = PageDone | PageRerun | PageRaised exc

text \<open>What a page makes of \<open>get_model\<close> in its \<open>try\<close>: the answer, the response of an \<open>HTTPStatusError\<close>, or
  another exception.\<close>

datatype 'm fetched = Fetched 'm | StatusFailed api_response | FetchRaised exc

definition bearer_client :: "'h page_net \<Rightarrow> pystr \<Rightarrow> exc + unit api_client" where
  "bearer_client N token = for_fluxlit (pn_environ N) (Some token) None None 30 None False"

definition fetch_model :: "'h page_net \<Rightarrow> pystr \<Rightarrow> pystr \<Rightarrow> (bytes \<Rightarrow> exc + 'm) \<Rightarrow> 'm fetched" where
  "fetch_model N token path validate_json =
     (case bind_exc (bearer_client N token) (\<lambda>c.
             bind_exc (api_get (pn_headers N) (\<lambda>_. Inr []) c (pn_request_id N) path None ()) (pn_send N)) of
        Inl e \<Rightarrow> FetchRaised e
      | Inr rs \<Rightarrow>
          (case raise_for_status rs of
             Inl _ \<Rightarrow> StatusFailed rs
           | Inr _ \<Rightarrow> (case validate_json (ar_content rs) of Inl e \<Rightarrow> FetchRaised e | Inr m \<Rightarrow> Fetched m)))"

lemma fetch_model_is_get_model:
  assumes "bearer_client N token = Inr c"
  shows "get_model (pn_headers N) (\<lambda>_. Inr []) c (pn_request_id N) (pn_send N) path validate_json None () =
    (case fetch_model N token path validate_json of
       Fetched m \<Rightarrow> Inr m | StatusFailed _ \<Rightarrow> Inl http_status_error | FetchRaised e \<Rightarrow> Inl e)"
  by (auto simp: fetch_model_def get_model_def assms bind_exc_def raise_for_status_def split: sum.splits)

definition post_json ::
  "'h page_net \<Rightarrow> ('f \<Rightarrow> exc + pystr dict) \<Rightarrow> 'f api_client \<Rightarrow> pystr \<Rightarrow> json option \<Rightarrow> exc + api_response" where
  "post_json N call client path body =
     bind_exc (api_post (pn_headers N) call client (pn_request_id N) path body None ()) (pn_send N)"

abbreviation token_key :: pystr where
  "token_key \<equiv> u ''access_token''"

text \<open>\<open>if "access_token" not in st.session_state: st.session_state["access_token"] = None\<close>\<close>

definition with_token_slot :: "json dict \<Rightarrow> json dict" where
  "with_token_slot session =
     (if map_of session token_key = None then AList.update token_key JNull session else session)"

subsection \<open>The full-stack page\<close>

record home_inputs =
  hi_sign_out :: bool
  hi_register :: "(pystr \<times> pystr \<times> pystr) option"
  hi_sign_in :: "(pystr \<times> pystr) option"

text \<open>\<open>st.error(r.json().get("detail", r.text))\<close>\<close>

definition show_detail :: "'h page_net \<Rightarrow> api_response \<Rightarrow> exc + shown list" where
  "show_detail N r =
     bind_exc (pn_json N (ar_content r)) (\<lambda>j.
       case j of
         JObj d \<Rightarrow> Inr [Error (case map_of d (u ''detail'') of Some v \<Rightarrow> v | None \<Rightarrow> JStr (pn_text N (ar_content r)))]
       | _ \<Rightarrow> Inl AttributeError)"

text \<open>The form of the first tab, \<open>(email, name, password)\<close> if its button was pressed.\<close>

definition register_form ::
  "'h page_net \<Rightarrow> ('f \<Rightarrow> exc + pystr dict) \<Rightarrow> 'f api_client \<Rightarrow> (pystr \<times> pystr \<times> pystr) option \<Rightarrow> exc + shown list" where
  "register_form N call client submitted =
     (case submitted of
        None \<Rightarrow> Inr []
      | Some (email, name, pw) \<Rightarrow>
          if email = [] \<or> name = [] \<or> pw = [] then Inr [Warning (u ''Fill all fields.'')]
          else bind_exc (post_json N call client (u ''/auth/register'')
                 (Some (JObj [(u ''email'', JStr email), (u ''full_name'', JStr name), (u ''password'', JStr pw)]))) (\<lambda>r.
               if ar_status r \<noteq> 201 then show_detail N r else Inr [Success (u ''Account created. Use **Sign in**.'')]))"

text \<open>The form of the second tab; the token, if the answer is a 200, is stored.\<close>

definition sign_in_form ::
  "'h page_net \<Rightarrow> ('f \<Rightarrow> exc + pystr dict) \<Rightarrow> 'f api_client \<Rightarrow> (pystr \<times> pystr) option \<Rightarrow> exc + (json option \<times> shown list)" where
  "sign_in_form N call client submitted =
     (case submitted of
        None \<Rightarrow> Inr (None, [])
      | Some (email, pw) \<Rightarrow>
          if email = [] \<or> pw = [] then Inr (None, [Warning (u ''Email and password required.'')])
          else bind_exc (post_json N call client (u ''/auth/login'')
                 (Some (JObj [(u ''email'', JStr email), (u ''password'', JStr pw)]))) (\<lambda>r.
               if ar_status r \<noteq> 200 then bind_exc (show_detail N r) (\<lambda>items. Inr (None, items))
               else bind_exc (pn_json N (ar_content r)) (\<lambda>j.
                      case j of
                        JObj d \<Rightarrow> (case map_of d token_key of Some v \<Rightarrow> Inr (Some v, []) | None \<Rightarrow> Inl KeyError)
                      | _ \<Rightarrow> Inl TypeError)))"

definition dash :: pystr where
  "dash = [8212]"

definition hero :: shown where
  "hero = Markdown (u ''<div class=\"demo-hero\"><h1>FluxLit demo</h1><p>FastAPI + SQLModel + SQLite (rapsqlite, async) '' @ [183] @
     u '' Alembic '' @ [183] @ u '' JWT '' @ [183] @ u '' Streamlit.</p></div>'')"

definition account_home ::
  "(json \<Rightarrow> pystr) \<Rightarrow> (bytes \<Rightarrow> exc + me_response) \<Rightarrow> 'h page_net \<Rightarrow> ('f \<Rightarrow> exc + pystr dict) \<Rightarrow> 'f api_client \<Rightarrow>
     home_inputs \<Rightarrow> json dict \<Rightarrow> shown list \<times> json dict \<times> page_end" where
  "account_home other read_me N call client inp session =
     (let s = with_token_slot session
      in case session_token other s token_key of
           Some token \<Rightarrow>
             (case fetch_model N token (u ''/users/me'') read_me of
                StatusFailed r \<Rightarrow> ([hero, Error (JStr (pn_text N (ar_content r)))], AList.update token_key JNull s, PageRerun)
              | FetchRaised e \<Rightarrow> ([hero], s, PageRaised e)
              | Fetched me \<Rightarrow>
                  (let items = [hero, Metric (u ''Account'') (or_str (opt_str (me_email me)) dash),
                         Metric (u ''Name'') (or_str (opt_str (me_full_name me)) dash),
                         Success (u ''You are signed in. API calls use **ApiClient.for_fluxlit** with your JWT.'')]
                   in if hi_sign_out inp then (items, AList.update token_key JNull s, PageRerun) else (items, s, PageDone)))
         | None \<Rightarrow>
             (case register_form N call client (hi_register inp) of
                Inl e \<Rightarrow> ([hero], s, PageRaised e)
              | Inr items \<Rightarrow>
                  (case sign_in_form N call client (hi_sign_in inp) of
                     Inl e \<Rightarrow> (hero # items, s, PageRaised e)
                   | Inr (None, items') \<Rightarrow> (hero # items @ items', s, PageDone)
                   | Inr (Some v, items') \<Rightarrow> (hero # items @ items', AList.update token_key v s, PageRerun))))"

subsection \<open>The reference application\<close>

definition reference_config :: account_config where
  "reference_config = \<lparr>dc_issuer = u ''reference-auth'', dc_audience = u ''reference-audience'',
     dc_secret = u ''reference-auth-dev-secret-32bytes-minimum-length-ok'', dc_ttl_seconds = 3600\<rparr>"

definition reference_bearer :: "'k jwt_lib \<Rightarrow> exc + jwt_bearer" where
  "reference_bearer L =
     make_jwt_bearer L \<lparr>jc_issuer = dc_issuer reference_config, jc_audience = AudStr (dc_audience reference_config),
       jc_algorithms = [u ''HS256''], jc_jwks_url = None, jc_hs256_secret = Some (dc_secret reference_config), jc_leeway_seconds = 0\<rparr>"

record dev_login_response =
  dl_access_token :: pystr
  dl_token_type :: pystr

definition dev_login :: "'k jwt_lib \<Rightarrow> int \<Rightarrow> exc + dev_login_response" where
  "dev_login L now =
     bind_exc (issue_hs256_access_token L (u ''demo-user'') (dc_issuer reference_config) (AudStr (dc_audience reference_config))
         (dc_secret reference_config) (dc_ttl_seconds reference_config) now [(u ''scope'', JStr (u ''read''))])
       (\<lambda>token. Inr \<lparr>dl_access_token = token, dl_token_type = u ''bearer''\<rparr>)"

record ref_me =
  rm_sub :: "pystr option"
  rm_scope :: "pystr option"

definition reference_me :: "'k jwt_lib \<Rightarrow> jwt_bearer \<Rightarrow> http_req \<Rightarrow> exc + ref_me" where
  "reference_me L b req =
     bind_exc (bearer_call L b req) (\<lambda>claims.
       Inr \<lparr>rm_sub = str_claim claims ''sub'', rm_scope = str_claim claims ''scope''\<rparr>)"

definition nullable :: "pystr option \<Rightarrow> json" where
  "nullable x = (case x of None \<Rightarrow> JNull | Some s \<Rightarrow> JStr s)"

definition reference_home ::
  "(json \<Rightarrow> pystr) \<Rightarrow> (bytes \<Rightarrow> exc + dev_login_response) \<Rightarrow> (bytes \<Rightarrow> exc + ref_me) \<Rightarrow> 'h page_net \<Rightarrow>
     ('f \<Rightarrow> exc + pystr dict) \<Rightarrow> 'f api_client \<Rightarrow> bool \<Rightarrow> json dict \<Rightarrow> shown list \<times> json dict \<times> page_end" where
  "reference_home other read_login read_me N call client pressed session =
     (let s = with_token_slot session; items = [Title (u ''Reference auth'')]
      in case session_token other s token_key of
           None \<Rightarrow>
             (let items = items @ [Captioned (u ''Injected `client` for login; `ApiClient.for_fluxlit` for authenticated calls.'')]
              in if \<not> pressed then (items, s, PageDone)
                 else (case post_json N call client (u ''/dev/login'') None of
                     Inl e \<Rightarrow> (items, s, PageRaised e)
                   | Inr r \<Rightarrow>
                       if ar_status r \<noteq> 200 then (items @ [Error (JStr (pn_text N (ar_content r)))], s, PageDone)
                       else (case read_login (ar_content r) of
                           Inl e \<Rightarrow> (items, s, PageRaised e)
                         | Inr parsed \<Rightarrow> (items, AList.update token_key (JStr (dl_access_token parsed)) s, PageRerun))))
         | Some token \<Rightarrow>
             (case fetch_model N token (u ''/me'') read_me of
                StatusFailed r \<Rightarrow> (items @ [Error (JStr (pn_text N (ar_content r)))], s, PageDone)
              | FetchRaised e \<Rightarrow> (items, s, PageRaised e)
              | Fetched me \<Rightarrow>
                  (items @ [Written (JObj [(u ''sub'', nullable (rm_sub me)), (u ''scope'', nullable (rm_scope me))])], s, PageDone)))"

subsection \<open>Where the token of a session comes from\<close>

lemma slot_kept: "map_of (with_token_slot session) k =
    (if k = token_key \<and> map_of session token_key = None then Some JNull else map_of session k)"
  by (simp add: with_token_slot_def)

lemma slot_token: "session_token other (with_token_slot session) token_key = session_token other session token_key"
  by (cases "map_of session token_key") (simp_all add: session_token_def slot_kept json_falsy_def)

lemma cleared_token: "session_token other (AList.update token_key JNull s) token_key = None"
  by (simp add: session_token_def json_falsy_def)

lemma sign_in_form_token:
  assumes "sign_in_form N call client submitted = Inr (Some v, items)"
  shows "\<exists>email pw r d. submitted = Some (email, pw) \<and> email \<noteq> [] \<and> pw \<noteq> [] \<and>
    post_json N call client (u ''/auth/login'') (Some (JObj [(u ''email'', JStr email), (u ''password'', JStr pw)])) = Inr r \<and>
    ar_status r = 200 \<and> pn_json N (ar_content r) = Inr (JObj d) \<and> map_of d token_key = Some v"
proof -
  obtain email pw where sub: "submitted = Some (email, pw)" "email \<noteq> []" "pw \<noteq> []"
    using assms by (cases submitted) (auto simp: sign_in_form_def split: prod.splits if_splits)
  let ?post = "post_json N call client (u ''/auth/login'') (Some (JObj [(u ''email'', JStr email), (u ''password'', JStr pw)]))"
  obtain r where r: "?post = Inr r" "ar_status r = 200"
    using assms sub by (auto simp: sign_in_form_def bind_exc_Inr_iff split: if_splits)
  obtain j where j: "pn_json N (ar_content r) = Inr j"
    using assms sub r by (auto simp: sign_in_form_def bind_exc_Inr_iff)
  with assms sub r obtain d where "j = JObj d" "map_of d token_key = Some v"
    by (cases j) (auto simp: sign_in_form_def split: option.splits)
  with sub r j show ?thesis by blast
qed

text \<open>A run of the page touches no other key of the session, and it stores a token only if nobody was signed in and
  the visitor submitted the sign-in form: the token is then the one of a 200 answer to these credentials.\<close>

theorem token_from_sign_in_only:
  assumes "account_home other read_me N call client inp session = (items, s', how)"
  shows "(\<forall>k. k \<noteq> token_key \<longrightarrow> map_of s' k = map_of session k) \<and>
    (session_token other s' token_key \<noteq> None \<longrightarrow> session_token other s' token_key \<noteq> session_token other session token_key \<longrightarrow>
      session_token other session token_key = None \<and> how = PageRerun \<and>
      (\<exists>email pw r d v. hi_sign_in inp = Some (email, pw) \<and> email \<noteq> [] \<and> pw \<noteq> [] \<and>
         post_json N call client (u ''/auth/login'') (Some (JObj [(u ''email'', JStr email), (u ''password'', JStr pw)])) = Inr r \<and>
         ar_status r = 200 \<and> pn_json N (ar_content r) = Inr (JObj d) \<and> map_of d token_key = Some v \<and>
         map_of s' token_key = Some v))"
proof (cases "session_token other session token_key")
  case (Some token)
  then have t: "session_token other (with_token_slot session) token_key = Some token" by (simp add: slot_token)
  obtain v where "map_of session token_key = Some v" using Some by (auto simp: session_token_def split: option.splits)
  then have same: "with_token_slot session = session" by (simp add: with_token_slot_def)
  have "s' = session \<or> s' = AList.update token_key JNull session"
    using assms t unfolding same by (auto simp: account_home_def same Let_def split: fetched.splits if_splits)
  then show ?thesis using cleared_token by auto
next
  case None
  let ?s = "with_token_slot session"
  have n: "session_token other ?s token_key = None" using None by (simp add: slot_token)
  show ?thesis
  proof (cases "\<exists>items v items'. register_form N call client (hi_register inp) = Inr items \<and>
      sign_in_form N call client (hi_sign_in inp) = Inr (Some v, items')")
    case False
    then have "s' = ?s" using assms n
      by (auto simp: account_home_def Let_def split: sum.splits option.splits)
    then show ?thesis using n by (simp add: slot_kept)
  next
    case True
    then obtain its v its' where f: "register_form N call client (hi_register inp) = Inr its"
      "sign_in_form N call client (hi_sign_in inp) = Inr (Some v, its')" by blast
    then have s': "s' = AList.update token_key v ?s" "how = PageRerun" using assms n by (simp_all add: account_home_def Let_def)
    note sign_in_form_token [OF f(2)]
    then show ?thesis using s' None by (auto simp: slot_kept)
  qed
qed

subsection \<open>A token the API rejects\<close>

text \<open>When the API answers a stored token with an error status (it has expired, say), the full-stack page forgets it:
  the next run offers the forms again. The reference page keeps it and never shows its sign-in button again: every
  further run, whatever is pressed, shows the error and leaves the session as it is.\<close>

theorem rejected_token_recovery:
  assumes "session_token other session token_key = Some token"
    and "fetch_model N token (u ''/users/me'') read_me = StatusFailed r" and "fetch_model N token (u ''/me'') read_ref = StatusFailed r"
  shows "(\<exists>s1. account_home other read_me N call client inp session = ([hero, Error (JStr (pn_text N (ar_content r)))], s1, PageRerun) \<and>
      account_home other read_me N call client \<lparr>hi_sign_out = False, hi_register = None, hi_sign_in = None\<rparr> s1 = ([hero], s1, PageDone))
    \<and> (\<forall>pressed. reference_home other read_login read_ref N call client pressed session =
         ([Title (u ''Reference auth''), Error (JStr (pn_text N (ar_content r)))], session, PageDone))"
proof
  have t: "session_token other (with_token_slot session) token_key = Some token" using assms(1) by (simp add: slot_token)
  have same: "with_token_slot session = session"
    using assms(1) by (auto simp: with_token_slot_def session_token_def split: option.splits)
  let ?s1 = "AList.update token_key JNull session"
  have s1: "with_token_slot ?s1 = ?s1" by (simp add: with_token_slot_def)
  have "account_home other read_me N call client inp session = ([hero, Error (JStr (pn_text N (ar_content r)))], ?s1, PageRerun)"
    using t assms(2) by (simp add: account_home_def same)
  moreover have "account_home other read_me N call client \<lparr>hi_sign_out = False, hi_register = None, hi_sign_in = None\<rparr> ?s1 = ([hero], ?s1, PageDone)"
    by (simp add: account_home_def s1 cleared_token register_form_def sign_in_form_def)
  ultimately show "\<exists>s1. account_home other read_me N call client inp session = ([hero, Error (JStr (pn_text N (ar_content r)))], s1, PageRerun) \<and>
      account_home other read_me N call client \<lparr>hi_sign_out = False, hi_register = None, hi_sign_in = None\<rparr> s1 = ([hero], s1, PageDone)"
    by blast
  show "\<forall>pressed. reference_home other read_login read_ref N call client pressed session =
         ([Title (u ''Reference auth''), Error (JStr (pn_text N (ar_content r)))], session, PageDone)"
    using t assms(3) by (simp add: reference_home_def same)
qed

subsection \<open>From the form to the account\<close>

text \<open>The transport brings the two requests of the page to the routes of \<open>Account_Demo\<close> over a table, and their
  answers back. The gateway's part in this is the subject of \<open>Gateway_Dispatch\<close>.\<close>

definition request_with :: "pystr \<Rightarrow> http_req" where
  "request_with v = \<lparr>hr_header = (\<lambda>k. if k = u ''authorization'' then Some v else None), hr_client_host = None, hr_scheme = u ''http''\<rparr>"

definition serves_accounts ::
  "'h page_net \<Rightarrow> (bytes \<Rightarrow> exc + me_response) \<Rightarrow> 'k jwt_lib \<Rightarrow> account_config \<Rightarrow> jwt_bearer \<Rightarrow> (pystr \<Rightarrow> pystr option) \<Rightarrow>
     password_context \<Rightarrow> int \<Rightarrow> user list \<Rightarrow> bool" where
  "serves_accounts N read_me L c b email_str C now users \<longleftrightarrow>
     (\<forall>rq v. al_method rq = u ''GET'' \<longrightarrow> al_url rq = u ''/users/me'' \<longrightarrow>
        hm_values (pn_headers N) (al_headers rq) (u ''authorization'') = [v] \<longrightarrow>
        (\<exists>rs. pn_send N rq = Inr rs \<and>
           (case users_me_route L b (request_with v) users of
              Inl e \<Rightarrow> ar_status rs = answer_status 200 (Inl e :: exc + me_response)
            | Inr m \<Rightarrow> ar_status rs = 200 \<and> read_me (ar_content rs) = Inr m))) \<and>
     (\<forall>rq body. al_method rq = u ''POST'' \<longrightarrow> al_url rq = u ''/auth/login'' \<longrightarrow> al_json rq = Some body \<longrightarrow>
        (\<exists>rs. pn_send N rq = Inr rs \<and>
           (case account_login_route L c email_str C now body users of
              Inl e \<Rightarrow> ar_status rs = answer_status 200 (Inl e :: exc + token_response)
            | Inr t \<Rightarrow> ar_status rs = 200 \<and> pn_json N (ar_content rs) =
                Inr (JObj [(token_key, JStr (tr_access_token t)), (u ''token_type'', JStr (tr_token_type t)),
                      (u ''expires_in'', JInt (tr_expires_in t))]))))"

lemma serves_login:
  assumes "serves_accounts N read_me L c b email_str C now users"
    and "al_method rq = u ''POST''" "al_url rq = u ''/auth/login''" "al_json rq = Some body"
    and "account_login_route L c email_str C now body users = Inr t"
  shows "\<exists>rs. pn_send N rq = Inr rs \<and> ar_status rs = 200 \<and> pn_json N (ar_content rs) =
    Inr (JObj [(token_key, JStr (tr_access_token t)), (u ''token_type'', JStr (tr_token_type t)), (u ''expires_in'', JInt (tr_expires_in t))])"
  using spec [OF spec [OF conjunct2 [OF assms(1) [unfolded serves_accounts_def]], of rq], of body] assms(2-5) by simp

lemma serves_me:
  assumes "serves_accounts N read_me L c b email_str C now users"
    and "al_method rq = u ''GET''" "al_url rq = u ''/users/me''" "hm_values (pn_headers N) (al_headers rq) (u ''authorization'') = [v]"
    and "users_me_route L b (request_with v) users = Inr m"
  shows "\<exists>rs. pn_send N rq = Inr rs \<and> ar_status rs = 200 \<and> read_me (ar_content rs) = Inr m"
  using spec [OF spec [OF conjunct1 [OF assms(1) [unfolded serves_accounts_def]], of rq], of v] assms(2-5) by simp

lemma api_paths:
  "relative_api_path_or_raise (u ''/users/me'') = Inr (u ''/users/me'')"
  "relative_api_path_or_raise (u ''/auth/login'') = Inr (u ''/auth/login'')"
  by (simp_all add: relative_api_path_or_raise_def lead_slash_def pystr_eval)

definition headers_total :: "'h header_map \<Rightarrow> bool" where
  "headers_total H \<longleftrightarrow> (\<forall>ps. \<exists>h. hm_new H ps = Inr h) \<and> (\<forall>h ps. \<exists>h'. hm_update H h ps = Inr h')"

text \<open>The request of a page that holds a token carries it, and nothing else, as its authorization.\<close>

lemma bearer_request:
  assumes "header_map_laws H" and "headers_total H" and "bearer_client N token = Inr c" and "pn_headers N = H"
  shows "\<exists>rq. api_get H (\<lambda>_. Inr []) c (pn_request_id N) (u ''/users/me'') None () = Inr rq \<and> al_method rq = u ''GET'' \<and>
    al_url rq = u ''/users/me'' \<and> hm_values H (al_headers rq) (u ''authorization'') = [bearer_value token]"
proof -
  have c: "ac_default_headers c = []" "ac_auth_header_factory c = Some (BearerFactory token)" "\<not> ac_propagate_request_id c"
    using assms(3) by (auto simp: bearer_client_def for_fluxlit_def new_api_client_def opt_dict_def Let_def)
  obtain h0 where h0: "hm_new H [] = Inr h0" using assms(2) unfolding headers_total_def by blast
  obtain h where h: "hm_update H h0 [(u ''Authorization'', bearer_value token)] = Inr h"
    using assms(2) unfolding headers_total_def by blast
  have b: "build_request_headers H (\<lambda>_. Inr []) c (pn_request_id N) None = Inr h"
    by (simp add: build_request_headers_def c h0 h)
  have "mentions [(u ''Authorization'', bearer_value token)] (u ''authorization'')"
    "values_of [(u ''Authorization'', bearer_value token)] (u ''authorization'') = [bearer_value token]"
    by (simp_all add: mentions_def values_of_def pystr_eval)
  then have "hm_values H h (u ''authorization'') = [bearer_value token]"
    using header_map_lawsD(2) [OF assms(1) h, of "u ''authorization''"] by simp
  then show ?thesis by (simp add: api_get_def api_request_def api_paths b)
qed


subsection \<open>A concrete page\<close>

definition one_token_lib :: "unit jwt_lib" where
  "one_token_lib = demo_lib\<lparr>jl_decode := (\<lambda>_ _ _ _ _ _. Inr (ada_payload (u ''1''))), jl_encode := (\<lambda>_ _. u ''.'')\<rparr>"

definition ada_me :: me_response where
  "ada_me = \<lparr>me_sub = Some (u ''1''), me_email = Some (u ''ada@example.com''), me_full_name = Some (u ''Ada'')\<rparr>"

definition ada_net :: "jwt_bearer \<Rightarrow> (pystr \<times> pystr) list page_net" where
  "ada_net b = \<lparr>pn_headers = pair_headers, pn_environ = [], pn_request_id = None,
     pn_send = (\<lambda>rq. Inr \<lparr>ar_status =
         (if al_method rq = u ''GET''
          then answer_status 200 (users_me_route one_token_lib b (request_with (hd (values_of (al_headers rq) (u ''authorization'')))) [ada])
          else answer_status 200 (account_login_route one_token_lib demo_defaults Some plain_context 9
                 (case al_json rq of Some j \<Rightarrow> j | None \<Rightarrow> JNull) [ada])), ar_content = []\<rparr>),
     pn_text = (\<lambda>_. []),
     pn_json = (\<lambda>_. Inr (JObj [(token_key, JStr (u ''.'')), (u ''token_type'', JStr (u ''bearer'')), (u ''expires_in'', JInt 3600)]))\<rparr>"

definition plain_client :: "unit api_client" where
  "plain_client = \<lparr>ac_resolved_base = u ''http://h/api'', ac_timeout = 30, ac_default_headers = [], ac_auth_header_factory = None,
     ac_propagate_request_id = False\<rparr>"

lemma str_one: "str_of_int 1 = u ''1''"
  by (simp add: pystr_eval pystr_run)

lemma one_token_laws:
  "jwt_roundtrip one_token_lib (\<lambda>p _. p = ada_payload (u ''1''))" "jl_installed one_token_lib" "keeps_claims one_token_lib demo_defaults"
proof -
  have "strip (u ''.'') = u ''.''" by (simp add: pystr_eval)
  then show "jwt_roundtrip one_token_lib (\<lambda>p _. p = ada_payload (u ''1''))" by (simp add: jwt_roundtrip_def one_token_lib_def)
  show "jl_installed one_token_lib" "keeps_claims one_token_lib demo_defaults"
    by (simp_all add: keeps_claims_def one_token_lib_def demo_lib_def roundtrip_lib_def sample_lib_def)
qed

lemma ada_users_ok: "users_ok [ada]"
proof -
  have "lower (u ''ada@example.com'') = u ''ada@example.com''" by (simp add: pystr_eval)
  then show ?thesis by (simp add: users_ok_def ada_def)
qed

lemma ada_me_only: "users_me_route one_token_lib b req [ada] = Inr m \<Longrightarrow> m = ada_me"
proof -
  assume a: "users_me_route one_token_lib b req [ada] = Inr m"
  then obtain cl where cl: "bearer_call one_token_lib b req = Inr cl" "users_me cl [ada] = Inr m"
    by (auto simp: users_me_route_def bind_exc_Inr_iff)
  have "cl = ada_payload (u ''1'')"
    using cl(1) by (auto simp: bearer_call_def bind_exc_Inr_iff decode_token_json_def decode_with_def one_token_lib_def demo_lib_def
        roundtrip_lib_def sample_lib_def split: option.splits sum.splits if_splits jwt_failure.splits)
  moreover have "users_me (ada_payload (u ''1'')) [ada] = Inr ada_me"
  proof -
    have "ada_payload (u ''1'') = account_payload demo_defaults 9 1 (us_email ada) (us_full_name ada)"
      by (simp add: account_payload_def ada_payload_def demo_defaults_def ada_def str_one)
    moreover have "jl_claims one_token_lib (account_payload demo_defaults 9 1 (us_email ada) (us_full_name ada)) =
        Inr (account_payload demo_defaults 9 1 (us_email ada) (us_full_name ada))"
      by (simp add: one_token_lib_def demo_lib_def roundtrip_lib_def sample_lib_def)
    ultimately show ?thesis
      using users_me_minted [OF one_token_laws(3) ada_users_ok, of ada 1 9] by (simp add: ada_me_def ada_def str_one)
  qed
  ultimately show ?thesis using cl(2) by simp
qed

lemma ada_token_only:
  "account_login_route one_token_lib demo_defaults Some plain_context 9 body [ada] = Inr t \<Longrightarrow>
     t = \<lparr>tr_access_token = u ''.'', tr_token_type = u ''bearer'', tr_expires_in = 3600\<rparr>"
  by (auto simp: account_login_route_def bind_exc_Inr_iff mint_access_token_def issue_hs256_access_token_def one_token_lib_def
      demo_lib_def roundtrip_lib_def sample_lib_def demo_defaults_def split: option.splits if_splits)

lemma ada_served: "serves_accounts (ada_net b) (\<lambda>_. Inr ada_me) one_token_lib demo_defaults b Some plain_context 9 [ada]"
  unfolding serves_accounts_def
  by (auto simp: ada_net_def pair_headers_def answer_status_simps dest: ada_me_only ada_token_only split: sum.split)


theorem token_from_sign_in_only_witness:
  "map_of (fst (snd (account_home (\<lambda>_. []) (\<lambda>_. Inl ValueError) (ada_net sample_bearer) (\<lambda>_. Inr []) plain_client
      \<lparr>hi_sign_out = True, hi_register = None, hi_sign_in = None\<rparr> [(u ''theme'', JNull)]))) (u ''theme'') = Some JNull"
proof -
  obtain items s' how where r: "account_home (\<lambda>_. []) (\<lambda>_. Inl ValueError) (ada_net sample_bearer) (\<lambda>_. Inr []) plain_client
      \<lparr>hi_sign_out = True, hi_register = None, hi_sign_in = None\<rparr> [(u ''theme'', JNull)] = (items, s', how)"
    by (metis prod_cases3)
  from token_from_sign_in_only [OF r] have "map_of s' (u ''theme'') = Some JNull" by simp
  with r show ?thesis by simp
qed

theorem rejected_token_recovery_witness:
  "reference_home (\<lambda>_. []) (\<lambda>_. Inl ValueError) (\<lambda>_. Inl ValueError)
     ((ada_net sample_bearer)\<lparr>pn_send := (\<lambda>_. Inr \<lparr>ar_status = 401, ar_content = []\<rparr>)\<rparr>) (\<lambda>_. Inr []) plain_client True
     [(token_key, JStr (u ''old''))] =
   ([Title (u ''Reference auth''), Error (JStr [])], [(token_key, JStr (u ''old''))], PageDone)"
proof -
  let ?N = "(ada_net sample_bearer)\<lparr>pn_send := (\<lambda>_. Inr \<lparr>ar_status = 401, ar_content = []\<rparr>)\<rparr>"
  obtain cl where cl: "bearer_client ?N (u ''old'') = Inr cl" by (simp add: bearer_client_def for_fluxlit_def Let_def)
  have h: "header_map_laws pair_headers" "headers_total pair_headers" "pn_headers ?N = pair_headers"
    using pair_headers_laws by (simp_all add: headers_total_def ada_net_def) (simp add: pair_headers_def)
  have p: "relative_api_path_or_raise (u ''/me'') = Inr (u ''/me'')"
    by (simp add: relative_api_path_or_raise_def lead_slash_def pystr_eval)
  obtain hd where b: "build_request_headers pair_headers (\<lambda>_. Inr []) cl (pn_request_id ?N) None = Inr hd"
    using bearer_request [OF h(1,2) cl h(3)] by (auto simp: api_get_def api_request_def bind_exc_Inr_iff)
  note net = fetch_model_def api_get_def api_request_def api_paths h(3) raise_for_status_def
  have f1: "fetch_model ?N (u ''old'') (u ''/users/me'') (\<lambda>_. Inl ValueError :: exc + me_response) = StatusFailed \<lparr>ar_status = 401, ar_content = []\<rparr>"
    using cl b p by (simp add: net)
  have f2: "fetch_model ?N (u ''old'') (u ''/me'') (\<lambda>_. Inl ValueError :: exc + ref_me) = StatusFailed \<lparr>ar_status = 401, ar_content = []\<rparr>"
    using cl b p by (simp add: net)
  have t: "session_token (\<lambda>_. []) [(token_key, JStr (u ''old''))] token_key = Some (u ''old'')"
    by (simp add: session_token_def json_falsy_def py_str_def)
  from rejected_token_recovery [OF t f1 f2, where call = "\<lambda>_. Inr []" and client = plain_client and read_login = "\<lambda>_. Inl ValueError"]
  show ?thesis by (simp add: ada_net_def)
qed

end
