(* ===== verification/Example_Apps.thy ===== *)
theory Example_Apps
  imports Account_Page Page_Tools Request_Logging
begin

section \<open>The small example applications and the deployment smoke test\<close>

text \<open>
  Models \<open>examples/smoke_app\<close>, \<open>multipage_apptest\<close>, \<open>docker_compose\<close>, \<open>otel_tracing\<close> and \<open>roadmap_09\<close>: the pages
  they register, their API routes and what the pages show, over the registration, injection and navigation of
  \<open>Nav_Build\<close> and \<open>Page_DI\<close>; the OpenTelemetry hook; and \<open>docker/proxy-deployment/smoke_ws.py\<close>, whose WebSocket
  library is an argument.
\<close>

subsection \<open>Registered pages\<close>

datatype example_dep = GetTabLabel

definition plain_param :: "string \<Rightarrow> base_type \<Rightarrow> example_dep param" where
  "plain_param name ann = \<lparr>pa_name = u name, pa_kind = PositionalOrKeyword, pa_ann = Bare ann, pa_default = NoDefault\<rparr>"

definition page_fn :: "string \<Rightarrow> example_dep param list \<Rightarrow> example_dep handler" where
  "page_fn name params = \<lparr>ph_name = Some (u name), ph_doc = None, ph_hints = None, ph_params = params\<rparr>"

definition st_client :: "example_dep param list" where
  "st_client = [plain_param ''st'' AnyType, plain_param ''client'' ApiClientClass]"

definition page_of :: "string \<Rightarrow> pystr option \<Rightarrow> example_dep handler \<Rightarrow> example_dep page_decl" where
  "page_of path title fn = \<lparr>pd_path = u path, pd_title = title, pd_icon = None, pd_tags = [], pd_page_meta = None, pd_fn = fn\<rparr>"

definition smoke_pages :: "example_dep page_decl list" where
  "smoke_pages = [page_of ''/'' (Some (u ''Home'')) (page_fn ''home'' st_client)]"

definition multipage_pages :: "example_dep page_decl list" where
  "multipage_pages = [page_of ''/'' (Some (u ''Home'')) (page_fn ''home'' st_client),
     page_of ''/admin'' (Some (u ''Admin'')) (page_fn ''admin'' st_client)]"

definition compose_pages :: "example_dep page_decl list" where
  "compose_pages = [page_of ''/'' (Some (u ''Home'')) (page_fn ''home'' st_client)]"

definition tracing_pages :: "example_dep page_decl list" where
  "tracing_pages = [page_of ''/'' (Some (u ''Tracing'')) (page_fn ''home'' st_client)]"

definition tab_label_param :: "example_dep param" where
  "tab_label_param = \<lparr>pa_name = u ''label'', pa_kind = PositionalOrKeyword,
     pa_ann = Annotated (OtherClass (u ''str'')) [DependsOn (Some GetTabLabel) True], pa_default = NoDefault\<rparr>"

definition rocket :: pystr where
  "rocket = [128640]"

definition roadmap_pages :: "example_dep page_decl list" where
  "roadmap_pages =
     [(page_of ''/'' None (page_fn ''home'' (st_client @ [tab_label_param])))
        \<lparr>pd_tags := [u ''demo''], pd_page_meta := Some (empty_meta\<lparr>pm_page_icon := Some rocket\<rparr>)\<rparr>,
      page_of ''/about'' None (page_fn ''about'' [plain_param ''st'' AnyType, plain_param ''_client'' ApiClientClass])]"

text \<open>\<open>app.navigation(NavigationModel(order=("/about", "/")))\<close>\<close>

definition roadmap_order :: "pystr list" where
  "roadmap_order = [u ''/about'', u ''/'']"

definition about_returns :: page_value where
  "about_returns = PMeta (empty_meta\<lparr>pm_breadcrumb := Some (u ''About''), pm_description := Some (u ''About this demo'')\<rparr>)"

subsection \<open>Routes and page bodies\<close>

definition obj :: "(string \<times> json) list \<Rightarrow> json" where
  "obj kvs = JObj (map (\<lambda>(k, v). (u k, v)) kvs)"

definition smoke_api :: "pystr \<Rightarrow> headers \<Rightarrow> json option" where
  "smoke_api path hs =
     (if path = u ''/smoke'' then Some (obj [(''status'', JStr (u ''ok'')), (''marker'', JStr (u ''fluxlit_smoke_ok''))])
      else if path = u ''/request-id''
      then Some (obj [(''request_id'', case header_get ''x-request-id'' hs of None \<Rightarrow> JNull | Some v \<Rightarrow> JStr v)])
      else None)"

definition multipage_api :: "pystr \<Rightarrow> json option" where
  "multipage_api path =
     (if path = u ''/admin/users'' then Some (JArr [obj [(''name'', JStr (u ''Ada''))], obj [(''name'', JStr (u ''Grace''))]]) else None)"

definition compose_api :: "pystr \<Rightarrow> json option" where
  "compose_api path = (if path = u ''/hello'' then Some (obj [(''message'', JStr (u ''hello''))]) else None)"

definition tracing_api :: "pystr \<Rightarrow> json option" where
  "tracing_api path = (if path = u ''/hello'' then Some (obj [(''message'', JStr (u ''hello from traced FluxLit''))]) else None)"

definition roadmap_api :: "pystr \<Rightarrow> json option" where
  "roadmap_api path = (if path = u ''/ping'' then Some (obj [(''ok'', JBool True)]) else None)"

text \<open>\<open>client.get(path).json()\<close>, which raises for no status.\<close>

definition get_json_body :: "'h page_net \<Rightarrow> ('f \<Rightarrow> exc + pystr dict) \<Rightarrow> 'f api_client \<Rightarrow> pystr \<Rightarrow> exc + json" where
  "get_json_body N call client path =
     bind_exc (bind_exc (api_get (pn_headers N) call client (pn_request_id N) path None ()) (pn_send N))
       (\<lambda>r. pn_json N (ar_content r))"

definition show_then :: "shown list \<Rightarrow> exc + shown list \<Rightarrow> shown list \<times> page_end" where
  "show_then items r = (case r of Inl e \<Rightarrow> (items, PageRaised e) | Inr more_items \<Rightarrow> (items @ more_items, PageDone))"

definition smoke_home :: "'h page_net \<Rightarrow> ('f \<Rightarrow> exc + pystr dict) \<Rightarrow> 'f api_client \<Rightarrow> shown list \<times> page_end" where
  "smoke_home N call client =
     show_then [Title (u ''FluxLit Smoke''), Written (JStr (u ''fluxlit_smoke_ok''))]
       (map_sum id (\<lambda>j. [Written j]) (get_json_body N call client (u ''/smoke'')))"

definition multipage_home :: "shown list \<times> page_end" where
  "multipage_home = ([Title (u ''Home Page''), Written (JStr (u ''Use stable widget keys for AppTest-friendly pages.''))], PageDone)"

definition multipage_admin :: "'h page_net \<Rightarrow> ('f \<Rightarrow> exc + pystr dict) \<Rightarrow> 'f api_client \<Rightarrow> shown list \<times> page_end" where
  "multipage_admin N call client =
     show_then [Title (u ''Admin Page'')] (map_sum id (\<lambda>j. [Written j]) (get_json_body N call client (u ''/admin/users'')))"

definition hello_home :: "pystr \<Rightarrow> 'h page_net \<Rightarrow> ('f \<Rightarrow> exc + pystr dict) \<Rightarrow> 'f api_client \<Rightarrow> shown list \<times> page_end" where
  "hello_home heading N call client =
     show_then [Title heading] (map_sum id (\<lambda>j. [Written j]) (get_json_body N call client (u ''/hello'')))"

text \<open>\<open>label\<close> is what \<open>get_tab_label\<close> returned, \<open>tab\<close> the result of \<open>parse_query_params\<close>.\<close>

definition get_tab_label :: pystr where
  "get_tab_label = u ''Demo''"

definition roadmap_home ::
  "'h page_net \<Rightarrow> ('f \<Rightarrow> exc + pystr dict) \<Rightarrow> 'f api_client \<Rightarrow> pystr \<Rightarrow> exc + pystr \<Rightarrow> shown list \<times> page_end" where
  "roadmap_home N call client label tab =
     (let items = [Title (u ''Roadmap 0.9 example''), Captioned label]
      in case tab of
           Inl e \<Rightarrow> (items, PageRaised e)
         | Inr t \<Rightarrow> show_then (items @ [Written (JStr (u ''tab'')), Written (JStr t)])
             (map_sum id (\<lambda>j. [Written j]) (get_json_body N call client (u ''/ping''))))"

subsection \<open>OpenTelemetry and the WebSocket smoke test\<close>

text \<open>The attributes the hook sets on its span: those that have a value.\<close>

definition otel_trace_hook :: "pystr \<Rightarrow> json dict \<Rightarrow> pystr \<times> json dict" where
  "otel_trace_hook name attributes = (name, fold (\<lambda>(k, v). AList.update k v) (filter (\<lambda>(k, v). v \<noteq> JNull) attributes) [])"

datatype tls_context = NoContext | UncheckedContext

definition smoke_ws ::
  "bool \<Rightarrow> pystr dict \<Rightarrow> (pystr \<Rightarrow> pystr list \<Rightarrow> tls_context \<Rightarrow> int \<Rightarrow> pystr option) \<Rightarrow> (pystr \<Rightarrow> pystr) \<Rightarrow> int \<times> pystr" where
  "smoke_ws installed environ connect_fails repr =
     (if \<not> installed then (1, u ''FAIL: install websockets (pip install websockets)'')
      else (let url = strip (opt_str (map_of environ (u ''WS_URL'')))
            in if url = [] then (1, u ''FAIL: WS_URL not set'')
               else (let ssl_ctx = (if startswith url (u ''wss://'') \<and> opt_str (map_of environ (u ''CURL_INSECURE'')) = u ''1''
                                    then UncheckedContext else NoContext)
                     in case connect_fails url [u ''streamlit''] ssl_ctx 20 of
                          Some exc \<Rightarrow> (1, u ''FAIL: websocket connect '' @ repr url @ u '': '' @ exc)
                        | None \<Rightarrow> (0, u ''WebSocket handshake OK''))))"

subsection \<open>Properties\<close>

text \<open>The smoke test exits with 0 only after a handshake with a non-empty URL, and it never drops the verification of
  certificates unless that was asked for.\<close>

theorem smoke_ws_exit:
  "fst (smoke_ws installed environ connect_fails repr) = 0 \<longleftrightarrow>
     installed \<and> strip (opt_str (map_of environ (u ''WS_URL''))) \<noteq> [] \<and>
     (\<exists>ctx. connect_fails (strip (opt_str (map_of environ (u ''WS_URL'')))) [u ''streamlit''] ctx 20 = None \<and>
        (ctx = UncheckedContext \<longleftrightarrow> startswith (strip (opt_str (map_of environ (u ''WS_URL'')))) (u ''wss://'') \<and>
           map_of environ (u ''CURL_INSECURE'') = Some (u ''1'')))"
proof -
  have o: "opt_str x = u ''1'' \<longleftrightarrow> x = Some (u ''1'')" for x by (cases x) (simp_all add: opt_str_def)
  have c: "ctx \<noteq> UncheckedContext \<Longrightarrow> ctx = NoContext" for ctx by (cases ctx) simp_all
  show ?thesis
    using c by (auto simp: smoke_ws_def o Let_def split: option.splits if_splits)
qed

text \<open>Every page of these applications passes the strict signature check, and none is refused at registration.\<close>

definition example_page_lists :: "example_dep page_decl list list" where
  "example_page_lists = [smoke_pages, multipage_pages, compose_pages, tracing_pages, roadmap_pages]"

lemma example_slugs:
  "page_slug (u ''/'') = u ''home''" "page_slug (u ''/admin'') = u ''admin''" "page_slug (u ''/about'') = u ''about''"
  by (simp_all add: page_slug_def strip_slash_def pystr_eval)

lemmas example_pages = smoke_pages_def multipage_pages_def compose_pages_def tracing_pages_def roadmap_pages_def page_of_def

lemma example_signature:
  "validate_strict_page_signature (page_fn name st_client) = Inr ()"
  "validate_strict_page_signature (page_fn name (st_client @ [tab_label_param])) = Inr ()"
  "validate_strict_page_signature (page_fn name [plain_param ''st'' AnyType, plain_param ''_client'' ApiClientClass]) = Inr ()"
  by (simp_all add: validate_strict_page_signature_def page_fn_def st_client_def plain_param_def tab_label_param_def strict_param_def
      has_depends_without_callable_def depends_with_callable_def has_header_cookie_def)

lemma example_no_store:
  "validate_session_store_on_page (new_app fs False) (page_fn name st_client) = Inr ()"
  "validate_session_store_on_page (new_app fs False) (page_fn name (st_client @ [tab_label_param])) = Inr ()"
  "validate_session_store_on_page (new_app fs False) (page_fn name [plain_param ''st'' AnyType, plain_param ''_client'' ApiClientClass]) = Inr ()"
  by (simp_all add: validate_session_store_on_page_def new_app_def page_fn_def st_client_def plain_param_def tab_label_param_def)

lemmas registering = register_streamlit_page_def example_signature example_slugs new_app_def strict_settings_def

text \<open>A page can be added to an application of these examples when neither its path nor its slug is taken.\<close>

lemma register_example:
  assumes "validate_strict_page_signature (pd_fn d) = Inr ()"
    and "\<And>fs. validate_session_store_on_page (new_app fs False) (pd_fn d) = Inr ()"
    and "fa_settings app = strict_settings" and "\<not> fa_has_store app"
    and "\<forall>r \<in> set (fa_pages app). pr_path r \<noteq> pd_path d \<and> rec_slug r \<noteq> page_slug (pd_path d)"
  shows "register_streamlit_page d app = Inr (app\<lparr>fa_pages := fa_pages app @
     [\<lparr>pr_path = pd_path d, pr_title = or_str (opt_str (pd_title d)) (default_page_title (pd_fn d)), pr_fn = pd_fn d,
       pr_tags = pd_tags d, pr_description = docstring_first_line (pd_fn d), pr_icon = pd_icon d, pr_page_meta = pd_page_meta d\<rparr>]\<rparr>)"
proof -
  have "validate_session_store_on_page app (pd_fn d) = Inr ()"
    using assms(2) [of strict_settings] assms(4) by (simp add: validate_session_store_on_page_def new_app_def)
  with assms show ?thesis by (auto simp: register_streamlit_page_def strict_settings_def list_ex_iff)
qed

definition example_app :: "example_dep page_decl list \<Rightarrow> example_dep fluxlit_app" where
  "example_app ds = snd (register_all ds (new_app strict_settings False))"

lemma example_app_pages:
  "register_all smoke_pages (new_app strict_settings False) = (None, example_app smoke_pages)"
  "register_all multipage_pages (new_app strict_settings False) = (None, example_app multipage_pages)"
  "register_all compose_pages (new_app strict_settings False) = (None, example_app compose_pages)"
  "register_all tracing_pages (new_app strict_settings False) = (None, example_app tracing_pages)"
  "register_all roadmap_pages (new_app strict_settings False) = (None, example_app roadmap_pages)"
  by (simp_all add: example_app_def register_example example_signature example_no_store example_slugs example_pages)
    (simp_all add: new_app_def register_example example_signature example_no_store [unfolded new_app_def] example_slugs)

lemma example_paths: "list_all (\<lambda>ds. map pr_path (fa_pages (example_app ds)) = map pd_path ds) example_page_lists"
  by (simp add: example_page_lists_def example_app_def register_example example_signature example_no_store example_slugs example_pages)
    (simp add: new_app_def register_example example_signature example_no_store [unfolded new_app_def] example_slugs)

theorem examples_strict:
  "list_all (\<lambda>ds. register_all ds (new_app strict_settings False) = (None, example_app ds) \<and>
     map pr_path (fa_pages (example_app ds)) = map pd_path ds) example_page_lists"
  using example_paths by (simp add: example_page_lists_def example_app_pages)

lemma roadmap_records:
  "fa_pages (example_app roadmap_pages) =
     [\<lparr>pr_path = u ''/'', pr_title = u ''Home'', pr_fn = page_fn ''home'' (st_client @ [tab_label_param]), pr_tags = [u ''demo''],
        pr_description = [], pr_icon = None, pr_page_meta = Some (empty_meta\<lparr>pm_page_icon := Some rocket\<rparr>)\<rparr>,
      \<lparr>pr_path = u ''/about'', pr_title = u ''About'', pr_fn = page_fn ''about'' [plain_param ''st'' AnyType, plain_param ''_client'' ApiClientClass],
        pr_tags = [], pr_description = [], pr_icon = None, pr_page_meta = None\<rparr>]"
proof -
  have t: "default_page_title (page_fn ''home'' ps) = u ''Home''" "default_page_title (page_fn ''about'' ps) = u ''About''" for ps
    by (simp_all add: default_page_title_def page_fn_def pystr_eval is_alpha_ascii_def)
  have d: "docstring_first_line (page_fn n ps) = []" for n ps by (simp add: docstring_first_line_def page_fn_def)
  show ?thesis
    by (simp add: example_app_def roadmap_pages_def page_of_def new_app_def register_example example_signature
        example_no_store [unfolded new_app_def] example_slugs t d or_str_def opt_str_def)
qed

text \<open>The roadmap application declares its navigation the other way round: the sidebar shows About before Home, with
  the icon the metadata gives, and each handler gets what its parameters name, the label from one call of
  \<open>get_tab_label\<close> and the client under its own parameter name.\<close>

theorem roadmap_runs:
  assumes "\<not> pe_is_async E GetTabLabel" and "pe_call E GetTabLabel [] = Plain v"
  shows "streamlit_entry str (Some roadmap_order) (example_app roadmap_pages) [] =
      Navigation [\<lparr>np_title = u ''About'', np_url_path = u ''about'', np_icon = None\<rparr>,
        \<lparr>np_title = u ''Home'', np_url_path = u ''home'', np_icon = Some rocket\<rparr>] None"
    and "map (\<lambda>r. resolve_page_kwargs E [] (pr_fn r)) (fa_pages (example_app roadmap_pages)) =
      [(Inr [(u ''st'', TheSt), (u ''client'', TheClient), (u ''label'', DepValue v)], [GetTabLabel]),
       (Inr [(u ''st'', TheSt), (u ''_client'', TheClient)], [])]"
proof -
  have k: "navigation_sort_key roadmap_order (hd (fa_pages (example_app roadmap_pages))) = (1, u ''home'')"
    "navigation_sort_key roadmap_order (fa_pages (example_app roadmap_pages) ! 1) = (0, u ''about'')"
    by (simp_all add: roadmap_records navigation_sort_key_def roadmap_order_def example_slugs)
  have c: "children_of r = []" if "r \<in> set (fa_pages (example_app roadmap_pages))" for r
    using that by (auto simp: roadmap_records children_of_def empty_meta_def)
  have f: "is_space 32" by (simp add: is_space_def)
  show "streamlit_entry str (Some roadmap_order) (example_app roadmap_pages) [] =
      Navigation [\<lparr>np_title = u ''About'', np_url_path = u ''about'', np_icon = None\<rparr>,
        \<lparr>np_title = u ''Home'', np_url_path = u ''home'', np_icon = Some rocket\<rparr>] None"
    using k c by (simp add: streamlit_entry_def nav_records_def roadmap_records roadmap_order_def order_records_with_children_def
        child_edges_def apply_children_overrides_def override_record_def nav_page_of_def match_nav_page_def example_slugs opt_str_def
        strip_Nil or_str_def Let_def empty_meta_def rocket_def)
  show "map (\<lambda>r. resolve_page_kwargs E [] (pr_fn r)) (fa_pages (example_app roadmap_pages)) =
      [(Inr [(u ''st'', TheSt), (u ''client'', TheClient), (u ''label'', DepValue v)], [GetTabLabel]),
       (Inr [(u ''st'', TheSt), (u ''_client'', TheClient)], [])]"
    using assms by (simp add: roadmap_records resolve_page_kwargs_def page_fn_def st_client_def plain_param_def tab_label_param_def
        unwrap_depends_def plain_injection_def unwrap_header_def unwrap_cookie_def typed_injection_def resolve_depends_callable_def)
qed

text \<open>The span of a traced request carries exactly the attributes that have a value.\<close>

theorem otel_span_attributes:
  assumes "dict_ok attributes"
  shows "map_of (snd (otel_trace_hook name attributes)) k = (case map_of attributes k of Some v \<Rightarrow> if v = JNull then None else Some v | None \<Rightarrow> None)"
proof -
  have "dict_ok (filter (\<lambda>(k, v). v \<noteq> JNull) attributes)" using assms by simp
  from map_of_fold_update [OF this, of "[]" k] assms show ?thesis
    by (simp add: otel_trace_hook_def map_of_filter_distinct split: option.split)
qed

end
