(* ===== verification/Token_Encoding.thy ===== *)
theory Token_Encoding
  imports Session_Text Oidc_Bff Import_Target
begin

section \<open>Base64 tokens: random identifiers, PKCE, the payload of an id token\<close>

text \<open>
  Models \<open>pkce_pair\<close> and the decoding half of \<open>_subject_from_id_token_parse_only\<close> of \<open>auth/oidc.py\<close>, and
  \<open>new_session_id\<close> of \<open>url_session.py\<close>, with the standard library's \<open>base64.urlsafe_b64encode\<close>,
  \<open>base64.urlsafe_b64decode\<close> (which skips foreign characters and stops at a complete padding) and
  \<open>secrets.token_urlsafe\<close>. Bytes are numbers below 256. The random bytes and SHA-256 are arguments.
  \<open>standard_codecs\<close> puts both functions into the environment of the OIDC routes, where
  \<open>Oidc_Bff\<close> leaves them open.
\<close>

definition byte_list :: "nat list \<Rightarrow> bool" where
  "byte_list bs \<longleftrightarrow> (\<forall>b \<in> set bs. b < 256)"

subsection \<open>Encoding\<close>

definition b64_digit :: "nat \<Rightarrow> nat" where
  "b64_digit v = (if v < 26 then 65 + v else if v < 52 then 71 + v else if v < 62 then v - 4 else if v = 62 then 43 else 47)"

definition urlsafe_cp :: "nat \<Rightarrow> nat" where
  "urlsafe_cp c = (if c = 43 then 45 else if c = 47 then 95 else c)"

fun b64_sextets :: "nat list \<Rightarrow> nat list" where
  "b64_sextets [] = []"
| "b64_sextets [a] = [a div 4, a mod 4 * 16]"
| "b64_sextets [a, b] = [a div 4, a mod 4 * 16 + b div 16, b mod 16 * 4]"
| "b64_sextets (a # b # c # bs) =
     [a div 4, a mod 4 * 16 + b div 16, b mod 16 * 4 + c div 64, c mod 64] @ b64_sextets bs"

definition b64_padding :: "nat \<Rightarrow> pystr" where
  "b64_padding n = replicate ((4 - n mod 4) mod 4) 61"

definition b64encode :: "nat list \<Rightarrow> pystr" where
  "b64encode bs = (let s = b64_sextets bs in map b64_digit s @ b64_padding (length s))"

definition urlsafe_b64encode :: "nat list \<Rightarrow> pystr" where
  "urlsafe_b64encode bs = map urlsafe_cp (b64encode bs)"

definition b64url :: "nat list \<Rightarrow> pystr" where
  "b64url bs = rstrip_by (\<lambda>c. c = 61) (urlsafe_b64encode bs)"

subsection \<open>Decoding\<close>

definition b64_value :: "nat \<Rightarrow> nat option" where
  "b64_value c =
     (if 65 \<le> c \<and> c \<le> 90 then Some (c - 65) else if 97 \<le> c \<and> c \<le> 122 then Some (c - 71)
      else if 48 \<le> c \<and> c \<le> 57 then Some (c + 4) else if c = 43 then Some 62 else if c = 47 then Some 63 else None)"

definition emit_byte :: "nat \<Rightarrow> exc + nat list \<Rightarrow> exc + nat list" where
  "emit_byte b r = (case r of Inl e \<Rightarrow> Inl e | Inr bs \<Rightarrow> Inr (b # bs))"

text \<open>\<open>binascii.a2b_base64\<close>, not strict: the position in the group of four, the bits left over, the
  padding characters seen since the last digit. A character outside the alphabet is skipped.\<close>

fun a2b_base64 :: "nat \<Rightarrow> nat \<Rightarrow> nat \<Rightarrow> nat list \<Rightarrow> exc + nat list" where
  "a2b_base64 quad_pos leftchar pads [] = (if quad_pos = 0 then Inr [] else Inl ValueError)"
| "a2b_base64 quad_pos leftchar pads (c # cs) =
     (if c = 61 then
        (if quad_pos \<ge> 2
         then (if quad_pos + Suc pads \<ge> 4 then Inr [] else a2b_base64 quad_pos leftchar (Suc pads) cs)
         else a2b_base64 quad_pos leftchar pads cs)
      else (case b64_value c of
          None \<Rightarrow> a2b_base64 quad_pos leftchar pads cs
        | Some v \<Rightarrow>
            if quad_pos = 0 then a2b_base64 1 v 0 cs
            else if quad_pos = 1 then emit_byte (leftchar * 4 + v div 16) (a2b_base64 2 (v mod 16) 0 cs)
            else if quad_pos = 2 then emit_byte (leftchar * 16 + v div 4) (a2b_base64 3 (v mod 4) 0 cs)
            else emit_byte (leftchar * 64 + v) (a2b_base64 0 0 0 cs)))"

definition urlsafe_b64decode :: "nat list \<Rightarrow> exc + nat list" where
  "urlsafe_b64decode s = a2b_base64 0 0 0 (map (\<lambda>c. if c = 45 then 43 else if c = 95 then 47 else c) s)"

subsection \<open>Round trip\<close>

lemma b64_value_digit [simp]: "v < 64 \<Longrightarrow> b64_value (b64_digit v) = Some v"
  by (auto simp: b64_value_def b64_digit_def)

lemma b64_digit_range: "v < 64 \<Longrightarrow> b64_digit v \<noteq> 61 \<and> b64_digit v \<noteq> 45 \<and> b64_digit v \<noteq> 95"
  by (auto simp: b64_digit_def)

lemma sextets_bound: "byte_list bs \<Longrightarrow> v \<in> set (b64_sextets bs) \<Longrightarrow> v < 64"
proof (induction bs rule: b64_sextets.induct)
  case (4 a b c bs)
  then show ?case by (auto simp: byte_list_def)
qed (auto simp: byte_list_def)

lemma length_sextets: "length (b64_sextets bs) = (4 * length bs + 2) div 3"
  by (induction bs rule: b64_sextets.induct) auto

lemma a2b_digit [simp]:
  "v < 64 \<Longrightarrow> a2b_base64 0 l p (b64_digit v # cs) = a2b_base64 1 v 0 cs"
  "v < 64 \<Longrightarrow> a2b_base64 (Suc 0) l p (b64_digit v # cs) = emit_byte (l * 4 + v div 16) (a2b_base64 2 (v mod 16) 0 cs)"
  "v < 64 \<Longrightarrow> a2b_base64 2 l p (b64_digit v # cs) = emit_byte (l * 16 + v div 4) (a2b_base64 3 (v mod 4) 0 cs)"
  "v < 64 \<Longrightarrow> a2b_base64 3 l p (b64_digit v # cs) = emit_byte (l * 64 + v) (a2b_base64 0 0 0 cs)"
  using b64_digit_range [of v] by simp_all

lemma a2b_pads [simp]: "a2b_base64 2 l 0 [61, 61] = Inr []" "a2b_base64 3 l 0 [61] = Inr []" "a2b_base64 0 l p [] = Inr []"
  by simp_all

lemma b64_padding_cases [simp]:
  "b64_padding 0 = []" "b64_padding 2 = [61, 61]" "b64_padding 3 = [61]" "b64_padding (4 + n) = b64_padding n"
  "b64_padding (Suc (Suc 0)) = [61, 61]" "b64_padding (Suc (Suc (Suc 0))) = [61]" "b64_padding (Suc (Suc (Suc (Suc n)))) = b64_padding n"
  by (simp_all add: b64_padding_def numeral_2_eq_2)

lemma emit_byte_Inr [simp]: "emit_byte b (Inr bs) = Inr (b # bs)"
  by (simp add: emit_byte_def)

declare a2b_base64.simps [simp del]

lemma a2b_sextets:
  "byte_list bs \<Longrightarrow> a2b_base64 0 l p (map b64_digit (b64_sextets bs) @ b64_padding (length (b64_sextets bs))) = Inr bs"
proof (induction bs arbitrary: l p rule: b64_sextets.induct)
  case (2 a)
  then have "a div 4 < 64" "a mod 4 * 16 < 64" by (auto simp: byte_list_def)
  then show ?case by simp
next
  case (3 a b)
  then have "a div 4 < 64" "a mod 4 * 16 + b div 16 < 64" "b mod 16 * 4 < 64" "b div 16 < 16" by (auto simp: byte_list_def)
  then show ?case by simp
next
  case (4 a b c bs)
  then have "a div 4 < 64" "a mod 4 * 16 + b div 16 < 64" "b mod 16 * 4 + c div 64 < 64" "b div 16 < 16" "c div 64 < 4"
    by (auto simp: byte_list_def)
  with 4 show ?case by (simp add: byte_list_def)
qed simp


subsection \<open>The URL-safe alphabet\<close>

definition token_cp :: "nat \<Rightarrow> bool" where
  "token_cp c \<longleftrightarrow> is_alpha_ascii c \<or> (48 \<le> c \<and> c \<le> 57) \<or> c = 45 \<or> c = 95"

lemma token_cp_digit: "v < 64 \<Longrightarrow> token_cp (urlsafe_cp (b64_digit v))"
  by (auto simp: token_cp_def urlsafe_cp_def b64_digit_def is_alpha_ascii_def)

lemma token_cp_facts: "token_cp c \<Longrightarrow> c < 128 \<and> c \<noteq> 61 \<and> c \<noteq> 46 \<and> \<not> is_space c \<and> unreserved_cp c"
  by (auto simp: token_cp_def is_alpha_ascii_def is_space_def unreserved_cp_def)

lemma urlsafe_padding: "map urlsafe_cp (b64_padding n) = b64_padding n"
  by (simp add: b64_padding_def urlsafe_cp_def)

lemma b64url_sextets:
  assumes "byte_list bs"
  shows "b64url bs = map (\<lambda>v. urlsafe_cp (b64_digit v)) (b64_sextets bs)" (is "_ = ?d")
proof -
  have "\<forall>c \<in> set ?d. c \<noteq> 61"
    using sextets_bound [OF assms] token_cp_digit token_cp_facts by fastforce
  then have "rstrip_by (\<lambda>c. c = 61) ?d = ?d"
    by (intro rstrip_by_id) (metis last_in_set)
  moreover have "urlsafe_b64encode bs = ?d @ b64_padding (length (b64_sextets bs))"
    by (simp add: urlsafe_b64encode_def b64encode_def Let_def urlsafe_padding)
  ultimately show ?thesis
    by (simp add: b64url_def rstrip_by_append_all b64_padding_def)
qed

lemma urlsafe_b64encode_parts:
  "byte_list bs \<Longrightarrow> urlsafe_b64encode bs = b64url bs @ b64_padding (length (b64url bs))"
  by (simp add: b64url_sextets urlsafe_b64encode_def b64encode_def Let_def urlsafe_padding)

lemma length_b64url: "byte_list bs \<Longrightarrow> length (b64url bs) = (4 * length bs + 2) div 3"
  by (simp add: b64url_sextets length_sextets)

lemma b64url_token: "byte_list bs \<Longrightarrow> c \<in> set (b64url bs) \<Longrightarrow> token_cp c"
  using sextets_bound token_cp_digit by (fastforce simp: b64url_sextets)

lemma urlsafe_back: "v < 64 \<Longrightarrow> (let c = urlsafe_cp (b64_digit v) in if c = 45 then 43 else if c = 95 then 47 else c) = b64_digit v"
  using b64_digit_range [of v] by (auto simp: urlsafe_cp_def Let_def)

lemma b64url_decodes:
  assumes "byte_list bs"
  shows "urlsafe_b64decode (b64url bs @ b64_padding (length (b64url bs))) = Inr bs"
proof -
  let ?std = "\<lambda>c. if c = 45 then 43 else if c = 95 then 47 else (c :: nat)"
  let ?s = "b64_sextets bs"
  have d: "map ?std (b64url bs) = map b64_digit ?s"
    using sextets_bound [OF assms] urlsafe_back by (simp add: b64url_sextets [OF assms] Let_def)
  have p: "map ?std (b64_padding n) = b64_padding n" for n by (simp add: b64_padding_def)
  have n: "length (b64url bs) = length ?s" by (simp add: b64url_sextets [OF assms])
  show ?thesis unfolding urlsafe_b64decode_def map_append d p n by (rule a2b_sextets [OF assms])
qed

lemma b64url_inject: "byte_list bs \<Longrightarrow> byte_list cs \<Longrightarrow> b64url bs = b64url cs \<longleftrightarrow> bs = cs"
  using b64url_decodes by (metis Inr_inject)

lemma quote_plus_token: "\<forall>c \<in> set s. token_cp c \<Longrightarrow> quote_plus s = s"
  using token_cp_facts by (induction s) (auto simp: quote_plus_def quote_plus_cp_def)

lemma strip_token:
  assumes "\<forall>c \<in> set s. token_cp c"
  shows "strip s = s"
proof -
  have n: "\<forall>c \<in> set s. \<not> is_space c" using assms token_cp_facts by blast
  have "dropWhile is_space s = s" using n by (cases s) auto
  moreover have "rstrip_by is_space s = s" using n by (intro rstrip_by_id) (metis last_in_set)
  ultimately show ?thesis by (simp add: strip_def strip_by_def lstrip_by_def)
qed


subsection \<open>Tokens, PKCE pairs and decoded payloads\<close>

text \<open>\<open>str.encode("ascii")\<close>, its bytes as numbers; \<open>secrets.token_urlsafe\<close> of given random bytes.\<close>

definition ascii_bytes :: "pystr \<Rightarrow> exc + nat list" where
  "ascii_bytes s = (if \<forall>c \<in> set s. c < 128 then Inr s else Inl UnicodeEncodeError)"

definition token_urlsafe :: "nat list \<Rightarrow> pystr" where
  "token_urlsafe random = rstrip_by (\<lambda>c. c = 61) (urlsafe_b64encode random)"

definition new_session_id :: "nat list \<Rightarrow> pystr" where
  "new_session_id random = token_urlsafe random"

definition s256_challenge :: "(nat list \<Rightarrow> nat list) \<Rightarrow> nat list \<Rightarrow> pystr" where
  "s256_challenge sha256 ascii = (let digest = sha256 ascii in rstrip_by (\<lambda>c. c = 61) (urlsafe_b64encode digest))"

definition pkce_pair :: "(nat list \<Rightarrow> nat list) \<Rightarrow> nat list \<Rightarrow> exc + pystr \<times> pystr" where
  "pkce_pair sha256 random =
     (let verifier = token_urlsafe random
      in bind_exc (ascii_bytes verifier) (\<lambda>ascii. Inr (verifier, s256_challenge sha256 ascii)))"

text \<open>A member of a JSON object that repeats a key replaces the earlier one, as in a Python dictionary.\<close>

definition last_wins :: "json \<Rightarrow> json" where
  "last_wins j = (case j of JObj kvs \<Rightarrow> JObj (fold (\<lambda>(k, v). AList.update k v) kvs []) | _ \<Rightarrow> j)"

definition b64_json :: "(pystr \<Rightarrow> real option) \<Rightarrow> pystr \<Rightarrow> exc + json" where
  "b64_json rd payload_b64 =
     bind_exc (ascii_bytes payload_b64) (\<lambda>ascii.
     bind_exc (urlsafe_b64decode ascii) (\<lambda>raw.
     bind_exc (utf8_decode raw) (\<lambda>text.
     bind_exc (json_loads rd text) (\<lambda>payload. Inr (last_wins payload)))))"

definition standard_codecs ::
  "(nat list \<Rightarrow> nat list) \<Rightarrow> (pystr \<Rightarrow> real option) \<Rightarrow> 'k oidc_env \<Rightarrow> 'k oidc_env" where
  "standard_codecs sha256 rd env = env\<lparr>oe_challenge := s256_challenge sha256, oe_b64_json := b64_json rd\<rparr>"

lemma standard_codecs_sel [simp]:
  "oe_challenge (standard_codecs sha256 rd env) = s256_challenge sha256"
  "oe_b64_json (standard_codecs sha256 rd env) = b64_json rd"
  "oe_lib (standard_codecs sha256 rd env) = oe_lib env"
  "oe_http_post (standard_codecs sha256 rd env) = oe_http_post env"
  "oe_http_get (standard_codecs sha256 rd env) = oe_http_get env"
  by (simp_all add: standard_codecs_def)

lemma token_urlsafe_b64url: "token_urlsafe random = b64url random"
  by (simp add: token_urlsafe_def b64url_def)

lemma s256_b64url: "s256_challenge sha256 v = b64url (sha256 v)"
  by (simp add: s256_challenge_def b64url_def)

lemma pkce_pair_returns: "byte_list random \<Longrightarrow> pkce_pair sha256 random = Inr (b64url random, b64url (sha256 (b64url random)))"
  using b64url_token token_cp_facts
  by (fastforce simp: pkce_pair_def ascii_bytes_def token_urlsafe_b64url s256_b64url Let_def)

lemma fold_update_distinct:
  "dict_ok (acc @ kvs) \<Longrightarrow> fold (\<lambda>(k, v). AList.update k v) kvs acc = acc @ kvs"
proof (induction kvs arbitrary: acc)
  case (Cons p kvs)
  have "AList.update (fst p) (snd p) acc = acc @ [p]"
    using Cons.prems by (induction acc) (auto simp: dict_ok_def)
  with Cons show ?case by (simp add: case_prod_unfold)
qed simp

lemma last_wins_distinct: "dict_ok kvs \<Longrightarrow> last_wins (JObj kvs) = JObj kvs"
  using fold_update_distinct [of "[]" kvs] by (simp add: last_wins_def)

lemma utf8_bytes: "list_all scalar_cp s \<Longrightarrow> byte_list (utf8_encode s)"
proof -
  have "b < 256" if "b \<in> set (utf8_cp c)" "scalar_cp c" for b c
    using that by (auto simp: utf8_cp_def scalar_cp_def split: if_splits)
  then show "list_all scalar_cp s \<Longrightarrow> byte_list (utf8_encode s)"
    by (auto simp: byte_list_def utf8_encode_def list_all_iff)
qed


subsection \<open>Properties\<close>

text \<open>A minted identifier (a session id, a login state or a one-time code, each from 32 random bytes) has 43 characters of
  the URL-safe alphabet: it is put into a URL and read from it unchanged, is not altered by stripping, is
  long enough for the exchange route, and two of them are equal only when their random bytes are.\<close>

theorem minted_ids_survive_urls:
  assumes "byte_list random" and "length random = 32" and "byte_list other"
  shows "length (new_session_id random) = 43 \<and> quote_plus (new_session_id random) = new_session_id random \<and>
    strip (new_session_id random) = new_session_id random \<and>
    (new_session_id other = new_session_id random \<longleftrightarrow> other = random)"
  using assms length_b64url [OF assms(1)] b64url_token [OF assms(1)] b64url_inject [OF assms(3,1)]
  by (simp add: new_session_id_def token_urlsafe_b64url quote_plus_token strip_token)

theorem minted_ids_survive_urls_witness:
  "length (new_session_id (replicate 32 255)) = 43 \<and> new_session_id (replicate 32 0) \<noteq> new_session_id (replicate 32 255)"
  using minted_ids_survive_urls [of "replicate 32 255" "replicate 32 0"] by (simp add: byte_list_def)

lemma join_with_last: "ws \<noteq> [] \<Longrightarrow> join_with sep (ws @ [x]) = join_with sep ws @ sep @ x"
proof (induction ws)
  case (Cons w ws)
  then show ?case by (cases ws) simp_all
qed simp

lemma urlencode_last:
  assumes "urlencode (q @ [(k, v), (k', v')]) = Inr r" and "q \<noteq> []"
  shows "\<exists>h. r = h @ [38] @ quote_plus k @ [61] @ quote_plus v @ [38] @ quote_plus k' @ [61] @ quote_plus v'"
proof -
  let ?p = "\<lambda>(k, v). quote_plus k @ [61] @ quote_plus v"
  have "r = join_with [38] ((map ?p q @ [?p (k, v)]) @ [?p (k', v')])"
    using assms(1) by (simp add: urlencode_def split: if_splits)
  then show ?thesis
    using assms(2) by (simp only: join_with_last append_is_Nil_conv map_is_Nil_conv list.simps simp_thms) simp
qed

lemma challenge_in_url:
  assumes "\<forall>x \<in> set ch. token_cp x"
    and "login_route ops env config base v state now s = (Redirect url, s1)" and "ob_oidc config = GenericOIDC c"
    and "oe_challenge env v = ch"
  shows "\<exists>q. url = q @ u ''&code_challenge='' @ ch @ u ''&code_challenge_method=S256''"
proof -
  have t: "quote_plus (u ''code_challenge'') = u ''code_challenge''" "quote_plus (u ''code_challenge_method'') = u ''code_challenge_method''"
    "quote_plus (u ''S256'') = u ''S256''"
    by (rule quote_plus_token; simp add: u.simps token_cp_def is_alpha_ascii_def)+
  let ?q = "[(u ''response_type'', u ''code''), (u ''client_id'', go_client_id c), (u ''redirect_uri'', redirect_uri config base),
     (u ''scope'', or_str (ob_scope config) (u ''openid profile email'')), (u ''state'', state)]"
  have g: "generic_authorization_url c (redirect_uri config base) state ch (ob_scope config) = Inr url"
    using assms(2-4)
    by (auto simp: login_route_def as_response_def Let_def bind_exc_def provider_authorization_url_def split: sum.splits)
  then obtain ep r where r: "urlencode (?q @ [(u ''code_challenge'', ch), (u ''code_challenge_method'', u ''S256'')]) = Inr r"
    "url = ep @ r"
    by (auto simp: generic_authorization_url_def bind_exc_Inr_iff)
  from urlencode_last [OF r(1)] obtain h where
    "r = h @ [38] @ u ''code_challenge'' @ [61] @ ch @ [38] @ u ''code_challenge_method'' @ [61] @ u ''S256''"
    by (auto simp: t quote_plus_token [OF assms(1)])
  then have "url = (ep @ h) @ u ''&code_challenge='' @ ch @ u ''&code_challenge_method=S256''"
    using r(2) by (simp add: u.simps)
  then show ?thesis by blast
qed


lemma standard_codecs_post:
  "standard_codecs sha256 rd (env\<lparr>oe_http_post := post\<rparr>) = (standard_codecs sha256 rd env)\<lparr>oe_http_post := post\<rparr>"
  by (simp add: standard_codecs_def)

lemma resolve_any_post: "resolve_id_token_sub (env\<lparr>oe_http_post := post\<rparr>) config id_token = resolve_id_token_sub env config id_token"
  by (simp add: resolve_id_token_sub_def subject_parse_only_def Let_def split: provider.splits)

lemma callback_token_post:
  assumes "ob_oidc config = GenericOIDC c"
    and "\<And>ep form. map_of form (u ''code_verifier'') = Some v \<Longrightarrow> post ep form = oe_http_post env ep form"
  shows "callback_token (env\<lparr>oe_http_post := post\<rparr>) config base code v iat = callback_token env config base code v iat"
proof -
  have "generic_exchange_code (env\<lparr>oe_http_post := post\<rparr>) c code v ruri = generic_exchange_code env c code v ruri" for ruri
    by (simp add: generic_exchange_code_def assms(2))
  moreover have "oe_lib (env\<lparr>oe_http_post := post\<rparr>) = oe_lib env" by simp
  ultimately show ?thesis
    unfolding callback_token_def assms(1) provider_exchange_code_def provider.case resolve_any_post by (simp only:)
qed

lemma saved_verifier:
  assumes "login_route oidc_memory_ops env config base v state now s = (r, s1)" and "t - now \<le> om_state_ttl s"
  shows "fst (pop_pkce_verifier state t s1) = Some v"
  using assms pkce_entries(4) [OF assms(2), of state v] by (auto simp: login_route_def Let_def)

text \<open>C9: A login with a generic OIDC client hands the provider a challenge made from the verifier it keeps: the
  redirect ends with the challenge of the pair, from which the provider can read the SHA-256 of the
  verifier, and the verifier has between 43 and 128 characters. As long as the login's state lives, its
  callback presents that verifier: a provider that treats every other verifier in whatever way it likes
  gives the login the same outcome as one that checks nothing.\<close>

theorem pkce_login_passes_check:
  assumes sha: "byte_list (sha256 verifier)" "length (sha256 verifier) = 32"
    and pair: "byte_list random" "length random = 48" "pkce_pair sha256 random = Inr (verifier, challenge)"
    and login: "ob_oidc config = GenericOIDC c"
      "login_route oidc_memory_ops (standard_codecs sha256 rd env) config base verifier state now s = (Redirect url, s1)"
    and live: "t - now \<le> om_state_ttl s"
    and check: "\<And>ep form v. map_of form (u ''code_verifier'') = Some v \<Longrightarrow>
        urlsafe_b64encode (sha256 v) = challenge @ u ''='' \<Longrightarrow> post ep form = oe_http_post env ep form"
  shows "(\<exists>q. url = q @ u ''&code_challenge='' @ challenge @ u ''&code_challenge_method=S256'') \<and>
    urlsafe_b64decode (challenge @ u ''='') = Inr (sha256 verifier) \<and> length verifier = 64 \<and>
    callback_route oidc_memory_ops (standard_codecs sha256 rd (env\<lparr>oe_http_post := post\<rparr>)) config base code state t t' iat otc s1
    = callback_route oidc_memory_ops (standard_codecs sha256 rd env) config base code state t t' iat otc s1"
proof -
  have v: "verifier = b64url random" and ch: "challenge = b64url (sha256 verifier)"
    using pkce_pair_returns [OF pair(1), of sha256] pair(3) by auto
  have pad: "b64_padding (length challenge) = u ''=''" and enc: "urlsafe_b64encode (sha256 verifier) = challenge @ u ''=''"
    using length_b64url [OF sha(1)] sha(2) urlsafe_b64encode_parts [OF sha(1)]
    by (simp_all add: ch b64_padding_def u.simps)
  have "\<exists>q. url = q @ u ''&code_challenge='' @ challenge @ u ''&code_challenge_method=S256''"
    by (rule challenge_in_url [OF _ login(2,1)]) (simp_all add: ch s256_b64url b64url_token [OF sha(1)])
  moreover have "urlsafe_b64decode (challenge @ u ''='') = Inr (sha256 verifier)"
    using b64url_decodes [OF sha(1)] pad by (simp add: ch)
  moreover have "length verifier = 64" using length_b64url [OF pair(1)] pair(2) by (simp add: v)
  moreover have "callback_token (standard_codecs sha256 rd (env\<lparr>oe_http_post := post\<rparr>)) config base code verifier iat
      = callback_token (standard_codecs sha256 rd env) config base code verifier iat"
    unfolding standard_codecs_post by (rule callback_token_post [OF login(1)]) (simp add: check enc)
  ultimately show ?thesis
    using saved_verifier [OF login(2) live] by (auto simp: callback_route_def split: option.splits prod.splits)
qed


definition two_digests :: "nat list \<Rightarrow> nat list" where
  "two_digests v = replicate 32 (if v = b64url (replicate 48 0) then 0 else 1)"

lemma sample_login:
  "\<exists>url. login_route oidc_memory_ops (standard_codecs two_digests (\<lambda>s. None) sample_oidc_env)
     (sample_bff\<lparr>ob_oidc := GenericOIDC sample_generic\<rparr>) [] (b64url (replicate 48 0)) (u ''st'') 0 (new_oidc_memory 600 120)
   = (Redirect url, save_pkce_verifier (u ''st'') (b64url (replicate 48 0)) 0 (new_oidc_memory 600 120))"
proof -
  have d: "byte_list (two_digests v)" for v by (simp add: two_digests_def byte_list_def)
  have "\<not> is_surrogate x" if "x \<in> set (b64url (two_digests v))" for x v
    using b64url_token [OF d that] token_cp_facts by (fastforce simp: is_surrogate_def)
  then have "\<exists>q. generic_authorization_url sample_generic (redirect_uri (sample_bff\<lparr>ob_oidc := GenericOIDC sample_generic\<rparr>) [])
      (u ''st'') (b64url (two_digests v)) [] = Inr q" for v
    by (simp add: generic_authorization_url_def require_doc_def sample_generic_def urlencode_def redirect_uri_def sample_bff_def
      pystr_eval u.simps is_surrogate_def)
  then obtain q where "generic_authorization_url sample_generic (redirect_uri (sample_bff\<lparr>ob_oidc := GenericOIDC sample_generic\<rparr>) [])
      (u ''st'') (b64url (two_digests (b64url (replicate 48 0)))) [] = Inr q" by blast
  moreover have "ob_scope (sample_bff\<lparr>ob_oidc := GenericOIDC sample_generic\<rparr>) = []" by (simp add: sample_bff_def)
  ultimately show ?thesis
    by (simp add: login_route_def Let_def provider_authorization_url_def as_response_def s256_b64url)
qed

theorem pkce_login_passes_check_witness:
  "callback_route oidc_memory_ops (standard_codecs two_digests (\<lambda>s. None) (sample_oidc_env\<lparr>oe_http_post := (\<lambda>ep form.
       if map_of form (u ''code_verifier'') = Some (b64url (replicate 48 0)) then oe_http_post sample_oidc_env ep form
       else Inl RuntimeError)\<rparr>))
     (sample_bff\<lparr>ob_oidc := GenericOIDC sample_generic\<rparr>) [] (u ''c'') (u ''st'') 1 1 0 (u ''12345678'')
     (save_pkce_verifier (u ''st'') (b64url (replicate 48 0)) 0 (new_oidc_memory 600 120))
   = callback_route oidc_memory_ops (standard_codecs two_digests (\<lambda>s. None) sample_oidc_env)
     (sample_bff\<lparr>ob_oidc := GenericOIDC sample_generic\<rparr>) [] (u ''c'') (u ''st'') 1 1 0 (u ''12345678'')
     (save_pkce_verifier (u ''st'') (b64url (replicate 48 0)) 0 (new_oidc_memory 600 120))"
  (is "callback_route _ (standard_codecs _ _ (_\<lparr>oe_http_post := ?post\<rparr>)) ?config _ _ _ _ _ _ _ ?s = _")
proof -
  let ?v = "b64url (replicate 48 0)"
  have r: "byte_list (replicate 48 0)" "length (replicate 48 (0 :: nat)) = 48" by (simp_all add: byte_list_def)
  have sha: "byte_list (two_digests v)" "length (two_digests v) = 32" for v by (simp_all add: two_digests_def byte_list_def)
  have v: "v = ?v" if "urlsafe_b64encode (two_digests v) = b64url (two_digests ?v) @ u ''=''" for v
  proof -
    have "b64url (two_digests v) = b64url (two_digests ?v)"
      using that urlsafe_b64encode_parts [OF sha(1)] length_b64url [OF sha(1)] sha(2) by (simp add: b64_padding_def u.simps)
    then show ?thesis unfolding b64url_inject [OF sha(1) sha(1)] by (simp add: two_digests_def split: if_splits)
  qed
  have c: "ob_oidc ?config = GenericOIDC sample_generic" by simp
  obtain url where l: "login_route oidc_memory_ops (standard_codecs two_digests (\<lambda>s. None) sample_oidc_env) ?config [] ?v (u ''st'') 0
      (new_oidc_memory 600 120) = (Redirect url, ?s)"
    using sample_login by blast
  show ?thesis
    using pkce_login_passes_check [OF sha r pkce_pair_returns [OF r(1)] c l, of 1 ?post "u ''c''" 1 0 "u ''12345678''"] v
    by (simp add: new_oidc_memory_def)
qed

lemma split_token:
  assumes "46 \<notin> set a" and "46 \<notin> set b" and "46 \<notin> set c"
  shows "split_chr 46 (a @ [46] @ b @ [46] @ c) = [a, b, c]"
  using split_chr_Cons_sep [OF assms(1), of "b @ [46] @ c"] split_chr_Cons_sep [OF assms(2), of c] split_chr_none [OF assms(3)]
  by simp

lemma payload_decodes:
  assumes "json_read rd text = Some (JObj claims)" and "list_all scalar_cp text" and "dict_ok claims"
  shows "b64_json rd (b64url (utf8_encode text) @ b64_padding (length (b64url (utf8_encode text)))) = Inr (JObj claims)"
proof -
  note b = utf8_bytes [OF assms(2)]
  have "ascii_bytes (b64url (utf8_encode text) @ b64_padding n) = Inr (b64url (utf8_encode text) @ b64_padding n)" for n
    using b64url_token [OF b] token_cp_facts by (fastforce simp: ascii_bytes_def b64_padding_def)
  then show ?thesis
    using assms(1,3) by (simp add: b64_json_def b64url_decodes [OF b] utf8_decode_def utf8_read_encode [OF assms(2)] json_loads_def last_wins_distinct)
qed

text \<open>C30: With a custom provider the subject of an id token is the \<open>sub\<close> member of the claims that were written as
  JSON, encoded in UTF-8 and base64url into its middle part, whatever its header and signature say; unless
  unverified tokens are allowed every id token is refused with a 500.\<close>

theorem unverified_subject_reads_back:
  assumes "json_read rd text = Some (JObj claims)" and "list_all scalar_cp text" and "dict_ok claims"
    and "46 \<notin> set header" and "46 \<notin> set signature" and "ob_oidc config = CustomOIDC p"
  shows "resolve_id_token_sub (standard_codecs sha256 rd env) config
      (header @ u ''.'' @ b64url (utf8_encode text) @ u ''.'' @ signature) =
    (if ob_allow_unverified config then subject_of_claims claims
     else Inl (HTTPException 500 (u ''Custom OIDCProvider requires JWKS validation'')))"
proof -
  let ?b = "b64url (utf8_encode text)"
  have "46 \<notin> set ?b" using b64url_token [OF utf8_bytes [OF assms(2)]] token_cp_facts by blast
  then have "split_chr 46 (header @ u ''.'' @ ?b @ u ''.'' @ signature) = [header, ?b, signature]"
    using split_token [OF assms(4) _ assms(5)] by (simp add: u.simps)
  then show ?thesis
    using payload_decodes [OF assms(1-3)]
    by (simp add: resolve_id_token_sub_def assms(6) subject_parse_only_def Let_def b64_padding_def)
qed


theorem unverified_subject_reads_back_witness:
  "resolve_id_token_sub (standard_codecs (\<lambda>v. v) (\<lambda>s. None) sample_oidc_env) sample_bff
     (u ''h'' @ u ''.'' @ b64url (utf8_encode (json_text (\<lambda>x. []) (JObj [(u ''sub'', JStr [233])]))) @ u ''.'' @ u ''forged'') = Inr [233]"
proof -
  let ?t = "json_text (\<lambda>x. []) (JObj [(u ''sub'', JStr [233])])"
  have r: "json_read (\<lambda>s. None) ?t = Some (JObj [(u ''sub'', JStr [233])])"
    by (rule json_read_text [OF float_codec_none]) simp
  have s: "list_all scalar_cp ?t"
    by (simp add: scalar_cp_def u.simps json_quote_def json_escape_cp_def)
  have n: "46 \<notin> set (u ''h'')" "46 \<notin> set (u ''forged'')" by (simp_all add: u.simps)
  have c: "ob_oidc sample_bff = CustomOIDC sample_custom" "ob_allow_unverified sample_bff" by (simp_all add: sample_bff_def)
  show ?thesis
    using unverified_subject_reads_back [OF r s _ n c(1), of "\<lambda>v. v" sample_oidc_env] c(2)
    by (simp add: dict_ok_def subject_of_claims_def)
qed

end
