(* ===== verification/Spec2Isabelle.thy ===== *)
theory Spec2Isabelle
  imports Fluxlit_Prelude Gateway_Paths Url_Parse Gateway_Headers Settings_Model Asgi_Messages Http_Proxy Ws_Proxy
    Gateway_Dispatch Url_Session Jwt_Auth Oidc_Bff Page_DI Nav_Build Process_Control
    Lifespan_Bridge Unified_App Api_Client Sidecar_Reload Config_Diag
    Import_Target Page_Tools Cli_Testing Json_Text Request_Logging Project_Files
    Streamlit_Entry Verbose_Report Session_Text Report_Output
    Session_Counter Api_Stack Account_Demo Account_Page Example_Apps Token_Encoding
begin

section \<open>FluxLit: a gateway, an API and a Streamlit sidecar as one application\<close>

text \<open>
  FluxLit serves a FastAPI application and a Streamlit application behind one ASGI gateway. The gateway dispatches
  every HTTP and WebSocket scope either to the API (paths under the API prefix) or, as a reverse proxy, to a
  Streamlit process, the \<^emph>\<open>sidecar\<close>. The sidecar is started by the lifespan of the unified
  application or by the split-mode runner; its pages are Python functions that FluxLit registers, orders and calls
  with injected parameters. Around this are settings, authentication, URL-bound sessions, an HTTP client for the
  pages, a command line and a test harness. All files named below are under \<open>src/src/fluxlit/\<close> unless
  said otherwise.

  \<^bold>\<open>Theories and code.\<close>

  \<^item> \<open>Fluxlit_Prelude\<close>: Python strings (code points), bytes, dictionaries (association lists in
    insertion order), JSON values, exceptions (\<open>exc + 'a\<close>), string methods; the collections
    \<open>pystr_eval\<close>, \<open>pystr_run\<close> and \<open>env_simps\<close>. \<open>Step_Systems\<close>:
    the locales the step relations share. \<open>Json_Text\<close>: \<open>json.dumps\<close> in the four styles the
    code uses and \<open>json.loads\<close>.
  \<^item> \<open>Url_Parse\<close>: what is used of \<open>urllib.parse\<close>. \<open>Asgi_Messages\<close>: ASGI
    messages and scopes, \<open>gateway/responses.py\<close>, \<open>gateway/options.py\<close>.
  \<^item> \<open>Gateway_Paths\<close>: \<open>gateway/paths.py\<close>, \<open>api_mount.py\<close>,
    \<open>runtime/public_mount.py\<close>. \<open>Gateway_Headers\<close>: \<open>header_filter.py\<close>,
    \<open>forward_headers.py\<close>, \<open>request_id.py\<close>, \<open>upstream_http.py\<close> of
    \<open>gateway/\<close>.
  \<^item> \<open>Http_Proxy\<close>, \<open>Ws_Proxy\<close>: \<open>gateway/http_proxy.py\<close> and
    \<open>gateway/websocket_proxy.py\<close>; the two relay tasks are the step relation \<open>relay_step\<close>,
    the limit on concurrent calls is \<open>sem_step\<close>.
  \<^item> \<open>Gateway_Dispatch\<close>: \<open>gateway/builder.py\<close>, \<open>dispatch.py\<close>,
    \<open>metrics.py\<close>, \<open>debug_ring.py\<close>; \<open>gateway_app\<close> is the ASGI application, a
    function of configuration, environment and scope that returns messages, outcome and new state.
  \<^item> \<open>Settings_Model\<close>: \<open>config/settings.py\<close>. \<open>Config_Diag\<close>:
    \<open>logging/redact.py\<close>, \<open>config/config_print.py\<close> and the checks of
    \<open>fluxlit doctor\<close> in \<open>cli.py\<close>.
  \<^item> \<open>Url_Session\<close>: \<open>url_session.py\<close> and the SQLite store of
    \<open>src/examples/session_stores/sqlite_store.py\<close>. \<open>Session_Text\<close>: what that store and
    \<open>redis_store.py\<close> beside it write as text and bytes.
  \<^item> \<open>Jwt_Auth\<close>, \<open>Oidc_Bff\<close>: \<open>auth/jwt.py\<close>,
    \<open>auth/trusted_proxy.py\<close>, \<open>auth/oidc.py\<close>. \<open>Token_Encoding\<close>: the
    identifiers and PKCE pairs of \<open>oidc.py\<close> and \<open>url_session.py\<close>, with base64 as the standard
    library has it. \<open>Api_Client\<close>:
    \<open>client.py\<close>, \<open>auth/streamlit.py\<close>, \<open>application/auth_attachment.py\<close>.
  \<^item> \<open>Page_DI\<close>: \<open>pages/di.py\<close>, \<open>signature.py\<close>,
    \<open>apply_meta.py\<close>, \<open>streamlit/page_runner.py\<close>. \<open>Nav_Build\<close>: registration,
    navigation and deep links. \<open>Streamlit_Entry\<close>: \<open>streamlit/main.py\<close> as one run of the
    script, \<open>query_params\<close> of \<open>deep_links.py\<close>, and \<open>streamlit\<close> and
    \<open>select_page\<close> of \<open>testing.py\<close>. \<open>Page_Tools\<close>:
    \<open>pages/manifest.py\<close>, \<open>validate.py\<close>, \<open>query.py\<close>,
    \<open>session_state.py\<close>.
  \<^item> \<open>Process_Control\<close>: \<open>config/project.py\<close>, \<open>runtime/resolve.py\<close>,
    \<open>streamlit_proc.py\<close>, \<open>upstream_state.py\<close>, \<open>wait_tcp.py\<close>,
    \<open>process_control.py\<close>. \<open>Import_Target\<close>: \<open>runtime/import_target.py\<close>.
  \<^item> \<open>Lifespan_Bridge\<close>: \<open>runtime/lifespan_bridge.py\<close> and
    \<open>uvicorn_multiworker.py\<close> as the step relation \<open>bridge_step\<close>.
    \<open>Sidecar_Reload\<close>: \<open>runtime/uvicorn_runner.py\<close>; \<open>run_unified\<close> as a list of
    effects, its threads as \<open>sv_step\<close>.
  \<^item> \<open>Unified_App\<close>: \<open>runtime/orchestrate.py\<close>, \<open>app.py\<close>,
    \<open>application/public_urls.py\<close>, \<open>api_bootstrap.py\<close>, \<open>health.py\<close>,
    \<open>security/headers.py\<close>. \<open>Cli_Testing\<close>: the commands of \<open>cli.py\<close>,
    \<open>runtime/workbench.py\<close>, \<open>cli_doctor_verbose.py\<close> and \<open>testing.py\<close>.
    \<open>Verbose_Report\<close>: the printed form of the verbose doctor. \<open>Report_Output\<close>: what
    \<open>doctor\<close>, \<open>config\<close> and \<open>pages manifest\<close> print, with the explanations of
    \<open>config/config_print.py\<close>. \<open>Project_Files\<close>: the commands \<open>new\<close> and
    \<open>build\<close>, the PID file and the liveness probes.
  \<^item> \<open>Request_Logging\<close>: \<open>logging/json_formatter.py\<close>, \<open>schema.py\<close> and
    \<open>context.py\<close>, \<open>tracing.py\<close>, the context variables of \<open>pages/di.py\<close>, and
    what \<open>gateway/dispatch.py\<close>, \<open>http_proxy.py\<close> and \<open>api_bootstrap.py\<close> log
    and trace. \<open>Api_Stack\<close>: the middleware of \<open>api_bootstrap.py\<close> composed around the
    built-in and the application's routes.
  \<^item> Applications under \<open>src/examples/\<close>: \<open>Session_Counter\<close>
    (\<open>session_stores/app.py\<close>), \<open>Account_Demo\<close> (the API and the table of
    \<open>fullstack_demo\<close>, overlapping registrations as \<open>demo_step\<close>),
    \<open>Account_Page\<close> (its page, and \<open>reference_auth\<close>), \<open>Example_Apps\<close>
    (the small ones, and \<open>src/docker/proxy-deployment/smoke_ws.py\<close>). This theory: what login and
    gateway mean together.

  \<^bold>\<open>How it is modelled.\<close> Operations are functions in the order and with the branches of the
  code; a raised exception is \<open>Inl\<close>, or an event list that ends with it where effects before it matter.
  State is passed explicitly in records. What runs concurrently (relay tasks, lifespan bridge and requests, the
  threads of the reloading runner, the semaphore, overlapping registrations) is an inductive step relation, each step one stretch of code
  between two points where another task or thread can run. Code outside the repository is an argument: httpx and its
  header type, the API application, PyJWT, pydantic's validation and dumps, the clock, random values, SHA-256, the
  operating system's answers about processes, files and ports, Streamlit's context. What a theorem needs of such an
  argument is a named predicate (\<open>jwt_roundtrip\<close>, \<open>header_map_laws\<close>,
  \<open>model_laws\<close> and the like), met by a concrete function in the witness.

  \<^bold>\<open>Interfaces.\<close> \<open>session_store\<close> is the contract of a URL session store,
  interpreted on the in-memory store and on the SQLite store; hydrate, ensure and persist are proved against it.
  \<open>token_store\<close>, built on \<open>one_time_entries\<close>, is the contract of the OIDC store,
  interpreted on the in-memory store. \<open>invariant_system\<close>, \<open>simulation\<close>,
  \<open>forward_simulation\<close> and \<open>ranked_system\<close> (\<open>Step_Systems\<close>) are what the step
  relations owe to the arguments about their runs, interpreted on the relay, the semaphore, the bridge, the
  threads of the runner and the registrations. \<open>context_var\<close> is a variable with set and reset, interpreted on the four of the
  code; \<open>json_style\<close> is what a style of writing JSON owes to reading it back, interpreted on plain,
  ASCII, compact and indented text. \<open>service\<close>, ordered by the class instance \<open>linorder\<close>,
  is the abstract life of the unified application, which \<open>bridge_step\<close> refines.

  \<^bold>\<open>What is proved.\<close> For the gateway: header hygiene towards the upstream, independence of the
  proxy's shape, exactly one response per request, body limits, accounting, relay order and termination. For the
  sidecar: it is never orphaned under the bridge, shutdown ends, at most one process is alive under reload, and
  reloading keeps the service up when reloads are spaced; the races without that proviso are theorems too. For
  login: codes are used at most once, keep their worth for the time to live, and lead to requests the API accepts;
  only signed tokens do, unless unverified ones are
  allowed, whose subject is whatever was encoded; the PKCE pair passes the provider's check; and the two redirects of the flow cannot both arrive behind an API prefix. For sessions:
  round trips over both stores and the bound of the in-memory one. For pages: order and completeness of navigation,
  agreement of the strict check with the call, at most one call per cached dependency, validation, manifest, deep
  links. For configuration: strict start-up, the doctor as its upper bound, printed reports that hide secrets and
  JSON reports that read back and agree with the exit code, printed URLs that the gateway routes back. For the
  command line and tests: options arrive, a generated project runs, \<open>build\<close> never overwrites,
  \<open>shutdown\<close> stops the server that was started, and the test client is the production gateway;
  selecting a page under test shows it, and overrides reach the handlers. For logs: a JSON line reads back, secrets
  in queries stay out, and each entry of the verbose report takes one line. For the stores of the examples: text in
  the table refines values in the table. For the API's middleware: what every request gets from the layers, and what a
  preflight does not. For the example applications: registrations exclude each other however they overlap, an account
  that was registered signs in, and its page shows it; every page passes the strict check. Where the code does not do what it says, the theorem states what it does
  (\<open>visit_counter_stuck\<close>, \<open>overlapping_registrations\<close>,
  \<open>rejected_token_recovery\<close>, \<open>blank_name_registers\<close>,
  \<open>preflight_unsecured\<close>, \<open>redis_store_whole_seconds\<close>, \<open>select_page_key_ignored\<close>,
  \<open>api_request_id_shared\<close>, \<open>replaced_api_is_down\<close>,
  \<open>shutdown_hook_lost_under_mount\<close>, \<open>late_startup_failure_leaves_sidecar\<close>,
  \<open>reload_races\<close>, \<open>ws_handshake_forwarding\<close>, \<open>empty_secret_disables_jwks\<close>).

  \<^bold>\<open>Bounds.\<close> The one bound is that of \<open>read_value\<close>: the reader of JSON takes the
  depth it may nest to, and \<open>json_read\<close> gives it the length of the text, which is enough for every text
  the writers produce (the locale \<open>json_style\<close>). \<open>kahn\<close>, \<open>trim_size\<close>,
  \<open>split_ws\<close> and \<open>utf8_read\<close> are total by a measure; every other recursion shortens its
  input (lists of messages, pages, parameters, dependencies). Loops that wait (TCP, PID) recurse on the list of
  answers they get. Steps that wait for a message that never comes are results of their own
  (\<open>BodyBlocked\<close>). Python integers are \<open>int\<close>; times and lifetimes are \<open>real\<close>
  instead of floats.

  \<^bold>\<open>Not modelled.\<close> The Typer declarations, messages on standard error and of exceptions, picking
  a free port, re-exporting packages and protocol classes, FastAPI's routing, the Alembic migration scripts of the
  full-stack example (their table and its unique index are part of \<open>Account_Demo\<close>) and the Sphinx
  configuration, which only call their libraries. \<open>str.lower\<close> is exact on Latin-1, which header values are, and
  \<open>str.title\<close> on ASCII.
\<close>

subsection \<open>Login and gateway together\<close>

lemma mount_or_not:
  assumes "normalize_root_mount m = m" and "startswith p [slash]"
  shows "split_gateway_paths p m = (if m = [] then (p, p) else if p = m then ([slash], p)
    else if startswith p (m @ [slash]) then (drop (length m) p, p) else (p, m @ p))"
proof -
  have p: "lead_slash p = p" using assms(2) by (auto simp: lead_slash_def)
  have l: "lead_slash [slash] = [slash]" by (simp add: lead_slash_def)
  show ?thesis
  proof (cases "startswith p (m @ [slash])")
    case True
    then have "lead_slash (drop (length m) p) = drop (length m) p" by (auto simp: startswith_iff lead_slash_def)
    with True show ?thesis by (auto simp: split_gateway_paths_def under_mount_def assms(1) p l Let_def)
  next
    case False
    then show ?thesis by (simp add: split_gateway_paths_def under_mount_def assms(1) p l Let_def)
  qed
qed

lemma sibling_under_prefix:
  assumes m: "normalize_root_mount m = m" and pre: "startswith pre [slash]" "\<not> startswith m pre"
    and cb: "startswith cb [slash]" "startswith sp [slash]" and B: "B = [] \<or> startswith B [slash]"
    and f: "fst (split_gateway_paths (B @ cb) m) = pre @ cb"
  shows "fst (split_gateway_paths (B @ sp) m) = pre @ sp"
proof -
  have p: "startswith (B @ cb) [slash]" "startswith (B @ sp) [slash]" "startswith (pre @ sp) [slash]"
    using cb B pre(1) by (auto simp: startswith_iff)
  have ne: "pre @ cb \<noteq> [slash]" using cb pre(1) by (auto simp: startswith_slash_iff)
  consider "B = m @ pre" | "B = pre" "\<not> startswith (pre @ cb) (m @ [slash])" "m \<noteq> []"
    using f ne by (auto simp: mount_or_not [OF m p(1)] startswith_iff split: if_splits)
  then show ?thesis
  proof cases
    case 1
    with split_of_mounted [OF m p(3)] show ?thesis by simp
  next
    case 2
    have "\<not> startswith (pre @ sp) (m @ [slash])" "pre @ sp \<noteq> m"
      using 2(2) pre(2) by (auto simp: startswith_iff append_eq_append_conv2 Cons_eq_append_conv neq_Nil_conv)
    with 2(1) show ?thesis by (simp add: mount_or_not [OF m p(3)])
  qed
qed



end
